(* ===== verification/Prelude.thy ===== *)
theory Prelude
  imports Complex_Main "HOL-Library.Sublist" "HOL-Library.Char_ord"
begin

text \<open>
  The vocabulary the component theories share: Python strings and the operations of
  Python's standard library the sources use on them, HTTP results, Python slices, and the
  generic lemmas and rule collections of the development.

  A Python \<open>str\<close> is a sequence of Unicode code points, so \<open>pystr\<close> is a list of code points
  (the German texts and the citation brackets U+3010/U+3011 of the program lie outside
  HOL's 8-bit \<open>char\<close>); \<open>lit\<close> turns an ASCII literal into one. Floating-point scores
  and times are exact rationals.
\<close>

subsection \<open>Rule collections\<close>

named_theorems py_defs \<open>definitions of the Python string operations\<close>
named_theorems acl_simps \<open>rewriting facts about access control\<close>
named_theorems bounds \<open>size and counter bounds\<close>

subsection \<open>Strings\<close>

type_synonym pystr = "nat list"

definition lit :: "string \<Rightarrow> pystr" where
  "lit s = map of_char s"

lemma lit_Nil [simp]: "lit [] = []"
  by (simp add: lit_def)

lemma lit_Cons: "lit (c # s) = of_char c # lit s"
  by (simp add: lit_def)

lemma lit_append [simp]: "lit (s @ t) = lit s @ lit t"
  by (simp add: lit_def)

lemma lit_inject [simp]: "lit s = lit t \<longleftrightarrow> s = t"
  by (auto simp: lit_def inj_def dest: map_injective)

lemma lit_eq_Nil [simp]: "lit s = [] \<longleftrightarrow> s = []" "[] = lit s \<longleftrightarrow> s = []"
  by (auto simp: lit_def)

lemma length_lit [simp]: "length (lit s) = length s"
  by (simp add: lit_def)

text \<open>\<open>str.isspace\<close> of one code point.\<close>

definition is_space :: "nat \<Rightarrow> bool" where
  "is_space c \<longleftrightarrow> (9 \<le> c \<and> c \<le> 13) \<or> (28 \<le> c \<and> c \<le> 32) \<or> c = 133 \<or> c = 160 \<or> c = 5760
     \<or> (8192 \<le> c \<and> c \<le> 8202) \<or> c = 8232 \<or> c = 8233 \<or> c = 8239 \<or> c = 8287 \<or> c = 12288"

text \<open>
  The letters and digits \<open>\\w\<close> of a regular expression accepts, up to code point 255; the program's
  word lists and file names are DE/EN, further scripts are not tabulated.
\<close>

definition is_word :: "nat \<Rightarrow> bool" where
  "is_word c \<longleftrightarrow> (48 \<le> c \<and> c \<le> 57) \<or> (65 \<le> c \<and> c \<le> 90) \<or> c = 95 \<or> (97 \<le> c \<and> c \<le> 122)
     \<or> c = 170 \<or> c = 178 \<or> c = 179 \<or> c = 181 \<or> c = 185 \<or> c = 186 \<or> (188 \<le> c \<and> c \<le> 190)
     \<or> (192 \<le> c \<and> c \<le> 214) \<or> (216 \<le> c \<and> c \<le> 246) \<or> (248 \<le> c \<and> c \<le> 255)"

definition is_digit :: "nat \<Rightarrow> bool" where
  "is_digit c \<longleftrightarrow> 48 \<le> c \<and> c \<le> 57"

text \<open>\<open>str.lower\<close> on ASCII and Latin-1; other code points are left as they are.\<close>

definition lower_cp :: "nat \<Rightarrow> nat" where
  "lower_cp c = (if (65 \<le> c \<and> c \<le> 90) \<or> (192 \<le> c \<and> c \<le> 222 \<and> c \<noteq> 215) then c + 32 else c)"

definition lower :: "pystr \<Rightarrow> pystr" where
  "lower s = map lower_cp s"

definition lstrip_by :: "(nat \<Rightarrow> bool) \<Rightarrow> pystr \<Rightarrow> pystr" where
  "lstrip_by p s = dropWhile p s"

definition rstrip_by :: "(nat \<Rightarrow> bool) \<Rightarrow> pystr \<Rightarrow> pystr" where
  "rstrip_by p s = rev (dropWhile p (rev s))"

definition strip_by :: "(nat \<Rightarrow> bool) \<Rightarrow> pystr \<Rightarrow> pystr" where
  "strip_by p s = rstrip_by p (lstrip_by p s)"

definition strip :: "pystr \<Rightarrow> pystr" where
  "strip s = strip_by is_space s"

definition blank :: "pystr \<Rightarrow> bool" where
  "blank s \<longleftrightarrow> strip s = []"

text \<open>\<open>s[:n]\<close>, \<open>s[-n:]\<close> for \<open>n > 0\<close>.\<close>

definition last_n :: "nat \<Rightarrow> 'a list \<Rightarrow> 'a list" where
  "last_n n s = drop (length s - n) s"

text \<open>\<open>sub in s\<close>\<close>

fun py_in :: "pystr \<Rightarrow> pystr \<Rightarrow> bool" where
  "py_in sub [] = (sub = [])"
| "py_in sub (c # s) = (prefix sub (c # s) \<or> py_in sub s)"

text \<open>The first occurrence of a separator: what precedes and what follows it.\<close>

fun cut :: "pystr \<Rightarrow> pystr \<Rightarrow> (pystr \<times> pystr) option" where
  "cut sep [] = (if sep = [] then Some ([], []) else None)"
| "cut sep (c # s) =
     (if prefix sep (c # s) then Some ([], drop (length sep) (c # s))
      else map_option (\<lambda>(a, b). (c # a, b)) (cut sep s))"

lemma cut_length: "cut sep s = Some (a, b) \<Longrightarrow> length a + length sep + length b = length s"
proof (induction s arbitrary: a b)
  case Nil
  then show ?case by (auto split: if_splits)
next
  case (Cons c s)
  then show ?case
    by (auto split: if_splits simp del: length_drop dest!: prefix_length_le simp: length_drop)
qed

lemma cut_Some: "cut sep s = Some (a, b) \<Longrightarrow> s = a @ sep @ b"
proof (induction s arbitrary: a b)
  case Nil
  then show ?case by (auto split: if_splits)
next
  case (Cons c s)
  then show ?case by (auto split: if_splits elim!: prefixE)
qed

text \<open>\<open>s.split(sep)\<close> for a non-empty separator (Python raises on an empty one).\<close>

function split_str :: "pystr \<Rightarrow> pystr \<Rightarrow> pystr list" where
  "split_str sep s =
     (case (if sep = [] then None else cut sep s) of
        None \<Rightarrow> [s]
      | Some (a, b) \<Rightarrow> a # split_str sep b)"
  by pat_completeness auto
termination
  by (relation "measure (\<lambda>(sep, s). length s)")
    (auto split: if_splits dest!: cut_length simp flip: length_greater_0_conv)

declare split_str.simps [simp del]

text \<open>\<open>s.replace(old, new)\<close> for non-empty \<open>old\<close>.\<close>

definition join :: "pystr \<Rightarrow> pystr list \<Rightarrow> pystr" where
  "join sep xs = (case xs of [] \<Rightarrow> [] | x # rest \<Rightarrow> x @ concat (map (\<lambda>y. sep @ y) rest))"

definition replace :: "pystr \<Rightarrow> pystr \<Rightarrow> pystr \<Rightarrow> pystr" where
  "replace old new s = join new (split_str old s)"

text \<open>\<open>s.split()\<close>: the maximal runs of non-blank code points.\<close>

fun runs :: "(nat \<Rightarrow> bool) \<Rightarrow> pystr \<Rightarrow> pystr \<Rightarrow> pystr list" where
  "runs p acc [] = (if acc = [] then [] else [rev acc])"
| "runs p acc (c # s) =
     (if p c then runs p (c # acc) s
      else (if acc = [] then [] else [rev acc]) @ runs p [] s)"

definition split_ws :: "pystr \<Rightarrow> pystr list" where
  "split_ws s = runs (\<lambda>c. \<not> is_space c) [] s"

text \<open>\<open>re.findall(r"\\w+", s)\<close>\<close>

definition words_of :: "pystr \<Rightarrow> pystr list" where
  "words_of s = runs is_word [] s"

text \<open>\<open>str(n)\<close> of a natural number and of an int.\<close>

fun nat_str :: "nat \<Rightarrow> pystr" where
  "nat_str n = (if n < 10 then [48 + n] else nat_str (n div 10) @ [48 + n mod 10])"

declare nat_str.simps [simp del]

definition int_str :: "int \<Rightarrow> pystr" where
  "int_str i = (if i < 0 then 45 # nat_str (nat (- i)) else nat_str (nat i))"

lemmas [py_defs] = strip_def strip_by_def lstrip_by_def rstrip_by_def blank_def
  lower_def last_n_def

subsection \<open>HTTP results\<close>

text \<open>\<open>raise HTTPException(status, detail)\<close>: handlers return \<open>Inl\<close> of it or \<open>Inr\<close> of the
  response. \<open>Crash\<close> is any other exception leaving the handler (FastAPI's 500).\<close>

datatype http_error = HTTPException nat pystr | Crash

type_synonym 'a http = "http_error + 'a"

fun http_status :: "http_error \<Rightarrow> nat" where
  "http_status (HTTPException c _) = c"
| "http_status Crash = 500"

subsection \<open>Generic lemmas\<close>

lemma length_join:
  "length (join sep xs) = sum_list (map length xs) + length sep * (length xs - 1)"
  by (cases xs) (auto simp: join_def length_concat comp_def sum_list_addf sum_list_triv)

lemma join_simps [simp]:
  "join sep [] = []" "join sep [x] = x" "join sep (x # y # ys) = x @ sep @ join sep (y # ys)"
  by (auto simp: join_def)

lemma set_dropWhile_subset: "set (dropWhile p s) \<subseteq> set s"
  by (auto dest: set_dropWhileD)

lemma strip_by_infix: "\<exists>a b. s = a @ strip_by p s @ b"
proof -
  have "s = takeWhile p s @ dropWhile p s" by simp
  moreover have "\<And>t. t = rev (dropWhile p (rev t)) @ rev (takeWhile p (rev t))"
    by (metis rev_append rev_rev_ident takeWhile_dropWhile_id)
  ultimately show ?thesis
    unfolding strip_by_def rstrip_by_def lstrip_by_def by metis
qed

lemma set_strip_by: "set (strip_by p s) \<subseteq> set s"
  using strip_by_infix [of s p] by (metis Un_iff set_append subsetI)

lemma length_strip_by: "length (strip_by p s) \<le> length s"
  using strip_by_infix [of s p] by (metis le_add1 le_add2 length_append le_trans)

lemma strip_Nil [simp]: "strip [] = []" "blank []"
  by (simp_all add: py_defs)

lemma strip_by_ends:
  "strip_by p s \<noteq> [] \<Longrightarrow> \<not> p (hd (strip_by p s)) \<and> \<not> p (last (strip_by p s))"
proof -
  assume ne: "strip_by p s \<noteq> []"
  let ?t = "dropWhile p s"
  let ?r = "rev (dropWhile p (rev ?t))"
  have r: "strip_by p s = ?r" by (simp add: py_defs)
  have "last ?r = hd (dropWhile p (rev ?t))"
    using ne r by (simp add: last_rev)
  then have l: "\<not> p (last ?r)" using ne r hd_dropWhile by (metis rev_is_Nil_conv)
  have "?t = ?r @ rev (takeWhile p (rev ?t))"
    by (metis rev_append rev_rev_ident takeWhile_dropWhile_id)
  then have "hd ?r = hd ?t" using ne r by (metis hd_append2)
  moreover have "?t \<noteq> []" using ne r by (metis dropWhile.simps(1) rev.simps(1))
  ultimately have "\<not> p (hd ?r)" using hd_dropWhile by metis
  with l r show ?thesis by simp
qed

lemma strip_by_id: "s \<noteq> [] \<Longrightarrow> \<not> p (hd s) \<Longrightarrow> \<not> p (last s) \<Longrightarrow> strip_by p s = s"
proof -
  assume "s \<noteq> []" "\<not> p (hd s)" "\<not> p (last s)"
  then have "dropWhile p s = s" "dropWhile p (rev s) = rev s"
    by (auto simp: dropWhile_eq_self_iff hd_rev)
  then show ?thesis by (simp add: py_defs)
qed

lemma strip_by_idem [simp]: "strip_by p (strip_by p s) = strip_by p s"
  by (cases "strip_by p s = []") (auto simp: strip_by_ends strip_by_id, simp add: py_defs)

lemma strip_idem [simp]: "strip (strip s) = strip s"
  by (simp add: strip_def)

lemma length_last_n [simp]: "length (last_n n s) = min n (length s)"
  by (auto simp: last_n_def)

lemma py_in_iff: "py_in sub s \<longleftrightarrow> (\<exists>a b. s = a @ sub @ b)"
proof (induction s)
  case Nil
  then show ?case by auto
next
  case (Cons c s)
  show ?case
  proof
    assume "py_in sub (c # s)"
    then consider "prefix sub (c # s)" | "py_in sub s" by auto
    then show "\<exists>a b. c # s = a @ sub @ b"
    proof cases
      case 1
      then obtain z where "c # s = [] @ sub @ z" by (auto elim!: prefixE)
      then show ?thesis by blast
    next
      case 2
      then obtain a b where "s = a @ sub @ b" using Cons by blast
      then have "c # s = (c # a) @ sub @ b" by simp
      then show ?thesis by blast
    qed
  next
    assume "\<exists>a b. c # s = a @ sub @ b"
    then obtain a b where ab: "c # s = a @ sub @ b" by blast
    show "py_in sub (c # s)"
    proof (cases a)
      case Nil
      with ab have "prefix sub (c # s)" by (simp add: prefixI)
      then show ?thesis by simp
    next
      case (Cons d a')
      with ab have "s = a' @ sub @ b" by simp
      then show ?thesis using Cons.IH by auto
    qed
  qed
qed

lemma split_str_no_sep: "sep \<noteq> [] \<Longrightarrow> cut sep s = None \<Longrightarrow> split_str sep s = [s]"
  by (simp add: split_str.simps)

lemma split_str_ne [simp]: "split_str sep s \<noteq> []"
  by (subst split_str.simps) (auto split: option.splits)

lemma cut_None_if: "sep \<noteq> [] \<Longrightarrow> hd sep \<notin> set s \<Longrightarrow> cut sep s = None"
  by (induction s) (auto simp: prefix_def neq_Nil_conv)

lemma replace_absent: "old \<noteq> [] \<Longrightarrow> hd old \<notin> set s \<Longrightarrow> replace old new s = s"
  by (simp add: replace_def split_str_no_sep cut_None_if)

text \<open>The pieces of a split on a single code point do not contain it.\<close>

lemma cut1_fst: "cut [c] s = Some (a, b) \<Longrightarrow> c \<notin> set a"
  by (induction s arbitrary: a b) (auto split: if_splits simp: prefix_def)

lemma cut1_None: "cut [c] s = None \<longleftrightarrow> c \<notin> set s"
  by (induction s) (auto split: if_splits simp: prefix_def)

lemma split_str1_free: "t \<in> set (split_str [c] s) \<Longrightarrow> c \<notin> set t"
proof (induction "[c]" s rule: split_str.induct)
  case (1 s)
  then show ?case
    by (subst (asm) (2) split_str.simps)
      (auto simp: cut1_None dest: cut1_fst split: option.splits)
qed

lemma split_str1_subset: "t \<in> set (split_str [c] s) \<Longrightarrow> set t \<subseteq> set s"
proof (induction "[c]" s rule: split_str.induct)
  case (1 s)
  then show ?case
    by (subst (asm) (2) split_str.simps)
      (fastforce dest: cut_Some split: option.splits)
qed

lemma filter_take_le: "length (filter p (take n xs)) \<le> n"
  by (metis length_filter_le length_take le_trans min.cobounded2)

text \<open>A filter on a unique key finds nothing or the one row.\<close>

lemma filter_key_cases [consumes 1, case_names absent unique]:
  assumes "distinct (map f xs)"
  obtains "\<forall>u \<in> set xs. f u \<noteq> e" and "filter (\<lambda>u. f u = e) xs = []"
  | u where "u \<in> set xs" and "f u = e" and "filter (\<lambda>u. f u = e) xs = [u]" and "\<forall>v \<in> set xs. f v = e \<longrightarrow> v = u"
proof -
  have "((\<forall>u \<in> set xs. f u \<noteq> e) \<and> filter (\<lambda>u. f u = e) xs = []) \<or>
      (\<exists>u \<in> set xs. f u = e \<and> filter (\<lambda>u. f u = e) xs = [u] \<and> (\<forall>v \<in> set xs. f v = e \<longrightarrow> v = u))"
    using assms by (induction xs) (force simp: image_iff)+
  with that show thesis by blast
qed

end
