(* ===== verification/Uuid.thy ===== *)
theory Uuid
  imports Prelude "HOL-Library.Word"
begin

text \<open>
  Identifiers. Every row, point and token of the program is named by a \<open>uuid.UUID\<close>, which
  crosses component boundaries as a string (graph state, Qdrant payloads, queue payloads) and
  is parsed back. A UUID is a 128-bit word; \<open>str_uuid\<close>, \<open>uuid_hex\<close> and \<open>uuid_parse\<close> are
  \<open>str(u)\<close>, \<open>u.hex\<close> and \<open>uuid.UUID(s)\<close> of the standard library, the last one with all the
  spellings \<open>int(hex, 16)\<close> accepts. The round trip at the end is what every ACL comparison on
  strings relies on.
\<close>

type_synonym uuid = "128 word"

definition hex_digit :: "nat \<Rightarrow> nat" where
  "hex_digit n = (if n < 10 then 48 + n else 87 + n)"

fun hex_digits :: "nat \<Rightarrow> nat \<Rightarrow> pystr" where
  "hex_digits 0 n = []"
| "hex_digits (Suc k) n = hex_digit ((n div 16 ^ k) mod 16) # hex_digits k n"

definition uuid_hex :: "uuid \<Rightarrow> pystr" where
  "uuid_hex u = hex_digits 32 (unat u)"

definition str_uuid :: "uuid \<Rightarrow> pystr" where
  "str_uuid u = (let h = uuid_hex u in
     take 8 h @ [45] @ take 4 (drop 8 h) @ [45] @ take 4 (drop 12 h) @ [45]
     @ take 4 (drop 16 h) @ [45] @ drop 20 h)"

definition hex_val :: "nat \<Rightarrow> nat option" where
  "hex_val c = (if 48 \<le> c \<and> c \<le> 57 then Some (c - 48)
     else if 97 \<le> c \<and> c \<le> 102 then Some (c - 87)
     else if 65 \<le> c \<and> c \<le> 70 then Some (c - 55) else None)"

text \<open>Digits after the first one; a single underscore may stand between two digits.\<close>

fun hex_tail :: "nat \<Rightarrow> pystr \<Rightarrow> nat option" where
  "hex_tail acc [] = Some acc"
| "hex_tail acc (c # s) =
     (if c = 95 then
        (case s of [] \<Rightarrow> None
         | d # s' \<Rightarrow> (case hex_val d of None \<Rightarrow> None | Some v \<Rightarrow> hex_tail (acc * 16 + v) s'))
      else (case hex_val c of None \<Rightarrow> None | Some v \<Rightarrow> hex_tail (acc * 16 + v) s))"

definition hex_number :: "pystr \<Rightarrow> nat option" where
  "hex_number s = (case s of [] \<Rightarrow> None
     | c # s' \<Rightarrow> (case hex_val c of None \<Rightarrow> None | Some v \<Rightarrow> hex_tail v s'))"

text \<open>\<open>int(s, 16)\<close>\<close>

definition int16 :: "pystr \<Rightarrow> int option" where
  "int16 s = (let t = strip s;
      neg = (t \<noteq> [] \<and> hd t = 45);
      u = (if t \<noteq> [] \<and> (hd t = 45 \<or> hd t = 43) then tl t else t);
      v = (if prefix [48, 120] u \<or> prefix [48, 88] u
           then (if prefix [95] (drop 2 u) then drop 3 u else drop 2 u) else u)
    in map_option (\<lambda>n. if neg then - int n else int n) (hex_number v))"

definition uuid_parse :: "pystr \<Rightarrow> uuid option" where
  "uuid_parse s = (let h = replace [45] []
        (strip_by (\<lambda>c. c = 123 \<or> c = 125)
          (replace (lit ''uuid:'') [] (replace (lit ''urn:'') [] s)))
    in if length h \<noteq> 32 then None
       else case int16 h of None \<Rightarrow> None
        | Some i \<Rightarrow> if 0 \<le> i \<and> i < 2 ^ 128 then Some (of_int i) else None)"

subsection \<open>Round trip\<close>

lemma length_hex_digits [simp]: "length (hex_digits k n) = k"
  by (induction k) auto

lemma hex_digit_range: "n < 16 \<Longrightarrow> (48 \<le> hex_digit n \<and> hex_digit n \<le> 57) \<or> (97 \<le> hex_digit n \<and> hex_digit n \<le> 102)"
  by (auto simp: hex_digit_def)

lemma hex_val_digit [simp]: "n < 16 \<Longrightarrow> hex_val (hex_digit n) = Some n"
  by (auto simp: hex_val_def hex_digit_def)

lemma set_hex_digits: "c \<in> set (hex_digits k n) \<Longrightarrow> (48 \<le> c \<and> c \<le> 57) \<or> (97 \<le> c \<and> c \<le> 102)"
proof (induction k)
  case (Suc k)
  then show ?case using hex_digit_range [of "n div 16 ^ k mod 16"] by auto
qed simp

lemma hex_tail_digits: "hex_tail acc (hex_digits k n) = Some (acc * 16 ^ k + n mod 16 ^ k)"
proof (induction k arbitrary: acc)
  case 0
  then show ?case by simp
next
  case (Suc k)
  have "hex_digit (n div 16 ^ k mod 16) \<noteq> 95"
    using hex_digit_range [of "n div 16 ^ k mod 16"] by auto
  moreover have "n mod 16 ^ Suc k = (n div 16 ^ k mod 16) * 16 ^ k + n mod 16 ^ k"
    using mod_mult2_eq [of n "16 ^ k" 16] by (simp add: mult.commute)
  ultimately show ?case by (simp add: Suc.IH algebra_simps)
qed

lemma hex_number_digits: "0 < k \<Longrightarrow> hex_number (hex_digits k n) = Some (n mod 16 ^ k)"
proof -
  assume "0 < k"
  then obtain m where m: "k = Suc m" by (cases k) auto
  have "n mod 16 ^ Suc m = (n div 16 ^ m mod 16) * 16 ^ m + n mod 16 ^ m"
    using mod_mult2_eq [of n "16 ^ m" 16] by (simp add: mult.commute)
  then show ?thesis by (simp add: m hex_number_def hex_tail_digits)
qed

lemma uuid_hex_chars: "c \<in> set (uuid_hex u) \<Longrightarrow> (48 \<le> c \<and> c \<le> 57) \<or> (97 \<le> c \<and> c \<le> 102)"
  by (simp add: uuid_hex_def set_hex_digits)

lemma length_uuid_hex [simp]: "length (uuid_hex u) = 32"
  by (simp add: uuid_hex_def)

lemma int16_hex: "int16 (uuid_hex u) = Some (uint u)"
proof -
  let ?h = "uuid_hex u"
  have ne: "?h \<noteq> []" using length_uuid_hex [of u] by (metis list.size(3) zero_neq_numeral)
  have "\<not> is_space c" "c \<noteq> 45" "c \<noteq> 43" "c \<noteq> 120" "c \<noteq> 88" if "c \<in> set ?h" for c
    using uuid_hex_chars [OF that] by (auto simp: is_space_def)
  note h = this
  have "strip ?h = ?h"
    using ne h(1) by (simp add: strip_def strip_by_id)
  moreover have "hd ?h \<noteq> 45 \<and> hd ?h \<noteq> 43" using ne h(2,3) by auto
  moreover have "\<not> prefix [48, 120] ?h \<and> \<not> prefix [48, 88] ?h"
    using h(4) [of 120] h(5) [of 88] by (auto elim!: prefixE)
  moreover have "hex_number ?h = Some (unat u)"
    using unsigned_less [where ?'a = nat, of u] by (simp add: uuid_hex_def hex_number_digits)
  ultimately show ?thesis using ne by (simp add: int16_def Let_def)
qed

lemma replace_char_filter: "replace [c] [] s = filter (\<lambda>x. x \<noteq> c) s"
proof -
  have "join [] (split_str [c] s) = filter (\<lambda>x. x \<noteq> c) s"
  proof (induction "[c]" s rule: split_str.induct)
    case (1 s)
    show ?case
    proof (cases "cut [c] s")
      case None
      then have "filter (\<lambda>x. x \<noteq> c) s = s"
        by (auto simp: cut1_None intro: filter_True)
      with None show ?thesis by (simp add: split_str.simps [of "[c]" s])
    next
      case (Some ab)
      then obtain a b where ab: "cut [c] s = Some (a, b)" by (cases ab) auto
      then have "s = a @ c # b" "c \<notin> set a" using cut_Some [OF ab] cut1_fst [OF ab] by auto
      moreover from this have "filter (\<lambda>x. x \<noteq> c) a = a" by (auto intro: filter_True)
      moreover have "join [] (a # split_str [c] b) = a @ join [] (split_str [c] b)"
        by (cases "split_str [c] b") auto
      moreover have "join [] (split_str [c] b) = filter (\<lambda>x. x \<noteq> c) b"
        using 1 [of "(a, b)" a b] ab by simp
      moreover have "split_str [c] s = a # split_str [c] b"
        using ab by (simp add: split_str.simps [of "[c]" s])
      ultimately show ?thesis by simp
    qed
  qed
  then show ?thesis by (simp add: replace_def)
qed

lemma str_uuid_chars:
  "c \<in> set (str_uuid u) \<Longrightarrow> c = 45 \<or> (48 \<le> c \<and> c \<le> 57) \<or> (97 \<le> c \<and> c \<le> 102)"
  by (auto simp: str_uuid_def Let_def dest!: in_set_takeD in_set_dropD dest: uuid_hex_chars)

lemma filter_str_uuid: "filter (\<lambda>x. x \<noteq> 45) (str_uuid u) = uuid_hex u"
proof -
  let ?h = "uuid_hex u"
  have "filter (\<lambda>x. x \<noteq> 45) t = t" if "set t \<subseteq> set ?h" for t
    using that uuid_hex_chars by (intro filter_True) force
  then have "filter (\<lambda>x. x \<noteq> 45) (str_uuid u)
      = take 8 ?h @ take 4 (drop 8 ?h) @ take 4 (drop 12 ?h) @ take 4 (drop 16 ?h) @ drop 20 ?h"
    by (simp add: str_uuid_def Let_def set_take_subset set_drop_subset
        subset_trans [OF set_take_subset set_drop_subset])
  also have "\<dots> = ?h"
    using append_take_drop_id [of 8 ?h] append_take_drop_id [of 4 "drop 8 ?h"]
      append_take_drop_id [of 4 "drop 12 ?h"] append_take_drop_id [of 4 "drop 16 ?h"]
    by (simp del: append_take_drop_id)
  finally show ?thesis .
qed

lemma str_uuid_hd_last: "str_uuid u \<noteq> []" "hd (str_uuid u) \<noteq> 123" "hd (str_uuid u) \<noteq> 125"
    "last (str_uuid u) \<noteq> 123" "last (str_uuid u) \<noteq> 125"
proof -
  show ne: "str_uuid u \<noteq> []" by (simp add: str_uuid_def Let_def)
  have "c \<noteq> 123 \<and> c \<noteq> 125" if "c \<in> set (str_uuid u)" for c
    using str_uuid_chars [OF that] by auto
  with ne show "hd (str_uuid u) \<noteq> 123" "hd (str_uuid u) \<noteq> 125"
    "last (str_uuid u) \<noteq> 123" "last (str_uuid u) \<noteq> 125"
    by (auto dest: hd_in_set last_in_set)
qed

lemma uuid_parse_str [simp]: "uuid_parse (str_uuid u) = Some u"
proof -
  have "117 \<notin> set (str_uuid u)" using str_uuid_chars by fastforce
  then have "replace (lit ''uuid:'') [] (replace (lit ''urn:'') [] (str_uuid u)) = str_uuid u"
    by (simp add: replace_absent lit_def)
  moreover have "strip_by (\<lambda>c. c = 123 \<or> c = 125) (str_uuid u) = str_uuid u"
    by (rule strip_by_id) (simp_all add: str_uuid_hd_last)
  moreover have "uint u < 2 ^ 128" using uint_lt2p [of u] by simp
  ultimately show ?thesis
    by (simp add: uuid_parse_def Let_def replace_char_filter filter_str_uuid int16_hex)
qed

lemma str_uuid_inject [simp]: "str_uuid u = str_uuid v \<longleftrightarrow> u = v"
  by (metis option.inject uuid_parse_str)

lemma str_uuid_ne [simp]: "str_uuid u \<noteq> []"
  by (rule str_uuid_hd_last)

end
