(* ===== verification/Model.thy ===== *)
theory Model
  imports Uuid
begin

text \<open>
  The relational data model: \<open>app/models/*.py\<close> as records and enumerations, the database as a
  record of tables (row lists in insertion order), and the primitive queries of the session
  (\<open>db.get\<close>, \<open>db.add\<close>, \<open>db.delete\<close>, filtered selects). The interface \<open>keyed_table\<close> states what the
  components rely on; it is interpreted on the table operations used for every table.
\<close>

subsection \<open>Enumerations (app/models/enums.py)\<close>

datatype role = ADMIN | USER

datatype document_status = PENDING | PROCESSING | INDEXED | FAILED | DUPLICATE

datatype chunk_type = CT_TEXT | CT_TABLE | CT_IMAGE | CT_CHART | CT_DIAGRAM | CT_FORM | CT_OCR

datatype ingest_status = Q_QUEUED | Q_PARSING | Q_CAPTIONING | Q_INDEXING | Q_INDEXED | Q_FAILED

datatype principal_type = P_USER | P_DEPARTMENT

datatype resource_type = R_COLLECTION | R_DOCUMENT

datatype access_level = AL_READ | AL_WRITE | AL_ADMIN

datatype message_role = M_USER | M_ASSISTANT | M_SYSTEM

datatype audit_action = A_LOGIN | A_LOGIN_FAILED | A_LOGOUT | A_TOKEN_REFRESH | A_UPLOAD
  | A_RETRIEVAL | A_GENERATION | A_ADMIN_ACTION | A_PERMISSION_CHANGE | A_DOCUMENT_DELETE
  | A_CONVERSATION_DELETE

fun role_value :: "role \<Rightarrow> pystr" where
  "role_value ADMIN = lit ''admin''"
| "role_value USER = lit ''user''"

fun document_status_value :: "document_status \<Rightarrow> pystr" where
  "document_status_value PENDING = lit ''pending''"
| "document_status_value PROCESSING = lit ''processing''"
| "document_status_value INDEXED = lit ''indexed''"
| "document_status_value FAILED = lit ''failed''"
| "document_status_value DUPLICATE = lit ''duplicate''"

fun chunk_type_value :: "chunk_type \<Rightarrow> pystr" where
  "chunk_type_value CT_TEXT = lit ''text''"
| "chunk_type_value CT_TABLE = lit ''table''"
| "chunk_type_value CT_IMAGE = lit ''image''"
| "chunk_type_value CT_CHART = lit ''chart''"
| "chunk_type_value CT_DIAGRAM = lit ''diagram''"
| "chunk_type_value CT_FORM = lit ''form''"
| "chunk_type_value CT_OCR = lit ''ocr''"

fun ingest_status_value :: "ingest_status \<Rightarrow> pystr" where
  "ingest_status_value Q_QUEUED = lit ''queued''"
| "ingest_status_value Q_PARSING = lit ''parsing''"
| "ingest_status_value Q_CAPTIONING = lit ''captioning''"
| "ingest_status_value Q_INDEXING = lit ''indexing''"
| "ingest_status_value Q_INDEXED = lit ''indexed''"
| "ingest_status_value Q_FAILED = lit ''failed''"

text \<open>\<open>IngestStatus(name)\<close>: lookup by value; an unknown value raises.\<close>

definition ingest_status_of :: "pystr \<Rightarrow> ingest_status option" where
  "ingest_status_of s = List.find (\<lambda>q. ingest_status_value q = s)
     [Q_QUEUED, Q_PARSING, Q_CAPTIONING, Q_INDEXING, Q_INDEXED, Q_FAILED]"

fun principal_type_value :: "principal_type \<Rightarrow> pystr" where
  "principal_type_value P_USER = lit ''user''"
| "principal_type_value P_DEPARTMENT = lit ''department''"

fun resource_type_value :: "resource_type \<Rightarrow> pystr" where
  "resource_type_value R_COLLECTION = lit ''collection''"
| "resource_type_value R_DOCUMENT = lit ''document''"

fun access_level_value :: "access_level \<Rightarrow> pystr" where
  "access_level_value AL_READ = lit ''read''"
| "access_level_value AL_WRITE = lit ''write''"
| "access_level_value AL_ADMIN = lit ''admin''"

lemma ingest_status_roundtrip [simp]: "ingest_status_of (ingest_status_value q) = Some q"
  by (cases q) (simp_all add: ingest_status_of_def)

text \<open>The lifecycle order of an ingestion job: the stages of one run appear in this order.\<close>

fun ingest_rank :: "ingest_status \<Rightarrow> nat" where
  "ingest_rank Q_QUEUED = 0"
| "ingest_rank Q_PARSING = 1"
| "ingest_rank Q_CAPTIONING = 2"
| "ingest_rank Q_INDEXING = 3"
| "ingest_rank Q_INDEXED = 4"
| "ingest_rank Q_FAILED = 5"

lemma ingest_rank_inject [simp]: "ingest_rank a = ingest_rank b \<longleftrightarrow> a = b"
  by (cases a; cases b) auto

instantiation ingest_status :: linorder
begin

definition less_eq_ingest_status :: "ingest_status \<Rightarrow> ingest_status \<Rightarrow> bool" where
  "less_eq_ingest_status a b \<longleftrightarrow> ingest_rank a \<le> ingest_rank b"

definition less_ingest_status :: "ingest_status \<Rightarrow> ingest_status \<Rightarrow> bool" where
  "less_ingest_status a b \<longleftrightarrow> ingest_rank a < ingest_rank b"

instance
  by standard (auto simp: less_eq_ingest_status_def less_ingest_status_def intro: antisym)

end

subsection \<open>Values of JSON columns and payloads\<close>

datatype json = JNull | JBool bool | JInt int | JNum rat | JStr pystr | JList "json list"
  | JObj "(pystr \<times> json) list"

subsection \<open>Rows\<close>

type_synonym time = rat

record user_row =
  u_id :: uuid
  u_email :: pystr
  u_hash :: pystr
  u_role :: role
  u_dept :: "uuid option"
  u_active :: bool

record dept_row =
  dp_id :: uuid
  dp_name :: pystr

record coll_row =
  co_id :: uuid
  co_name :: pystr
  co_desc :: "pystr option"
  co_dept :: "uuid option"

record perm_row =
  p_id :: uuid
  p_ptype :: principal_type
  p_pid :: uuid
  p_rtype :: resource_type
  p_rid :: uuid
  p_level :: access_level

record doc_row =
  d_id :: uuid
  d_coll :: uuid
  d_filename :: pystr
  d_type :: pystr
  d_hash :: pystr
  d_status :: document_status
  d_pages :: "int option"
  d_error :: "pystr option"
  d_uploader :: "uuid option"
  d_created :: time
  d_updated :: time

record chunk_row =
  ch_id :: uuid
  ch_doc :: uuid
  ch_coll :: uuid
  ch_filename :: pystr
  ch_filetype :: pystr
  ch_page :: "int option"
  ch_section :: "pystr option"
  ch_type :: chunk_type
  ch_index :: nat
  ch_raw :: pystr
  ch_norm :: pystr
  ch_meta :: "(pystr \<times> json) list"
  ch_hash :: pystr

record job_row =
  j_id :: uuid
  j_doc :: uuid
  j_status :: ingest_status
  j_attempt :: int
  j_error :: "pystr option"
  j_started :: "time option"
  j_finished :: "time option"
  j_created :: time

record session_row =
  s_id :: uuid
  s_user :: uuid
  s_title :: "pystr option"
  s_created :: time

text \<open>A citation record as stored with an answer: either full, or reduced to its marker
  once the document is no longer readable, or the bare document id of a legacy cache entry.\<close>

record citation =
  ci_marker :: "nat option"
  ci_document :: "pystr option"
  ci_chunk :: "pystr option"
  ci_page :: "int option"
  ci_type :: "pystr option"
  ci_file :: "pystr option"
  ci_section :: "pystr option"
  ci_content :: "pystr option"
  ci_image :: "pystr option"
  ci_revoked :: bool

record msg_row =
  m_id :: uuid
  m_session :: uuid
  m_role :: message_role
  m_content :: pystr
  m_citations :: "citation list option"
  m_created :: time

record fb_row =
  f_id :: uuid
  f_message :: uuid
  f_user :: uuid
  f_rating :: pystr
  f_reason :: "pystr option"

record audit_row =
  a_user :: "uuid option"
  a_action :: audit_action
  a_rtype :: "pystr option"
  a_rid :: "pystr option"
  a_detail :: "(pystr \<times> json) list option"
  a_ip :: "pystr option"
  a_created :: time

record db =
  t_users :: "user_row list"
  t_departments :: "dept_row list"
  t_collections :: "coll_row list"
  t_permissions :: "perm_row list"
  t_documents :: "doc_row list"
  t_chunks :: "chunk_row list"
  t_jobs :: "job_row list"
  t_sessions :: "session_row list"
  t_messages :: "msg_row list"
  t_feedback :: "fb_row list"
  t_audit :: "audit_row list"

definition empty_db :: db where
  "empty_db = \<lparr>t_users = [], t_departments = [], t_collections = [], t_permissions = [],
     t_documents = [], t_chunks = [], t_jobs = [], t_sessions = [], t_messages = [],
     t_feedback = [], t_audit = []\<rparr>"

subsection \<open>Session primitives\<close>

definition get_by :: "('r \<Rightarrow> 'k) \<Rightarrow> 'k \<Rightarrow> 'r list \<Rightarrow> 'r option" where
  "get_by key k rows = List.find (\<lambda>r. key r = k) rows"

definition add_row :: "'r \<Rightarrow> 'r list \<Rightarrow> 'r list" where
  "add_row r rows = rows @ [r]"

definition upd_by :: "('r \<Rightarrow> 'k) \<Rightarrow> 'k \<Rightarrow> ('r \<Rightarrow> 'r) \<Rightarrow> 'r list \<Rightarrow> 'r list" where
  "upd_by key k f rows = map (\<lambda>r. if key r = k then f r else r) rows"

definition del_by :: "('r \<Rightarrow> 'k) \<Rightarrow> 'k \<Rightarrow> 'r list \<Rightarrow> 'r list" where
  "del_by key k rows = filter (\<lambda>r. key r \<noteq> k) rows"

text \<open>\<open>scalar_one_or_none()\<close> raises when the statement returned more than one row.\<close>

definition scalar_one_or_none :: "'a list \<Rightarrow> http_error + 'a option" where
  "scalar_one_or_none rows = (case rows of [] \<Rightarrow> Inr None | [r] \<Rightarrow> Inr (Some r) | _ \<Rightarrow> Inl Crash)"

locale keyed_table =
  fixes key :: "'r \<Rightarrow> 'k"
    and get :: "'k \<Rightarrow> 't \<Rightarrow> 'r option"
    and add :: "'r \<Rightarrow> 't \<Rightarrow> 't"
    and upd :: "'k \<Rightarrow> ('r \<Rightarrow> 'r) \<Rightarrow> 't \<Rightarrow> 't"
    and del :: "'k \<Rightarrow> 't \<Rightarrow> 't"
  assumes get_key: "get k t = Some r \<Longrightarrow> key r = k"
    and get_add: "get k (add r t) = (case get k t of Some r' \<Rightarrow> Some r'
                     | None \<Rightarrow> if key r = k then Some r else None)"
    and get_upd: "(\<And>r. key (f r) = key r) \<Longrightarrow>
                    get k (upd k' f t) = (if k = k' then map_option f (get k t) else get k t)"
    and get_del: "get k (del k' t) = (if k = k' then None else get k t)"
begin

lemma get_add_fresh: "get (key r) t = None \<Longrightarrow> get (key r) (add r t) = Some r"
  by (simp add: get_add)

lemma get_add_other: "key r \<noteq> k \<Longrightarrow> get k (add r t) = get k t"
  by (simp add: get_add split: option.splits)

lemma get_del_same: "get k (del k t) = None"
  by (simp add: get_del)

lemma del_add_cancel: "get (key r) t = None \<Longrightarrow> get k (del (key r) (add r t)) = get k t"
  by (auto simp: get_del get_add_other)

lemma upd_preserves_absent: "(\<And>r. key (f r) = key r) \<Longrightarrow> get k t = None \<Longrightarrow> get k (upd k' f t) = None"
  by (cases "k = k'") (simp_all add: get_upd)

lemmas table_laws = get_add get_upd get_del

end

lemma find_filter_key: "List.find P (filter Q xs) = List.find (\<lambda>x. P x \<and> Q x) xs"
  by (induction xs) auto

lemma find_append: "List.find P (xs @ ys) = (case List.find P xs of None \<Rightarrow> List.find P ys | Some x \<Rightarrow> Some x)"
  by (induction xs) auto

lemma find_map: "List.find P (map f xs) = map_option f (List.find (\<lambda>x. P (f x)) xs)"
  by (induction xs) auto

lemma find_SomeD: "List.find P xs = Some x \<Longrightarrow> P x \<and> x \<in> set xs"
  by (induction xs) (auto split: if_splits)

lemma get_by_SomeD: "get_by key k rows = Some r \<Longrightarrow> key r = k \<and> r \<in> set rows"
  by (auto simp: get_by_def dest: find_SomeD)

lemma get_by_None: "get_by key k rows = None \<longleftrightarrow> k \<notin> key ` set rows"
  by (auto simp: get_by_def find_None_iff)

lemma keyed_table_rows: "keyed_table key (get_by key) add_row (upd_by key) (del_by key)"
proof
  fix k t r
  show "get_by key k t = Some r \<Longrightarrow> key r = k" by (blast dest: get_by_SomeD)
next
  fix k r t
  show "get_by key k (add_row r t) = (case get_by key k t of Some r' \<Rightarrow> Some r'
          | None \<Rightarrow> if key r = k then Some r else None)"
    by (auto simp: get_by_def add_row_def find_append split: option.splits)
next
  fix f :: "'a \<Rightarrow> 'a" and k k' t
  assume f: "\<And>r. key (f r) = key r"
  show "get_by key k (upd_by key k' f t) = (if k = k' then map_option f (get_by key k t) else get_by key k t)"
    using f by (induction t) (auto simp: get_by_def upd_by_def)
next
  fix k k' t
  show "get_by key k (del_by key k' t) = (if k = k' then None else get_by key k t)"
    by (induction t) (auto simp: get_by_def del_by_def)
qed

interpretation users: keyed_table u_id "get_by u_id" add_row "upd_by u_id" "del_by u_id"
  by (rule keyed_table_rows)

interpretation docs: keyed_table d_id "get_by d_id" add_row "upd_by d_id" "del_by d_id"
  by (rule keyed_table_rows)

interpretation perms: keyed_table p_id "get_by p_id" add_row "upd_by p_id" "del_by p_id"
  by (rule keyed_table_rows)

interpretation jobs: keyed_table j_id "get_by j_id" add_row "upd_by j_id" "del_by j_id"
  by (rule keyed_table_rows)

interpretation sessions: keyed_table s_id "get_by s_id" add_row "upd_by s_id" "del_by s_id"
  by (rule keyed_table_rows)

interpretation msgs: keyed_table m_id "get_by m_id" add_row "upd_by m_id" "del_by m_id"
  by (rule keyed_table_rows)

lemma set_add_row [simp]: "set (add_row r t) = insert r (set t)"
  by (simp add: add_row_def)

lemma set_del_by [simp]: "set (del_by key k t) = {r \<in> set t. key r \<noteq> k}"
  by (auto simp: del_by_def)

lemma set_upd_by: "set (upd_by key k f t) = (\<lambda>r. if key r = k then f r else r) ` set t"
  by (simp add: upd_by_def)

lemma map_key_upd_by [simp]: "(\<And>r. key (f r) = key r) \<Longrightarrow> map key (upd_by key k f t) = map key t"
  by (induction t) (auto simp: upd_by_def)

lemma distinct_del_by: "distinct (map g t) \<Longrightarrow> distinct (map g (del_by key k t))"
  by (induction t) (auto simp: del_by_def)

lemma distinct_get_by: "distinct (map key t) \<Longrightarrow> r \<in> set t \<Longrightarrow> get_by key (key r) t = Some r"
  by (induction t) (auto simp: get_by_def)

subsection \<open>Audit rows (app/services/audit.py)\<close>

definition record_audit ::
  "audit_action \<Rightarrow> uuid option \<Rightarrow> pystr option \<Rightarrow> pystr option \<Rightarrow> (pystr \<times> json) list option
     \<Rightarrow> pystr option \<Rightarrow> time \<Rightarrow> db \<Rightarrow> db" where
  "record_audit action user rtype rid detail ip now d =
     d\<lparr>t_audit := add_row \<lparr>a_user = user, a_action = action, a_rtype = rtype, a_rid = rid,
        a_detail = detail, a_ip = ip, a_created = now\<rparr> (t_audit d)\<rparr>"

lemma record_audit_frame [simp]:
  "t_users (record_audit a u rt ri de ip now d) = t_users d"
  "t_departments (record_audit a u rt ri de ip now d) = t_departments d"
  "t_collections (record_audit a u rt ri de ip now d) = t_collections d"
  "t_permissions (record_audit a u rt ri de ip now d) = t_permissions d"
  "t_documents (record_audit a u rt ri de ip now d) = t_documents d"
  "t_chunks (record_audit a u rt ri de ip now d) = t_chunks d"
  "t_jobs (record_audit a u rt ri de ip now d) = t_jobs d"
  "t_sessions (record_audit a u rt ri de ip now d) = t_sessions d"
  "t_messages (record_audit a u rt ri de ip now d) = t_messages d"
  "t_feedback (record_audit a u rt ri de ip now d) = t_feedback d"
  by (simp_all add: record_audit_def)

lemma length_audit_record [simp]:
  "length (t_audit (record_audit a u rt ri de ip now d)) = Suc (length (t_audit d))"
  by (simp add: record_audit_def add_row_def)

end
