(* ===== verification/Rbac.thy ===== *)
theory Rbac
  imports Model
begin

text \<open>
  Access control, \<open>app/core/rbac.py\<close>: the collections a user may read, and the two membership
  checks. The specification \<open>may_read\<close> is the rule list of the module's header; the queries are
  shown to compute exactly it, and the interface \<open>read_gate\<close> collects what the endpoints use.
\<close>

definition principals :: "user_row \<Rightarrow> (principal_type \<times> uuid) list" where
  "principals u = (P_USER, u_id u) # (case u_dept u of None \<Rightarrow> [] | Some dp \<Rightarrow> [(P_DEPARTMENT, dp)])"

definition own_department_collections :: "db \<Rightarrow> user_row \<Rightarrow> uuid list" where
  "own_department_collections d u = (case u_dept u of None \<Rightarrow> []
     | Some dp \<Rightarrow> map co_id (filter (\<lambda>c. co_dept c = Some dp) (t_collections d)))"

definition granted :: "db \<Rightarrow> principal_type \<times> uuid \<Rightarrow> uuid list" where
  "granted d p = map p_rid (filter (\<lambda>r. p_rtype r = R_COLLECTION \<and> p_ptype r = fst p \<and> p_pid r = snd p)
     (t_permissions d))"

definition accessible_collection_ids :: "db \<Rightarrow> user_row \<Rightarrow> uuid set" where
  "accessible_collection_ids d u =
     (if u_role u = ADMIN then set (map co_id (t_collections d))
      else set (own_department_collections d u @ concat (map (granted d) (principals u))))"

definition can_access_collection :: "db \<Rightarrow> user_row \<Rightarrow> uuid \<Rightarrow> bool" where
  "can_access_collection d u c =
     (if u_role u = ADMIN then True else c \<in> accessible_collection_ids d u)"

definition can_access_document :: "db \<Rightarrow> user_row \<Rightarrow> doc_row \<Rightarrow> bool" where
  "can_access_document d u doc =
     (if u_role u = ADMIN then True
      else if can_access_collection d u (d_coll doc) then True
      else list_ex (\<lambda>p. list_ex (\<lambda>r. p_rtype r = R_DOCUMENT \<and> p_rid r = d_id doc
               \<and> p_ptype r = fst p \<and> p_pid r = snd p) (t_permissions d)) (principals u))"

subsection \<open>The rule list\<close>

inductive may_read :: "db \<Rightarrow> user_row \<Rightarrow> uuid \<Rightarrow> bool" where
  admin: "u_role u = ADMIN \<Longrightarrow> may_read d u c"
| department: "co \<in> set (t_collections d) \<Longrightarrow> co_id co = c \<Longrightarrow> co_dept co = Some dp
     \<Longrightarrow> u_dept u = Some dp \<Longrightarrow> may_read d u c"
| user_grant: "p \<in> set (t_permissions d) \<Longrightarrow> p_rtype p = R_COLLECTION \<Longrightarrow> p_rid p = c
     \<Longrightarrow> p_ptype p = P_USER \<Longrightarrow> p_pid p = u_id u \<Longrightarrow> may_read d u c"
| department_grant: "p \<in> set (t_permissions d) \<Longrightarrow> p_rtype p = R_COLLECTION \<Longrightarrow> p_rid p = c
     \<Longrightarrow> p_ptype p = P_DEPARTMENT \<Longrightarrow> u_dept u = Some (p_pid p) \<Longrightarrow> may_read d u c"

inductive_simps may_read_simps: "may_read d u c"

lemma own_department_iff: "c \<in> set (own_department_collections d u) \<longleftrightarrow>
    (\<exists>co \<in> set (t_collections d). co_id co = c \<and> co_dept co \<noteq> None \<and> co_dept co = u_dept u)"
  by (auto simp: own_department_collections_def split: option.splits)

lemma granted_iff: "c \<in> set (granted d (pt, pid)) \<longleftrightarrow>
    (\<exists>p \<in> set (t_permissions d). p_rtype p = R_COLLECTION \<and> p_rid p = c \<and> p_ptype p = pt \<and> p_pid p = pid)"
  by (auto simp: granted_def)

lemma set_principals: "set (principals u) = insert (P_USER, u_id u)
    (case u_dept u of None \<Rightarrow> {} | Some dp \<Rightarrow> {(P_DEPARTMENT, dp)})"
  by (auto simp: principals_def split: option.splits)

lemma accessible_user_iff:
  assumes "u_role u \<noteq> ADMIN"
  shows "c \<in> accessible_collection_ids d u \<longleftrightarrow> may_read d u c"
proof -
  have "c \<in> accessible_collection_ids d u \<longleftrightarrow>
      c \<in> set (own_department_collections d u) \<or> (\<exists>p \<in> set (principals u). c \<in> set (granted d p))"
    using assms by (auto simp: accessible_collection_ids_def)
  also have "\<dots> \<longleftrightarrow> may_read d u c"
    unfolding may_read_simps own_department_iff set_principals using assms
    by (cases "u_dept u") (fastforce simp: granted_iff)+
  finally show ?thesis .
qed

text \<open>
  The set of collections the queries return is exactly what the rule list allows: every
  existing collection for an administrator, and for anyone else the collections of the own
  department and those granted to the user or to the department, and nothing more.
\<close>

theorem accessible_collections_spec:
  "accessible_collection_ids d u =
     (if u_role u = ADMIN then co_id ` set (t_collections d) else {c. may_read d u c})"
  using accessible_user_iff by (auto simp: accessible_collection_ids_def)

lemma can_access_iff_may_read [acl_simps]: "can_access_collection d u c \<longleftrightarrow> may_read d u c"
  using accessible_user_iff [of u c d]
  by (auto simp: can_access_collection_def may_read.admin)

lemma accessible_can_access: "c \<in> accessible_collection_ids d u \<Longrightarrow> can_access_collection d u c"
  by (auto simp: can_access_collection_def)

lemma may_read_cong:
  assumes "t_permissions d' = t_permissions d" and "t_collections d' = t_collections d"
  shows "may_read d' u c = may_read d u c"
  using assms by (simp add: may_read_simps)

lemma accessible_frame:
  assumes "t_permissions d' = t_permissions d" and "t_collections d' = t_collections d"
  shows "accessible_collection_ids d' u = accessible_collection_ids d u"
  using assms
  by (simp add: accessible_collection_ids_def own_department_collections_def granted_def
      cong: option.case_cong)

lemma accessible_audit [simp]:
  "accessible_collection_ids (record_audit a us rt ri de ip now d) u = accessible_collection_ids d u"
  by (rule accessible_frame) simp_all

lemma can_access_audit [simp]:
  "can_access_collection (record_audit a us rt ri de ip now d) u c = can_access_collection d u c"
  by (simp add: can_access_collection_def)

subsection \<open>What the checks do not depend on\<close>

text \<open>
  The access level stored with a grant plays no part in any check: rewriting every grant's level
  changes no answer, so a READ grant admits whatever a WRITE or ADMIN grant admits.
\<close>

theorem access_level_ignored:
  fixes f :: "perm_row \<Rightarrow> access_level"
  defines "relevelled \<equiv> \<lambda>d. d\<lparr>t_permissions := map (\<lambda>p. p\<lparr>p_level := f p\<rparr>) (t_permissions d)\<rparr>"
  shows "accessible_collection_ids (relevelled d) u = accessible_collection_ids d u
       \<and> can_access_document (relevelled d) u doc = can_access_document d u doc"
proof -
  have g: "granted (relevelled d) = granted d"
    by (rule ext) (simp add: granted_def filter_map comp_def relevelled_def)
  have o: "own_department_collections (relevelled d) u = own_department_collections d u"
    by (simp add: own_department_collections_def relevelled_def cong: option.case_cong)
  have a: "accessible_collection_ids (relevelled d) u = accessible_collection_ids d u"
    by (simp add: accessible_collection_ids_def g o) (simp add: relevelled_def)
  then show ?thesis
    by (simp add: can_access_document_def can_access_collection_def list_ex_iff) (simp add: relevelled_def)
qed

text \<open>A document-level grant is only seen by \<open>can_access_document\<close>, never by the collection checks.\<close>

lemma document_grants_invisible:
  assumes "\<And>p. p \<in> set ps \<Longrightarrow> p_rtype p = R_DOCUMENT"
  shows "accessible_collection_ids (d\<lparr>t_permissions := t_permissions d @ ps\<rparr>) u
       = accessible_collection_ids d u"
proof -
  have "filter (\<lambda>r. p_rtype r = R_COLLECTION \<and> p_ptype r = a \<and> p_pid r = b) ps = []" for a b
    using assms by (auto simp: filter_empty_conv)
  then have "granted (d\<lparr>t_permissions := t_permissions d @ ps\<rparr>) = granted d"
    by (intro ext) (simp add: granted_def)
  then show ?thesis
    by (simp add: accessible_collection_ids_def own_department_collections_def cong: option.case_cong)
qed

subsection \<open>The interface of the endpoints\<close>

text \<open>
  An endpoint that serves one object asks whether the collection of the object is readable and
  answers 404 otherwise. \<open>serve\<close> stands for such a handler; the two laws make it a gate.
\<close>

locale read_gate =
  fixes serve :: "db \<Rightarrow> user_row \<Rightarrow> uuid \<Rightarrow> http_error + 'r"
    and coll_of :: "db \<Rightarrow> uuid \<Rightarrow> uuid option"
  assumes served_readable: "serve d u i = Inr r \<Longrightarrow> \<exists>c. coll_of d i = Some c \<and> may_read d u c"
    and denied_not_found: "(\<And>c. coll_of d i = Some c \<Longrightarrow> \<not> may_read d u c) \<Longrightarrow>
          \<exists>msg. serve d u i = Inl (HTTPException 404 msg)"
begin

lemma absent_not_found: "coll_of d i = None \<Longrightarrow> \<exists>msg. serve d u i = Inl (HTTPException 404 msg)"
  by (rule denied_not_found) simp

lemma hidden_not_found: "coll_of d i = Some c \<Longrightarrow> \<not> may_read d u c \<Longrightarrow>
    \<exists>msg. serve d u i = Inl (HTTPException 404 msg)"
  by (rule denied_not_found) simp

lemma never_served_outside: "coll_of d i = Some c \<Longrightarrow> \<not> may_read d u c \<Longrightarrow> serve d u i \<noteq> Inr r"
  using served_readable by fastforce

lemma never_forbidden: "\<not> (\<exists>c. coll_of d i = Some c \<and> may_read d u c) \<Longrightarrow>
    serve d u i \<noteq> Inl (HTTPException 403 msg)"
  using denied_not_found [of d i u] by fastforce

end

end
