(* ===== verification/Jobs.thy ===== *)
theory Jobs
  imports Model
begin

text \<open>
  The ingestion queue and the progress rows, \<open>app/queue.py\<close> and \<open>app/ingestion/jobs.py\<close>. The broker is
  the two Redis lists the code uses (queue and dead letters; the head is popped first); a payload is the
  JSON object itself. Every function commits what it changes, so it maps a database to a database.
\<close>

record payload_rec =
  jp_doc :: pystr
  jp_attempt :: int
  jp_job :: "pystr option"

record dead_letter = payload_rec +
  dl_error :: pystr
  dl_failed :: time

record broker =
  bk_queue :: "payload_rec list"
  bk_dlq :: "dead_letter list"

definition mk_payload :: "pystr \<Rightarrow> int \<Rightarrow> pystr option \<Rightarrow> payload_rec" where
  "mk_payload doc attempt job = \<lparr>jp_doc = doc, jp_attempt = attempt, jp_job = job\<rparr>"

text \<open>An update of a document row; \<open>updated_at\<close> is set when anything changes (\<open>onupdate\<close>).\<close>

definition touch :: "time \<Rightarrow> (doc_row \<Rightarrow> doc_row) \<Rightarrow> doc_row \<Rightarrow> doc_row" where
  "touch now f r = (if f r = r then r else (f r)\<lparr>d_updated := now\<rparr>)"

definition upd_doc :: "time \<Rightarrow> uuid \<Rightarrow> (doc_row \<Rightarrow> doc_row) \<Rightarrow> db \<Rightarrow> db" where
  "upd_doc now i f d = d\<lparr>t_documents := upd_by d_id i (touch now f) (t_documents d)\<rparr>"

lemma touch_fields [simp]:
  "d_id (touch now f r) = d_id (f r)" "d_coll (touch now f r) = d_coll (f r)" "d_hash (touch now f r) = d_hash (f r)"
  "d_status (touch now f r) = d_status (f r)" "d_error (touch now f r) = d_error (f r)" "d_type (touch now f r) = d_type (f r)"
  "d_filename (touch now f r) = d_filename (f r)"
  by (simp_all add: touch_def)

subsection \<open>Enqueueing\<close>

definition enqueue_index :: "uuid \<Rightarrow> int \<Rightarrow> uuid option \<Rightarrow> broker \<Rightarrow> broker" where
  "enqueue_index doc attempt job b =
     b\<lparr>bk_queue := bk_queue b @ [mk_payload (str_uuid doc) attempt (map_option str_uuid job)]\<rparr>"

definition enqueue_index_sync :: "pystr \<Rightarrow> int \<Rightarrow> pystr option \<Rightarrow> broker \<Rightarrow> broker" where
  "enqueue_index_sync doc attempt job b = b\<lparr>bk_queue := bk_queue b @ [mk_payload doc attempt job]\<rparr>"

subsection \<open>Progress rows\<close>

definition new_job :: "uuid \<Rightarrow> uuid \<Rightarrow> time \<Rightarrow> job_row" where
  "new_job i doc now = \<lparr>j_id = i, j_doc = doc, j_status = Q_QUEUED, j_attempt = 0, j_error = None, j_started = None,
     j_finished = None, j_created = now\<rparr>"

definition create_job :: "uuid \<Rightarrow> uuid \<Rightarrow> time \<Rightarrow> db \<Rightarrow> db" where
  "create_job i doc now d = d\<lparr>t_jobs := add_row (new_job i doc now) (t_jobs d)\<rparr>"

definition latest_job :: "uuid \<Rightarrow> db \<Rightarrow> job_row option" where
  "latest_job doc d = (case sort_key (\<lambda>j. - j_created j) (filter (\<lambda>j. j_doc j = doc) (t_jobs d)) of [] \<Rightarrow> None | j # _ \<Rightarrow> Some j)"

datatype track_error = Document_gone | Tracking_failed pystr

definition BADLY_FORMED :: pystr where
  "BADLY_FORMED = lit ''badly formed hexadecimal UUID string''"

definition track_new :: "pystr \<Rightarrow> uuid \<Rightarrow> time \<Rightarrow> db \<Rightarrow> track_error + uuid \<times> db" where
  "track_new doc fresh now d =
     (case uuid_parse doc of None \<Rightarrow> Inl (Tracking_failed BADLY_FORMED)
      | Some i \<Rightarrow> if get_by d_id i (t_documents d) = None then Inl Document_gone
          else Inr (fresh, create_job fresh i now d))"

definition get_or_create :: "pystr option \<Rightarrow> pystr \<Rightarrow> uuid \<Rightarrow> time \<Rightarrow> db \<Rightarrow> track_error + uuid \<times> db" where
  "get_or_create job doc fresh now d =
     (case job of None \<Rightarrow> track_new doc fresh now d
      | Some j \<Rightarrow> if j = [] then track_new doc fresh now d
          else (case uuid_parse j of None \<Rightarrow> Inl (Tracking_failed BADLY_FORMED)
                | Some i \<Rightarrow> if get_by j_id i (t_jobs d) = None then track_new doc fresh now d else Inr (i, d)))"

definition upd_job :: "uuid \<Rightarrow> (job_row \<Rightarrow> job_row) \<Rightarrow> db \<Rightarrow> db" where
  "upd_job i f d = d\<lparr>t_jobs := upd_by j_id i f (t_jobs d)\<rparr>"

definition job_started :: "pystr option \<Rightarrow> pystr \<Rightarrow> int \<Rightarrow> uuid \<Rightarrow> time \<Rightarrow> db \<Rightarrow> track_error + uuid \<times> db" where
  "job_started job doc attempt fresh now d =
     (case get_or_create job doc fresh now d of Inl er \<Rightarrow> Inl er
      | Inr (i, d1) \<Rightarrow> Inr (i, upd_job i (\<lambda>j. j\<lparr>j_status := Q_PARSING, j_attempt := attempt, j_error := None,
           j_started := Some now, j_finished := None\<rparr>) d1))"

text \<open>A row that is gone is left alone: updating by an absent id changes nothing.\<close>

definition job_stage :: "uuid \<Rightarrow> ingest_status \<Rightarrow> db \<Rightarrow> db" where
  "job_stage i st d = upd_job i (\<lambda>j. j\<lparr>j_status := st\<rparr>) d"

definition finish_row :: "pystr option \<Rightarrow> bool \<Rightarrow> time \<Rightarrow> job_row \<Rightarrow> job_row" where
  "finish_row error requeued now j =
     (case error of None \<Rightarrow> j\<lparr>j_status := Q_INDEXED, j_finished := Some now\<rparr>
      | Some e \<Rightarrow> j\<lparr>j_status := (if requeued then Q_QUEUED else Q_FAILED), j_error := Some (take 2000 e), j_finished := Some now\<rparr>)"

definition job_finished :: "uuid \<Rightarrow> pystr option \<Rightarrow> bool \<Rightarrow> time \<Rightarrow> db \<Rightarrow> db" where
  "job_finished i error requeued now d = upd_job i (finish_row error requeued now) d"

subsection \<open>Dead letters\<close>

definition push_dlq :: "payload_rec \<Rightarrow> pystr \<Rightarrow> time \<Rightarrow> broker \<Rightarrow> broker" where
  "push_dlq p error now b = b\<lparr>bk_dlq := bk_dlq b @ [payload_rec.extend p \<lparr>dl_error = take 2000 error, dl_failed = now\<rparr>]\<rparr>"

text \<open>\<open>LRANGE key 0 stop\<close>: a negative stop counts from the end, so a limit of 0 lists everything.\<close>

definition lrange0 :: "int \<Rightarrow> 'a list \<Rightarrow> 'a list" where
  "lrange0 stop xs = take (nat ((if stop < 0 then int (length xs) + stop else stop) + 1)) xs"

definition dlq_entries :: "int \<Rightarrow> broker \<Rightarrow> dead_letter list" where
  "dlq_entries limit b = lrange0 (limit - 1) (bk_dlq b)"

fun requeue_loop :: "nat \<Rightarrow> broker \<Rightarrow> nat \<times> broker" where
  "requeue_loop 0 b = (0, b)"
| "requeue_loop (Suc k) b =
     (case bk_dlq b of [] \<Rightarrow> (0, b)
      | e # es \<Rightarrow> (case requeue_loop k (b\<lparr>bk_dlq := es, bk_queue := bk_queue b @ [mk_payload (jp_doc e) 0 (jp_job e)]\<rparr>) of
            (n, b') \<Rightarrow> (n + 1, b')))"

definition requeue_dlq :: "int \<Rightarrow> broker \<Rightarrow> nat \<times> broker" where
  "requeue_dlq limit b = requeue_loop (nat limit) b"

subsection \<open>Frame and effect\<close>

lemma upd_job_frame [simp]:
  "t_documents (upd_job i f d) = t_documents d" "t_chunks (upd_job i f d) = t_chunks d" "t_users (upd_job i f d) = t_users d"
  "t_collections (upd_job i f d) = t_collections d" "t_permissions (upd_job i f d) = t_permissions d" "t_audit (upd_job i f d) = t_audit d"
  by (simp_all add: upd_job_def)

lemma create_job_frame [simp]:
  "t_documents (create_job i doc now d) = t_documents d" "t_chunks (create_job i doc now d) = t_chunks d"
  "t_collections (create_job i doc now d) = t_collections d" "t_permissions (create_job i doc now d) = t_permissions d"
  by (simp_all add: create_job_def)

lemma job_started_frame: "job_started job doc att fresh now d = Inr (i, d') \<Longrightarrow> t_documents d' = t_documents d \<and> t_chunks d' = t_chunks d"
  by (auto simp: job_started_def get_or_create_def track_new_def split: option.splits if_splits sum.splits prod.splits)

lemma get_job_upd: "(\<And>j. j_id (f j) = j_id j) \<Longrightarrow> get_by j_id i (t_jobs (upd_job k f d)) = (if i = k then map_option f (get_by j_id i (t_jobs d)) else get_by j_id i (t_jobs d))"
  unfolding upd_job_def by (simp add: jobs.get_upd)

lemma finish_row_id [simp]: "j_id (finish_row e r now j) = j_id j" "j_doc (finish_row e r now j) = j_doc j" "j_attempt (finish_row e r now j) = j_attempt j"
  by (auto simp: finish_row_def split: option.splits)

lemma track_new_row: "track_new doc fresh now d = Inr (i, d') \<Longrightarrow> get_by j_id fresh (t_jobs d) = None \<Longrightarrow>
    i = fresh \<and> get_by j_id i (t_jobs d') = Some (new_job fresh (the (uuid_parse doc)) now)"
  by (auto simp: track_new_def create_job_def jobs.get_add new_job_def split: option.splits if_splits)

lemma job_started_row:
  assumes "job_started job doc att fresh now d = Inr (i, d')" and "get_by j_id fresh (t_jobs d) = None"
  shows "\<exists>j. get_by j_id i (t_jobs d') = Some j \<and> j_status j = Q_PARSING \<and> j_attempt j = att \<and> j_error j = None
     \<and> j_started j = Some now \<and> j_finished j = None"
proof -
  obtain d1 where g: "get_or_create job doc fresh now d = Inr (i, d1)"
      and d': "d' = upd_job i (\<lambda>j. j\<lparr>j_status := Q_PARSING, j_attempt := att, j_error := None, j_started := Some now, j_finished := None\<rparr>) d1"
    using assms(1) by (auto simp: job_started_def split: sum.splits)
  have "\<exists>j. get_by j_id i (t_jobs d1) = Some j"
    using g track_new_row [OF _ assms(2)] by (auto simp: get_or_create_def split: option.splits if_splits)
  then show ?thesis by (auto simp: d' get_job_upd)
qed

subsection \<open>Requeueing dead letters\<close>

lemma requeue_loop_spec:
  "requeue_loop k b = (n, b') \<Longrightarrow> n = min k (length (bk_dlq b)) \<and> bk_dlq b' = drop n (bk_dlq b)
     \<and> bk_queue b' = bk_queue b @ map (\<lambda>e. mk_payload (jp_doc e) 0 (jp_job e)) (take n (bk_dlq b))"
proof (induction k arbitrary: b n b')
  case (Suc k)
  show ?case
  proof (cases "bk_dlq b")
    case (Cons e es)
    let ?b1 = "b\<lparr>bk_dlq := es, bk_queue := bk_queue b @ [mk_payload (jp_doc e) 0 (jp_job e)]\<rparr>"
    obtain m b2 where r: "requeue_loop k ?b1 = (m, b2)" by fastforce
    have "n = m + 1" "b' = b2" using Suc.prems Cons r by simp_all
    with Suc.IH [OF r] Cons show ?thesis by simp
  qed (use Suc.prems in simp)
qed simp

text \<open>
  Requeueing moves exactly the oldest dead letters, at most the limit, to the end of the queue in their
  order, each with its attempt counter reset and its document and progress row kept; the rest of both
  lists is untouched, the returned number is the number moved, and a limit of 0 or less moves nothing,
  although the listing with limit 0 shows every dead letter.
\<close>

theorem requeue_moves_oldest:
  assumes "requeue_dlq limit b = (n, b')"
  shows "n = min (nat limit) (length (bk_dlq b))
    \<and> bk_dlq b = take n (bk_dlq b) @ bk_dlq b'
    \<and> bk_queue b' = bk_queue b @ map (\<lambda>e. mk_payload (jp_doc e) 0 (jp_job e)) (take n (bk_dlq b))
    \<and> dlq_entries 0 b = bk_dlq b"
  using requeue_loop_spec [OF assms [unfolded requeue_dlq_def]]
  by (simp add: dlq_entries_def lrange0_def)

definition demo_letter :: dead_letter where
  "demo_letter = \<lparr>jp_doc = lit ''d'', jp_attempt = 2, jp_job = None, dl_error = lit ''e'', dl_failed = 0\<rparr>"

lemma requeue_moves_oldest_witness:
  "\<exists>b'. requeue_dlq 1 \<lparr>bk_queue = [], bk_dlq = [demo_letter, demo_letter]\<rparr> = (1, b')
     \<and> bk_queue b' = [mk_payload (lit ''d'') 0 None] \<and> length (bk_dlq b') = 1"
proof -
  let ?b = "\<lparr>bk_queue = [], bk_dlq = [demo_letter, demo_letter]\<rparr>"
  obtain n b' where r: "requeue_dlq 1 ?b = (n, b')" by fastforce
  note moved = requeue_moves_oldest [OF r]
  have n: "n = 1" using moved by (elim conjE) simp
  have d: "[demo_letter, demo_letter] = take n [demo_letter, demo_letter] @ bk_dlq b'"
    using moved by (elim conjE) (simp only: broker.select_convs)
  have q: "bk_queue b' = map (\<lambda>e. mk_payload (jp_doc e) 0 (jp_job e)) (take n [demo_letter, demo_letter])"
    using moved by (elim conjE) (simp only: broker.select_convs append_Nil)
  have "length [demo_letter, demo_letter] = length (take n [demo_letter, demo_letter] @ bk_dlq b')" using d by (rule arg_cong)
  with r n q show ?thesis by (simp add: demo_letter_def)
qed

end
