(* ===== verification/Codec.thy ===== *)
theory Codec
  imports Prelude
begin

text \<open>
  The text codecs of the standard library the program uses: \<open>str.encode("utf-8")\<close>, and \<open>bytes.decode\<close> for
  UTF-8 (strict, and with \<open>errors="replace"\<close>) and UTF-16 as \<open>_decode\<close> of \<open>app/ingestion/parsers/text.py\<close> and
  \<open>parse_csv\<close> of \<open>office.py\<close> call them. \<open>None\<close> is the \<open>UnicodeError\<close>.
\<close>

text \<open>\<open>str.encode("utf-8")\<close>: a lone surrogate raises (a \<open>ValueError\<close>).\<close>

definition utf8_cp :: "nat \<Rightarrow> nat list option" where
  "utf8_cp c =
     (if c < 128 then Some [c]
      else if c < 2048 then Some [192 + c div 64, 128 + c mod 64]
      else if 55296 \<le> c \<and> c \<le> 57343 then None
      else if c < 65536 then Some [224 + c div 4096, 128 + c div 64 mod 64, 128 + c mod 64]
      else Some [240 + c div 262144, 128 + c div 4096 mod 64, 128 + c div 64 mod 64, 128 + c mod 64])"

fun utf8 :: "pystr \<Rightarrow> nat list option" where
  "utf8 [] = Some []"
| "utf8 (c # s) = (case utf8_cp c of None \<Rightarrow> None
     | Some b \<Rightarrow> (case utf8 s of None \<Rightarrow> None | Some bs \<Rightarrow> Some (b @ bs)))"

lemma utf8_ascii: "(\<forall>c \<in> set s. c < 128) \<Longrightarrow> utf8 s = Some s"
  by (induction s) (auto simp: utf8_cp_def)

subsection \<open>Decoding\<close>

definition cont :: "nat \<Rightarrow> bool" where
  "cont b \<longleftrightarrow> 128 \<le> b \<and> b \<le> 191"

text \<open>How many continuation bytes a lead byte announces and the range of the first of them.\<close>

definition lead :: "nat \<Rightarrow> (nat \<times> nat \<times> nat) option" where
  "lead b = (if b < 128 then Some (0, 128, 191)
     else if 194 \<le> b \<and> b \<le> 223 then Some (1, 128, 191)
     else if b = 224 then Some (2, 160, 191)
     else if b = 237 then Some (2, 128, 159)
     else if 225 \<le> b \<and> b \<le> 239 then Some (2, 128, 191)
     else if b = 240 then Some (3, 144, 191)
     else if 241 \<le> b \<and> b \<le> 243 then Some (3, 128, 191)
     else if b = 244 then Some (3, 128, 143) else None)"

definition lead_bits :: "nat \<Rightarrow> nat \<Rightarrow> nat" where
  "lead_bits n b = (if n = 0 then b else if n = 1 then b - 192 else if n = 2 then b - 224 else b - 240)"

text \<open>The number of well-formed continuation bytes that follow, at most the announced number.\<close>

definition good_conts :: "nat \<times> nat \<times> nat \<Rightarrow> nat list \<Rightarrow> nat" where
  "good_conts ann bs = (case ann of (n, lo, hi) \<Rightarrow>
     (case bs of [] \<Rightarrow> 0
      | c # cs \<Rightarrow> if n = 0 \<or> \<not> (lo \<le> c \<and> c \<le> hi) then 0 else 1 + length (takeWhile cont (take (n - 1) cs))))"

text \<open>One code point, or the length of the ill-formed subpart to skip.\<close>

definition utf8_step :: "nat \<Rightarrow> nat list \<Rightarrow> nat + nat \<times> nat" where
  "utf8_step b bs =
     (case lead b of None \<Rightarrow> Inl 1
      | Some (n, lo, hi) \<Rightarrow>
          if good_conts (n, lo, hi) bs = n
          then Inr (fold (\<lambda>c acc. acc * 64 + (c - 128)) (take n bs) (lead_bits n b), 1 + n)
          else Inl (1 + good_conts (n, lo, hi) bs))"

function utf8_decode :: "nat list \<Rightarrow> pystr option" where
  "utf8_decode [] = Some []"
| "utf8_decode (b # bs) =
     (case utf8_step b bs of Inl _ \<Rightarrow> None
      | Inr (c, n) \<Rightarrow> map_option ((#) c) (utf8_decode (drop (n - 1) bs)))"
  by pat_completeness auto
termination
  by (relation "measure length") auto

function utf8_decode_replace :: "nat list \<Rightarrow> pystr" where
  "utf8_decode_replace [] = []"
| "utf8_decode_replace (b # bs) =
     (case utf8_step b bs of Inl n \<Rightarrow> 65533 # utf8_decode_replace (drop (n - 1) bs)
      | Inr (c, n) \<Rightarrow> c # utf8_decode_replace (drop (n - 1) bs))"
  by pat_completeness auto
termination
  by (relation "measure length") auto

fun utf16_units :: "bool \<Rightarrow> nat list \<Rightarrow> nat list option" where
  "utf16_units big [] = Some []"
| "utf16_units big [b] = None"
| "utf16_units big (a # b # bs) = map_option ((#) (if big then a * 256 + b else b * 256 + a)) (utf16_units big bs)"

fun utf16_pairs :: "nat list \<Rightarrow> pystr option" where
  "utf16_pairs [] = Some []"
| "utf16_pairs (u # us) =
     (if 55296 \<le> u \<and> u \<le> 56319 then
        (case us of [] \<Rightarrow> None
         | v # vs \<Rightarrow> if 56320 \<le> v \<and> v \<le> 57343 then map_option ((#) (65536 + (u - 55296) * 1024 + (v - 56320))) (utf16_pairs vs)
             else None)
      else if 56320 \<le> u \<and> u \<le> 57343 then None
      else map_option ((#) u) (utf16_pairs us))"

text \<open>A byte order mark decides; without one the machine's order, little-endian.\<close>

definition utf16_decode :: "nat list \<Rightarrow> pystr option" where
  "utf16_decode bs =
     (if take 2 bs = [255, 254] then Option.bind (utf16_units False (drop 2 bs)) utf16_pairs
      else if take 2 bs = [254, 255] then Option.bind (utf16_units True (drop 2 bs)) utf16_pairs
      else Option.bind (utf16_units False bs) utf16_pairs)"

lemma utf8_decode_ascii: "(\<forall>b \<in> set bs. b < 128) \<Longrightarrow> utf8_decode bs = Some bs"
proof (induction bs)
  case (Cons b bs)
  then have "utf8_step b bs = Inr (b, 1)"
    by (auto simp: utf8_step_def lead_def good_conts_def lead_bits_def split: list.splits)
  with Cons show ?case by simp
qed simp

end
