(* ===== verification/Files.thy ===== *)
theory Files
  imports Model Codec
begin

text \<open>
  Uploaded files: type detection (\<open>app/ingestion/filetype.py\<close>), the shared volume
  (\<open>app/ingestion/storage.py\<close>) and the content digests (\<open>app/ingestion/hashing.py\<close>). The volume is an
  association list from paths to bytes; which paths the operating system accepts is a parameter.
\<close>

type_synonym bytes = "nat list"

subsection \<open>Type detection\<close>

definition ext_map :: "(pystr \<times> pystr) list" where
  "ext_map = [(lit ''.pdf'', lit ''pdf''), (lit ''.docx'', lit ''docx''), (lit ''.pptx'', lit ''pptx''), (lit ''.xlsx'', lit ''xlsx''),
     (lit ''.csv'', lit ''csv''), (lit ''.txt'', lit ''txt''), (lit ''.md'', lit ''md''), (lit ''.markdown'', lit ''md''),
     (lit ''.html'', lit ''html''), (lit ''.htm'', lit ''html''), (lit ''.png'', lit ''image''), (lit ''.jpg'', lit ''image''),
     (lit ''.jpeg'', lit ''image''), (lit ''.tif'', lit ''image''), (lit ''.tiff'', lit ''image''), (lit ''.bmp'', lit ''image'')]"

definition SUPPORTED :: "pystr set" where
  "SUPPORTED = snd ` set ext_map"

text \<open>\<open>os.path.splitext(name)[1]\<close>: from the last dot of the last path component, unless only dots precede it.\<close>

definition splitext_ext :: "pystr \<Rightarrow> pystr" where
  "splitext_ext name =
     (let base = last (split_str (lit ''/'') name);
          tail = rev (takeWhile (\<lambda>c. c \<noteq> 46) (rev base));
          stem = take (length base - length tail - 1) base
      in if 46 \<in> set base \<and> (\<exists>c \<in> set stem. c \<noteq> 46) then 46 # tail else [])"

datatype detect_error = Unsupported_zip pystr | Unsupported_type pystr

definition detect :: "pystr \<Rightarrow> bytes \<Rightarrow> detect_error + pystr" where
  "detect filename data =
     (let head = take 8 data in
      if prefix [37, 80, 68, 70] head then Inr (lit ''pdf'')
      else if prefix [137, 80, 78, 71] head \<or> take 3 head = [255, 216, 255] then Inr (lit ''image'')
      else if take 6 head = lit ''GIF87a'' \<or> take 6 head = lit ''GIF89a'' then Inr (lit ''image'')
      else let ext = lower (splitext_ext filename) in
        if take 2 head = [80, 75, 3, 4] then
          (if ext \<in> {lit ''.docx'', lit ''.pptx'', lit ''.xlsx''} then Inr (the (map_of ext_map ext))
           else Inl (Unsupported_zip filename))
        else (case map_of ext_map ext of Some t \<Rightarrow> Inr t | None \<Rightarrow> Inl (Unsupported_type filename)))"

text \<open>\<open>f"{name!r}"\<close>: the quotes and escapes of \<open>repr\<close>, on ASCII and Latin-1.\<close>

definition hex_digit :: "nat \<Rightarrow> nat" where
  "hex_digit n = (if n < 10 then 48 + n else 87 + n)"

definition repr_cp :: "nat \<Rightarrow> nat \<Rightarrow> pystr" where
  "repr_cp q c = (if c = q \<or> c = 92 then [92, c] else if c = 9 then lit [CHR 0x5C, CHR ''t''] else if c = 10 then lit [CHR 0x5C, CHR ''n'']
     else if c = 13 then lit [CHR 0x5C, CHR ''r'']
     else if c < 32 \<or> (127 \<le> c \<and> c \<le> 160) \<or> c = 173 then [92, 120, hex_digit (c div 16), hex_digit (c mod 16)] else [c])"

definition repr_str :: "pystr \<Rightarrow> pystr" where
  "repr_str s = (let q = (if 39 \<in> set s \<and> 34 \<notin> set s then 34 else 39) in q # concat (map (repr_cp q) s) @ [q])"

fun detect_error_text :: "detect_error \<Rightarrow> pystr" where
  "detect_error_text (Unsupported_zip f) = lit ''Unsupported OOXML/zip file: '' @ f"
| "detect_error_text (Unsupported_type f) = lit ''Unsupported file type: '' @ repr_str f"

lemma ext_map_SUPPORTED: "map_of ext_map e = Some t \<Longrightarrow> t \<in> SUPPORTED"
  by (force simp: SUPPORTED_def dest: map_of_SomeD)

lemma ooxml_extensions: "map_of ext_map (lit ''.docx'') = Some (lit ''docx'')" "map_of ext_map (lit ''.pptx'') = Some (lit ''pptx'')"
    "map_of ext_map (lit ''.xlsx'') = Some (lit ''xlsx'')"
  by (simp_all add: ext_map_def)

text \<open>The comparison of two bytes with a literal of four never succeeds.\<close>

lemma zip_magic_dead: "take 2 (take 8 (data :: bytes)) \<noteq> [80, 75, 3, 4]"
proof
  assume "take 2 (take 8 data) = [80, 75, 3, 4]"
  then have "length (take 2 (take 8 data)) = 4" by simp
  then show False by simp
qed

lemma set_SUPPORTED: "SUPPORTED = {lit ''pdf'', lit ''docx'', lit ''pptx'', lit ''xlsx'', lit ''csv'', lit ''txt'', lit ''md'', lit ''html'', lit ''image''}"
  by (auto simp: SUPPORTED_def ext_map_def)

lemma magic_SUPPORTED: "lit ''pdf'' \<in> SUPPORTED" "lit ''image'' \<in> SUPPORTED"
  by (simp_all add: set_SUPPORTED)

lemma txt_extension: "lower (splitext_ext (lit ''a.txt'')) = lit ''.txt''"
  by code_simp

definition magic_type :: "bytes \<Rightarrow> pystr option" where
  "magic_type data =
     (if prefix [37, 80, 68, 70] data then Some (lit ''pdf'')
      else if prefix [137, 80, 78, 71] data \<or> prefix [255, 216, 255] data \<or> prefix (lit ''GIF87a'') data \<or> prefix (lit ''GIF89a'') data
      then Some (lit ''image'') else None)"

lemma prefix_iff_take: "prefix p xs \<longleftrightarrow> take (length p) xs = p"
  by (metis append_eq_conv_conj prefix_def)

lemma prefix_take_iff: "length p \<le> n \<Longrightarrow> prefix p (take n xs) \<longleftrightarrow> prefix p xs"
  by (simp add: prefix_iff_take min_def)

lemma detect_eq: "detect f data = (case magic_type data of Some t \<Rightarrow> Inr t
      | None \<Rightarrow> (case map_of ext_map (lower (splitext_ext f)) of Some t \<Rightarrow> Inr t | None \<Rightarrow> Inl (Unsupported_type f)))"
proof -
  have "take 3 (take 8 data) = [255, 216, 255] \<longleftrightarrow> prefix [255, 216, 255] data"
      "take 6 (take 8 data) = lit ''GIF87a'' \<longleftrightarrow> prefix (lit ''GIF87a'') data"
      "take 6 (take 8 data) = lit ''GIF89a'' \<longleftrightarrow> prefix (lit ''GIF89a'') data"
    by (simp_all add: prefix_iff_take numeral_eq_Suc)
  moreover have "prefix [37, 80, 68, 70] (take 8 data) \<longleftrightarrow> prefix [37, 80, 68, 70] data"
      "prefix [137, 80, 78, 71] (take 8 data) \<longleftrightarrow> prefix [137, 80, 78, 71] data"
    by (simp_all add: prefix_take_iff)
  ultimately show ?thesis
    unfolding detect_def magic_type_def Let_def using zip_magic_dead [of data] by simp
qed

lemma detect_supported: "detect f data = Inr t \<Longrightarrow> t \<in> SUPPORTED"
  by (auto simp: detect_eq magic_type_def magic_SUPPORTED split: option.splits if_splits dest: ext_map_SUPPORTED)

text \<open>
  The type of an upload is decided by its first bytes where they are unambiguous, whatever the name,
  and by the extension alone otherwise: a zip archive renamed to \<open>.txt\<close> passes as text, because the check
  for the zip signature compares two bytes with four. Whatever is accepted is a supported type.
\<close>

theorem detect_by_content_then_name:
  "detect f data = (case magic_type data of Some t \<Rightarrow> Inr t
      | None \<Rightarrow> (case map_of ext_map (lower (splitext_ext f)) of Some t \<Rightarrow> Inr t | None \<Rightarrow> Inl (Unsupported_type f)))
   \<and> detect (lit ''a.txt'') ([80, 75, 3, 4] @ rest) = Inr (lit ''txt'')
   \<and> (\<exists>t. detect f data = Inr t) = (detect f data \<in> Inr ` SUPPORTED)"
proof -
  have ext: "lower (splitext_ext (lit ''a.txt'')) = lit ''.txt''" "map_of ext_map (lit ''.txt'') = Some (lit ''txt'')"
    by (simp_all add: txt_extension ext_map_def)
  have "magic_type ([80, 75, 3, 4] @ rest) = None" by (simp add: magic_type_def lit_Cons)
  with ext have "detect (lit ''a.txt'') ([80, 75, 3, 4] @ rest) = Inr (lit ''txt'')" by (simp add: detect_eq)
  moreover have "t \<in> SUPPORTED" if "detect f data = Inr t" for t
    using that by (rule detect_supported)
  ultimately show ?thesis using detect_eq [of f data] by (auto simp: image_iff)
qed

subsection \<open>The volume\<close>

type_synonym volume = "(pystr \<times> bytes) list"

definition safe_filename :: "pystr \<Rightarrow> pystr" where
  "safe_filename filename =
     (let name = strip (last (split_str (lit ''/'') (replace [92] (lit ''/'') filename)))
      in if name = [] \<or> name = lit ''.'' \<or> name = lit ''..'' then lit ''upload.bin'' else name)"

definition path_join :: "pystr \<Rightarrow> pystr \<Rightarrow> pystr" where
  "path_join a b = (if prefix (lit ''/'') b then b else if a = [] \<or> last a = 47 then a @ b else a @ lit ''/'' @ b)"

definition document_dir :: "pystr \<Rightarrow> uuid \<Rightarrow> pystr" where
  "document_dir sdir doc = path_join sdir (str_uuid doc)"

definition document_path :: "pystr \<Rightarrow> uuid \<Rightarrow> pystr \<Rightarrow> pystr" where
  "document_path sdir doc filename = path_join (document_dir sdir doc) (safe_filename filename)"

text \<open>\<open>os_ok\<close>: the paths the operating system lets the process create. \<open>None\<close> is the exception.\<close>

definition save_document :: "(pystr \<Rightarrow> bool) \<Rightarrow> pystr \<Rightarrow> uuid \<Rightarrow> pystr \<Rightarrow> bytes \<Rightarrow> volume \<Rightarrow> (pystr \<times> volume) option" where
  "save_document os_ok sdir doc filename data v =
     (let path = document_path sdir doc filename
      in if os_ok path then Some (path, (path, data) # filter (\<lambda>f. fst f \<noteq> path) v) else None)"

definition read_document :: "pystr \<Rightarrow> uuid \<Rightarrow> pystr \<Rightarrow> volume \<Rightarrow> bytes option" where
  "read_document sdir doc filename v = map_of v (document_path sdir doc filename)"

definition delete_document_files :: "pystr \<Rightarrow> uuid \<Rightarrow> volume \<Rightarrow> volume" where
  "delete_document_files sdir doc v = filter (\<lambda>f. \<not> prefix (document_dir sdir doc @ lit ''/'') (fst f)) v"

text \<open>\<open>sha\<close>: SHA-256 as a hexadecimal string. Text that cannot be encoded raises.\<close>

definition content_hash :: "(bytes \<Rightarrow> pystr) \<Rightarrow> bytes \<Rightarrow> pystr" where
  "content_hash sha data = sha data"

definition text_hash :: "(bytes \<Rightarrow> pystr) \<Rightarrow> pystr \<Rightarrow> pystr option" where
  "text_hash sha t = map_option sha (utf8 t)"

subsection \<open>File names cannot escape\<close>

lemma replace1_free: "c \<noteq> d \<Longrightarrow> c \<notin> set (replace [c] [d] s)"
  by (auto simp: replace_def join_def split: list.splits dest: split_str1_free)
    (metis list.set_intros(1,2) split_str1_free)+

lemma last_split_free: "c \<notin> set (last (split_str [c] s))"
  using split_str1_free [of "last (split_str [c] s)" c s] by auto

lemma strip_clean: "set (strip s) \<subseteq> set s"
  by (simp add: strip_def set_strip_by)

lemma safe_filename_raw:
  obtains "safe_filename f = lit ''upload.bin''"
  | n where "safe_filename f = strip n" and "47 \<notin> set n" and "92 \<notin> set n" and "strip n \<noteq> []"
      and "strip n \<noteq> lit ''.''" and "strip n \<noteq> lit ''..''"
proof -
  let ?n = "last (split_str [47] (replace [92] [47] f))"
  have "47 \<notin> set ?n" by (rule last_split_free)
  moreover have "92 \<notin> set ?n"
    using replace1_free [of 92 47 f] split_str1_subset [of ?n 47 "replace [92] [47] f"] by auto
  moreover have "lit ''/'' = [47]" by (simp add: lit_def)
  ultimately show thesis
    using that by (simp add: safe_filename_def Let_def) (metis (full_types))
qed

lemma safe_filename_safe:
  "47 \<notin> set (safe_filename f) \<and> 92 \<notin> set (safe_filename f) \<and> safe_filename f \<notin> {[], lit ''.'', lit ''..''}"
  by (rule safe_filename_raw [of f]) (auto simp: lit_def dest: subsetD [OF strip_clean])

lemma upload_bin_strip: "strip (lit ''upload.bin'') = lit ''upload.bin''"
  unfolding strip_def by (rule strip_by_id) (simp_all add: is_space_def lit_def)

lemma safe_filename_idem [simp]: "safe_filename (safe_filename f) = safe_filename f"
proof -
  let ?s = "safe_filename f"
  have s: "47 \<notin> set ?s" "92 \<notin> set ?s" "?s \<notin> {[], lit ''.'', lit ''..''}" using safe_filename_safe by auto
  have "strip ?s = ?s" by (rule safe_filename_raw [of f]) (simp_all add: upload_bin_strip)
  moreover have "last (split_str [47] ?s) = ?s"
    using s(1) by (simp add: split_str_no_sep cut1_None)
  ultimately show ?thesis
    using s by (simp add: safe_filename_def [of ?s] replace_absent lit_Cons)
qed

lemma str_uuid_no_slash: "47 \<notin> set (str_uuid u)"
  using str_uuid_chars by fastforce

lemma not_prefix_slash: "47 \<notin> set s \<Longrightarrow> \<not> prefix (lit ''/'') s"
  by (auto simp: prefix_def lit_def)

lemma document_dir_simp: "document_dir sdir doc = (if sdir = [] \<or> last sdir = 47 then sdir else sdir @ lit ''/'') @ str_uuid doc"
  using str_uuid_no_slash [of doc] by (auto simp: document_dir_def path_join_def not_prefix_slash)

lemma document_path_simp: "document_path sdir doc f = document_dir sdir doc @ lit ''/'' @ safe_filename f"
proof -
  have "str_uuid doc \<noteq> []" by simp
  then have "document_dir sdir doc \<noteq> []" "last (document_dir sdir doc) \<noteq> 47"
    using str_uuid_no_slash [of doc] by (simp_all add: document_dir_simp) (metis last_in_set str_uuid_ne)
  then show ?thesis
    using safe_filename_safe [of f] by (simp add: document_path_def path_join_def not_prefix_slash)
qed

lemma str_uuid_length: "length (str_uuid u) = 36"
  by (simp add: str_uuid_def Let_def)

lemma str_uuid_prefix: "prefix (str_uuid d @ lit ''/'' @ s) (str_uuid e @ t) \<Longrightarrow> d = e"
proof -
  assume "prefix (str_uuid d @ lit ''/'' @ s) (str_uuid e @ t)"
  then obtain z where "str_uuid d @ lit ''/'' @ s @ z = str_uuid e @ t" by (auto simp: prefix_def)
  then have "str_uuid d = str_uuid e" by (simp add: str_uuid_length)
  then show "d = e" by simp
qed

lemma path_in_dir: "prefix (document_dir sdir d @ lit ''/'') (document_path sdir e f) \<longleftrightarrow> d = e"
proof
  assume "prefix (document_dir sdir d @ lit ''/'') (document_path sdir e f)"
  then show "d = e"
    using str_uuid_prefix [of d "[]" e "lit ''/'' @ safe_filename f"]
    by (simp add: document_path_simp document_dir_simp split: if_splits)
qed (simp add: document_path_simp)

lemma path_inject: "document_path sdir d f = document_path sdir e g \<Longrightarrow> d = e"
  using path_in_dir [of sdir d d f] path_in_dir [of sdir d e g] by simp

lemma map_of_drop_key: "map_of (filter (\<lambda>f. fst f \<noteq> p) v) q = (if q = p then None else map_of v q)"
  by (induction v) auto

lemma map_of_filter_path: "map_of (filter (\<lambda>f. P (fst f)) v) q = (if P q then map_of v q else None)"
  by (induction v) auto

lemma read_after_save:
  "save_document ok sdir d f data v = Some (path, v') \<Longrightarrow>
    read_document sdir e g v' = (if document_path sdir e g = document_path sdir d f then Some data else read_document sdir e g v)"
  by (auto simp: save_document_def read_document_def Let_def map_of_drop_key split: if_splits)

lemma read_after_delete: "read_document sdir e g (delete_document_files sdir d v) = (if d = e then None else read_document sdir e g v)"
  using map_of_filter_path [of "\<lambda>p. \<not> prefix (document_dir sdir d @ lit ''/'') p" v "document_path sdir e g"]
  by (simp add: delete_document_files_def read_document_def path_in_dir)

text \<open>
  C22. Whatever name the client sends, the file is stored directly inside the directory of its document:
  the stored name has no separator and is neither empty nor a dot name, and sanitising it again, as the
  worker does when it reads by the name in the database, gives the same path. So the worker reads the
  uploaded bytes until the document's own files are deleted, whatever happens to other documents.
\<close>

theorem storage_confined_roundtrip:
  assumes "save_document ok sdir d f data v = Some (path, v1)"
  shows "path = document_dir sdir d @ lit ''/'' @ safe_filename f
    \<and> 47 \<notin> set (safe_filename f) \<and> 92 \<notin> set (safe_filename f) \<and> safe_filename f \<notin> {[], lit ''.'', lit ''..''}
    \<and> read_document sdir d (safe_filename f) v1 = Some data
    \<and> (\<forall>e g data2 path2 v2. e \<noteq> d \<longrightarrow> save_document ok sdir e g data2 v1 = Some (path2, v2)
          \<longrightarrow> read_document sdir d (safe_filename f) v2 = Some data \<and> read_document sdir d (safe_filename f) (delete_document_files sdir e v1) = Some data)
    \<and> read_document sdir d g (delete_document_files sdir d v1) = None"
proof -
  have "path = document_path sdir d f"
    using assms by (auto simp: save_document_def Let_def split: if_splits)
  moreover have same: "document_path sdir d (safe_filename f) = document_path sdir d f" by (simp add: document_path_simp)
  moreover have "read_document sdir d (safe_filename f) v1 = Some data" using same by (simp add: read_after_save [OF assms])
  moreover have "read_document sdir d (safe_filename f) v2 = Some data"
    if "e \<noteq> d" "save_document ok sdir e g data2 v1 = Some (path2, v2)" for e g data2 path2 v2
    using that calculation(3) by (auto simp: read_after_save [OF that(2)] dest: path_inject)
  ultimately show ?thesis
    using safe_filename_safe [of f] by (auto simp: document_path_simp read_after_delete)
qed

lemma storage_confined_roundtrip_witness:
  "\<exists>path v1. save_document (\<lambda>_. True) (lit ''/data'') 7 (lit ''../../etc/passwd'') [1, 2] [] = Some (path, v1)
     \<and> path = document_dir (lit ''/data'') 7 @ lit ''/'' @ lit ''passwd'' \<and> read_document (lit ''/data'') 7 (lit ''passwd'') v1 = Some [1, 2]"
proof -
  have safe: "safe_filename (lit ''../../etc/passwd'') = lit ''passwd''" by code_simp
  obtain path v1 where s: "save_document (\<lambda>_. True) (lit ''/data'') 7 (lit ''../../etc/passwd'') [1, 2] [] = Some (path, v1)"
    by (simp add: save_document_def Let_def)
  show ?thesis using storage_confined_roundtrip [OF s] s by (auto simp: safe)
qed

end
