(* ===== verification/Config.thy ===== *)
theory Config
  imports Prelude
begin

text \<open>
  The settings of \<open>app/config.py\<close> that the modelled code reads, grouped as the sections of the
  class, with the defaults of the source, and the derived connection strings. Rational fields are
  the source's floats; the chunker's ratio is kept as a fraction.
\<close>

record cfg_store =
  postgres_user :: pystr
  postgres_password :: pystr
  postgres_db :: pystr
  postgres_host :: pystr
  postgres_port :: nat
  redis_host :: pystr
  redis_port :: nat
  redis_db :: nat
  qdrant_host :: pystr
  qdrant_http_port :: nat
  cors_origins :: pystr

record cfg_model =
  llm_backend :: pystr
  llm_reasoning_effort :: pystr
  llm_multimodal :: bool
  embeddings_backend :: pystr
  reranker_backend :: pystr
  embedding_dim :: nat
  minio_bucket_figures :: pystr
  minio_bucket_pages :: pystr
  vlm_base_url :: pystr
  visual_path :: pystr
  colqwen_base_url :: pystr
  page_render_max_px :: nat

record cfg_auth =
  access_token_ttl_min :: nat
  refresh_token_ttl_days :: nat

record cfg_ingest =
  parser_backend :: pystr
  eval_enabled :: bool
  chunk_target_chars :: nat
  chunk_overlap_chars :: nat
  chunk_min_tokens :: nat
  chunk_max_tokens :: nat
  chunk_overlap_ratio :: rat
  table_row_serialize_threshold :: nat

record cfg_retrieval =
  retrieval_top_k :: nat
  retrieval_top_n :: nat
  visual_top_k_pages :: nat
  metadata_max_documents :: nat
  context_token_budget :: nat
  context_max_images :: nat
  fusion_rrf_k :: nat
  semantic_cache_similarity :: rat
  semantic_cache_ttl_s :: rat
  semantic_cache_purge_interval_s :: rat

record cfg_breakers =
  max_graph_iterations :: nat
  max_retrieval_retries :: nat
  max_generation_retries :: nat
  hallucination_check_enabled :: bool
  max_indexing_retries :: nat
  max_request_duration_s :: nat
  per_user_max_inflight :: int
  per_user_requests_per_min :: int
  global_max_inflight :: int

definition default_store :: cfg_store where
  "default_store = \<lparr>postgres_user = lit ''rag'', postgres_password = lit ''rag'',
     postgres_db = lit ''rag'', postgres_host = lit ''postgres'', postgres_port = 5432,
     redis_host = lit ''redis'', redis_port = 6379, redis_db = 0,
     qdrant_host = lit ''qdrant'', qdrant_http_port = 6333,
     cors_origins = lit ''http://localhost:8080''\<rparr>"

definition default_model :: cfg_model where
  "default_model = \<lparr>llm_backend = lit ''ollama'', llm_reasoning_effort = [],
     llm_multimodal = False, embeddings_backend = lit ''hashing'',
     reranker_backend = lit ''lexical'', embedding_dim = 1024,
     minio_bucket_figures = lit ''figures'', minio_bucket_pages = lit ''pages'',
     vlm_base_url = lit ''http://vlm:8002'', visual_path = lit ''degraded'',
     colqwen_base_url = lit ''http://colqwen:8003'', page_render_max_px = 1024\<rparr>"

definition default_auth :: cfg_auth where
  "default_auth = \<lparr>access_token_ttl_min = 15, refresh_token_ttl_days = 7\<rparr>"

definition default_ingest :: cfg_ingest where
  "default_ingest = \<lparr>parser_backend = lit ''docling'', eval_enabled = True,
     chunk_target_chars = 1200, chunk_overlap_chars = 150, chunk_min_tokens = 350,
     chunk_max_tokens = 600, chunk_overlap_ratio = 3 / 20,
     table_row_serialize_threshold = 8\<rparr>"

definition default_retrieval :: cfg_retrieval where
  "default_retrieval = \<lparr>retrieval_top_k = 20, retrieval_top_n = 5, visual_top_k_pages = 4,
     metadata_max_documents = 10, context_token_budget = 3000, context_max_images = 4,
     fusion_rrf_k = 60, semantic_cache_similarity = 19 / 20, semantic_cache_ttl_s = 86400,
     semantic_cache_purge_interval_s = 3600\<rparr>"

definition default_breakers :: cfg_breakers where
  "default_breakers = \<lparr>max_graph_iterations = 25, max_retrieval_retries = 2,
     max_generation_retries = 1, hallucination_check_enabled = True, max_indexing_retries = 3,
     max_request_duration_s = 90, per_user_max_inflight = 3, per_user_requests_per_min = 60,
     global_max_inflight = 40\<rparr>"

subsection \<open>Derived connection strings\<close>

definition pg_url :: "string \<Rightarrow> cfg_store \<Rightarrow> pystr" where
  "pg_url scheme c = lit scheme @ lit ''://'' @ postgres_user c @ lit '':'' @ postgres_password c
     @ lit ''@'' @ postgres_host c @ lit '':'' @ nat_str (postgres_port c) @ lit ''/''
     @ postgres_db c"

definition database_url_async :: "cfg_store \<Rightarrow> pystr" where
  "database_url_async c = pg_url ''postgresql+asyncpg'' c"

definition database_url_sync :: "cfg_store \<Rightarrow> pystr" where
  "database_url_sync c = pg_url ''postgresql+psycopg2'' c"

definition database_url_psycopg :: "cfg_store \<Rightarrow> pystr" where
  "database_url_psycopg c = pg_url ''postgresql'' c"

definition redis_url :: "cfg_store \<Rightarrow> pystr" where
  "redis_url c = lit ''redis://'' @ redis_host c @ lit '':'' @ nat_str (redis_port c) @ lit ''/''
     @ nat_str (redis_db c)"

definition qdrant_url :: "cfg_store \<Rightarrow> pystr" where
  "qdrant_url c = lit ''http://'' @ qdrant_host c @ lit '':'' @ nat_str (qdrant_http_port c)"

definition cors_origin_list :: "cfg_store \<Rightarrow> pystr list" where
  "cors_origin_list c = map strip (filter (\<lambda>o'. strip o' \<noteq> []) (split_str (lit '','') (cors_origins c)))"

lemma cors_origins_clean:
  assumes "o' \<in> set (cors_origin_list c)"
  shows "o' \<noteq> []" and "strip o' = o'" and "44 \<notin> set o'"
proof -
  obtain p where p: "p \<in> set (split_str [44] (cors_origins c))" "strip p \<noteq> []" "o' = strip p"
    using assms by (auto simp: cors_origin_list_def lit_def)
  then show "o' \<noteq> []" "strip o' = o'" by auto
  show "44 \<notin> set o'"
    using p split_str1_free [OF p(1)] set_strip_by by (auto simp: strip_def)
qed

end
