(* ===== verification/SemCache.thy ===== *)
theory SemCache
  imports Rbac Config "HOL-Library.List_Lexorder"
begin

text \<open>
  The permission-scoped semantic cache, \<open>app/retrieval/semantic_cache.py\<close> and the wrappers of
  \<open>app/services/cache.py\<close>. State: the Qdrant collection (points with payload) and the Redis tag sets.
  The embedder, the hash and the nearest-neighbour query are parameters; what is relied on of the
  query is \<open>query_laws\<close>. Entry ids are strings in Redis and Qdrant; \<open>str_uuid\<close> is injective, so the
  model keeps the ids themselves.
\<close>

type_synonym vec = "rat list"

record cache_payload =
  cp_answer :: pystr
  cp_query :: pystr
  cp_colls :: "pystr list"
  cp_docs :: "pystr list"
  cp_cites :: "citation list"
  cp_scope :: "pystr option"
  cp_created :: time

record cache_point =
  pt_id :: uuid
  pt_vec :: vec
  pt_payload :: cache_payload

datatype cache_tag = TagColl pystr | TagDoc pystr

record sem_cache =
  sc_exists :: bool
  sc_points :: "cache_point list"
  sc_tags :: "cache_tag \<Rightarrow> uuid list"

record cache_hit =
  hit_answer :: pystr
  hit_query :: pystr
  hit_score :: rat
  hit_colls :: "pystr list"
  hit_docs :: "pystr list"
  hit_cites :: "citation list"

definition empty_cache :: sem_cache where
  "empty_cache = \<lparr>sc_exists = False, sc_points = [], sc_tags = (\<lambda>_. [])\<rparr>"

text \<open>\<open>query vector admissible limit threshold points\<close>: the scored points of a filtered search.\<close>

type_synonym point_query =
  "vec \<Rightarrow> (cache_payload \<Rightarrow> bool) \<Rightarrow> nat \<Rightarrow> rat \<Rightarrow> cache_point list \<Rightarrow> (rat \<times> cache_point) list"

definition scope_string :: "uuid set \<Rightarrow> pystr" where
  "scope_string S = join [124] (sorted_list_of_set (str_uuid ` S))"

definition scope_hash :: "(pystr \<Rightarrow> pystr) \<Rightarrow> uuid set \<Rightarrow> pystr" where
  "scope_hash sha S = sha (scope_string S)"

definition ensure_collection :: "sem_cache \<Rightarrow> sem_cache" where
  "ensure_collection c = (if sc_exists c then c else c\<lparr>sc_exists := True\<rparr>)"

definition stale :: "cfg_retrieval \<Rightarrow> time \<Rightarrow> cache_payload \<Rightarrow> bool" where
  "stale cfg now p \<longleftrightarrow> now - cp_created p > semantic_cache_ttl_s cfg"

definition delete_points :: "uuid list \<Rightarrow> sem_cache \<Rightarrow> sem_cache" where
  "delete_points ids c = c\<lparr>sc_points := filter (\<lambda>p. pt_id p \<notin> set ids) (sc_points c)\<rparr>"

subsection \<open>Lookup\<close>

definition hit_of :: "rat \<Rightarrow> cache_point \<Rightarrow> cache_hit" where
  "hit_of score p = \<lparr>hit_answer = cp_answer (pt_payload p), hit_query = cp_query (pt_payload p), hit_score = score,
     hit_colls = remdups (cp_colls (pt_payload p)), hit_docs = cp_docs (pt_payload p), hit_cites = cp_cites (pt_payload p)\<rparr>"

fun scan :: "cfg_retrieval \<Rightarrow> pystr set \<Rightarrow> time \<Rightarrow> (rat \<times> cache_point) list \<Rightarrow> uuid list \<Rightarrow> cache_hit option
    \<Rightarrow> uuid list \<times> cache_hit option" where
  "scan cfg allowed now [] st h = (st, h)"
| "scan cfg allowed now ((score, p) # ps) st h =
     (if stale cfg now (pt_payload p) then scan cfg allowed now ps (st @ [pt_id p]) h
      else if \<not> set (cp_colls (pt_payload p)) \<subseteq> allowed then scan cfg allowed now ps st h
      else scan cfg allowed now ps st (if h = None then Some (hit_of score p) else h))"

text \<open>\<open>evict_ok\<close>: whether the best-effort deletion of stale entries succeeds.\<close>

definition lookup ::
  "(pystr \<Rightarrow> pystr) \<Rightarrow> (pystr \<Rightarrow> vec) \<Rightarrow> point_query \<Rightarrow> cfg_retrieval \<Rightarrow> bool \<Rightarrow> uuid set \<Rightarrow> pystr \<Rightarrow> time
     \<Rightarrow> sem_cache \<Rightarrow> cache_hit option \<times> sem_cache" where
  "lookup sha emb qry cfg evict_ok allowed q now c =
     (if blank q \<or> \<not> sc_exists c then (None, c)
      else let found = qry (emb q) (\<lambda>p. cp_scope p = Some (scope_hash sha allowed)) 5 (semantic_cache_similarity cfg)
                         (sc_points c);
               (st, h) = scan cfg (str_uuid ` allowed) now found [] None
           in (h, if st \<noteq> [] \<and> evict_ok then delete_points st c else c))"

subsection \<open>Store\<close>

definition store_upsert ::
  "(pystr \<Rightarrow> pystr) \<Rightarrow> (pystr \<Rightarrow> vec) \<Rightarrow> uuid \<Rightarrow> pystr \<Rightarrow> pystr \<Rightarrow> uuid list \<Rightarrow> uuid list \<Rightarrow> uuid set option
     \<Rightarrow> citation list \<Rightarrow> time \<Rightarrow> sem_cache \<Rightarrow> sem_cache" where
  "store_upsert sha emb eid q answer colls docs scope cites now c =
     (let c1 = ensure_collection c;
          p = \<lparr>cp_answer = answer, cp_query = q, cp_colls = map str_uuid colls, cp_docs = map str_uuid docs,
               cp_cites = cites,
               cp_scope = Some (scope_hash sha (case scope of Some s \<Rightarrow> s | None \<Rightarrow> set colls)), cp_created = now\<rparr>
      in c1\<lparr>sc_points := filter (\<lambda>x. pt_id x \<noteq> eid) (sc_points c1) @ [\<lparr>pt_id = eid, pt_vec = emb q, pt_payload = p\<rparr>]\<rparr>)"

definition sadd :: "uuid \<Rightarrow> cache_tag \<Rightarrow> (cache_tag \<Rightarrow> uuid list) \<Rightarrow> cache_tag \<Rightarrow> uuid list" where
  "sadd x k tags = tags(k := List.insert x (tags k))"

definition store_tag :: "uuid \<Rightarrow> uuid list \<Rightarrow> uuid list \<Rightarrow> sem_cache \<Rightarrow> sem_cache" where
  "store_tag eid colls docs c =
     c\<lparr>sc_tags := fold (sadd eid) (map (TagColl \<circ> str_uuid) colls @ map (TagDoc \<circ> str_uuid) docs) (sc_tags c)\<rparr>"

definition store ::
  "(pystr \<Rightarrow> pystr) \<Rightarrow> (pystr \<Rightarrow> vec) \<Rightarrow> uuid \<Rightarrow> pystr \<Rightarrow> pystr \<Rightarrow> uuid list \<Rightarrow> uuid list \<Rightarrow> uuid set option
     \<Rightarrow> citation list \<Rightarrow> time \<Rightarrow> sem_cache \<Rightarrow> sem_cache" where
  "store sha emb eid q answer colls docs scope cites now c =
     store_tag eid colls docs (store_upsert sha emb eid q answer colls docs scope cites now c)"

subsection \<open>Invalidation and expiry\<close>

definition evict :: "cache_tag \<Rightarrow> sem_cache \<Rightarrow> nat \<times> sem_cache" where
  "evict k c = (let ids = sc_tags c k in
     if ids = [] then (0, c)
     else (length ids, (delete_points ids c)\<lparr>sc_tags := (sc_tags c)(k := [])\<rparr>))"

definition invalidate_document :: "uuid \<Rightarrow> sem_cache \<Rightarrow> nat \<times> sem_cache" where
  "invalidate_document d = evict (TagDoc (str_uuid d))"

definition invalidate_collection :: "uuid \<Rightarrow> sem_cache \<Rightarrow> nat \<times> sem_cache" where
  "invalidate_collection cid = evict (TagColl (str_uuid cid))"

definition purge_expired :: "cfg_retrieval \<Rightarrow> time \<Rightarrow> sem_cache \<Rightarrow> nat \<times> sem_cache" where
  "purge_expired cfg now c =
     (if \<not> sc_exists c then (0, c)
      else let old = (\<lambda>p. cp_created (pt_payload p) < now - semantic_cache_ttl_s cfg);
               before = length (filter old (sc_points c))
           in (before, if before = 0 then c else c\<lparr>sc_points := filter (\<lambda>p. \<not> old p) (sc_points c)\<rparr>))"

subsection \<open>What is relied on of the similarity search\<close>

definition query_laws :: "(vec \<Rightarrow> vec \<Rightarrow> rat) \<Rightarrow> point_query \<Rightarrow> bool" where
  "query_laws sim qry \<longleftrightarrow>
     (\<forall>v adm n th ps. set (map snd (qry v adm n th ps)) \<subseteq> set ps
        \<and> (\<forall>(sc, p) \<in> set (qry v adm n th ps). adm (pt_payload p) \<and> sc = sim v (pt_vec p) \<and> th \<le> sc)
        \<and> length (qry v adm n th ps) \<le> n
        \<and> (length (filter (\<lambda>p. adm (pt_payload p) \<and> th \<le> sim v (pt_vec p)) ps) \<le> n \<longrightarrow>
             (\<forall>p \<in> set ps. adm (pt_payload p) \<longrightarrow> th \<le> sim v (pt_vec p) \<longrightarrow> p \<in> snd ` set (qry v adm n th ps))))"

lemma query_member:
  assumes "query_laws sim qry" and "(sc, p) \<in> set (qry v adm n th ps)"
  shows "p \<in> set ps" "adm (pt_payload p)" "sc = sim v (pt_vec p)" "th \<le> sc"
proof -
  have "set (map snd (qry v adm n th ps)) \<subseteq> set ps"
    and "\<forall>(sc, p) \<in> set (qry v adm n th ps). adm (pt_payload p) \<and> sc = sim v (pt_vec p) \<and> th \<le> sc"
    using assms(1) unfolding query_laws_def by blast+
  with assms(2) show "p \<in> set ps" "adm (pt_payload p)" "sc = sim v (pt_vec p)" "th \<le> sc" by force+
qed

lemma query_complete:
  assumes "query_laws sim qry" and "p \<in> set ps" and "adm (pt_payload p)" and "th \<le> sim v (pt_vec p)"
    and "length (filter (\<lambda>p. adm (pt_payload p) \<and> th \<le> sim v (pt_vec p)) ps) \<le> n"
  shows "p \<in> snd ` set (qry v adm n th ps)"
  using assms unfolding query_laws_def by blast

text \<open>The exact search satisfies the laws.\<close>

definition exact_query :: "(vec \<Rightarrow> vec \<Rightarrow> rat) \<Rightarrow> point_query" where
  "exact_query sim v adm n th ps =
     take n (sort_key (\<lambda>(sc, p). - sc) (map (\<lambda>p. (sim v (pt_vec p), p))
       (filter (\<lambda>p. adm (pt_payload p) \<and> th \<le> sim v (pt_vec p)) ps)))"

lemma exact_query_laws: "query_laws sim (exact_query sim)"
  by (auto simp: query_laws_def exact_query_def image_image dest!: in_set_takeD)

subsection \<open>The interface of an index that is purged by key\<close>

locale purgeable =
  fixes inv :: "'s \<Rightarrow> bool" and entries :: "'s \<Rightarrow> 'e set" and about :: "'k \<Rightarrow> 'e \<Rightarrow> bool" and purge :: "'k \<Rightarrow> 's \<Rightarrow> 's"
  assumes purge_inv: "inv s \<Longrightarrow> inv (purge k s)"
    and purge_entries: "inv s \<Longrightarrow> entries (purge k s) = {e \<in> entries s. \<not> about k e}"
begin

lemma purged: "inv s \<Longrightarrow> e \<in> entries (purge k s) \<Longrightarrow> \<not> about k e"
  by (simp add: purge_entries)

lemma kept: "inv s \<Longrightarrow> e \<in> entries s \<Longrightarrow> \<not> about k e \<Longrightarrow> e \<in> entries (purge k s)"
  by (simp add: purge_entries)

lemma purge_idem: "inv s \<Longrightarrow> entries (purge k (purge k s)) = entries (purge k s)"
  by (auto simp: purge_entries purge_inv)

lemma purge_commute: "inv s \<Longrightarrow> entries (purge k (purge l s)) = entries (purge l (purge k s))"
  by (auto simp: purge_entries purge_inv)

lemma purge_all: "inv s \<Longrightarrow> inv (fold purge ks s) \<and> entries (fold purge ks s) = {e \<in> entries s. \<forall>k \<in> set ks. \<not> about k e}"
  by (induction ks arbitrary: s) (auto simp: purge_entries purge_inv)

end

subsection \<open>The tag invariant\<close>

text \<open>\<open>h\<close> remembers for every entry id ever used the scope it was stored under.\<close>

definition cache_inv :: "(pystr \<Rightarrow> pystr) \<Rightarrow> sem_cache \<Rightarrow> (uuid \<Rightarrow> uuid set option) \<Rightarrow> bool" where
  "cache_inv sha c h \<longleftrightarrow>
     (\<forall>p \<in> set (sc_points c). \<exists>S. h (pt_id p) = Some S \<and> cp_scope (pt_payload p) = Some (scope_hash sha S)) \<and>
     (\<forall>p \<in> set (sc_points c). \<forall>d. pt_id p \<in> set (sc_tags c (TagDoc d)) \<longleftrightarrow> d \<in> set (cp_docs (pt_payload p))) \<and>
     (\<forall>p \<in> set (sc_points c). \<forall>d. pt_id p \<in> set (sc_tags c (TagColl d)) \<longleftrightarrow> d \<in> set (cp_colls (pt_payload p))) \<and>
     (\<forall>k x. x \<in> set (sc_tags c k) \<longrightarrow> h x \<noteq> None)"

lemma cache_inv_subset:
  "cache_inv sha c h \<Longrightarrow> set (sc_points c') \<subseteq> set (sc_points c) \<Longrightarrow> sc_tags c' = sc_tags c \<Longrightarrow> cache_inv sha c' h"
  unfolding cache_inv_def by (auto dest: subsetD)

lemma set_fold_sadd:
  "x \<in> set (fold (sadd e) ks tags k) \<longleftrightarrow> x \<in> set (tags k) \<or> (x = e \<and> k \<in> set ks)"
  by (induction ks arbitrary: tags) (auto simp: sadd_def)

lemma store_points:
  "set (sc_points (store sha emb eid q a colls docs scope cites now c)) =
     insert \<lparr>pt_id = eid, pt_vec = emb q, pt_payload = \<lparr>cp_answer = a, cp_query = q, cp_colls = map str_uuid colls,
       cp_docs = map str_uuid docs, cp_cites = cites,
       cp_scope = Some (scope_hash sha (case scope of Some s \<Rightarrow> s | None \<Rightarrow> set colls)), cp_created = now\<rparr>\<rparr>
     {p \<in> set (sc_points c). pt_id p \<noteq> eid}"
  by (auto simp: store_def store_tag_def store_upsert_def ensure_collection_def Let_def)

lemma store_tags:
  "x \<in> set (sc_tags (store sha emb eid q a colls docs scope cites now c) k) \<longleftrightarrow>
     x \<in> set (sc_tags c k) \<or> (x = eid \<and> (k \<in> (TagColl \<circ> str_uuid) ` set colls \<or> k \<in> (TagDoc \<circ> str_uuid) ` set docs))"
  by (simp add: store_def store_tag_def store_upsert_def ensure_collection_def Let_def set_fold_sadd image_Un) auto

lemma cache_inv_store:
  assumes "cache_inv sha c h" and "h eid = None"
  shows "cache_inv sha (store sha emb eid q a colls docs scope cites now c)
           (h(eid \<mapsto> case scope of Some s \<Rightarrow> s | None \<Rightarrow> set colls))"
proof -
  have new: "eid \<notin> set (sc_tags c k)" for k using assms unfolding cache_inv_def by blast
  show ?thesis
    using assms(1) new unfolding cache_inv_def store_points store_tags
    by (intro conjI ballI allI) (auto simp: image_iff)
qed

lemma cache_inv_evict: "cache_inv sha c h \<Longrightarrow> cache_inv sha (snd (evict k c)) h"
  unfolding cache_inv_def evict_def Let_def delete_points_def by auto

lemma cache_inv_purge: "cache_inv sha c h \<Longrightarrow> cache_inv sha (snd (purge_expired cfg now c)) h"
  by (rule cache_inv_subset [of sha c]) (auto simp: purge_expired_def Let_def)

lemma cache_inv_lookup: "cache_inv sha c h \<Longrightarrow> lookup sha emb qry cfg ok al q now c = (r, c') \<Longrightarrow> cache_inv sha c' h"
  by (rule cache_inv_subset [of sha c])
    (auto simp: lookup_def Let_def delete_points_def split: prod.splits if_splits)

subsection \<open>Histories of the cache\<close>

inductive cache_run ::
  "(pystr \<Rightarrow> pystr) \<Rightarrow> (pystr \<Rightarrow> vec) \<Rightarrow> point_query \<Rightarrow> cfg_retrieval \<Rightarrow> sem_cache \<Rightarrow> (uuid \<Rightarrow> uuid set option) \<Rightarrow> bool"
  for sha emb qry cfg where
  init: "cache_run sha emb qry cfg empty_cache (\<lambda>_. None)"
| store: "cache_run sha emb qry cfg c h \<Longrightarrow> h eid = None \<Longrightarrow>
    cache_run sha emb qry cfg (store sha emb eid q a colls docs scope cites now c)
      (h(eid \<mapsto> case scope of Some s \<Rightarrow> s | None \<Rightarrow> set colls))"
| look_up: "cache_run sha emb qry cfg c h \<Longrightarrow> lookup sha emb qry cfg ok al q now c = (r, c') \<Longrightarrow>
    cache_run sha emb qry cfg c' h"
| evict_doc: "cache_run sha emb qry cfg c h \<Longrightarrow> cache_run sha emb qry cfg (snd (invalidate_document d c)) h"
| evict_coll: "cache_run sha emb qry cfg c h \<Longrightarrow> cache_run sha emb qry cfg (snd (invalidate_collection d c)) h"
| expire: "cache_run sha emb qry cfg c h \<Longrightarrow> cache_run sha emb qry cfg (snd (purge_expired cfg now c)) h"

lemma cache_run_inv: "cache_run sha emb qry cfg c h \<Longrightarrow> cache_inv sha c h"
proof (induction rule: cache_run.induct)
  case init
  then show ?case by (simp add: cache_inv_def empty_cache_def)
next
  case (store c h eid q a colls docs scope cites now)
  then show ?case by (intro cache_inv_store)
qed (auto intro: cache_inv_lookup cache_inv_evict cache_inv_purge
      simp: invalidate_document_def invalidate_collection_def)

text \<open>Eviction by tag removes exactly the entries that used the document, or the collection.\<close>

lemma evict_points: "set (sc_points (snd (evict k c))) = {p \<in> set (sc_points c). pt_id p \<notin> set (sc_tags c k)}"
  by (auto simp: evict_def Let_def delete_points_def)

interpretation by_document: purgeable "\<lambda>c. \<exists>h. cache_inv sha c h" "\<lambda>c. set (sc_points c)"
    "\<lambda>d p. str_uuid d \<in> set (cp_docs (pt_payload p))" "\<lambda>d c. snd (invalidate_document d c)" for sha
proof
  show "\<exists>h. cache_inv sha c h \<Longrightarrow> \<exists>h. cache_inv sha (snd (invalidate_document d c)) h" for c d
    by (auto simp: invalidate_document_def intro: cache_inv_evict)
  show "\<exists>h. cache_inv sha c h \<Longrightarrow> set (sc_points (snd (invalidate_document d c)))
      = {p \<in> set (sc_points c). str_uuid d \<notin> set (cp_docs (pt_payload p))}" for c d
    unfolding invalidate_document_def evict_points cache_inv_def by blast
qed

interpretation by_collection: purgeable "\<lambda>c. \<exists>h. cache_inv sha c h" "\<lambda>c. set (sc_points c)"
    "\<lambda>d p. str_uuid d \<in> set (cp_colls (pt_payload p))" "\<lambda>d c. snd (invalidate_collection d c)" for sha
proof
  show "\<exists>h. cache_inv sha c h \<Longrightarrow> \<exists>h. cache_inv sha (snd (invalidate_collection d c)) h" for c d
    by (auto simp: invalidate_collection_def intro: cache_inv_evict)
  show "\<exists>h. cache_inv sha c h \<Longrightarrow> set (sc_points (snd (invalidate_collection d c)))
      = {p \<in> set (sc_points c). str_uuid d \<notin> set (cp_colls (pt_payload p))}" for c d
    unfolding invalidate_collection_def evict_points cache_inv_def by blast
qed

subsection \<open>Properties\<close>

lemma split_join:
  "xs \<noteq> [] \<Longrightarrow> \<forall>x \<in> set xs. c \<notin> set x \<Longrightarrow> split_str [c] (join [c] xs) = xs"
proof (induction xs)
  case (Cons x xs)
  show ?case
  proof (cases xs)
    case Nil
    then show ?thesis using Cons.prems by (simp add: split_str_no_sep cut1_None [THEN iffD2])
  next
    case (Cons y ys)
    have "cut [c] (x @ c # s) = Some (x, s)" if "c \<notin> set x" for s
      using that by (induction x) (auto simp: prefix_def)
    then have "split_str [c] (join [c] (x # xs)) = x # split_str [c] (join [c] xs)"
      using Cons.prems Cons by (subst split_str.simps) simp
    then show ?thesis using Cons.IH Cons.prems Cons by simp
  qed
qed simp

lemma scope_string_inject: "scope_string S = scope_string T \<Longrightarrow> S = T"
proof -
  assume eq: "scope_string S = scope_string T"
  have free: "124 \<notin> set x" if "x \<in> set (sorted_list_of_set (str_uuid ` S))" for x S
    using that str_uuid_chars by fastforce
  have len: "length (scope_string S) = 0 \<longleftrightarrow> S = {}" for S
  proof -
    have "\<forall>x \<in> set (sorted_list_of_set (str_uuid ` S)). x \<noteq> []" using str_uuid_ne by auto
    then have "scope_string S = [] \<longleftrightarrow> sorted_list_of_set (str_uuid ` S) = []"
      unfolding scope_string_def by (cases "sorted_list_of_set (str_uuid ` S)") (auto simp: join_def)
    then show ?thesis by (metis finite finite_imageI image_is_empty length_0_conv sorted_list_of_set_eq_Nil_iff)
  qed
  show "S = T"
  proof (cases "S = {}")
    case True
    then show ?thesis using len [of S] len [of T] eq by simp
  next
    case False
    then have "T \<noteq> {}" using len [of S] len [of T] eq by simp
    with False have "sorted_list_of_set (str_uuid ` S) \<noteq> []" "sorted_list_of_set (str_uuid ` T) \<noteq> []" by auto
    from split_join [OF this(1)] split_join [OF this(2)] free
    have "sorted_list_of_set (str_uuid ` S) = sorted_list_of_set (str_uuid ` T)"
      using eq unfolding scope_string_def by metis
    then have "str_uuid ` S = str_uuid ` T" by (metis finite finite_imageI set_sorted_list_of_set)
    then show ?thesis by (auto dest: str_uuid_inject [THEN iffD1])
  qed
qed

lemma scan_hit:
  "scan cfg al now ps st h = (st', Some x) \<Longrightarrow> h = Some x \<or>
     (\<exists>(sc, p) \<in> set ps. x = hit_of sc p \<and> \<not> stale cfg now (pt_payload p) \<and> set (cp_colls (pt_payload p)) \<subseteq> al)"
  by (induction cfg al now ps st h rule: scan.induct) (fastforce split: if_splits)+

lemma scan_stale: "scan cfg al now ps st h = (st', x) \<Longrightarrow> set st' = set st \<union> pt_id ` {p \<in> snd ` set ps. stale cfg now (pt_payload p)}"
  by (induction cfg al now ps st h rule: scan.induct) (auto split: if_splits)

lemma lookup_hit:
  assumes "query_laws sim qry" and "fst (lookup sha emb qry cfg ok allowed q now c) = Some hit"
  shows "\<exists>p \<in> set (sc_points c). hit = hit_of (sim (emb q) (pt_vec p)) p \<and> cp_scope (pt_payload p) = Some (scope_hash sha allowed)
     \<and> semantic_cache_similarity cfg \<le> sim (emb q) (pt_vec p)
     \<and> \<not> stale cfg now (pt_payload p) \<and> set (cp_colls (pt_payload p)) \<subseteq> str_uuid ` allowed"
proof -
  let ?found = "qry (emb q) (\<lambda>p. cp_scope p = Some (scope_hash sha allowed)) 5 (semantic_cache_similarity cfg) (sc_points c)"
  obtain st h where sc: "scan cfg (str_uuid ` allowed) now ?found [] None = (st, h)" by fastforce
  then have "h = Some hit" using assms(2) by (simp add: lookup_def Let_def split: if_splits)
  from scan_hit [OF sc [unfolded this]] obtain sc p where p: "(sc, p) \<in> set ?found" "hit = hit_of sc p"
    "\<not> stale cfg now (pt_payload p)" "set (cp_colls (pt_payload p)) \<subseteq> str_uuid ` allowed" by auto
  note q = query_member [OF assms(1) p(1)]
  show ?thesis using p q by (intro bexI [of _ p]) auto
qed

text \<open>
  C10. Whatever the cache has been through, an answer it serves comes from an entry that was stored
  under exactly the requester's present scope, is within its lifetime and similar enough, and
  whose source collections the requester may all read. The only assumption on the hash is that it
  does not collide on the scopes that occur.
\<close>

theorem lookup_scope_safe:
  assumes "query_laws sim qry" and "cache_run sha emb qry cfg c h"
    and "inj_on sha (scope_string ` insert allowed (ran h))"
    and "lookup sha emb qry cfg ok allowed q now c = (Some hit, c')"
  shows "\<exists>p \<in> set (sc_points c). h (pt_id p) = Some allowed \<and> hit = hit_of (sim (emb q) (pt_vec p)) p
     \<and> now - cp_created (pt_payload p) \<le> semantic_cache_ttl_s cfg
     \<and> semantic_cache_similarity cfg \<le> sim (emb q) (pt_vec p)
     \<and> set (cp_colls (pt_payload p)) \<subseteq> str_uuid ` allowed"
proof -
  from lookup_hit [OF assms(1), of sha emb cfg ok allowed q now c hit] assms(4)
  obtain p where p: "p \<in> set (sc_points c)" "hit = hit_of (sim (emb q) (pt_vec p)) p"
    "cp_scope (pt_payload p) = Some (scope_hash sha allowed)" "semantic_cache_similarity cfg \<le> sim (emb q) (pt_vec p)"
    "\<not> stale cfg now (pt_payload p)" "set (cp_colls (pt_payload p)) \<subseteq> str_uuid ` allowed" by auto
  obtain S where S: "h (pt_id p) = Some S" "cp_scope (pt_payload p) = Some (scope_hash sha S)"
    using cache_run_inv [OF assms(2)] p(1) unfolding cache_inv_def by blast
  then have "sha (scope_string S) = sha (scope_string allowed)" using p(3) by (simp add: scope_hash_def)
  then have "scope_string S = scope_string allowed"
    by (rule inj_onD [OF assms(3)]) (use S(1) in \<open>auto intro: ranI\<close>)
  then have "S = allowed" by (rule scope_string_inject)
  with p S show ?thesis by (intro bexI [of _ p]) (auto simp: stale_def)
qed

text \<open>
  C24. Invalidation is exact: evicting a document, or a collection, removes the entries whose
  answer used it and no other, and no later lookup before a new store serves an answer that used it.
\<close>

theorem invalidation_exact:
  assumes "cache_run sha emb qry cfg c h" and "query_laws sim qry"
  shows "set (sc_points (snd (invalidate_document d c))) = {p \<in> set (sc_points c). str_uuid d \<notin> set (cp_docs (pt_payload p))}
    \<and> set (sc_points (snd (invalidate_collection k c))) = {p \<in> set (sc_points c). str_uuid k \<notin> set (cp_colls (pt_payload p))}
    \<and> (\<forall>hit. fst (lookup sha emb qry cfg ok al q now (snd (invalidate_document d c))) = Some hit \<longrightarrow> str_uuid d \<notin> set (hit_docs hit))
    \<and> (\<forall>hit. fst (lookup sha emb qry cfg ok al q now (snd (invalidate_collection k c))) = Some hit \<longrightarrow> str_uuid k \<notin> set (hit_colls hit))"
proof -
  have inv: "\<exists>h. cache_inv sha c h" using cache_run_inv [OF assms(1)] by blast
  have from_points: "\<exists>p \<in> set (sc_points c'). hit_docs hit = cp_docs (pt_payload p) \<and> set (hit_colls hit) = set (cp_colls (pt_payload p))"
    if "fst (lookup sha emb qry cfg ok al q now c') = Some hit" for c' hit
    using lookup_hit [OF assms(2) that] by (auto simp: hit_of_def)
  show ?thesis
    using by_document.purge_entries [OF inv, of d] by_collection.purge_entries [OF inv, of k] from_points by fastforce
qed

text \<open>
  The sweep deletes exactly the entries a lookup at the same instant would call stale, and
  reports how many there were.
\<close>

theorem purge_expired_exact:
  assumes "sc_exists c"
  shows "sc_points (snd (purge_expired cfg now c)) = filter (\<lambda>p. \<not> stale cfg now (pt_payload p)) (sc_points c)
    \<and> fst (purge_expired cfg now c) + length (sc_points (snd (purge_expired cfg now c))) = length (sc_points c)"
proof -
  let ?old = "\<lambda>p. cp_created (pt_payload p) < now - semantic_cache_ttl_s cfg"
  have eq: "?old p = stale cfg now (pt_payload p)" for p by (auto simp: stale_def)
  have none: "filter (\<lambda>p. \<not> ?old p) ps = ps" if "filter ?old ps = []" for ps
    using that by (auto simp: filter_empty_conv filter_id_conv)
  have "sc_points (snd (purge_expired cfg now c)) = filter (\<lambda>p. \<not> ?old p) (sc_points c)"
    using assms none [of "sc_points c"] by (auto simp: purge_expired_def Let_def)
  moreover have "fst (purge_expired cfg now c) = length (filter ?old (sc_points c))"
    using assms by (simp add: purge_expired_def Let_def)
  ultimately show ?thesis using sum_length_filter_compl [of ?old "sc_points c"] by (simp add: eq)
qed

text \<open>
  Store and look up: an answer stored under a scope is served, with its citations, to the
  same question from the same scope within the lifetime, when no other entry was stored under that
  scope and a question is similar to itself.
\<close>

theorem store_lookup:
  assumes "query_laws sim qry" and "semantic_cache_similarity cfg \<le> sim (emb q) (emb q)"
    and "\<forall>p \<in> set (sc_points c). cp_scope (pt_payload p) \<noteq> Some (scope_hash sha scope)"
    and "\<not> blank q" and "set colls \<subseteq> scope" and "t - now \<le> semantic_cache_ttl_s cfg"
  shows "\<exists>hit. fst (lookup sha emb qry cfg ok scope q t (store sha emb eid q a colls docs (Some scope) cites now c)) = Some hit
    \<and> hit_answer hit = a \<and> hit_cites hit = cites \<and> hit_docs hit = map str_uuid docs"
proof -
  let ?c = "store sha emb eid q a colls docs (Some scope) cites now c"
  let ?adm = "\<lambda>p. cp_scope p = Some (scope_hash sha scope)"
  let ?p = "\<lparr>pt_id = eid, pt_vec = emb q, pt_payload = \<lparr>cp_answer = a, cp_query = q, cp_colls = map str_uuid colls,
       cp_docs = map str_uuid docs, cp_cites = cites, cp_scope = Some (scope_hash sha scope), cp_created = now\<rparr>\<rparr>"
  let ?found = "qry (emb q) ?adm 5 (semantic_cache_similarity cfg) (sc_points ?c)"
  have pts: "sc_points ?c = filter (\<lambda>x. pt_id x \<noteq> eid) (sc_points c) @ [?p]" and ex: "sc_exists ?c"
    by (auto simp: store_def store_tag_def store_upsert_def ensure_collection_def Let_def)
  have "filter (\<lambda>p. ?adm (pt_payload p) \<and> semantic_cache_similarity cfg \<le> sim (emb q) (pt_vec p)) (sc_points ?c) = [?p]"
    unfolding pts using assms(2,3) by (auto simp: filter_empty_conv)
  then have len: "length (filter (\<lambda>p. ?adm (pt_payload p) \<and> semantic_cache_similarity cfg \<le> sim (emb q) (pt_vec p)) (sc_points ?c)) \<le> 5"
    by simp
  have only: "snd x = ?p" if "x \<in> set ?found" for x
  proof -
    have "(fst x, snd x) \<in> set ?found" using that by simp
    from query_member [OF assms(1) this] have "snd x \<in> set (sc_points ?c)" "?adm (pt_payload (snd x))"
      by simp_all
    then show ?thesis unfolding pts using assms(3) by auto
  qed
  have "?p \<in> snd ` set ?found"
    using assms(2) len by (intro query_complete [OF assms(1)]) (simp_all add: pts)
  then obtain s0 rest where found: "?found = s0 # rest" by (cases ?found) auto
  have s0: "snd s0 = ?p" using only [of s0] found by simp
  have live: "\<not> stale cfg t (pt_payload ?p)" "set (cp_colls (pt_payload ?p)) \<subseteq> str_uuid ` scope"
    using assms(5,6) by (auto simp: stale_def)
  have keep: "snd (scan cfg al t ps st (Some x)) = Some x" for al ps st x
    by (induction ps arbitrary: st) auto
  have "snd (scan cfg (str_uuid ` scope) t ?found [] None) = Some (hit_of (fst s0) ?p)"
    unfolding found using s0 live keep by (cases s0) simp
  then have "fst (lookup sha emb qry cfg ok scope q t ?c) = Some (hit_of (fst s0) ?p)"
    using assms(4) ex by (auto simp: lookup_def Let_def split: prod.splits)
  then show ?thesis by (auto simp: hit_of_def)
qed

text \<open>
  The upsert and the tagging are two commands: an invalidation of a document that lands between
  them finds no tag, so the entry that used the document stays and is not evicted.
\<close>

theorem invalidation_between_upsert_and_tag:
  assumes "sc_tags c (TagDoc (str_uuid d)) = []" and "d \<in> set docs"
  shows "\<exists>p \<in> set (sc_points (store_tag eid colls docs
      (snd (invalidate_document d (store_upsert sha emb eid q a colls docs scope cites now c))))).
      pt_id p = eid \<and> str_uuid d \<in> set (cp_docs (pt_payload p))"
  using assms
  by (auto simp: store_tag_def store_upsert_def invalidate_document_def evict_def ensure_collection_def Let_def)

subsection \<open>Witnesses\<close>

definition same_vec :: "vec \<Rightarrow> vec \<Rightarrow> rat" where
  "same_vec v w = (if v = w then 1 else 0)"

definition code_vec :: "pystr \<Rightarrow> vec" where
  "code_vec q = map of_nat q"

definition demo_cache :: sem_cache where
  "demo_cache = store id code_vec 1 (lit ''q'') (lit ''a'') [3] [4] (Some {3, 5}) [] 100 empty_cache"

lemma demo_cache_run:
  "cache_run id code_vec (exact_query same_vec) default_retrieval demo_cache [1 \<mapsto> {3, 5}]"
  unfolding demo_cache_def
  using cache_run.store [OF cache_run.init, where eid = 1 and scope = "Some {3, 5}" and colls = "[3]"] by simp

lemma store_lookup_witness:
  "\<exists>hit. fst (lookup id code_vec (exact_query same_vec) default_retrieval True {3, 5} (lit ''q'') 200 demo_cache) = Some hit
     \<and> hit_answer hit = lit ''a'' \<and> hit_cites hit = [] \<and> hit_docs hit = map str_uuid [4]"
  unfolding demo_cache_def
  by (rule store_lookup [OF exact_query_laws])
    (simp_all add: default_retrieval_def same_vec_def empty_cache_def blank_def strip_def strip_by_def lstrip_by_def
      rstrip_by_def lit_Cons is_space_def)

lemma demo_lookup:
  "map_option hit_answer (fst (lookup id code_vec (exact_query same_vec) default_retrieval True {3, 5} (lit ''q'') 200 demo_cache))
     = Some (lit ''a'')"
  by (simp add: demo_cache_def store_def store_tag_def store_upsert_def ensure_collection_def lookup_def exact_query_def Let_def
      same_vec_def default_retrieval_def stale_def hit_of_def empty_cache_def blank_def strip_def strip_by_def lstrip_by_def
      rstrip_by_def lit_Cons is_space_def)

lemma lookup_scope_safe_witness:
  "\<exists>p \<in> set (sc_points demo_cache). pt_id p = 1 \<and> 200 - cp_created (pt_payload p) \<le> 86400"
proof -
  obtain hit c' where "lookup id code_vec (exact_query same_vec) default_retrieval True {3, 5} (lit ''q'') 200 demo_cache = (Some hit, c')"
    using demo_lookup by (metis fst_conv option.distinct(1) option.exhaust option.map_disc_iff surj_pair)
  from lookup_scope_safe [OF exact_query_laws demo_cache_run _ this]
  show ?thesis by (auto simp: default_retrieval_def split: if_splits)
qed

lemma invalidation_exact_witness:
  "sc_points (snd (invalidate_document 4 demo_cache)) = []"
proof -
  have "\<forall>p \<in> set (sc_points demo_cache). str_uuid 4 \<in> set (cp_docs (pt_payload p))"
    by (auto simp: demo_cache_def store_points empty_cache_def)
  then show ?thesis
    using invalidation_exact [OF demo_cache_run exact_query_laws, of 4] by (auto simp flip: set_empty)
qed

lemma purge_expired_exact_witness:
  "sc_points (snd (purge_expired default_retrieval 90000 demo_cache)) = []"
proof -
  have "sc_exists demo_cache" "\<forall>p \<in> set (sc_points demo_cache). stale default_retrieval 90000 (pt_payload p)"
    by (auto simp: demo_cache_def store_points stale_def default_retrieval_def empty_cache_def)
      (auto simp: store_def store_tag_def store_upsert_def ensure_collection_def Let_def)
  then show ?thesis using purge_expired_exact [of demo_cache default_retrieval 90000] by (simp add: filter_empty_conv)
qed

lemma invalidation_between_upsert_and_tag_witness:
  "\<exists>p \<in> set (sc_points (store_tag 1 [3] [4] (snd (invalidate_document 4
      (store_upsert id code_vec 1 (lit ''q'') (lit ''a'') [3] [4] None [] 100 empty_cache))))).
      pt_id p = 1 \<and> str_uuid 4 \<in> set (cp_docs (pt_payload p))"
  by (rule invalidation_between_upsert_and_tag) (simp_all add: empty_cache_def)

subsection \<open>The lifecycle wrappers (app/services/cache.py)\<close>

text \<open>They run the operation in a thread and return its count.\<close>

definition lifecycle_invalidate_document :: "uuid \<Rightarrow> sem_cache \<Rightarrow> nat \<times> sem_cache" where
  "lifecycle_invalidate_document d c = invalidate_document d c"

definition lifecycle_invalidate_collection :: "uuid \<Rightarrow> sem_cache \<Rightarrow> nat \<times> sem_cache" where
  "lifecycle_invalidate_collection d c = invalidate_collection d c"

end
