(* ===== verification/DocIndex.thy ===== *)
theory DocIndex
  imports SemCache Config
begin

text \<open>
  The stores a document's content goes to: the Qdrant collections of chunks
  (\<open>app/ingestion/qdrant_index.py\<close>) and page images (\<open>pages_index.py\<close>), the object store
  (\<open>object_store.py\<close>), the page pass (\<open>pages.py\<close>), the figure captioner (\<open>figures.py\<close>) and the ACL
  audit (\<open>acl_audit.py\<close>). A collection is a list of points; deletion by document is an instance of
  the interface \<open>purgeable\<close>.
\<close>

subsection \<open>Collections of points\<close>

record 'p qcoll =
  qc_exists :: bool
  qc_points :: "(uuid \<times> 'p) list"

definition qcoll0 :: "'p qcoll" where
  "qcoll0 = \<lparr>qc_exists = False, qc_points = []\<rparr>"

definition qc_ensure :: "'p qcoll \<Rightarrow> 'p qcoll" where
  "qc_ensure q = (if qc_exists q then q else q\<lparr>qc_exists := True\<rparr>)"

text \<open>An upsert replaces the points with the same id.\<close>

definition qc_upsert :: "(uuid \<times> 'p) list \<Rightarrow> 'p qcoll \<Rightarrow> 'p qcoll" where
  "qc_upsert ps q = (if ps = [] then q
     else q\<lparr>qc_points := filter (\<lambda>x. fst x \<notin> fst ` set ps) (qc_points q) @ ps\<rparr>)"

definition qc_delete :: "('p \<Rightarrow> bool) \<Rightarrow> 'p qcoll \<Rightarrow> 'p qcoll" where
  "qc_delete sel q = q\<lparr>qc_points := filter (\<lambda>x. \<not> sel (snd x)) (qc_points q)\<rparr>"

lemma qc_points_ensure [simp]: "qc_points (qc_ensure q) = qc_points q" "qc_exists (qc_ensure q)"
  by (simp_all add: qc_ensure_def)

lemma set_qc_delete [simp]: "set (qc_points (qc_delete sel q)) = {x \<in> set (qc_points q). \<not> sel (snd x)}"
  by (simp add: qc_delete_def)

lemma set_qc_upsert:
  "set (qc_points (qc_upsert ps q)) = {x \<in> set (qc_points q). fst x \<notin> fst ` set ps} \<union> set ps"
  by (auto simp: qc_upsert_def)

lemma qc_exists_ops [simp]: "qc_exists (qc_delete sel q) = qc_exists q" "qc_exists (qc_upsert ps q) = qc_exists q"
  by (simp_all add: qc_delete_def qc_upsert_def)

subsection \<open>Payloads\<close>

record chunk_payload =
  cy_document :: "pystr option"
  cy_collection :: "pystr option"
  cy_chunk :: pystr
  cy_type :: pystr
  cy_page :: "int option"
  cy_section :: "pystr option"
  cy_file :: pystr
  cy_filetype :: pystr
  cy_content :: pystr
  cy_image :: "pystr option"

record chunk_point =
  cx_dense :: vec
  cx_sparse :: "nat list \<times> rat list"
  cx_payload :: chunk_payload

record page_payload =
  py_document :: "pystr option"
  py_collection :: "pystr option"
  py_page :: "int option"
  py_uri :: pystr
  py_file :: "pystr option"
  py_filetype :: pystr

record page_point =
  px_vectors :: "vec list"
  px_payload :: page_payload

definition page_payload_of :: "uuid \<Rightarrow> uuid \<Rightarrow> int \<Rightarrow> pystr \<Rightarrow> pystr \<Rightarrow> pystr \<Rightarrow> page_payload" where
  "page_payload_of doc coll page uri file ft = \<lparr>py_document = Some (str_uuid doc), py_collection = Some (str_uuid coll),
     py_page = Some page, py_uri = uri, py_file = Some file, py_filetype = ft\<rparr>"

definition make_point :: "uuid \<Rightarrow> vec \<Rightarrow> nat list \<times> rat list \<Rightarrow> chunk_payload \<Rightarrow> uuid \<times> chunk_point" where
  "make_point i d s p = (i, \<lparr>cx_dense = d, cx_sparse = s, cx_payload = p\<rparr>)"

definition make_page_point :: "uuid \<Rightarrow> vec list \<Rightarrow> page_payload \<Rightarrow> uuid \<times> page_point" where
  "make_page_point i v p = (i, \<lparr>px_vectors = v, px_payload = p\<rparr>)"

definition chunk_of_document :: "uuid \<Rightarrow> chunk_point \<Rightarrow> bool" where
  "chunk_of_document doc p \<longleftrightarrow> cy_document (cx_payload p) = Some (str_uuid doc)"

definition page_of_document :: "uuid \<Rightarrow> page_point \<Rightarrow> bool" where
  "page_of_document doc p \<longleftrightarrow> py_document (px_payload p) = Some (str_uuid doc)"

text \<open>Deleting from the chunk collection raises when it does not exist; the page index checks first.\<close>

definition chunks_delete_by_document :: "uuid \<Rightarrow> chunk_point qcoll \<Rightarrow> chunk_point qcoll option" where
  "chunks_delete_by_document doc q = (if qc_exists q then Some (qc_delete (chunk_of_document doc) q) else None)"

definition chunks_count_for_document :: "uuid \<Rightarrow> chunk_point qcoll \<Rightarrow> nat" where
  "chunks_count_for_document doc q = (if qc_exists q then length (filter (chunk_of_document doc \<circ> snd) (qc_points q)) else 0)"

definition pages_delete_by_document :: "uuid \<Rightarrow> page_point qcoll \<Rightarrow> page_point qcoll" where
  "pages_delete_by_document doc q = (if qc_exists q then qc_delete (page_of_document doc) q else q)"

definition pages_count_for_document :: "uuid \<Rightarrow> page_point qcoll \<Rightarrow> nat" where
  "pages_count_for_document doc q = (if qc_exists q then length (filter (page_of_document doc \<circ> snd) (qc_points q)) else 0)"

text \<open>A collection that does not exist holds no points.\<close>

definition qc_ok :: "'p qcoll \<Rightarrow> bool" where
  "qc_ok q \<longleftrightarrow> (qc_exists q \<or> qc_points q = [])"

interpretation chunk_index: purgeable qc_ok "\<lambda>q. set (qc_points q)" "\<lambda>d p. chunk_of_document d (snd p)"
    "\<lambda>d. qc_delete (chunk_of_document d)"
  by unfold_locales (auto simp: qc_ok_def qc_delete_def)

interpretation page_index: purgeable qc_ok "\<lambda>q. set (qc_points q)" "\<lambda>d p. page_of_document d (snd p)"
    pages_delete_by_document
  by unfold_locales (auto simp: qc_ok_def pages_delete_by_document_def qc_delete_def)

subsection \<open>The object store\<close>

type_synonym objects = "((pystr \<times> pystr) \<times> nat list) list"

definition figure_key :: "uuid \<Rightarrow> pystr \<Rightarrow> pystr" where
  "figure_key doc fid = str_uuid doc @ lit ''/'' @ fid @ lit ''.png''"

definition page_key :: "uuid \<Rightarrow> int \<Rightarrow> pystr" where
  "page_key doc n = str_uuid doc @ lit ''/'' @ int_str n @ lit ''.png''"

definition to_uri :: "pystr \<Rightarrow> pystr \<Rightarrow> pystr" where
  "to_uri bucket key = lit ''s3://'' @ bucket @ lit ''/'' @ key"

definition parse_uri :: "pystr \<Rightarrow> (pystr \<times> pystr) option" where
  "parse_uri uri =
     (if \<not> prefix (lit ''s3://'') uri then None
      else (case (case cut [47] (drop 5 uri) of None \<Rightarrow> (drop 5 uri, []) | Some p \<Rightarrow> p) of
              (bucket, key) \<Rightarrow> if bucket = [] \<or> key = [] then None else Some (bucket, key)))"

definition put_object :: "pystr \<Rightarrow> pystr \<Rightarrow> nat list \<Rightarrow> objects \<Rightarrow> pystr \<times> objects" where
  "put_object bucket key bytes os = (to_uri bucket key, ((bucket, key), bytes) # filter (\<lambda>ob. fst ob \<noteq> (bucket, key)) os)"

definition put_figure :: "cfg_model \<Rightarrow> uuid \<Rightarrow> pystr \<Rightarrow> nat list \<Rightarrow> objects \<Rightarrow> pystr \<times> objects" where
  "put_figure cfg doc fid png = put_object (minio_bucket_figures cfg) (figure_key doc fid) png"

definition put_page :: "cfg_model \<Rightarrow> uuid \<Rightarrow> int \<Rightarrow> nat list \<Rightarrow> objects \<Rightarrow> pystr \<times> objects" where
  "put_page cfg doc n png = put_object (minio_bucket_pages cfg) (page_key doc n) png"

definition get_object :: "objects \<Rightarrow> pystr \<Rightarrow> nat list option" where
  "get_object os uri = (case parse_uri uri of None \<Rightarrow> None | Some bk \<Rightarrow> map_of os bk)"

definition document_prefix :: "uuid \<Rightarrow> pystr" where
  "document_prefix doc = str_uuid doc @ lit ''/''"

text \<open>\<open>err\<close>: the objects MinIO fails to remove.\<close>

definition delete_in_bucket :: "(pystr \<times> pystr \<Rightarrow> bool) \<Rightarrow> uuid \<Rightarrow> pystr \<Rightarrow> nat \<times> objects \<Rightarrow> nat \<times> objects" where
  "delete_in_bucket err doc bucket r = (case r of (n, os) \<Rightarrow>
     let gone = (\<lambda>ob. fst (fst ob) = bucket \<and> prefix (document_prefix doc) (snd (fst ob)) \<and> \<not> err (fst ob))
     in (n + length (filter gone os), filter (\<lambda>ob. \<not> gone ob) os))"

definition objects_delete_document :: "cfg_model \<Rightarrow> (pystr \<times> pystr \<Rightarrow> bool) \<Rightarrow> uuid \<Rightarrow> objects \<Rightarrow> nat \<times> objects" where
  "objects_delete_document cfg err doc os =
     fold (delete_in_bucket err doc) [minio_bucket_figures cfg, minio_bucket_pages cfg] (0, os)"

definition object_of :: "uuid \<Rightarrow> (pystr \<times> pystr) \<times> nat list \<Rightarrow> bool" where
  "object_of doc ob \<longleftrightarrow> prefix (document_prefix doc) (snd (fst ob))"

lemma length_str_uuid [simp]: "length (str_uuid u) = 36"
  by (simp add: str_uuid_def Let_def)

lemma cut_first: "c \<notin> set b \<Longrightarrow> cut [c] (b @ c # k) = Some (b, k)"
  by (induction b) (auto simp: prefix_def)

lemma drop5: "drop 5 (lit ''s3://'' @ s) = s"
  by (simp add: numeral_eq_Suc)

lemma parse_to_uri:
  "b \<noteq> [] \<Longrightarrow> 47 \<notin> set b \<Longrightarrow> k \<noteq> [] \<Longrightarrow> parse_uri (to_uri b k) = Some (b, k)"
  using cut_first [of 47 b k] by (simp add: parse_uri_def to_uri_def drop5 lit_Cons)

text \<open>Keys of distinct documents never share a prefix, so deletion by prefix is exact.\<close>

lemma prefix_same_doc: "prefix (document_prefix d) (document_prefix e @ s) \<longleftrightarrow> d = e"
proof
  assume "prefix (document_prefix d) (document_prefix e @ s)"
  then obtain z where "str_uuid d @ lit ''/'' @ z = str_uuid e @ lit ''/'' @ s"
    by (auto simp: document_prefix_def prefix_def)
  then have "str_uuid d = str_uuid e" by (simp add: length_str_uuid)
  then show "d = e" by simp
qed (auto simp: prefix_def)

lemma objects_delete_set:
  assumes "fst ` set (map fst os) \<subseteq> {minio_bucket_figures cfg, minio_bucket_pages cfg}"
  shows "set (snd (objects_delete_document cfg (\<lambda>_. False) doc os)) = {ob \<in> set os. \<not> object_of doc ob}"
  using assms by (auto simp: objects_delete_document_def delete_in_bucket_def Let_def object_of_def)

definition objects_ok :: "cfg_model \<Rightarrow> objects \<Rightarrow> bool" where
  "objects_ok cfg os \<longleftrightarrow> fst ` fst ` set os \<subseteq> {minio_bucket_figures cfg, minio_bucket_pages cfg}"

interpretation object_store: purgeable "objects_ok cfg" set object_of
    "\<lambda>d os. snd (objects_delete_document cfg (\<lambda>_. False) d os)" for cfg
proof
  show "objects_ok cfg os \<Longrightarrow> set (snd (objects_delete_document cfg (\<lambda>_. False) d os)) = {ob \<in> set os. \<not> object_of d ob}" for os d
    by (rule objects_delete_set) (auto simp: objects_ok_def)
  then show "objects_ok cfg os \<Longrightarrow> objects_ok cfg (snd (objects_delete_document cfg (\<lambda>_. False) d os))" for os d
    by (auto simp: objects_ok_def)
qed

lemma map_of_filter_keys: "P k \<Longrightarrow> map_of (filter (\<lambda>x. P (fst x)) os) k = map_of os k"
  by (induction os) auto

lemma map_of_delete_other:
  "\<not> prefix (document_prefix doc) (snd bk) \<Longrightarrow>
   map_of (snd (objects_delete_document cfg err doc os)) bk = map_of os bk"
proof -
  assume n: "\<not> prefix (document_prefix doc) (snd bk)"
  have one: "map_of (snd (delete_in_bucket err doc b r)) bk = map_of (snd r) bk" for b r
    unfolding delete_in_bucket_def Let_def
    using map_of_filter_keys [of "\<lambda>k. \<not> (fst k = b \<and> prefix (document_prefix doc) (snd k) \<and> \<not> err k)" bk "snd r"] n
    by (cases r) simp
  show ?thesis by (simp add: objects_delete_document_def one)
qed

lemma map_of_put: "map_of (snd (put_object b k bytes os)) bk = (if bk = (b, k) then Some bytes else map_of os bk)"
  using map_of_filter_keys [of "\<lambda>x. x \<noteq> (b, k)" bk os] by (auto simp: put_object_def)

text \<open>
  A figure written to the store is read back by its URI, byte for byte, after any other
  document has been deleted or has had objects written, and is gone once its own document is deleted.
\<close>

theorem figure_roundtrip:
  assumes "minio_bucket_figures cfg \<noteq> []" and "47 \<notin> set (minio_bucket_figures cfg)" and "e \<noteq> doc"
    and "put_figure cfg doc fid png os = (uri, os1)"
  shows "get_object os1 uri = Some png
    \<and> get_object (snd (objects_delete_document cfg err e os1)) uri = Some png
    \<and> get_object (snd (put_figure cfg e fid2 png2 os1)) uri = Some png
    \<and> get_object (snd (objects_delete_document cfg (\<lambda>_. False) doc os1)) uri = None"
proof -
  let ?bk = "(minio_bucket_figures cfg, figure_key doc fid)"
  have uri: "uri = to_uri (fst ?bk) (snd ?bk)" and os1: "os1 = snd (put_object (fst ?bk) (snd ?bk) png os)"
    using assms(4) by (auto simp: put_figure_def put_object_def)
  have p: "parse_uri uri = Some ?bk"
    using parse_to_uri [OF assms(1,2), of "figure_key doc fid"] by (simp add: uri figure_key_def)
  have here: "prefix (document_prefix d) (figure_key doc fid) \<longleftrightarrow> d = doc" for d
    using prefix_same_doc [of d doc "fid @ lit ''.png''"] by (simp add: document_prefix_def figure_key_def)
  have other: "(minio_bucket_figures cfg, figure_key e fid2) \<noteq> ?bk"
    using assms(3) by (simp add: figure_key_def)
  have "map_of os1 ?bk = Some png" by (simp add: os1 map_of_put)
  moreover have "map_of (snd (objects_delete_document cfg err e os1)) ?bk = Some png"
    using map_of_delete_other [of e ?bk cfg err os1] here assms(3) calculation by simp
  moreover have "map_of (snd (put_figure cfg e fid2 png2 os1)) ?bk = Some png"
    using other calculation(1) by (simp add: put_figure_def map_of_put)
  moreover have "map_of (snd (objects_delete_document cfg (\<lambda>_. False) doc os1)) ?bk = None"
  proof -
    have "?bk \<notin> fst ` set (snd (objects_delete_document cfg (\<lambda>_. False) doc os1))"
      using here by (auto simp: objects_delete_document_def delete_in_bucket_def Let_def)
    then show ?thesis by (simp add: map_of_eq_None_iff)
  qed
  ultimately show ?thesis by (simp add: get_object_def p)
qed

lemma figure_roundtrip_witness:
  "get_object (snd (objects_delete_document default_model (\<lambda>_. True) 8
     (snd (put_figure default_model 7 (lit ''p1-001'') [1, 2] [])))) (fst (put_figure default_model 7 (lit ''p1-001'') [1, 2] []))
   = Some [1, 2]"
  using figure_roundtrip [of default_model 8 7 "lit ''p1-001''" "[1, 2]" "[]"]
  by (auto simp: default_model_def lit_Cons put_figure_def put_object_def)

subsection \<open>The figure captioner and the page pass\<close>

definition visual_enabled :: "cfg_model \<Rightarrow> pystr \<Rightarrow> bool" where
  "visual_enabled cfg base \<longleftrightarrow> visual_path cfg = lit ''full'' \<and> rstrip_by (\<lambda>c. c = 47) base \<noteq> []"

text \<open>\<open>vlm png kind page\<close>: the service's caption, \<open>None\<close> for any exception.\<close>

definition fallback_caption :: "pystr option \<Rightarrow> pystr" where
  "fallback_caption fb = (case fb of Some s \<Rightarrow> if s = [] then lit ''[Abbildung ohne Beschreibung]'' else s
     | None \<Rightarrow> lit ''[Abbildung ohne Beschreibung]'')"

definition caption :: "cfg_model \<Rightarrow> (nat list \<Rightarrow> pystr \<Rightarrow> int option \<Rightarrow> pystr option) \<Rightarrow> nat list \<Rightarrow> pystr \<Rightarrow> int option
     \<Rightarrow> pystr option \<Rightarrow> pystr" where
  "caption cfg vlm png kind page fb =
     (if \<not> visual_enabled cfg (vlm_base_url cfg) then fallback_caption fb
      else case vlm png kind page of None \<Rightarrow> fallback_caption fb
        | Some t \<Rightarrow> if strip t = [] then fallback_caption fb else strip t)"

lemma caption_nonempty: "caption cfg vlm png kind page fb \<noteq> []"
  by (auto simp: caption_def fallback_caption_def split: option.splits)

text \<open>
  The page pass. \<open>render\<close> gives the numbered PNGs of a PDF, \<open>embed_page\<close> a multivector or \<open>None\<close> when
  the service fails, \<open>ids\<close> the fresh point ids in order. A page that cannot be embedded keeps its
  image but gets no point.
\<close>

fun page_points ::
  "cfg_model \<Rightarrow> (nat list \<Rightarrow> vec list option) \<Rightarrow> uuid \<Rightarrow> uuid \<Rightarrow> pystr \<Rightarrow> pystr \<Rightarrow> (int \<times> nat list) list \<Rightarrow> uuid list \<Rightarrow> objects
     \<Rightarrow> (uuid \<times> page_point) list \<times> objects" where
  "page_points cfg emb doc coll file ft [] ids os = ([], os)"
| "page_points cfg emb doc coll file ft ((n, png) # ps) ids os =
     (case put_page cfg doc n png os of (uri, os1) \<Rightarrow>
        (case (emb png, ids) of
           (Some mv, i # ids') \<Rightarrow>
             (case page_points cfg emb doc coll file ft ps ids' os1 of (pts, os2) \<Rightarrow>
                (make_page_point i mv (page_payload_of doc coll n uri file ft) # pts, os2))
         | _ \<Rightarrow> page_points cfg emb doc coll file ft ps ids os1))"

definition index_pages ::
  "cfg_model \<Rightarrow> (nat list \<Rightarrow> (int \<times> nat list) list) \<Rightarrow> (nat list \<Rightarrow> vec list option) \<Rightarrow> uuid \<Rightarrow> uuid \<Rightarrow> nat list \<Rightarrow> pystr \<Rightarrow> pystr
     \<Rightarrow> uuid list \<Rightarrow> objects \<Rightarrow> page_point qcoll \<Rightarrow> nat \<times> objects \<times> page_point qcoll" where
  "index_pages cfg render emb doc coll pdf file ft ids os q =
     (if \<not> visual_enabled cfg (colqwen_base_url cfg) then (0, os, q)
      else case page_points cfg emb doc coll file ft (render pdf) ids os of (pts, os') \<Rightarrow>
        (length pts, os', qc_upsert pts (pages_delete_by_document doc (qc_ensure q))))"

lemma page_points_payload:
  "x \<in> set (fst (page_points cfg emb doc coll file ft ps ids os)) \<Longrightarrow>
     \<exists>n uri. (n \<in> fst ` set ps) \<and> px_payload (snd x) = page_payload_of doc coll n uri file ft \<and> fst x \<in> set ids"
proof (induction ps arbitrary: ids os)
  case (Cons p ps)
  obtain n png where p: "p = (n, png)" by (cases p)
  obtain uri os1 where put: "put_page cfg doc n png os = (uri, os1)" by fastforce
  consider "x \<in> set (fst (page_points cfg emb doc coll file ft ps ids os1))"
    | mv i ids' where "ids = i # ids'" "x = make_page_point i mv (page_payload_of doc coll n uri file ft)"
    | i ids' where "ids = i # ids'" "x \<in> set (fst (page_points cfg emb doc coll file ft ps ids' os1))"
    using Cons.prems by (auto simp: p put split: option.splits list.splits prod.splits)
  then show ?case
  proof cases
    case 2
    then show ?thesis by (auto simp: make_page_point_def p)
  qed (fastforce dest: Cons.IH simp: p)+
qed simp

subsection \<open>The ACL audit\<close>

record acl_violation =
  av_point :: uuid
  av_missing :: "pystr list"

definition missing_keys :: "pystr option \<Rightarrow> pystr option \<Rightarrow> pystr list" where
  "missing_keys coll doc = (if coll = None \<or> coll = Some [] then [lit ''collection_id''] else [])
     @ (if doc = None \<or> doc = Some [] then [lit ''document_id''] else [])"

definition violations_of :: "('p \<Rightarrow> pystr option \<times> pystr option) \<Rightarrow> (uuid \<times> 'p) list \<Rightarrow> acl_violation list" where
  "violations_of acl ps = concat (map (\<lambda>x. case acl (snd x) of (c, d) \<Rightarrow>
     let m = missing_keys c d in if m = [] then [] else [\<lparr>av_point = fst x, av_missing = m\<rparr>]) ps)"

text \<open>The scroll loop: \<open>scroll offset\<close> gives a batch and the next offset; it ends on \<open>None\<close>.\<close>

partial_function (option) scroll_all ::
  "(nat option \<Rightarrow> (uuid \<times> 'p) list \<times> nat option) \<Rightarrow> ('p \<Rightarrow> pystr option \<times> pystr option) \<Rightarrow> nat option \<Rightarrow> acl_violation list
     \<Rightarrow> acl_violation list option" where
  "scroll_all scroll acl offset acc =
     (case scroll offset of (batch, next) \<Rightarrow>
        (case next of None \<Rightarrow> Some (acc @ violations_of acl batch)
         | Some n \<Rightarrow> scroll_all scroll acl (Some n) (acc @ violations_of acl batch)))"

definition audit_collection ::
  "('p qcoll \<Rightarrow> nat option \<Rightarrow> (uuid \<times> 'p) list \<times> nat option) \<Rightarrow> ('p \<Rightarrow> pystr option \<times> pystr option) \<Rightarrow> 'p qcoll
     \<Rightarrow> acl_violation list option" where
  "audit_collection scroll acl q = (if \<not> qc_exists q then Some [] else scroll_all (scroll q) acl None [])"

definition chunk_acl :: "chunk_point \<Rightarrow> pystr option \<times> pystr option" where
  "chunk_acl p = (cy_collection (cx_payload p), cy_document (cx_payload p))"

definition page_acl :: "page_point \<Rightarrow> pystr option \<times> pystr option" where
  "page_acl p = (py_collection (px_payload p), py_document (px_payload p))"

definition audit_all ::
  "(chunk_point qcoll \<Rightarrow> nat option \<Rightarrow> (uuid \<times> chunk_point) list \<times> nat option) \<Rightarrow>
   (page_point qcoll \<Rightarrow> nat option \<Rightarrow> (uuid \<times> page_point) list \<times> nat option) \<Rightarrow>
   chunk_point qcoll \<Rightarrow> page_point qcoll \<Rightarrow> acl_violation list option" where
  "audit_all scroll_c scroll_p chunks pages =
     (case audit_collection scroll_c chunk_acl chunks of None \<Rightarrow> None
      | Some a \<Rightarrow> map_option (\<lambda>b. a @ b) (audit_collection scroll_p page_acl pages))"

text \<open>What is relied on of \<open>scroll\<close>: the batches, in order, are the points of the collection.\<close>

inductive scrolls :: "(nat option \<Rightarrow> 'x list \<times> nat option) \<Rightarrow> nat option \<Rightarrow> 'x list \<Rightarrow> bool" for scroll where
  last: "scroll off = (batch, None) \<Longrightarrow> scrolls scroll off batch"
| more: "scroll off = (batch, Some n) \<Longrightarrow> scrolls scroll (Some n) rest \<Longrightarrow> scrolls scroll off (batch @ rest)"

lemma violations_append: "violations_of acl (xs @ ys) = violations_of acl xs @ violations_of acl ys"
  by (simp add: violations_of_def)

lemma scroll_all_scrolls: "scrolls scroll off ps \<Longrightarrow> scroll_all scroll acl off acc = Some (acc @ violations_of acl ps)"
proof (induction arbitrary: acc rule: scrolls.induct)
  case (last off batch)
  then show ?case by (subst scroll_all.simps) simp
next
  case (more off batch n rest)
  then show ?case by (subst scroll_all.simps) (simp add: violations_append)
qed

lemma violations_empty: "violations_of acl ps = [] \<longleftrightarrow>
    (\<forall>x \<in> set ps. \<exists>c d. acl (snd x) = (Some c, Some d) \<and> c \<noteq> [] \<and> d \<noteq> [])"
proof (induction ps)
  case (Cons x ps)
  obtain c d where cd: "acl (snd x) = (c, d)" by (cases "acl (snd x)")
  have "violations_of acl (x # ps) = [] \<longleftrightarrow> missing_keys c d = [] \<and> violations_of acl ps = []"
    by (simp add: violations_of_def cd Let_def)
  also have "missing_keys c d = [] \<longleftrightarrow> (\<exists>a b. (c, d) = (Some a, Some b) \<and> a \<noteq> [] \<and> b \<noteq> [])"
    by (cases c; cases d) (auto simp: missing_keys_def)
  finally show ?case using Cons.IH cd by simp
qed (simp add: violations_of_def)

text \<open>
  The audit terminates and is exact: it reports nothing precisely when every point of both
  collections carries a non-empty collection and document id.
\<close>

theorem audit_exact:
  assumes "scrolls (scroll_c chunks) None (qc_points chunks)" and "scrolls (scroll_p pages) None (qc_points pages)"
    and "qc_ok chunks" and "qc_ok pages"
  shows "\<exists>v. audit_all scroll_c scroll_p chunks pages = Some v \<and>
     (v = [] \<longleftrightarrow> (\<forall>x \<in> set (qc_points chunks). \<exists>c d. chunk_acl (snd x) = (Some c, Some d) \<and> c \<noteq> [] \<and> d \<noteq> [])
       \<and> (\<forall>x \<in> set (qc_points pages). \<exists>c d. page_acl (snd x) = (Some c, Some d) \<and> c \<noteq> [] \<and> d \<noteq> []))"
proof -
  have a: "audit_collection scroll_c chunk_acl chunks = Some (violations_of chunk_acl (qc_points chunks))"
    using scroll_all_scrolls [OF assms(1)] assms(3) by (auto simp: audit_collection_def qc_ok_def violations_of_def)
  have b: "audit_collection scroll_p page_acl pages = Some (violations_of page_acl (qc_points pages))"
    using scroll_all_scrolls [OF assms(2)] assms(4) by (auto simp: audit_collection_def qc_ok_def violations_of_def)
  show ?thesis by (simp add: audit_all_def a b violations_empty)
qed

lemma audit_exact_witness:
  "audit_all (\<lambda>q _. (qc_points q, None)) (\<lambda>q _. (qc_points q, None)) qcoll0
     (qc_upsert [make_page_point 1 [] (page_payload_of 2 3 1 [] [] [])] (qc_ensure qcoll0)) = Some []"
proof -
  let ?p = "qc_upsert [make_page_point 1 [] (page_payload_of 2 3 1 [] [] [])] (qc_ensure qcoll0)"
  have "scrolls (\<lambda>_. (qc_points q, None)) None (qc_points q)" for q :: "'x qcoll" by (rule scrolls.last) simp
  from audit_exact [where scroll_c = "\<lambda>q _. (qc_points q, None)" and scroll_p = "\<lambda>q _. (qc_points q, None)", OF this this, of qcoll0 ?p]
  show ?thesis
    by (auto simp: qc_ok_def qcoll0_def qc_upsert_def qc_ensure_def make_page_point_def page_payload_of_def page_acl_def)
qed

end
