(* ===== verification/Documents.thy ===== *)
theory Documents
  imports Rbac Jobs Files DocIndex
begin

text \<open>
  The document lifecycle: \<open>app/services/documents.py\<close> behind \<open>app/api/documents.py\<close>, and the endpoints
  that serve one object of a collection, \<open>app/api/media.py\<close> and \<open>app/api/collections.py\<close>. World: the
  database, the shared volume, the vector collections, the object store, the semantic cache and the
  queue. Every serving endpoint is an instance of the interface \<open>read_gate\<close>.
\<close>

record doc_world =
  dw_db :: db
  dw_volume :: volume
  dw_chunks :: "chunk_point qcoll"
  dw_pages :: "page_point qcoll"
  dw_objects :: objects
  dw_cache :: sem_cache
  dw_broker :: broker

text \<open>\<open>de_redis\<close>: Redis is reachable. \<open>de_os\<close>: the paths the operating system accepts.\<close>

record doc_env =
  de_sdir :: pystr
  de_sha :: "bytes \<Rightarrow> pystr"
  de_os :: "pystr \<Rightarrow> bool"
  de_redis :: bool

subsection \<open>Upload\<close>

definition new_document :: "uuid \<Rightarrow> uuid \<Rightarrow> pystr \<Rightarrow> pystr \<Rightarrow> pystr \<Rightarrow> uuid \<Rightarrow> time \<Rightarrow> doc_row" where
  "new_document i coll filename ft digest user now = \<lparr>d_id = i, d_coll = coll, d_filename = filename, d_type = ft, d_hash = digest,
     d_status = PENDING, d_pages = None, d_error = None, d_uploader = Some user, d_created = now, d_updated = now\<rparr>"

text \<open>What the database refuses: an unknown collection (an administrator passes the access check for any
  id), a name over 512 characters, with a zero character or not encodable.\<close>

definition document_refused :: "db \<Rightarrow> uuid \<Rightarrow> pystr \<Rightarrow> bool" where
  "document_refused d coll filename \<longleftrightarrow>
     get_by co_id coll (t_collections d) = None \<or> 512 < length filename \<or> 0 \<in> set filename \<or> utf8 filename = None"

definition same_content :: "db \<Rightarrow> uuid \<Rightarrow> pystr \<Rightarrow> doc_row list" where
  "same_content d coll digest = filter (\<lambda>x. d_coll x = coll \<and> d_hash x = digest) (t_documents d)"

definition insert_document :: "doc_row \<Rightarrow> uuid \<Rightarrow> user_row \<Rightarrow> time \<Rightarrow> db \<Rightarrow> db" where
  "insert_document row j u now d =
     create_job j (d_id row) now
       (record_audit A_UPLOAD (Some (u_id u)) (Some (lit ''document'')) (Some (str_uuid (d_id row)))
          (Some [(lit ''filename'', JStr (d_filename row)), (lit ''file_type'', JStr (d_type row))]) None now
          (d\<lparr>t_documents := add_row row (t_documents d)\<rparr>))"

text \<open>The commit precedes the enqueueing, which raises when Redis is unreachable.\<close>

definition create_document ::
  "doc_env \<Rightarrow> uuid \<Rightarrow> pystr \<Rightarrow> bytes \<Rightarrow> uuid \<Rightarrow> uuid \<Rightarrow> time \<Rightarrow> user_row \<Rightarrow> doc_world \<Rightarrow> (doc_row \<times> bool) http \<times> doc_world" where
  "create_document e coll filename data i j now u w =
     (if \<not> can_access_collection (dw_db w) u coll then (Inl (HTTPException 404 (lit ''Collection not found'')), w)
      else let name = safe_filename filename in
        (case detect name data of
           Inl er \<Rightarrow> (Inl (HTTPException 415 (detect_error_text er)), w)
         | Inr ft \<Rightarrow>
           let digest = content_hash (de_sha e) data in
           (case scalar_one_or_none (same_content (dw_db w) coll digest) of
              Inl er \<Rightarrow> (Inl er, w)
            | Inr (Some existing) \<Rightarrow> (Inr (existing, True), w)
            | Inr None \<Rightarrow>
              let row = new_document i coll name ft digest (u_id u) now in
              if document_refused (dw_db w) coll name then (Inl Crash, w)
              else (case save_document (de_os e) (de_sdir e) i name data (dw_volume w) of
                 None \<Rightarrow> (Inl Crash, w)
               | Some (path, v) \<Rightarrow>
                   let w1 = w\<lparr>dw_db := insert_document row j u now (dw_db w), dw_volume := v\<rparr>
                   in if \<not> de_redis e then (Inl Crash, w1)
                      else (Inr (row, False), w1\<lparr>dw_broker := enqueue_index i 0 (Some j) (dw_broker w)\<rparr>)))))"

record document_out =
  do_id :: uuid
  do_collection :: uuid
  do_filename :: pystr
  do_type :: pystr
  do_status :: document_status
  do_pages :: "int option"
  do_hash :: pystr
  do_error :: "pystr option"
  do_created :: time

definition document_out_of :: "doc_row \<Rightarrow> document_out" where
  "document_out_of x = \<lparr>do_id = d_id x, do_collection = d_coll x, do_filename = d_filename x, do_type = d_type x, do_status = d_status x,
     do_pages = d_pages x, do_hash = d_hash x, do_error = d_error x, do_created = d_created x\<rparr>"

definition upload_document ::
  "doc_env \<Rightarrow> uuid \<Rightarrow> pystr option \<Rightarrow> bytes \<Rightarrow> uuid \<Rightarrow> uuid \<Rightarrow> time \<Rightarrow> user_row \<Rightarrow> doc_world \<Rightarrow> (document_out \<times> bool) http \<times> doc_world" where
  "upload_document e coll filename data i j now u w =
     (if data = [] then (Inl (HTTPException 400 (lit ''Empty file'')), w)
      else (case create_document e coll (case filename of Some (c # cs) \<Rightarrow> c # cs | _ \<Rightarrow> lit ''upload.bin'') data i j now u w of
         (Inl er, w1) \<Rightarrow> (Inl er, w1)
       | (Inr (x, dup), w1) \<Rightarrow> (Inr (document_out_of x, dup), w1)))"

subsection \<open>Reading\<close>

definition accessible_document :: "pystr \<Rightarrow> db \<Rightarrow> user_row \<Rightarrow> uuid \<Rightarrow> doc_row http" where
  "accessible_document msg d u i =
     (case get_by d_id i (t_documents d) of
        None \<Rightarrow> Inl (HTTPException 404 msg)
      | Some doc \<Rightarrow> if can_access_collection d u (d_coll doc) then Inr doc else Inl (HTTPException 404 msg))"

definition NOT_FOUND :: pystr where
  "NOT_FOUND = lit ''Document not found''"

definition list_documents :: "db \<Rightarrow> user_row \<Rightarrow> uuid option \<Rightarrow> document_out list http" where
  "list_documents d u coll =
     (let allowed = accessible_collection_ids d u;
          rows = (\<lambda>P. map document_out_of (sort_key (\<lambda>x. - d_created x) (filter (\<lambda>x. P (d_coll x)) (t_documents d))))
      in if allowed = {} then Inr []
         else (case coll of
             None \<Rightarrow> Inr (rows (\<lambda>c. c \<in> allowed))
           | Some c \<Rightarrow> if c \<in> allowed then Inr (rows (\<lambda>x. x = c)) else Inl (HTTPException 404 (lit ''Collection not found''))))"

definition get_document :: "db \<Rightarrow> user_row \<Rightarrow> uuid \<Rightarrow> document_out http" where
  "get_document d u i = map_sum id document_out_of (accessible_document NOT_FOUND d u i)"

definition ingest_status :: "db \<Rightarrow> user_row \<Rightarrow> uuid \<Rightarrow> job_row option http" where
  "ingest_status d u i = map_sum id (\<lambda>doc. latest_job i d) (accessible_document NOT_FOUND d u i)"

subsection \<open>Re-indexing and deletion\<close>

definition requeue_rows :: "uuid \<Rightarrow> uuid \<Rightarrow> time \<Rightarrow> db \<Rightarrow> db" where
  "requeue_rows i j now d = create_job j i now (upd_doc now i (\<lambda>x. x\<lparr>d_status := PENDING, d_error := None\<rparr>) d)"

definition reindex_document :: "doc_env \<Rightarrow> uuid \<Rightarrow> time \<Rightarrow> user_row \<Rightarrow> uuid \<Rightarrow> doc_world \<Rightarrow> doc_row http \<times> doc_world" where
  "reindex_document e j now u i w =
     (case accessible_document NOT_FOUND (dw_db w) u i of
        Inl er \<Rightarrow> (Inl er, w)
      | Inr doc \<Rightarrow>
          let w1 = w\<lparr>dw_db := requeue_rows i j now (dw_db w)\<rparr>
          in if \<not> de_redis e then (Inl Crash, w1)
             else (Inr (touch now (\<lambda>x. x\<lparr>d_status := PENDING, d_error := None\<rparr>) doc),
                   w1\<lparr>dw_cache := snd (lifecycle_invalidate_document i (dw_cache w)),
                      dw_broker := enqueue_index i 0 (Some j) (dw_broker w)\<rparr>))"

text \<open>Chunks and progress rows go with the document (\<open>ON DELETE CASCADE\<close>).\<close>

definition delete_rows :: "uuid \<Rightarrow> db \<Rightarrow> db" where
  "delete_rows i d = d\<lparr>t_documents := del_by d_id i (t_documents d), t_chunks := filter (\<lambda>c. ch_doc c \<noteq> i) (t_chunks d),
     t_jobs := filter (\<lambda>j. j_doc j \<noteq> i) (t_jobs d)\<rparr>"

text \<open>Qdrant first, then cache, then Postgres; deleting from a collection that does not exist raises.\<close>

definition delete_document :: "doc_env \<Rightarrow> time \<Rightarrow> user_row \<Rightarrow> uuid \<Rightarrow> doc_world \<Rightarrow> unit http \<times> doc_world" where
  "delete_document e now u i w =
     (case accessible_document NOT_FOUND (dw_db w) u i of
        Inl er \<Rightarrow> (Inl er, w)
      | Inr doc \<Rightarrow>
        (case chunks_delete_by_document i (dw_chunks w) of
           None \<Rightarrow> (Inl Crash, w)
         | Some q \<Rightarrow>
             let w1 = w\<lparr>dw_chunks := q\<rparr>
             in if \<not> de_redis e then (Inl Crash, w1)
                else (Inr (), w1\<lparr>dw_cache := snd (lifecycle_invalidate_document i (dw_cache w)),
                  dw_volume := delete_document_files (de_sdir e) i (dw_volume w),
                  dw_db := delete_rows i (record_audit A_DOCUMENT_DELETE (Some (u_id u)) (Some (lit ''document'')) (Some (str_uuid i))
                     (Some [(lit ''collection_id'', JStr (str_uuid (d_coll doc)))]) None now (dw_db w))\<rparr>)))"

subsection \<open>Images and collections\<close>

text \<open>\<open>^[A-Za-z0-9_-]{1,128}$\<close>: the dollar also matches before a final newline.\<close>

definition figure_char :: "nat \<Rightarrow> bool" where
  "figure_char c \<longleftrightarrow> (65 \<le> c \<and> c \<le> 90) \<or> (97 \<le> c \<and> c \<le> 122) \<or> (48 \<le> c \<and> c \<le> 57) \<or> c = 95 \<or> c = 45"

definition figure_id_ok :: "pystr \<Rightarrow> bool" where
  "figure_id_ok s \<longleftrightarrow> (let t = (if s \<noteq> [] \<and> last s = 10 then butlast s else s)
     in 1 \<le> length t \<and> length t \<le> 128 \<and> list_all figure_char t)"

definition png_response :: "objects \<Rightarrow> pystr \<Rightarrow> bytes http" where
  "png_response os uri = (case get_object os uri of None \<Rightarrow> Inl (HTTPException 404 (lit ''Not found'')) | Some png \<Rightarrow> Inr png)"

definition page_image :: "cfg_model \<Rightarrow> objects \<Rightarrow> int \<Rightarrow> db \<Rightarrow> user_row \<Rightarrow> uuid \<Rightarrow> bytes http" where
  "page_image cfg os page_no d u i =
     (case accessible_document (lit ''Not found'') d u i of
        Inl er \<Rightarrow> Inl er
      | Inr doc \<Rightarrow> if page_no < 1 then Inl (HTTPException 404 (lit ''Not found''))
          else png_response os (to_uri (minio_bucket_pages cfg) (page_key i page_no)))"

definition figure_image :: "cfg_model \<Rightarrow> objects \<Rightarrow> pystr \<Rightarrow> db \<Rightarrow> user_row \<Rightarrow> uuid \<Rightarrow> bytes http" where
  "figure_image cfg os fid d u i =
     (case accessible_document (lit ''Not found'') d u i of
        Inl er \<Rightarrow> Inl er
      | Inr doc \<Rightarrow> if \<not> figure_id_ok fid then Inl (HTTPException 404 (lit ''Not found''))
          else png_response os (to_uri (minio_bucket_figures cfg) (figure_key i fid)))"

definition list_collections :: "db \<Rightarrow> user_row \<Rightarrow> coll_row list" where
  "list_collections d u =
     (let allowed = accessible_collection_ids d u in
      if allowed = {} then [] else sort_key co_name (filter (\<lambda>c. co_id c \<in> allowed) (t_collections d)))"

definition get_collection :: "db \<Rightarrow> user_row \<Rightarrow> uuid \<Rightarrow> coll_row http" where
  "get_collection d u c =
     (case get_by co_id c (t_collections d) of
        None \<Rightarrow> Inl (HTTPException 404 (lit ''Collection not found''))
      | Some row \<Rightarrow> if can_access_collection d u c then Inr row else Inl (HTTPException 404 (lit ''Collection not found'')))"

subsection \<open>Every endpoint is a gate\<close>

definition document_collection :: "db \<Rightarrow> uuid \<Rightarrow> uuid option" where
  "document_collection d i = map_option d_coll (get_by d_id i (t_documents d))"

definition own_collection :: "db \<Rightarrow> uuid \<Rightarrow> uuid option" where
  "own_collection d c = map_option (\<lambda>_. c) (get_by co_id c (t_collections d))"

lemma accessible_document_cases:
  obtains (served) doc where "accessible_document msg d u i = Inr doc" and "get_by d_id i (t_documents d) = Some doc"
      and "may_read d u (d_coll doc)" and "d_id doc = i"
  | (denied) "accessible_document msg d u i = Inl (HTTPException 404 msg)"
      and "\<And>c. document_collection d i = Some c \<Longrightarrow> \<not> may_read d u c"
  by (cases "get_by d_id i (t_documents d)")
    (auto simp: accessible_document_def document_collection_def acl_simps dest: get_by_SomeD split: if_splits)

lemma gate_by_document:
  assumes "\<And>d u i er. accessible_document msg d u i = Inl er \<Longrightarrow> serve d u i = Inl er"
  shows "read_gate serve document_collection"
proof
  fix d u i r
  assume "serve d u i = Inr r"
  then show "\<exists>c. document_collection d i = Some c \<and> may_read d u c"
    using assms [of d u i] by (cases rule: accessible_document_cases [of msg d u i]) (auto simp: document_collection_def)
next
  fix d u i
  assume "\<And>c. document_collection d i = Some c \<Longrightarrow> \<not> may_read d u c"
  then have "accessible_document msg d u i = Inl (HTTPException 404 msg)"
    by (cases rule: accessible_document_cases [of msg d u i]) (auto simp: document_collection_def)
  then show "\<exists>msg. serve d u i = Inl (HTTPException 404 msg)" using assms by blast
qed

interpretation detail_gate: read_gate get_document document_collection
  by (rule gate_by_document [of NOT_FOUND]) (simp add: get_document_def)

interpretation status_gate: read_gate ingest_status document_collection
  by (rule gate_by_document [of NOT_FOUND]) (simp add: ingest_status_def)

interpretation page_gate: read_gate "page_image cfg os n" document_collection for cfg os n
  by (rule gate_by_document [of "lit ''Not found''"]) (simp add: page_image_def)

interpretation figure_gate: read_gate "figure_image cfg os fid" document_collection for cfg os fid
  by (rule gate_by_document [of "lit ''Not found''"]) (simp add: figure_image_def)

interpretation reindex_gate: read_gate "\<lambda>d u i. fst (reindex_document e j now u i (w\<lparr>dw_db := d\<rparr>))" document_collection for e j now w
  by (rule gate_by_document [of NOT_FOUND]) (simp add: reindex_document_def)

interpretation delete_gate: read_gate "\<lambda>d u i. fst (delete_document e now u i (w\<lparr>dw_db := d\<rparr>))" document_collection for e now w
  by (rule gate_by_document [of NOT_FOUND]) (simp add: delete_document_def)

interpretation collection_gate: read_gate get_collection own_collection
  by unfold_locales (auto simp: get_collection_def own_collection_def acl_simps split: option.splits if_splits)

text \<open>The id is unknown, or belongs to a collection that may not be read.\<close>

definition hidden :: "db \<Rightarrow> user_row \<Rightarrow> uuid \<Rightarrow> bool" where
  "hidden d u i \<longleftrightarrow> (case document_collection d i of None \<Rightarrow> True | Some c \<Rightarrow> \<not> may_read d u c)"

lemma hiddenD: "hidden d u i \<Longrightarrow> document_collection d i = Some c \<Longrightarrow> \<not> may_read d u c"
  by (simp add: hidden_def)

lemma denied_frame:
  assumes "hidden (dw_db w) u i"
  shows "snd (reindex_document e j now u i w) = w" and "snd (delete_document e now u i w) = w"
  using assms[unfolded hidden_def] by (cases rule: accessible_document_cases [of NOT_FOUND "dw_db w" u i];
      simp add: reindex_document_def delete_document_def document_collection_def)+


subsection \<open>Upload\<close>

lemma scalar_none: "scalar_one_or_none xs = Inr None \<longleftrightarrow> xs = []"
  by (auto simp: scalar_one_or_none_def split: list.splits)

lemma same_content_insert [simp]:
  "same_content (insert_document row j u now d) coll digest
     = same_content d coll digest @ (if d_coll row = coll \<and> d_hash row = digest then [row] else [])"
  by (simp add: same_content_def insert_document_def record_audit_def add_row_def)

lemma insert_document_frame [simp]:
  "t_documents (insert_document row j u now d) = add_row row (t_documents d)"
  "t_jobs (insert_document row j u now d) = add_row (new_job j (d_id row) now) (t_jobs d)"
  "t_chunks (insert_document row j u now d) = t_chunks d" "t_collections (insert_document row j u now d) = t_collections d"
  "t_permissions (insert_document row j u now d) = t_permissions d"
  by (simp_all add: insert_document_def create_job_def record_audit_def)

lemma may_read_insert [simp]: "may_read (insert_document row j u now d) v c = may_read d v c"
  by (rule may_read_cong) simp_all

text \<open>The branch of a new document.\<close>

definition acceptable :: "doc_env \<Rightarrow> uuid \<Rightarrow> pystr \<Rightarrow> bytes \<Rightarrow> uuid \<Rightarrow> user_row \<Rightarrow> doc_world \<Rightarrow> pystr \<Rightarrow> bool" where
  "acceptable e coll filename data i u w ft \<longleftrightarrow> may_read (dw_db w) u coll \<and> detect (safe_filename filename) data = Inr ft
     \<and> same_content (dw_db w) coll (de_sha e data) = [] \<and> \<not> document_refused (dw_db w) coll (safe_filename filename)
     \<and> de_os e (document_path (de_sdir e) i filename)"

lemma document_path_safe [simp]: "document_path sdir i (safe_filename f) = document_path sdir i f"
  by (simp add: document_path_simp)

definition uploaded :: "doc_env \<Rightarrow> uuid \<Rightarrow> pystr \<Rightarrow> bytes \<Rightarrow> uuid \<Rightarrow> user_row \<Rightarrow> time \<Rightarrow> pystr \<Rightarrow> doc_row" where
  "uploaded e coll filename data i u now ft = new_document i coll (safe_filename filename) ft (de_sha e data) (u_id u) now"

definition stored_upload :: "doc_env \<Rightarrow> doc_row \<Rightarrow> bytes \<Rightarrow> uuid \<Rightarrow> user_row \<Rightarrow> time \<Rightarrow> doc_world \<Rightarrow> doc_world" where
  "stored_upload e row data j u now w = w\<lparr>dw_db := insert_document row j u now (dw_db w),
     dw_volume := snd (the (save_document (de_os e) (de_sdir e) (d_id row) (d_filename row) data (dw_volume w)))\<rparr>"

lemma uploaded_fields [simp]:
  "d_id (uploaded e coll filename data i u now ft) = i" "d_coll (uploaded e coll filename data i u now ft) = coll"
  "d_filename (uploaded e coll filename data i u now ft) = safe_filename filename"
  "d_hash (uploaded e coll filename data i u now ft) = de_sha e data" "d_status (uploaded e coll filename data i u now ft) = PENDING"
  by (simp_all add: uploaded_def new_document_def)

lemma create_new:
  assumes "acceptable e coll filename data i u w ft"
  shows "create_document e coll filename data i j now u w =
      (let row = uploaded e coll filename data i u now ft; w1 = stored_upload e row data j u now w
       in if \<not> de_redis e then (Inl Crash, w1) else (Inr (row, False), w1\<lparr>dw_broker := enqueue_index i 0 (Some j) (dw_broker w)\<rparr>))"
proof -
  obtain v where "save_document (de_os e) (de_sdir e) i (safe_filename filename) data (dw_volume w) = Some (document_path (de_sdir e) i filename, v)"
    using assms(1) by (simp add: acceptable_def save_document_def Let_def)
  with assms show ?thesis
    by (simp add: acceptable_def create_document_def acl_simps content_hash_def scalar_one_or_none_def uploaded_def new_document_def
        stored_upload_def Let_def)
qed

lemma stored_upload_effect:
  fixes j now
  assumes "acceptable e coll filename data i u w ft"
  defines "w1 \<equiv> stored_upload e (uploaded e coll filename data i u now ft) data j u now w"
  shows "t_documents (dw_db w1) = t_documents (dw_db w) @ [uploaded e coll filename data i u now ft]"
    and "t_jobs (dw_db w1) = add_row (new_job j i now) (t_jobs (dw_db w))"
    and "dw_broker w1 = dw_broker w"
    and "same_content (dw_db w1) coll (de_sha e data) = [uploaded e coll filename data i u now ft]"
    and "may_read (dw_db w1) v c = may_read (dw_db w) v c"
    and "read_document (de_sdir e) i (safe_filename filename) (dw_volume w1) = Some data"
proof -
  obtain v where v: "save_document (de_os e) (de_sdir e) i (safe_filename filename) data (dw_volume w) = Some (document_path (de_sdir e) i filename, v)"
    using assms(1) by (simp add: acceptable_def save_document_def Let_def)
  show "read_document (de_sdir e) i (safe_filename filename) (dw_volume w1) = Some data"
    using read_after_save [OF v] by (simp add: w1_def stored_upload_def v)
qed (use assms(1) in \<open>simp_all add: w1_def stored_upload_def acceptable_def add_row_def may_read_insert\<close>)

lemma create_duplicate:
  assumes "may_read (dw_db w) u coll" and "detect (safe_filename filename) data = Inr ft" and "same_content (dw_db w) coll (de_sha e data) = [row]"
  shows "create_document e coll filename data i j now u w = (Inr (row, True), w)"
  using assms by (simp add: create_document_def acl_simps content_hash_def scalar_one_or_none_def)

text \<open>
  C21. An accepted upload adds one pending document with the digest of its bytes, a queued progress row and
  one queue entry naming both; the worker will read exactly the uploaded bytes under the stored name. Anyone
  uploading the same bytes into the collection afterwards, under any name of a supported type, is given
  the existing document, and nothing changes.
\<close>

theorem upload_then_duplicate:
  assumes "acceptable e coll filename data i u w ft" and "de_redis e"
    and "get_by d_id i (t_documents (dw_db w)) = None" and "get_by j_id j (t_jobs (dw_db w)) = None"
  shows "\<exists>row w'. create_document e coll filename data i j now u w = (Inr (row, False), w')
    \<and> t_documents (dw_db w') = t_documents (dw_db w) @ [row] \<and> d_id row = i \<and> d_status row = PENDING \<and> d_hash row = de_sha e data
    \<and> map_option j_status (get_by j_id j (t_jobs (dw_db w'))) = Some Q_QUEUED
    \<and> bk_queue (dw_broker w') = bk_queue (dw_broker w) @ [mk_payload (str_uuid i) 0 (Some (str_uuid j))]
    \<and> read_document (de_sdir e) i (d_filename row) (dw_volume w') = Some data
    \<and> (\<forall>name2 ft2 i2 j2 now2 u2. may_read (dw_db w') u2 coll \<longrightarrow> detect (safe_filename name2) data = Inr ft2
          \<longrightarrow> create_document e coll name2 data i2 j2 now2 u2 w' = (Inr (row, True), w'))"
proof -
  let ?row = "uploaded e coll filename data i u now ft"
  let ?w1 = "stored_upload e ?row data j u now w"
  let ?w' = "?w1\<lparr>dw_broker := enqueue_index i 0 (Some j) (dw_broker w)\<rparr>"
  note eff = stored_upload_effect [OF assms(1), where now = now and j = j]
  have "create_document e coll name2 data i2 j2 now2 u2 ?w' = (Inr (?row, True), ?w')"
    if "may_read (dw_db ?w') u2 coll" "detect (safe_filename name2) data = Inr ft2" for name2 ft2 i2 j2 now2 u2
    using that eff(4) by (intro create_duplicate) simp_all
  moreover have "map_option j_status (get_by j_id j (t_jobs (dw_db ?w'))) = Some Q_QUEUED"
    using assms(4) by (simp add: eff(2) jobs.get_add new_job_def)
  moreover have "create_document e coll filename data i j now u w = (Inr (?row, False), ?w')"
    using create_new [OF assms(1)] assms(2) by (simp add: Let_def)
  ultimately show ?thesis using eff(1,6) by (intro exI [of _ ?row] exI [of _ ?w']) (simp add: enqueue_index_def)
qed

text \<open>
  An upload commits before it enqueues: when Redis is unreachable the caller gets a server error, but the
  document stays, pending, without a queue entry; and repeating the upload once Redis is back is answered
  as a duplicate, with success, and still enqueues nothing, so the document is never indexed.
\<close>

theorem upload_lost_without_redis:
  assumes "acceptable e coll filename data i u w ft" and "\<not> de_redis e"
  shows "\<exists>row w'. create_document e coll filename data i j now u w = (Inl Crash, w')
    \<and> t_documents (dw_db w') = t_documents (dw_db w) @ [row] \<and> d_status row = PENDING \<and> dw_broker w' = dw_broker w
    \<and> create_document (e\<lparr>de_redis := True\<rparr>) coll filename data i2 j2 now2 u w' = (Inr (row, True), w')"
proof -
  let ?row = "uploaded e coll filename data i u now ft"
  let ?w1 = "stored_upload e ?row data j u now w"
  note eff = stored_upload_effect [OF assms(1), where now = now and j = j]
  have "create_document (e\<lparr>de_redis := True\<rparr>) coll filename data i2 j2 now2 u ?w1 = (Inr (?row, True), ?w1)"
    using assms(1) eff(4,5) by (intro create_duplicate [where ft = ft]) (simp_all add: acceptable_def)
  moreover have "create_document e coll filename data i j now u w = (Inl Crash, ?w1)"
    using create_new [OF assms(1)] assms(2) by (simp add: Let_def)
  ultimately show ?thesis using eff(1,3) by (intro exI [of _ ?row] exI [of _ ?w1]) simp
qed

subsection \<open>Deletion\<close>

lemma delete_rows_frame [simp]:
  "t_documents (delete_rows i d) = del_by d_id i (t_documents d)" "t_chunks (delete_rows i d) = filter (\<lambda>c. ch_doc c \<noteq> i) (t_chunks d)"
  "t_jobs (delete_rows i d) = filter (\<lambda>j. j_doc j \<noteq> i) (t_jobs d)" "t_collections (delete_rows i d) = t_collections d"
  "t_permissions (delete_rows i d) = t_permissions d" "t_audit (delete_rows i d) = t_audit d"
  by (simp_all add: delete_rows_def)

lemma delete_document_success:
  assumes "delete_document e now u i w = (Inr (), w')"
  obtains doc d1 where "get_by d_id i (t_documents (dw_db w)) = Some doc" and "may_read (dw_db w) u (d_coll doc)"
    and "t_documents d1 = t_documents (dw_db w)" and "t_chunks d1 = t_chunks (dw_db w)" and "t_jobs d1 = t_jobs (dw_db w)"
    and "w' = w\<lparr>dw_chunks := qc_delete (chunk_of_document i) (dw_chunks w), dw_cache := snd (invalidate_document i (dw_cache w)),
      dw_volume := delete_document_files (de_sdir e) i (dw_volume w), dw_db := delete_rows i d1\<rparr>"
proof (cases rule: accessible_document_cases [of NOT_FOUND "dw_db w" u i])
  case (served doc)
  let ?d1 = "record_audit A_DOCUMENT_DELETE (Some (u_id u)) (Some (lit ''document'')) (Some (str_uuid i))
      (Some [(lit ''collection_id'', JStr (str_uuid (d_coll doc)))]) None now (dw_db w)"
  show ?thesis
    using assms served by (intro that [of doc ?d1])
      (auto simp: delete_document_def chunks_delete_by_document_def lifecycle_invalidate_document_def Let_def split: if_splits)
qed (use assms in \<open>simp add: delete_document_def\<close>)


subsection \<open>Integrity of the document tables\<close>

text \<open>Ids and the pair of collection and digest are unique; chunks, progress rows and collections refer to rows.\<close>

definition document_integrity :: "db \<Rightarrow> bool" where
  "document_integrity d \<longleftrightarrow> distinct (map d_id (t_documents d)) \<and> distinct (map (\<lambda>x. (d_coll x, d_hash x)) (t_documents d))
     \<and> d_coll ` set (t_documents d) \<subseteq> co_id ` set (t_collections d)
     \<and> ch_doc ` set (t_chunks d) \<subseteq> d_id ` set (t_documents d) \<and> j_doc ` set (t_jobs d) \<subseteq> d_id ` set (t_documents d)"

lemma same_content_key: "same_content d coll digest = [] \<longleftrightarrow> (coll, digest) \<notin> (\<lambda>x. (d_coll x, d_hash x)) ` set (t_documents d)"
  by (auto simp: same_content_def filter_empty_conv)

lemma integrity_insert:
  assumes "document_integrity d" and "d_id row \<notin> d_id ` set (t_documents d)" and "same_content d (d_coll row) (d_hash row) = []"
    and "get_by co_id (d_coll row) (t_collections d) \<noteq> None"
  shows "document_integrity (insert_document row j u now d)"
proof -
  have "d_coll row \<in> co_id ` set (t_collections d)" using assms(4) by (simp add: get_by_None)
  then show ?thesis
    using assms(1-3) unfolding document_integrity_def same_content_key by (auto simp: add_row_def new_job_def)
qed

lemma map_upd_by: "(\<And>r. g (f r) = g r) \<Longrightarrow> map g (upd_by key k f t) = map g t"
  by (induction t) (simp_all add: upd_by_def)

lemma integrity_requeue:
  assumes "document_integrity d" and "get_by d_id i (t_documents d) = Some doc"
  shows "document_integrity (requeue_rows i j now d)"
proof -
  have i: "i \<in> d_id ` set (t_documents d)" using assms(2) by (auto dest: get_by_SomeD)
  let ?ds = "upd_by d_id i (touch now (\<lambda>x. x\<lparr>d_status := PENDING, d_error := None\<rparr>)) (t_documents d)"
  have keys: "map d_id ?ds = map d_id (t_documents d)" "map (\<lambda>x. (d_coll x, d_hash x)) ?ds = map (\<lambda>x. (d_coll x, d_hash x)) (t_documents d)"
      "map d_coll ?ds = map d_coll (t_documents d)"
    by (rule map_upd_by; simp)+
  have sets: "d_id ` set ?ds = d_id ` set (t_documents d)" "d_coll ` set ?ds = d_coll ` set (t_documents d)"
    using arg_cong [OF keys(1), of set] arg_cong [OF keys(3), of set] by (simp_all only: list.set_map)
  show ?thesis
    using assms(1) i unfolding document_integrity_def requeue_rows_def
    by (simp add: create_job_def upd_doc_def keys sets new_job_def)
qed

lemma integrity_delete:
  assumes "document_integrity d"
  shows "document_integrity (delete_rows i d)"
  using assms unfolding document_integrity_def by (auto simp: distinct_del_by)

lemma document_integrity_audit [simp]: "document_integrity (record_audit a us rt ri de ip now d) = document_integrity d"
  by (simp add: document_integrity_def)

lemma integrity_create:
  assumes "document_integrity (dw_db w)" and "i \<notin> d_id ` set (t_documents (dw_db w))"
  shows "document_integrity (dw_db (snd (create_document e coll filename data i j now u w)))"
proof -
  have "document_integrity (insert_document (new_document i coll n ft (content_hash (de_sha e) data) us now) j u now (dw_db w))"
    if "scalar_one_or_none (same_content (dw_db w) coll (content_hash (de_sha e) data)) = Inr None" "\<not> document_refused (dw_db w) coll n" for n ft us
    using assms that by (intro integrity_insert) (auto simp: new_document_def scalar_none document_refused_def)
  then show ?thesis
    using assms(1) by (auto simp: create_document_def Let_def split: sum.splits option.splits)
qed

text \<open>
  C30. Uploads, re-indexing and deletions, whatever their outcome, keep the document tables consistent: ids
  stay unique, no collection ever holds two documents with the same content, and every chunk, progress row
  and document refers to an existing row. So the duplicate check never finds more than one row.
\<close>

theorem documents_keep_integrity:
  assumes "document_integrity (dw_db w)" and "i \<notin> d_id ` set (t_documents (dw_db w))"
  shows "document_integrity (dw_db (snd (create_document e coll filename data i j now u w)))
    \<and> document_integrity (dw_db (snd (reindex_document e j now u k w)))
    \<and> document_integrity (dw_db (snd (delete_document e now u k w)))
    \<and> (\<exists>found. scalar_one_or_none (same_content (dw_db w) coll digest) = Inr found)"
proof -
  have "document_integrity (dw_db (snd (reindex_document e j now u k w)))"
    using assms(1) by (cases rule: accessible_document_cases [of NOT_FOUND "dw_db w" u k])
      (auto simp: reindex_document_def Let_def intro: integrity_requeue)
  moreover have "document_integrity (dw_db (snd (delete_document e now u k w)))"
    using assms(1) by (cases rule: accessible_document_cases [of NOT_FOUND "dw_db w" u k])
      (auto simp: delete_document_def Let_def intro: integrity_delete split: option.splits)
  moreover have "\<exists>found. scalar_one_or_none (same_content (dw_db w) coll digest) = Inr found"
  proof -
    have "distinct (map (\<lambda>x. (d_coll x, d_hash x)) (t_documents (dw_db w)))" using assms(1) by (simp add: document_integrity_def)
    then have "length (filter (\<lambda>x. (d_coll x, d_hash x) = (coll, digest)) (t_documents (dw_db w))) \<le> 1"
    proof (rule filter_key_cases [of _ _ "(coll, digest)"])
      assume "filter (\<lambda>x. (d_coll x, d_hash x) = (coll, digest)) (t_documents (dw_db w)) = []"
      then show ?thesis by (simp only: list.size)
    next
      fix x assume "filter (\<lambda>x. (d_coll x, d_hash x) = (coll, digest)) (t_documents (dw_db w)) = [x]"
      then show ?thesis by (simp only: list.size)
    qed
    then show ?thesis by (auto simp: same_content_def scalar_one_or_none_def split: list.splits)
  qed
  ultimately show ?thesis using integrity_create [OF assms] by simp
qed

subsection \<open>Witnesses\<close>

definition demo_admin_d :: user_row where
  "demo_admin_d = \<lparr>u_id = 1, u_email = [], u_hash = [], u_role = ADMIN, u_dept = None, u_active = True\<rparr>"

definition demo_user_d :: user_row where
  "demo_user_d = demo_admin_d\<lparr>u_id := 2, u_role := USER\<rparr>"

definition demo_old_doc :: doc_row where
  "demo_old_doc = new_document 5 3 (lit ''b.txt'') (lit ''txt'') [98] 1 0"

definition demo_doc_env :: doc_env where
  "demo_doc_env = \<lparr>de_sdir = lit ''/data'', de_sha = (\<lambda>b. b), de_os = (\<lambda>_. True), de_redis = True\<rparr>"

definition demo_doc_world :: doc_world where
  "demo_doc_world = \<lparr>dw_db = empty_db\<lparr>t_collections := [\<lparr>co_id = 3, co_name = [], co_desc = None, co_dept = None\<rparr>], t_documents := [demo_old_doc]\<rparr>,
     dw_volume = [], dw_chunks = \<lparr>qc_exists = True, qc_points = []\<rparr>, dw_pages = qcoll0, dw_objects = [], dw_cache = empty_cache,
     dw_broker = \<lparr>bk_queue = [], bk_dlq = []\<rparr>\<rparr>"

lemma demo_detect: "safe_filename (lit ''a.txt'') = lit ''a.txt''" "detect (lit ''a.txt'') [97] = Inr (lit ''txt'')"
proof -
  show "safe_filename (lit ''a.txt'') = lit ''a.txt''"
    by (simp add: safe_filename_def lit_def replace_absent split_str_no_sep cut_None_if strip_def strip_by_id is_space_def)
  have "map_of ext_map (lit ''.txt'') = Some (lit ''txt'')" by (simp add: ext_map_def)
  moreover have "magic_type [97] = None" by (simp add: magic_type_def lit_Cons)
  ultimately show "detect (lit ''a.txt'') [97] = Inr (lit ''txt'')" unfolding detect_eq txt_extension by simp
qed

lemma demo_admin_reads: "may_read d demo_admin_d c"
  by (rule may_read.admin) (simp add: demo_admin_d_def)

lemma demo_acceptable: "acceptable demo_doc_env 3 (lit ''a.txt'') [97] 7 demo_admin_d demo_doc_world (lit ''txt'')"
proof -
  have "utf8 (lit ''a.txt'') \<noteq> None" by (simp add: utf8_ascii lit_def del: utf8.simps)
  then have "\<not> document_refused (dw_db demo_doc_world) 3 (lit ''a.txt'')"
    by (simp add: document_refused_def demo_doc_world_def get_by_def empty_db_def) (simp add: lit_def)
  moreover have "same_content (dw_db demo_doc_world) 3 (de_sha demo_doc_env [97]) = []"
    by (simp add: same_content_def demo_doc_world_def demo_doc_env_def empty_db_def demo_old_doc_def new_document_def)
  moreover have "de_os demo_doc_env p" for p by (simp add: demo_doc_env_def)
  ultimately show ?thesis unfolding acceptable_def demo_detect by (blast intro: demo_admin_reads)
qed

lemma upload_then_duplicate_witness:
  "\<exists>row w'. create_document demo_doc_env 3 (lit ''a.txt'') [97] 7 9 10 demo_admin_d demo_doc_world = (Inr (row, False), w')
     \<and> d_id row = 7 \<and> bk_queue (dw_broker w') = [mk_payload (str_uuid 7) 0 (Some (str_uuid 9))]"
proof -
  have "get_by d_id 7 (t_documents (dw_db demo_doc_world)) = None" "get_by j_id 9 (t_jobs (dw_db demo_doc_world)) = None" "de_redis demo_doc_env"
      "bk_queue (dw_broker demo_doc_world) = []"
    by (simp_all add: demo_doc_world_def demo_doc_env_def empty_db_def get_by_def demo_old_doc_def new_document_def)
  with upload_then_duplicate [OF demo_acceptable, of 9 10] show ?thesis by auto
qed

lemma upload_lost_without_redis_witness:
  "\<exists>row w'. create_document (demo_doc_env\<lparr>de_redis := False\<rparr>) 3 (lit ''a.txt'') [97] 7 9 10 demo_admin_d demo_doc_world = (Inl Crash, w')
     \<and> create_document (demo_doc_env\<lparr>de_redis := True\<rparr>) 3 (lit ''a.txt'') [97] 8 11 12 demo_admin_d w' = (Inr (row, True), w')"
proof -
  have "acceptable (demo_doc_env\<lparr>de_redis := False\<rparr>) 3 (lit ''a.txt'') [97] 7 demo_admin_d demo_doc_world (lit ''txt'')"
    using demo_acceptable by (simp add: acceptable_def)
  from upload_lost_without_redis [OF this, of 9 10 8 11 12] show ?thesis by auto
qed

lemma demo_delete: "\<exists>w'. delete_document demo_doc_env 10 demo_admin_d 5 demo_doc_world = (Inr (), w')"
  by (simp add: delete_document_def accessible_document_def acl_simps demo_admin_reads chunks_delete_by_document_def demo_doc_world_def
      demo_doc_env_def get_by_def demo_old_doc_def new_document_def Let_def)


lemma documents_keep_integrity_witness:
  "document_integrity (dw_db (snd (create_document demo_doc_env 3 (lit ''a.txt'') [97] 7 9 10 demo_admin_d demo_doc_world)))"
proof -
  have "document_integrity (dw_db demo_doc_world)" "(7::uuid) \<notin> d_id ` set (t_documents (dw_db demo_doc_world))"
    by (simp_all add: demo_doc_world_def document_integrity_def empty_db_def demo_old_doc_def new_document_def)
  from documents_keep_integrity [OF this] show ?thesis by blast
qed


end
