(* ===== verification/Llm.thy ===== *)
theory Llm
  imports Model Config
begin

text \<open>
  The LLM client (\<open>app/llm/client.py\<close>), the prompt helpers (\<open>app/graph/prompts.py\<close>) and the intent
  router (\<open>app/router/classifier.py\<close>). The server is a parameter, \<open>send\<close> for plain and \<open>stream\<close> for
  streamed completions (\<open>None\<close>: the call raised), as are the JSON decoder \<open>loads\<close> and Python's \<open>str\<close> of a
  decoded value. System prompts are named, not spelled out.
\<close>

datatype system_prompt = ROUTER_SYSTEM | INTENT_ROUTER_SYSTEM | PLANNER_SYSTEM | REWRITE_SYSTEM
  | GENERATOR_SYSTEM | GENERATOR_SYSTEM_DE | RELEVANCE_SYSTEM | GROUNDED_SYSTEM

subsection \<open>Prompt helpers\<close>

definition DE_CHARS :: "nat list" where
  "DE_CHARS = [228, 246, 252, 223, 196, 214, 220]"

definition DE_WORDS :: "pystr list" where
  "DE_WORDS = map lit [''der'', ''die'', ''das'', ''und'', ''ist'', ''sind'', ''was'', ''wie'', ''mehr'', ''auf'', ''mir'',
     ''den'', ''dem'', ''ein'', ''eine'', ''nicht'', ''mit'', ''von'', ''zu'', ''sich'', ''auch'',
     ''werden'', ''wird'', ''aufgaben'', ''warum'', ''wer'', ''welche'', ''kannst'']
   @ [lit ''f'' @ [252] @ lit ''r'', lit ''erkl'' @ [228] @ lit ''re'', lit ''erkl'' @ [228] @ lit ''r'']"

definition detect_lang :: "pystr \<Rightarrow> pystr" where
  "detect_lang s = (if list_ex (\<lambda>c. c \<in> set DE_CHARS) s then lit ''de''
     else if 2 \<le> length (filter (\<lambda>w. w \<in> set DE_WORDS) (remdups (words_of (lower s)))) then lit ''de''
     else lit ''en'')"

definition generator_system :: "pystr \<Rightarrow> system_prompt" where
  "generator_system q = (if detect_lang q = lit ''de'' then GENERATOR_SYSTEM_DE else GENERATOR_SYSTEM)"

definition numbered :: "nat \<Rightarrow> pystr list \<Rightarrow> pystr list" where
  "numbered start ctx = map (\<lambda>(i, c). lit ''['' @ nat_str i @ lit ''] '' @ c) (List.enumerate start ctx)"

definition format_context :: "pystr list \<Rightarrow> pystr" where
  "format_context ctx = join [10, 10] (numbered 1 ctx)"

fun message_role_value :: "message_role \<Rightarrow> pystr" where
  "message_role_value M_USER = lit ''user''"
| "message_role_value M_ASSISTANT = lit ''assistant''"
| "message_role_value M_SYSTEM = lit ''system''"

definition generator_user :: "pystr \<Rightarrow> pystr list \<Rightarrow> (message_role \<times> pystr) list \<Rightarrow> pystr" where
  "generator_user q ctx history =
     (if history = [] then []
      else lit ''Conversation so far:'' @ [10]
        @ join [10] (map (\<lambda>(r, c). message_role_value r @ lit '': '' @ c) (last_n 4 history)) @ [10, 10])
     @ lit ''Context:'' @ [10] @ format_context ctx @ [10, 10] @ lit ''Question: '' @ q @ [10, 10] @ lit ''Answer:''"

subsection \<open>Requests\<close>

datatype user_content = Plain pystr | Parts pystr "pystr list"

record chat_request =
  rq_system :: system_prompt
  rq_user :: user_content
  rq_max_tokens :: nat
  rq_effort :: "pystr option"

type_synonym backend = "chat_request \<Rightarrow> pystr option"
type_synonym stream_backend = "chat_request \<Rightarrow> pystr list \<times> bool"

definition reasoning :: "cfg_model \<Rightarrow> pystr" where
  "reasoning cfg = lower (strip (llm_reasoning_effort cfg))"

definition reasoning_kwargs :: "cfg_model \<Rightarrow> pystr option \<Rightarrow> pystr option" where
  "reasoning_kwargs cfg effort =
     (if reasoning cfg = [] then None
      else Some (case effort of Some e \<Rightarrow> if e = [] then reasoning cfg else e | None \<Rightarrow> reasoning cfg))"

definition token_budget :: "cfg_model \<Rightarrow> nat \<Rightarrow> nat" where
  "token_budget cfg base = (if reasoning cfg = [] then base else base + 256)"

definition user_content_of :: "pystr \<Rightarrow> pystr list \<Rightarrow> user_content" where
  "user_content_of user images = (if images = [] then Plain user
     else Parts user (map (\<lambda>b. lit ''data:image/png;base64,'' @ b) images))"

definition request :: "cfg_model \<Rightarrow> system_prompt \<Rightarrow> user_content \<Rightarrow> nat \<Rightarrow> pystr option \<Rightarrow> chat_request" where
  "request cfg sys user maxt effort = \<lparr>rq_system = sys, rq_user = user, rq_max_tokens = token_budget cfg maxt,
     rq_effort = reasoning_kwargs cfg effort\<rparr>"

definition chat_call :: "backend \<Rightarrow> cfg_model \<Rightarrow> system_prompt \<Rightarrow> user_content \<Rightarrow> nat \<Rightarrow> pystr option \<Rightarrow> pystr option" where
  "chat_call send cfg sys user maxt effort = map_option strip (send (request cfg sys user maxt effort))"

text \<open>The streamed call: the text or the exception, and the tokens that were passed on meanwhile.\<close>

definition chat_stream_call ::
  "stream_backend \<Rightarrow> cfg_model \<Rightarrow> system_prompt \<Rightarrow> user_content \<Rightarrow> nat \<Rightarrow> pystr option \<times> pystr list" where
  "chat_stream_call stream cfg sys user maxt =
     (case stream (request cfg sys user maxt None) of (deltas, failed) \<Rightarrow>
        let parts = filter (\<lambda>d. d \<noteq> []) deltas in (if failed then None else Some (strip (concat parts)), parts))"

subsection \<open>Structured replies\<close>

text \<open>\<open>out[out.find("{"):out.rfind("}") + 1]\<close> when both braces occur.\<close>

definition brace_slice :: "pystr \<Rightarrow> pystr" where
  "brace_slice s =
     (if 123 \<in> set s \<and> 125 \<in> set s then
        let start = length (takeWhile (\<lambda>c. c \<noteq> 123) s);
            past = length s - length (takeWhile (\<lambda>c. c \<noteq> 125) (rev s))
        in drop start (take past s)
      else s)"

fun json_get :: "pystr \<Rightarrow> json \<Rightarrow> json option option" where
  "json_get key (JObj kvs) = Some (map_of (rev kvs) key)"
| "json_get key _ = None"

text \<open>\<open>_json\<close>: any exception, a reply that is not an object, and an absent key give the default;
  a key that is present gives its value, \<open>null\<close> included.\<close>

definition json_call ::
  "backend \<Rightarrow> (pystr \<Rightarrow> json option) \<Rightarrow> cfg_model \<Rightarrow> system_prompt \<Rightarrow> pystr \<Rightarrow> pystr \<Rightarrow> json \<Rightarrow> nat \<Rightarrow> json" where
  "json_call send loads cfg sys user key dflt maxt =
     (case chat_call send cfg sys (Plain user) maxt (Some (lit ''low'')) of
        None \<Rightarrow> dflt
      | Some out \<Rightarrow>
        (case loads (brace_slice out) of
           None \<Rightarrow> dflt
         | Some v \<Rightarrow> (case json_get key v of None \<Rightarrow> dflt | Some None \<Rightarrow> dflt | Some (Some x) \<Rightarrow> x)))"

fun truthy :: "json \<Rightarrow> bool" where
  "truthy JNull = False"
| "truthy (JBool b) = b"
| "truthy (JInt i) = (i \<noteq> 0)"
| "truthy (JNum q) = (q \<noteq> 0)"
| "truthy (JStr s) = (s \<noteq> [])"
| "truthy (JList l) = (l \<noteq> [])"
| "truthy (JObj kvs) = (kvs \<noteq> [])"

definition ROUTES :: "pystr list" where
  "ROUTES = map lit [''simple_rag'', ''complex_multi_step'', ''summarization'', ''comparison'', ''table_question'',
     ''chart_question'', ''diagram_question'', ''image_question'', ''unsupported'']"

definition legacy_route :: "backend \<Rightarrow> (pystr \<Rightarrow> json option) \<Rightarrow> cfg_model \<Rightarrow> pystr \<Rightarrow> pystr" where
  "legacy_route send loads cfg q =
     (case json_call send loads cfg ROUTER_SYSTEM q (lit ''route'') (JStr (lit ''simple_rag'')) 40 of
        JStr r \<Rightarrow> if r \<in> set ROUTES then r else lit ''simple_rag'' | _ \<Rightarrow> lit ''simple_rag'')"

definition route_intent :: "backend \<Rightarrow> (pystr \<Rightarrow> json option) \<Rightarrow> cfg_model \<Rightarrow> pystr \<Rightarrow> pystr option" where
  "route_intent send loads cfg q =
     (case json_call send loads cfg INTENT_ROUTER_SYSTEM q (lit ''intent'') JNull 16 of JStr s \<Rightarrow> Some s | _ \<Rightarrow> None)"

text \<open>What \<open>for s in steps\<close> iterates over; \<open>None\<close> is the \<open>TypeError\<close>.\<close>

fun py_iter :: "json \<Rightarrow> json list option" where
  "py_iter (JList l) = Some l"
| "py_iter (JStr s) = Some (map (\<lambda>c. JStr [c]) s)"
| "py_iter (JObj kvs) = Some (map JStr (remdups (map fst kvs)))"
| "py_iter _ = None"

definition plan :: "backend \<Rightarrow> (pystr \<Rightarrow> json option) \<Rightarrow> (json \<Rightarrow> pystr) \<Rightarrow> cfg_model \<Rightarrow> pystr \<Rightarrow> pystr list option" where
  "plan send loads str_of cfg q =
     (case py_iter (json_call send loads cfg PLANNER_SYSTEM q (lit ''steps'') (JList [JStr q]) 200) of
        None \<Rightarrow> None
      | Some steps \<Rightarrow> (let s = take 3 (map str_of steps) in Some (if s = [] then [q] else s)))"

definition rewrite_query :: "backend \<Rightarrow> cfg_model \<Rightarrow> pystr \<Rightarrow> pystr" where
  "rewrite_query send cfg q = (case chat_call send cfg REWRITE_SYSTEM (Plain q) 80 None of
       None \<Rightarrow> q | Some r \<Rightarrow> if r = [] then q else r)"

definition generate ::
  "backend \<Rightarrow> cfg_model \<Rightarrow> pystr \<Rightarrow> pystr list \<Rightarrow> (message_role \<times> pystr) list \<Rightarrow> pystr list \<Rightarrow> pystr" where
  "generate send cfg q ctx history images =
     (case chat_call send cfg (generator_system q) (user_content_of (generator_user q ctx history) images) 700 None of
        None \<Rightarrow> [] | Some a \<Rightarrow> a)"

definition generate_stream ::
  "stream_backend \<Rightarrow> cfg_model \<Rightarrow> pystr \<Rightarrow> pystr list \<Rightarrow> (message_role \<times> pystr) list \<Rightarrow> pystr list \<Rightarrow> pystr \<times> pystr list" where
  "generate_stream stream cfg q ctx history images =
     (case chat_stream_call stream cfg (generator_system q) (user_content_of (generator_user q ctx history) images) 700 of
        (None, toks) \<Rightarrow> ([], toks) | (Some a, toks) \<Rightarrow> (a, toks))"

definition grade_relevance :: "backend \<Rightarrow> (pystr \<Rightarrow> json option) \<Rightarrow> cfg_model \<Rightarrow> pystr \<Rightarrow> pystr list \<Rightarrow> bool" where
  "grade_relevance send loads cfg q ctx =
     (case ctx of [] \<Rightarrow> False
      | c # _ \<Rightarrow> truthy (json_call send loads cfg RELEVANCE_SYSTEM
          (lit ''Question: '' @ q @ [10, 10] @ lit ''Context:'' @ [10] @ take 1500 c) (lit ''relevant'') (JBool True) 20))"

definition grade_grounded :: "backend \<Rightarrow> (pystr \<Rightarrow> json option) \<Rightarrow> cfg_model \<Rightarrow> pystr \<Rightarrow> pystr list \<Rightarrow> bool" where
  "grade_grounded send loads cfg answer ctx =
     (if answer = [] then False
      else truthy (json_call send loads cfg GROUNDED_SYSTEM
          (lit ''Answer: '' @ answer @ [10, 10] @ lit ''Context:'' @ [10] @ take 2000 (join [10] ctx))
          (lit ''grounded'') (JBool True) 20))"

subsection \<open>Availability probe\<close>

text \<open>State: the instant of the last probe and its outcome; \<open>up\<close> is what a connection attempt would give.\<close>

definition llm_available :: "rat \<Rightarrow> bool \<Rightarrow> rat \<Rightarrow> rat \<times> bool \<Rightarrow> bool \<times> (rat \<times> bool)" where
  "llm_available ttl up now st = (case st of (checked_at, ok) \<Rightarrow>
     if now - checked_at < ttl then (ok, st) else (up, (now, up)))"

subsection \<open>The intent router\<close>

definition INTENTS :: "pystr list" where
  "INTENTS = map lit [''text'', ''visual'', ''metadata'', ''multi_doc'']"

definition FALLBACK_INTENT :: pystr where
  "FALLBACK_INTENT = lit ''text''"

record router_decision =
  rd_intent :: pystr
  rd_source :: pystr

text \<open>\<open>raw\<close>: the reply of the classification model, \<open>None\<close> for no label or an exception.\<close>

definition classify :: "(pystr \<Rightarrow> pystr option) \<Rightarrow> pystr \<Rightarrow> router_decision" where
  "classify raw q =
     (if blank q then \<lparr>rd_intent = FALLBACK_INTENT, rd_source = lit ''fallback''\<rparr>
      else case raw q of
        Some r \<Rightarrow> if r \<in> set INTENTS then \<lparr>rd_intent = r, rd_source = lit ''llm''\<rparr>
                  else \<lparr>rd_intent = FALLBACK_INTENT, rd_source = lit ''fallback''\<rparr>
      | None \<Rightarrow> \<lparr>rd_intent = FALLBACK_INTENT, rd_source = lit ''fallback''\<rparr>)"

subsection \<open>Properties\<close>

text \<open>
  Routing is total and closed: whatever the model answers, or if it does not answer, the intent
  is one of the four labels, and the source says \<open>llm\<close> exactly when the model itself returned that
  label for a non-blank query; otherwise the intent is \<open>text\<close>.
\<close>

theorem classify_closed:
  "rd_intent (classify raw q) \<in> set INTENTS \<and>
   (rd_source (classify raw q) = lit ''llm'' \<longleftrightarrow> \<not> blank q \<and> (\<exists>r \<in> set INTENTS. raw q = Some r \<and> rd_intent (classify raw q) = r)) \<and>
   (rd_source (classify raw q) \<noteq> lit ''llm'' \<longrightarrow> rd_intent (classify raw q) = lit ''text'')"
  by (auto simp: classify_def FALLBACK_INTENT_def INTENTS_def split: option.splits)

lemma classify_closed_witness:
  "rd_intent (classify (\<lambda>_. Some (lit ''poem'')) (lit ''hi'')) = lit ''text''"
proof -
  have "rd_source (classify (\<lambda>_. Some (lit ''poem'')) (lit ''hi'')) \<noteq> lit ''llm''"
    by (simp add: classify_def INTENTS_def)
  then show ?thesis using classify_closed [of "\<lambda>_. Some (lit ''poem'')" "lit ''hi''"] by blast
qed

text \<open>
  A plan has between one and three steps whenever it is returned, and an unreachable or
  unparsable backend gives the question itself; but the call raises exactly when the model's
  \<open>steps\<close> field is present and not iterable, \<open>null\<close> or a number for instance, which no handler catches.
\<close>

theorem plan_bounded_or_raises:
  fixes send loads str_of cfg q
  defines "reply \<equiv> json_call send loads cfg PLANNER_SYSTEM q (lit ''steps'') (JList [JStr q]) 200"
  shows "(case plan send loads str_of cfg q of Some steps \<Rightarrow> 1 \<le> length steps \<and> length steps \<le> 3
            | None \<Rightarrow> reply = JNull \<or> (\<exists>b. reply = JBool b) \<or> (\<exists>i. reply = JInt i) \<or> (\<exists>x. reply = JNum x))
     \<and> ((\<forall>r. send r = None) \<longrightarrow> plan send loads str_of cfg q = Some [str_of (JStr q)])
     \<and> (reply = JNull \<longrightarrow> plan send loads str_of cfg q = None)"
proof (intro conjI impI)
  show "case plan send loads str_of cfg q of Some steps \<Rightarrow> 1 \<le> length steps \<and> length steps \<le> 3
          | None \<Rightarrow> reply = JNull \<or> (\<exists>b. reply = JBool b) \<or> (\<exists>i. reply = JInt i) \<or> (\<exists>x. reply = JNum x)"
    unfolding plan_def reply_def [symmetric]
    by (cases reply) (auto simp: Let_def Suc_le_eq)
next
  assume "\<forall>r. send r = None"
  then show "plan send loads str_of cfg q = Some [str_of (JStr q)]"
    by (simp add: plan_def json_call_def chat_call_def Let_def)
next
  assume "reply = JNull"
  then show "plan send loads str_of cfg q = None" by (simp add: plan_def reply_def)
qed

lemma plan_bounded_or_raises_witness:
  "plan (\<lambda>_. Some (lit ''{}'')) (\<lambda>_. Some (JObj [(lit ''steps'', JNull)])) (\<lambda>_. []) default_model (lit ''q'') = None"
  by (rule plan_bounded_or_raises [THEN conjunct2, THEN conjunct2, rule_format])
    (simp add: json_call_def chat_call_def)

text \<open>Streaming delivers what it returns: the tokens passed on concatenate to the answer, up to blanks at its ends.\<close>

lemma stream_tokens: "generate_stream stream cfg q ctx h im = (a, toks) \<Longrightarrow> a = [] \<or> a = strip (concat toks)"
  by (auto simp: generate_stream_def chat_stream_call_def Let_def split: prod.splits option.splits if_splits)

text \<open>Without a reasoning backend no effort is sent and budgets are unchanged.\<close>

lemma no_reasoning: "reasoning cfg = [] \<Longrightarrow> rq_effort (request cfg s u n e) = None \<and> rq_max_tokens (request cfg s u n e) = n"
  by (simp add: request_def reasoning_kwargs_def token_budget_def)

text \<open>
  The probe is cached: within \<open>ttl\<close> of a connection attempt the answer is that attempt's outcome.
\<close>

lemma probe_cached:
  "snd (llm_available ttl up now st) = (t, ok) \<Longrightarrow> now' - t < ttl \<Longrightarrow>
   llm_available ttl up' now' (t, ok) = (fst (llm_available ttl up now st), (t, ok))"
  by (auto simp: llm_available_def split: if_splits prod.splits)

end
