(* ===== verification/Tokens.thy ===== *)
theory Tokens
  imports Prelude
begin

text \<open>
  The token estimator of \<open>app/ingestion/chunker.py\<close> and its inverse, exact in integers: 3.8 code
  points per token, \<open>round\<close> to nearest (a tie cannot occur, since \<open>10 * n\<close> is never an odd
  multiple of 19), \<open>int\<close> rounding down.
\<close>

definition estimate_len :: "nat \<Rightarrow> nat" where
  "estimate_len n = max 1 ((10 * n + 19) div 38)"

definition estimate_tokens :: "pystr \<Rightarrow> nat" where
  "estimate_tokens s = estimate_len (length s)"

definition chars_for_tokens :: "nat \<Rightarrow> nat" where
  "chars_for_tokens b = 19 * b div 5"

lemma estimate_pos [simp]: "1 \<le> estimate_tokens s" "0 < estimate_tokens s"
  by (simp_all add: estimate_tokens_def estimate_len_def)

lemma estimate_mono: "m \<le> n \<Longrightarrow> estimate_len m \<le> estimate_len n"
  unfolding estimate_len_def by (intro max.mono div_le_mono) auto

lemma estimate_chars [bounds]: "1 \<le> b \<Longrightarrow> n \<le> chars_for_tokens b \<Longrightarrow> estimate_len n \<le> b"
proof -
  assume b: "1 \<le> b" and n: "n \<le> chars_for_tokens b"
  have "5 * chars_for_tokens b \<le> 19 * b" unfolding chars_for_tokens_def by simp
  moreover have "38 * (b + 1) = 2 * (19 * b) + 38" by simp
  ultimately have "10 * n + 19 < 38 * (b + 1)" using n by linarith
  then have "(10 * n + 19) div 38 < b + 1" by (simp add: less_mult_imp_div_less mult.commute)
  with b show ?thesis by (simp add: estimate_len_def)
qed

lemma estimate_length: "5 * length s \<le> 19 * estimate_tokens s + 9"
  unfolding estimate_tokens_def estimate_len_def by (auto simp: max_def)

end
