(* ===== verification/Assemble.thy ===== *)
theory Assemble
  imports Tokens Config SemCache "HOL-Library.Multiset"
begin

text \<open>
  Fusion of the two rankings (\<open>app/retrieval/fusion.py\<close>), the context assembler
  (\<open>app/context/assembler.py\<close>) and citation extraction (\<open>app/graph/citations.py\<close>): what the generator
  may see and what its markers refer to. Chunk and page dicts of the graph state are records.
\<close>

record chunk_item =
  k_chunk :: pystr
  k_doc :: pystr
  k_coll :: pystr
  k_type :: pystr
  k_page :: "int option"
  k_section :: "pystr option"
  k_content :: pystr
  k_score :: rat
  k_file :: "pystr option"
  k_image :: "pystr option"

record page_item =
  g_point :: pystr
  g_doc :: pystr
  g_coll :: pystr
  g_page :: int
  g_uri :: pystr
  g_file :: "pystr option"
  g_score :: rat

subsection \<open>Reciprocal rank fusion\<close>

datatype cand = Chunk chunk_item | Page page_item

definition scored :: "nat \<Rightarrow> nat \<Rightarrow> cand list \<Rightarrow> (cand \<times> rat) list" where
  "scored k start xs = map (\<lambda>(i, c). (c, 1 / of_nat (k + i))) (List.enumerate start xs)"

text \<open>\<open>k or _settings.fusion_rrf_k\<close>; the sort is stable and descending.\<close>

definition rrf_merge :: "cfg_retrieval \<Rightarrow> nat option \<Rightarrow> chunk_item list \<Rightarrow> page_item list \<Rightarrow> (cand \<times> rat) list" where
  "rrf_merge cfg k chunks pages =
     (let k' = (case k of Some n \<Rightarrow> if n = 0 then fusion_rrf_k cfg else n | None \<Rightarrow> fusion_rrf_k cfg)
      in sort_key (\<lambda>f. - snd f) (scored k' 1 (map Chunk chunks) @ scored k' 1 (map Page pages)))"

text \<open>The reference: take turns, text first.\<close>

fun interleave :: "'a list \<Rightarrow> 'a list \<Rightarrow> 'a list" where
  "interleave [] ys = ys"
| "interleave (x # xs) ys = x # (case ys of [] \<Rightarrow> xs | y # ys' \<Rightarrow> y # interleave xs ys')"

lemma set_interleave [simp]: "set (interleave xs ys) = set xs \<union> set ys"
  by (induction xs ys rule: interleave.induct) (auto split: list.splits)

lemma mset_interleave: "mset (interleave xs ys) = mset xs + mset ys"
  by (induction xs ys rule: interleave.induct) (auto split: list.splits)

lemma map_interleave: "map f (interleave xs ys) = interleave (map f xs) (map f ys)"
  by (induction xs ys rule: interleave.induct) (auto split: list.splits)

lemma scored_Nil [simp]: "scored k n [] = []"
  by (simp add: scored_def)

lemma scored_Cons [simp]: "scored k n (x # xs) = (x, 1 / of_nat (k + n)) # scored k (Suc n) xs"
  by (simp add: scored_def)

lemma map_fst_scored [simp]: "map fst (scored k n xs) = xs"
  by (induction xs arbitrary: n) auto

lemma scored_below: "p \<in> set (scored k n xs) \<Longrightarrow> 0 < n \<Longrightarrow> snd p \<le> 1 / of_nat (k + n)"
proof (induction xs arbitrary: n)
  case (Cons x xs)
  have "p = (x, 1 / of_nat (k + n)) \<or> p \<in> set (scored k (Suc n) xs)" using Cons.prems(1) by simp
  then consider "snd p = 1 / of_nat (k + n)" | "snd p \<le> 1 / of_nat (k + Suc n)" using Cons.IH [of "Suc n"] by auto
  then show ?case
  proof cases
    case 2
    also have "(1 :: rat) / of_nat (k + Suc n) \<le> 1 / of_nat (k + n)"
      using Cons.prems by (simp add: field_simps)
    finally show ?thesis .
  qed simp
qed simp

lemma scored_tail_less: "p \<in> set (scored k (Suc n) xs) \<Longrightarrow> 0 < n \<Longrightarrow> snd p < 1 / of_nat (k + n)"
proof -
  assume p: "p \<in> set (scored k (Suc n) xs)" and n: "0 < n"
  have "snd p \<le> 1 / of_nat (k + Suc n)" using scored_below [OF p] by simp
  also have "\<dots> < (1 :: rat) / of_nat (k + n)" using n by (simp add: field_simps)
  finally show ?thesis .
qed

lemma sorted_interleave:
  "0 < n \<Longrightarrow> sorted (map (\<lambda>f. - snd f) (interleave (scored k n xs) (scored k n ys)))"
proof (induction xs arbitrary: n ys)
  case Nil
  have "sorted (map (\<lambda>f. - snd f) (scored k n ys))" using Nil
    by (induction ys arbitrary: n) (auto dest: scored_tail_less)
  then show ?case by simp
next
  case (Cons x xs)
  have tail: "sorted (map (\<lambda>f. - snd f) (interleave (scored k (Suc n) xs) (scored k (Suc n) zs)))" for zs
    using Cons.IH [of "Suc n" zs] by simp
  have bound: "\<forall>p \<in> set (scored k (Suc n) zs). snd p < 1 / of_nat (k + n)" for zs
    using Cons.prems by (auto dest: scored_tail_less)
  show ?case
  proof (cases ys)
    case Nil
    then show ?thesis using tail [of "[]"] bound [of xs]
      by (simp add: less_imp_le) (cases "scored k (Suc n) xs"; simp)
  next
    case (Cons y ys')
    then show ?thesis using tail [of ys'] bound [of xs] bound [of ys'] by (auto simp: less_imp_le)
  qed
qed

lemma stable_interleave:
  "0 < n \<Longrightarrow> filter (\<lambda>f. c = - snd f) (interleave (scored k n xs) (scored k n ys)) =
     filter (\<lambda>f. c = - snd f) (scored k n xs @ scored k n ys)"
proof (induction xs arbitrary: n ys)
  case (Cons x xs)
  have none: "c = - (1 / of_nat (k + n)) \<Longrightarrow> filter (\<lambda>f. c = - snd f) (scored k (Suc n) zs) = []" for zs
    using Cons.prems by (auto simp: filter_empty_conv dest!: scored_tail_less)
  show ?case
  proof (cases ys)
    case (Cons y ys')
    with Cons.IH [of "Suc n" ys'] none show ?thesis by auto
  qed simp
qed simp

lemma rrf_fst: "map fst (rrf_merge cfg k chunks pages) = interleave (map Chunk chunks) (map Page pages)"
proof -
  define k' where "k' = (case k of Some n \<Rightarrow> if n = 0 then fusion_rrf_k cfg else n | None \<Rightarrow> fusion_rrf_k cfg)"
  let ?c = "scored k' 1 (map Chunk chunks)" and ?p = "scored k' 1 (map Page pages)"
  have "sort_key (\<lambda>f. - snd f) (?c @ ?p) = interleave ?c ?p"
  proof (rule properties_for_sort_key)
    show "mset (interleave ?c ?p) = mset (?c @ ?p)" by (simp add: mset_interleave)
    show "filter (\<lambda>x. - snd f = - snd x) (interleave ?c ?p) = filter (\<lambda>x. - snd f = - snd x) (?c @ ?p)" for f
      by (rule stable_interleave) simp
    show "sorted (map (\<lambda>f. - snd f) (interleave ?c ?p))" by (rule sorted_interleave) simp
  qed
  then show ?thesis by (simp add: rrf_merge_def Let_def map_interleave flip: k'_def)
qed

text \<open>
  Reciprocal rank fusion of two rankings, with its scores, stable sort and default constant,
  is nothing but taking turns: the first text chunk, the first page, the second chunk, the second
  page, and so on, then the rest of the longer list. No candidate is lost or repeated.
\<close>

theorem rrf_merge_interleaves:
  "map fst (rrf_merge cfg k chunks pages) = interleave (map Chunk chunks) (map Page pages)"
  by (rule rrf_fst)

subsection \<open>The assembler\<close>

record assembled_image =
  ai_document :: pystr
  ai_page :: int
  ai_uri :: pystr
  ai_b64 :: pystr
  ai_file :: "pystr option"

record assembled =
  as_blocks :: "pystr list"
  as_packed :: "chunk_item list"
  as_images :: "assembled_image list"
  as_tokens :: nat
  as_dropped_acl :: nat
  as_dropped_budget :: nat

definition assembled0 :: assembled where
  "assembled0 = \<lparr>as_blocks = [], as_packed = [], as_images = [], as_tokens = 0, as_dropped_acl = 0, as_dropped_budget = 0\<rparr>"

text \<open>\<open>base64.b64encode(bytes).decode("ascii")\<close>\<close>

definition b64_digit :: "nat \<Rightarrow> nat" where
  "b64_digit n = (if n < 26 then 65 + n else if n < 52 then 71 + n else if n < 62 then n - 4
     else if n = 62 then 43 else 47)"

fun base64 :: "nat list \<Rightarrow> pystr" where
  "base64 [] = []"
| "base64 [a] = [b64_digit (a div 4), b64_digit (a mod 4 * 16), 61, 61]"
| "base64 [a, b] = [b64_digit (a div 4), b64_digit (a mod 4 * 16 + b div 16), b64_digit (b mod 16 * 4), 61]"
| "base64 (a # b # c # rest) = [b64_digit (a div 4), b64_digit (a mod 4 * 16 + b div 16),
     b64_digit (b mod 16 * 4 + c div 64), b64_digit (c mod 64)] @ base64 rest"

text \<open>\<open>get\<close> reads an object of the store; \<open>None\<close> is any exception.\<close>

definition load_image_b64 :: "(pystr \<Rightarrow> nat list option) \<Rightarrow> page_item \<Rightarrow> pystr option" where
  "load_image_b64 get p = (if g_uri p = [] then None else map_option base64 (get (g_uri p)))"

definition acl_ok :: "cand \<Rightarrow> pystr set \<Rightarrow> bool" where
  "acl_ok c allowed \<longleftrightarrow> (case c of Chunk k \<Rightarrow> k_coll k | Page g \<Rightarrow> g_coll g) \<in> allowed"

definition truncate_to_budget :: "pystr \<Rightarrow> nat \<Rightarrow> pystr" where
  "truncate_to_budget s b = take (chars_for_tokens b) s"

definition pack_one ::
  "(pystr \<Rightarrow> nat list option) \<Rightarrow> pystr set \<Rightarrow> nat \<Rightarrow> nat \<Rightarrow> cand \<Rightarrow> assembled \<Rightarrow> assembled" where
  "pack_one get allowed budget max_images c out =
     (if \<not> acl_ok c allowed then out\<lparr>as_dropped_acl := Suc (as_dropped_acl out)\<rparr>
      else case c of
        Page g \<Rightarrow>
          if max_images \<le> length (as_images out) then out\<lparr>as_dropped_budget := Suc (as_dropped_budget out)\<rparr>
          else (case load_image_b64 get g of None \<Rightarrow> out
            | Some b \<Rightarrow> out\<lparr>as_images := as_images out @
                [\<lparr>ai_document = g_doc g, ai_page = g_page g, ai_uri = g_uri g, ai_b64 = b, ai_file = g_file g\<rparr>]\<rparr>)
      | Chunk k \<Rightarrow>
          let cost = estimate_tokens (k_content k) in
          if as_tokens out + cost > budget then
            (if as_packed out = [] \<and> k_content k \<noteq> [] then
               let content = truncate_to_budget (k_content k) budget in
               out\<lparr>as_blocks := as_blocks out @ [content], as_packed := as_packed out @ [k\<lparr>k_content := content\<rparr>],
                   as_tokens := estimate_tokens content\<rparr>
             else out\<lparr>as_dropped_budget := Suc (as_dropped_budget out)\<rparr>)
          else out\<lparr>as_blocks := as_blocks out @ [k_content k], as_packed := as_packed out @ [k],
                   as_tokens := as_tokens out + cost\<rparr>)"

definition assemble ::
  "cfg_retrieval \<Rightarrow> (pystr \<Rightarrow> nat list option) \<Rightarrow> uuid set \<Rightarrow> nat option \<Rightarrow> nat option \<Rightarrow> chunk_item list \<Rightarrow> page_item list
     \<Rightarrow> assembled" where
  "assemble cfg get allowed token_budget max_images chunks pages =
     (let budget = (case token_budget of Some n \<Rightarrow> if n = 0 then context_token_budget cfg else n
                      | None \<Rightarrow> context_token_budget cfg);
          imgs = (case max_images of Some n \<Rightarrow> n | None \<Rightarrow> context_max_images cfg)
      in fold (pack_one get (str_uuid ` allowed) budget imgs) (map fst (rrf_merge cfg None chunks pages)) assembled0)"

subsection \<open>Citations\<close>

text \<open>
  \<open>re.findall(r"\\[(\\d+)\\]", answer)\<close>: the digit strings between brackets, leftmost first. A failed
  attempt at one bracket resumes with the next code point.
\<close>

fun digits_to_close :: "nat \<Rightarrow> pystr \<Rightarrow> pystr \<Rightarrow> (pystr \<times> pystr) option" where
  "digits_to_close close acc [] = None"
| "digits_to_close close acc (c # s) =
     (if is_digit c then digits_to_close close (acc @ [c]) s
      else if c = close \<and> acc \<noteq> [] then Some (acc, s) else None)"

lemma digits_to_close_length: "digits_to_close cl acc s = Some (d, r) \<Longrightarrow> length r < length s"
  by (induction cl acc s rule: digits_to_close.induct) (auto split: if_splits)

function cite_markers :: "pystr \<Rightarrow> pystr list" where
  "cite_markers [] = []"
| "cite_markers (c # s) =
     (if c = 91 then (case digits_to_close 93 [] s of Some (d, r) \<Rightarrow> d # cite_markers r | None \<Rightarrow> cite_markers s)
      else cite_markers s)"
  by pat_completeness auto
termination
  by (relation "measure length") (auto dest: digits_to_close_length)

fun dec_value :: "nat \<Rightarrow> pystr \<Rightarrow> nat" where
  "dec_value acc [] = acc"
| "dec_value acc (c # s) = dec_value (10 * acc + (c - 48)) s"

definition INSUFFICIENT_ANSWER :: pystr where
  "INSUFFICIENT_ANSWER = lit ''I don't have enough supporting evidence in the documents you can access to answer that confidently.''"

definition citation_of :: "nat \<Rightarrow> chunk_item \<Rightarrow> citation" where
  "citation_of n c = \<lparr>ci_marker = Some n, ci_document = Some (k_doc c), ci_chunk = Some (k_chunk c), ci_page = k_page c,
     ci_type = Some (k_type c), ci_file = k_file c, ci_section = k_section c, ci_content = Some (k_content c),
     ci_image = k_image c, ci_revoked = False\<rparr>"

definition extract_citations :: "pystr \<Rightarrow> chunk_item list \<Rightarrow> citation list" where
  "extract_citations answer chunks =
     (if answer = [] \<or> strip answer = INSUFFICIENT_ANSWER then []
      else map (\<lambda>n. citation_of n (chunks ! (n - 1)))
             (filter (\<lambda>n. 1 \<le> n \<and> n \<le> length chunks)
               (sort (remdups (map (dec_value 0) (cite_markers answer))))))"

text \<open>
  \<open>_NATIVE_CITE.sub(r"[\\1]", answer)\<close>: U+3010, blanks, digits, blanks, optionally U+2020 and anything
  up to the next U+3011. The blanks before the dagger may be given back, but a failing tail fails for
  every split, so greedy scanning decides the match.
\<close>

definition native_tail :: "pystr \<Rightarrow> pystr option" where
  "native_tail s = (case dropWhile is_space s of
       [] \<Rightarrow> None
     | c # r \<Rightarrow> if c = 12305 then Some r
         else if c = 8224 then (case dropWhile (\<lambda>x. x \<noteq> 12305) r of [] \<Rightarrow> None | _ # r' \<Rightarrow> Some r')
         else None)"

definition native_match :: "pystr \<Rightarrow> (pystr \<times> pystr) option" where
  "native_match s = (let t = dropWhile is_space s; d = takeWhile is_digit t in
     if d = [] then None
     else case native_tail (dropWhile is_digit t) of None \<Rightarrow> None | Some r \<Rightarrow> Some (d, r))"

lemma length_dropWhile: "length (dropWhile p s) \<le> length s"
  by (metis length_append le_add2 takeWhile_dropWhile_id)

lemma native_tail_length: "native_tail s = Some r \<Longrightarrow> length r < length s"
proof -
  assume r: "native_tail s = Some r"
  then obtain c t where t: "dropWhile is_space s = c # t" by (auto simp: native_tail_def split: list.splits)
  have "length r \<le> length t"
    using r t length_dropWhile [of "\<lambda>x. x \<noteq> 12305" t] by (auto simp: native_tail_def split: if_splits list.splits)
  also have "\<dots> < length s" using length_dropWhile [of is_space s] t by simp
  finally show ?thesis .
qed

lemma native_match_length: "native_match s = Some (d, r) \<Longrightarrow> length r < length s"
  using length_dropWhile [of is_space s] length_dropWhile [of is_digit "dropWhile is_space s"]
  by (force simp: native_match_def Let_def dest: native_tail_length split: if_splits option.splits)

function normalize_markers :: "pystr \<Rightarrow> pystr" where
  "normalize_markers [] = []"
| "normalize_markers (c # s) =
     (if c = 12304 then (case native_match s of
          Some (d, r) \<Rightarrow> [91] @ d @ [93] @ normalize_markers r
        | None \<Rightarrow> c # normalize_markers s)
      else c # normalize_markers s)"
  by pat_completeness auto
termination
  by (relation "measure length") (auto dest: native_match_length)

subsection \<open>Properties of the assembler\<close>

text \<open>A packed chunk is a delivered chunk, up to a truncation of its text.\<close>

definition trimmed_from :: "chunk_item \<Rightarrow> chunk_item \<Rightarrow> bool" where
  "trimmed_from k k0 \<longleftrightarrow> k0\<lparr>k_content := k_content k\<rparr> = k \<and> prefix (k_content k) (k_content k0)"

lemma trimmed_refl [simp]: "trimmed_from k k"
  by (simp add: trimmed_from_def)

lemma trimmed_take [simp]: "trimmed_from (k\<lparr>k_content := truncate_to_budget (k_content k) b\<rparr>) k"
  by (simp add: trimmed_from_def truncate_to_budget_def take_is_prefix)

text \<open>What holds of the assembled context while the fused list is packed.\<close>

definition pack_inv :: "pystr set \<Rightarrow> nat \<Rightarrow> nat \<Rightarrow> cand list \<Rightarrow> assembled \<Rightarrow> bool" where
  "pack_inv allowed budget imgs seen out \<longleftrightarrow>
     as_blocks out = map k_content (as_packed out) \<and>
     (\<forall>k \<in> set (as_packed out). k_coll k \<in> allowed \<and> (\<exists>k0. Chunk k0 \<in> set seen \<and> trimmed_from k k0)) \<and>
     (\<forall>i \<in> set (as_images out). \<exists>g. Page g \<in> set seen \<and> g_coll g \<in> allowed \<and> ai_uri i = g_uri g \<and> ai_document i = g_doc g) \<and>
     as_tokens out = sum_list (map (estimate_tokens \<circ> k_content) (as_packed out)) \<and> (1 \<le> budget \<longrightarrow> sum_list (map (estimate_tokens \<circ> k_content) (as_packed out)) \<le> budget) \<and>
     length (as_images out) \<le> imgs \<and>
     as_dropped_acl out = length (filter (\<lambda>c. \<not> acl_ok c allowed) seen) \<and>
     (as_packed out = [] \<longrightarrow> (\<forall>k. Chunk k \<in> set seen \<longrightarrow> k_coll k \<in> allowed \<longrightarrow> k_content k = []))"

lemma pack_inv_init: "pack_inv allowed budget imgs [] assembled0"
  by (simp add: pack_inv_def assembled0_def)

lemma truncate_fits: "1 \<le> b \<Longrightarrow> estimate_tokens (truncate_to_budget s b) \<le> b"
  unfolding estimate_tokens_def truncate_to_budget_def by (rule estimate_chars) auto

lemma tokens_empty: "sum_list (map estimate_tokens bs) = 0 \<longleftrightarrow> bs = []"
  by (cases bs) (auto simp: estimate_tokens_def estimate_len_def)

lemma pack_inv_mono:
  "pack_inv allowed budget imgs seen out \<Longrightarrow> acl_ok c allowed \<Longrightarrow>
     (\<And>k. c = Chunk k \<Longrightarrow> as_packed out \<noteq> [] \<or> k_content k = []) \<Longrightarrow> pack_inv allowed budget imgs (seen @ [c]) out"
  unfolding pack_inv_def by auto

lemma pack_inv_add:
  assumes inv: "pack_inv allowed budget imgs seen out" and k: "k_coll k \<in> allowed" "trimmed_from k' k" "k_coll k' = k_coll k"
    and t: "1 \<le> budget \<longrightarrow> as_tokens out + estimate_tokens (k_content k') \<le> budget"
  shows "pack_inv allowed budget imgs (seen @ [Chunk k])
     (out\<lparr>as_blocks := as_blocks out @ [k_content k'], as_packed := as_packed out @ [k'],
          as_tokens := as_tokens out + estimate_tokens (k_content k')\<rparr>)"
  unfolding pack_inv_def
proof (intro conjI, goal_cases)
  case 2
  then show ?case using inv k unfolding pack_inv_def by (simp add: ball_Un) blast
next
  case 3
  then show ?case using inv unfolding pack_inv_def by simp
next
  case 7
  then show ?case using inv k unfolding pack_inv_def by (simp add: acl_ok_def)
qed (use inv t in \<open>simp_all add: pack_inv_def\<close>)

lemma pack_inv_image:
  assumes inv: "pack_inv allowed budget imgs seen out" and g: "g_coll g \<in> allowed" "length (as_images out) < imgs"
    "ai_uri i = g_uri g" "ai_document i = g_doc g"
  shows "pack_inv allowed budget imgs (seen @ [Page g]) (out\<lparr>as_images := as_images out @ [i]\<rparr>)"
  unfolding pack_inv_def
proof (intro conjI, goal_cases)
  case 2
  then show ?case using inv unfolding pack_inv_def by simp
next
  case 3
  then show ?case using inv g unfolding pack_inv_def by (simp add: ball_Un) blast
next
  case 7
  then show ?case using inv g unfolding pack_inv_def by (simp add: acl_ok_def)
qed (use inv g in \<open>simp_all add: pack_inv_def\<close>)

lemma pack_inv_drop:
  "pack_inv allowed budget imgs seen out \<Longrightarrow> pack_inv allowed budget imgs seen (out\<lparr>as_dropped_budget := n\<rparr>)"
  by (simp add: pack_inv_def)

lemma pack_inv_forbidden:
  "pack_inv allowed budget imgs seen out \<Longrightarrow> \<not> acl_ok c allowed \<Longrightarrow>
   pack_inv allowed budget imgs (seen @ [c]) (out\<lparr>as_dropped_acl := Suc (as_dropped_acl out)\<rparr>)"
  unfolding pack_inv_def by (cases c) (auto simp: acl_ok_def)

lemma pack_inv_step:
  assumes inv: "pack_inv allowed budget imgs seen out"
  shows "pack_inv allowed budget imgs (seen @ [c]) (pack_one get allowed budget imgs c out)"
proof (cases "acl_ok c allowed")
  case False
  then show ?thesis using pack_inv_forbidden [OF inv] by (simp add: pack_one_def)
next
  case ok: True
  show ?thesis
  proof (cases c)
    case (Page g)
    have same: "pack_inv allowed budget imgs (seen @ [c]) out"
      using inv ok Page by (intro pack_inv_mono) auto
    have "g_coll g \<in> allowed" using ok Page by (simp add: acl_ok_def)
    then show ?thesis
      using same ok Page pack_inv_image [OF inv, of g] pack_inv_drop [OF same]
      by (simp add: pack_one_def split: option.splits)
  next
    case (Chunk k)
    have kc: "k_coll k \<in> allowed" using ok Chunk by (simp add: acl_ok_def)
    show ?thesis
    proof (cases "as_tokens out + estimate_tokens (k_content k) > budget")
      case over: True
      show ?thesis
      proof (cases "as_packed out = [] \<and> k_content k \<noteq> []")
        case True
        then have zero: "as_tokens out = 0" using inv by (simp add: pack_inv_def)
        show ?thesis
          using pack_inv_add [OF inv kc, of "k\<lparr>k_content := truncate_to_budget (k_content k) budget\<rparr>"]
            True ok Chunk over zero truncate_fits [of budget "k_content k"]
          by (simp add: pack_one_def Let_def)
      next
        case False
        then have "pack_inv allowed budget imgs (seen @ [c]) out"
          using inv ok Chunk by (intro pack_inv_mono) auto
        from pack_inv_drop [OF this] show ?thesis using False ok Chunk over by (auto simp: pack_one_def)
      qed
    next
      case False
      then show ?thesis using pack_inv_add [OF inv kc, of k] ok Chunk
        by (simp add: pack_one_def Let_def)
    qed
  qed
qed

lemma pack_inv_fold:
  "pack_inv allowed budget imgs seen out \<Longrightarrow>
   pack_inv allowed budget imgs (seen @ cs) (fold (pack_one get allowed budget imgs) cs out)"
proof (induction cs arbitrary: seen out)
  case (Cons c cs)
  have "pack_inv allowed budget imgs (seen @ [c]) (pack_one get allowed budget imgs c out)"
    using pack_inv_step [OF Cons.prems] .
  from Cons.IH [OF this] show ?case by simp
qed simp

definition budget_of :: "cfg_retrieval \<Rightarrow> nat option \<Rightarrow> nat" where
  "budget_of cfg tb = (case tb of Some n \<Rightarrow> if n = 0 then context_token_budget cfg else n | None \<Rightarrow> context_token_budget cfg)"

definition images_of :: "cfg_retrieval \<Rightarrow> nat option \<Rightarrow> nat" where
  "images_of cfg mi = (case mi of Some n \<Rightarrow> n | None \<Rightarrow> context_max_images cfg)"

lemma assemble_inv:
  "pack_inv (str_uuid ` allowed) (budget_of cfg tb) (images_of cfg mi)
           (interleave (map Chunk chunks) (map Page pages)) (assemble cfg get allowed tb mi chunks pages)"
  using pack_inv_fold [OF pack_inv_init, where cs = "map fst (rrf_merge cfg None chunks pages)"]
  by (simp add: assemble_def Let_def budget_of_def images_of_def rrf_fst)

text \<open>
  The last gate: whatever the retrieval paths deliver, every chunk the generator sees and every
  image comes from a candidate of a collection the requester may read, unchanged but for a
  truncation; the blocks are the packed chunks' texts in order, so marker \<open>[n]\<close> is the \<open>n\<close>-th packed
  chunk; and the drop counter is the number of candidates outside the scope.
\<close>

theorem assemble_permitted:
  fixes cfg get allowed tb mi chunks pages
  defines "out \<equiv> assemble cfg get allowed tb mi chunks pages"
  shows "(\<forall>k \<in> set (as_packed out). k_coll k \<in> str_uuid ` allowed
            \<and> (\<exists>k0 \<in> set chunks. trimmed_from k k0))
     \<and> (\<forall>i \<in> set (as_images out). \<exists>g \<in> set pages. g_coll g \<in> str_uuid ` allowed
            \<and> ai_uri i = g_uri g \<and> ai_document i = g_doc g)
     \<and> as_blocks out = map k_content (as_packed out)
     \<and> as_dropped_acl out = length (filter (\<lambda>k. k_coll k \<notin> str_uuid ` allowed) chunks)
                          + length (filter (\<lambda>g. g_coll g \<notin> str_uuid ` allowed) pages)"
proof -
  note inv = assemble_inv [of allowed cfg tb mi chunks pages get, folded out_def, unfolded pack_inv_def]
  have "mset (interleave (map Chunk chunks) (map Page pages)) = mset (map Chunk chunks) + mset (map Page pages)"
    by (rule mset_interleave)
  then have "length (filter P (interleave (map Chunk chunks) (map Page pages)))
      = length (filter P (map Chunk chunks)) + length (filter P (map Page pages))" for P
    by (metis filter_append length_append mset_append mset_filter size_mset)
  then have count: "length (filter (\<lambda>c. \<not> acl_ok c (str_uuid ` allowed)) (interleave (map Chunk chunks) (map Page pages)))
      = length (filter (\<lambda>k. k_coll k \<notin> str_uuid ` allowed) chunks) + length (filter (\<lambda>g. g_coll g \<notin> str_uuid ` allowed) pages)"
    by (simp add: filter_map comp_def acl_ok_def)
  have mem: "Chunk k \<in> set (interleave (map Chunk chunks) (map Page pages)) \<longleftrightarrow> k \<in> set chunks"
    "Page g \<in> set (interleave (map Chunk chunks) (map Page pages)) \<longleftrightarrow> g \<in> set pages" for k g by auto
  note inv' = inv [unfolded mem]
  have "\<forall>k \<in> set (as_packed out). k_coll k \<in> str_uuid ` allowed \<and> (\<exists>k0 \<in> set chunks. trimmed_from k k0)"
    and "\<forall>i \<in> set (as_images out). \<exists>g \<in> set pages. g_coll g \<in> str_uuid ` allowed \<and> ai_uri i = g_uri g \<and> ai_document i = g_doc g"
    using inv' by blast+
  then show ?thesis using inv' count by simp
qed

text \<open>
  C25. The budgets are hard: the estimated tokens of all blocks together never exceed the token
  budget (the truncated first block included), the images never exceed their cap, and as soon as one
  permitted chunk has text, the generator gets at least one block.
\<close>

theorem assemble_budgets:
  assumes "1 \<le> budget_of cfg tb"
  shows "sum_list (map estimate_tokens (as_blocks (assemble cfg get allowed tb mi chunks pages))) \<le> budget_of cfg tb
     \<and> length (as_images (assemble cfg get allowed tb mi chunks pages)) \<le> images_of cfg mi
     \<and> ((\<exists>k \<in> set chunks. k_coll k \<in> str_uuid ` allowed \<and> k_content k \<noteq> [])
          \<longrightarrow> as_blocks (assemble cfg get allowed tb mi chunks pages) \<noteq> [])"
proof -
  have mem: "Chunk k \<in> set (interleave (map Chunk chunks) (map Page pages)) \<longleftrightarrow> k \<in> set chunks" for k by auto
  note inv = assemble_inv [of allowed cfg tb mi chunks pages get, unfolded pack_inv_def mem]
  then have "as_blocks (assemble cfg get allowed tb mi chunks pages) = []
      \<Longrightarrow> as_packed (assemble cfg get allowed tb mi chunks pages) = []" by simp
  then show ?thesis using inv assms by auto
qed

definition demo_chunk :: chunk_item where
  "demo_chunk = \<lparr>k_chunk = lit ''c'', k_doc = lit ''d'', k_coll = str_uuid 3, k_type = lit ''text'', k_page = None,
     k_section = None, k_content = lit ''0123456789'', k_score = 1, k_file = None, k_image = None\<rparr>"

lemma assemble_budgets_witness:
  "as_blocks (assemble default_retrieval (\<lambda>_. None) {3} (Some 2) None [demo_chunk] []) \<noteq> []
   \<and> sum_list (map estimate_tokens (as_blocks (assemble default_retrieval (\<lambda>_. None) {3} (Some 2) None [demo_chunk] []))) \<le> 2"
  using assemble_budgets [of default_retrieval "Some 2" "\<lambda>_. None" "{3}" None "[demo_chunk]" "[]"]
  by (simp add: budget_of_def demo_chunk_def)

lemma assemble_permitted_witness:
  "as_packed (assemble default_retrieval (\<lambda>_. None) {} None None [demo_chunk] []) = []
   \<and> as_dropped_acl (assemble default_retrieval (\<lambda>_. None) {} None None [demo_chunk] []) = 1
   \<and> as_dropped_acl (assemble default_retrieval (\<lambda>_. None) {3} None None [demo_chunk] []) = 0
   \<and> list_all (\<lambda>k. k_coll k = str_uuid 3) (as_packed (assemble default_retrieval (\<lambda>_. None) {3} None None [demo_chunk] []))"
  using assemble_permitted [of default_retrieval "\<lambda>_. None" "{}" None None "[demo_chunk]" "[]"]
    assemble_permitted [of default_retrieval "\<lambda>_. None" "{3}" None None "[demo_chunk]" "[]"]
  by (auto simp: list_all_iff demo_chunk_def)

subsection \<open>Properties of citations\<close>

lemma digits_to_close_Some:
  "digits_to_close cl acc s = Some (d, r) \<Longrightarrow> \<not> is_digit cl \<Longrightarrow>
     \<exists>e. d = acc @ e \<and> s = e @ cl # r \<and> (\<forall>x \<in> set e. is_digit x) \<and> d \<noteq> []"
proof (induction cl acc s rule: digits_to_close.induct)
  case (2 cl acc c s)
  show ?case
  proof (cases "is_digit c")
    case True
    with 2 obtain e where "d = (acc @ [c]) @ e" "s = e @ cl # r" "\<forall>x \<in> set e. is_digit x" "d \<noteq> []" by auto
    with True show ?thesis by (intro exI [of _ "c # e"]) auto
  next
    case False
    with 2 show ?thesis by (auto split: if_splits)
  qed
qed simp

lemma digits_to_close_app:
  "\<forall>x \<in> set e. is_digit x \<Longrightarrow> acc @ e \<noteq> [] \<Longrightarrow> \<not> is_digit cl \<Longrightarrow> digits_to_close cl acc (e @ cl # r) = Some (acc @ e, r)"
  by (induction e arbitrary: acc) auto

text \<open>The scanner finds exactly the bracketed digit strings.\<close>

lemma cite_markers_iff:
  "d \<in> set (cite_markers s) \<longleftrightarrow> d \<noteq> [] \<and> (\<forall>x \<in> set d. is_digit x) \<and> py_in ([91] @ d @ [93]) s"
proof (induction s rule: cite_markers.induct)
  case 1
  then show ?case by (simp add: py_in_iff)
next
  case (2 c s)
  have nd: "\<not> is_digit 93" "\<not> is_digit 91" by (simp_all add: is_digit_def)
  show ?case
  proof (cases "c = 91")
    case False
    then show ?thesis using 2(3) by (auto simp: prefix_def)
  next
    case True
    show ?thesis
    proof (cases "digits_to_close 93 [] s")
      case None
      have "\<not> prefix ([91] @ d @ [93]) (c # s)" if "d \<noteq> []" "\<forall>x \<in> set d. is_digit x"
        using None that digits_to_close_app [of d "[]" 93] nd by (auto simp: prefix_def)
      then show ?thesis using 2 True None by auto
    next
      case (Some p)
      obtain e r where p: "p = (e, r)" by (cases p)
      from digits_to_close_Some [OF Some [unfolded p] nd(1)]
      have e: "s = e @ 93 # r" "\<forall>x \<in> set e. is_digit x" "e \<noteq> []" by auto
      have skip: "py_in ([91] @ d @ [93]) (e' @ 93 # r) = py_in ([91] @ d @ [93]) r" if "\<forall>x \<in> set e'. is_digit x" for e'
        using that nd by (induction e') (auto simp: prefix_def)
      have first: "prefix ([91] @ d @ [93]) (c # s) \<longleftrightarrow> d = e" if "\<forall>x \<in> set d. is_digit x"
      proof
        assume "prefix ([91] @ d @ [93]) (c # s)"
        then obtain z where "d @ 93 # z = e @ 93 # r" using e(1) by (auto simp: prefix_def)
        then have "takeWhile is_digit (d @ 93 # z) = takeWhile is_digit (e @ 93 # r)" by simp
        then show "d = e" using that e(2) nd by simp
      qed (use True e in \<open>auto simp: prefix_def\<close>)
      show ?thesis
        using 2(2) [OF True Some] p True Some e skip [OF e(2)] first by (auto simp: e(1))
    qed
  qed
qed

text \<open>
  Citations cannot be fabricated: the markers cited are exactly the bracketed numbers that
  occur in the answer and are in range, each once and in increasing order; each citation carries the
  document, chunk, page and passage of the chunk its marker points at; and the refusal answer cites
  nothing.
\<close>

theorem extract_citations_exact:
  "sorted_wrt (<) (map (the \<circ> ci_marker) (extract_citations answer chunks))
   \<and> set (map (the \<circ> ci_marker) (extract_citations answer chunks)) =
       (if strip answer = INSUFFICIENT_ANSWER then {}
        else {n. 1 \<le> n \<and> n \<le> length chunks \<and>
               (\<exists>d. d \<noteq> [] \<and> (\<forall>x \<in> set d. is_digit x) \<and> dec_value 0 d = n \<and> py_in ([91] @ d @ [93]) answer)})
   \<and> (\<forall>c \<in> set (extract_citations answer chunks). \<exists>n. ci_marker c = Some n \<and> 1 \<le> n \<and> n \<le> length chunks
        \<and> c = citation_of n (chunks ! (n - 1)))"
proof (cases "answer = [] \<or> strip answer = INSUFFICIENT_ANSWER")
  case True
  have "\<not> py_in ([91] @ d @ [93]) []" for d :: pystr by simp
  with True show ?thesis by (auto simp: extract_citations_def)
next
  case False
  let ?ns = "filter (\<lambda>n. 1 \<le> n \<and> n \<le> length chunks) (sort (remdups (map (dec_value 0) (cite_markers answer))))"
  have x: "extract_citations answer chunks = map (\<lambda>n. citation_of n (chunks ! (n - 1))) ?ns"
    using False by (simp add: extract_citations_def)
  then have m: "map (the \<circ> ci_marker) (extract_citations answer chunks) = ?ns"
    by (simp add: comp_def citation_of_def)
  have "sorted_wrt (<) ?ns"
    by (simp add: strict_sorted_iff sorted_wrt_filter)
  moreover have "set ?ns = {n. 1 \<le> n \<and> n \<le> length chunks \<and>
      (\<exists>d. d \<noteq> [] \<and> (\<forall>x \<in> set d. is_digit x) \<and> dec_value 0 d = n \<and> py_in ([91] @ d @ [93]) answer)}"
    using cite_markers_iff [of _ answer] by (auto simp: image_iff)
  moreover have "\<forall>c \<in> set (extract_citations answer chunks). \<exists>n. ci_marker c = Some n \<and> 1 \<le> n \<and> n \<le> length chunks
      \<and> c = citation_of n (chunks ! (n - 1))"
    unfolding x by (auto simp: citation_of_def)
  ultimately show ?thesis using False unfolding m by simp
qed

lemma extract_citations_exact_witness:
  "map ci_marker (extract_citations (lit ''[1]'') [demo_chunk]) = [Some 1]"
proof -
  have "length (extract_citations (lit ''[1]'') [demo_chunk]) = 1"
    by (simp add: extract_citations_def INSUFFICIENT_ANSWER_def py_defs is_space_def is_digit_def lit_def)
  then obtain c where "extract_citations (lit ''[1]'') [demo_chunk] = [c]" by (auto simp: length_Suc_conv)
  with extract_citations_exact [of "lit ''[1]''" "[demo_chunk]"] show ?thesis by fastforce
qed
subsection \<open>Native markers\<close>

lemma normalize_no_native: "12304 \<notin> set s \<Longrightarrow> normalize_markers s = s"
  by (induction s rule: normalize_markers.induct) (auto split: option.splits)

lemma normalize_app: "12304 \<notin> set u \<Longrightarrow> normalize_markers (u @ v) = u @ normalize_markers v"
  by (induction u) auto

lemma native_match_decomp:
  "native_match s = (let u = takeWhile is_space s; t = dropWhile is_space s; d = takeWhile is_digit t;
      w = dropWhile is_digit t in if d = [] then None else map_option (\<lambda>r. (d, r)) (native_tail w))"
  by (auto simp: native_match_def Let_def split: option.splits)

lemma not_native: "\<not> is_space 12304" "\<not> is_digit 12304" "\<not> is_space 91" "\<not> is_digit 91"
  by (simp_all add: is_space_def is_digit_def)

lemma drop_normalize:
  "p 12304 = False \<Longrightarrow> p 91 = False \<Longrightarrow> dropWhile p (normalize_markers s) = normalize_markers (dropWhile p s)"
  by (induction s) (auto split: option.splits)

lemma take_normalize:
  "p 12304 = False \<Longrightarrow> p 91 = False \<Longrightarrow> takeWhile p (normalize_markers s) = takeWhile p s"
  by (induction s) (auto split: option.splits)

lemma close_normalize: "12305 \<notin> set s \<Longrightarrow> normalize_markers s = s"
proof (induction s rule: normalize_markers.induct)
  case (2 c s)
  have "native_match s = None"
  proof -
    have "native_tail w = None" if "12305 \<notin> set w" for w
    proof (cases "dropWhile is_space w")
      case (Cons x r)
      have "set (x # r) \<subseteq> set w" using Cons by (metis set_dropWhile_subset)
      then have "x \<noteq> 12305" "dropWhile (\<lambda>x. x \<noteq> 12305) r = []" using that by auto
      then show ?thesis unfolding native_tail_def Cons by (simp del: dropWhile_eq_Nil_conv)
    qed (simp add: native_tail_def del: dropWhile_eq_Nil_conv)
    moreover have "set (dropWhile is_digit (dropWhile is_space s)) \<subseteq> set s"
      by (meson set_dropWhile_subset subset_trans)
    ultimately have "native_tail (dropWhile is_digit (dropWhile is_space s)) = None" using 2(4) by auto
    then show ?thesis by (simp add: native_match_def Let_def)
  qed
  then show ?case using 2 by auto
qed simp

lemma native_tail_None_normalize: "native_tail s = None \<Longrightarrow> native_tail (normalize_markers s) = None"
proof -
  assume n: "native_tail s = None"
  have d: "dropWhile is_space (normalize_markers s) = normalize_markers (dropWhile is_space s)"
    by (rule drop_normalize) (simp_all add: not_native)
  show ?thesis
  proof (cases "dropWhile is_space s")
    case Nil
    then show ?thesis unfolding native_tail_def d by (simp only: Nil normalize_markers.simps list.simps)
  next
    case (Cons c r)
    have c: "c \<noteq> 12305" "c = 8224 \<Longrightarrow> dropWhile (\<lambda>x. x \<noteq> 12305) r = []"
      using n Cons by (auto simp: native_tail_def split: if_splits list.splits)
    show ?thesis
    proof (cases "c = 8224")
      case True
      then have "12305 \<notin> set r" using c(2) by (auto simp: dropWhile_eq_Nil_conv)
      then show ?thesis using Cons c True
        by (simp add: native_tail_def d close_normalize del: dropWhile_eq_Nil_conv)
    next
      case False
      then show ?thesis using Cons c by (auto simp: native_tail_def d split: option.splits)
    qed
  qed
qed

lemma native_match_None_normalize: "native_match s = None \<Longrightarrow> native_match (normalize_markers s) = None"
  using native_tail_None_normalize [of "dropWhile is_digit (dropWhile is_space s)"]
  by (auto simp: native_match_def Let_def drop_normalize take_normalize not_native split: if_splits option.splits)

text \<open>
  Rewriting the model's native citation marks is idempotent, and leaves an answer without them
  as it is, bracketed markers included.
\<close>

theorem normalize_markers_idempotent:
  "normalize_markers (normalize_markers s) = normalize_markers s
   \<and> (12304 \<notin> set s \<longrightarrow> normalize_markers s = s)"
proof
  show "normalize_markers (normalize_markers s) = normalize_markers s"
  proof (induction s rule: normalize_markers.induct)
    case (2 c s)
    show ?case
    proof (cases "c = 12304 \<and> native_match s \<noteq> None")
      case True
      then obtain d r where m: "native_match s = Some (d, r)" "c = 12304" by auto
      have "12304 \<notin> set ([91] @ d @ [93])"
        using m(1) not_native(2) by (auto simp: native_match_def Let_def split: if_splits option.splits dest: set_takeWhileD)
      then have "normalize_markers (([91] @ d @ [93]) @ normalize_markers r) = ([91] @ d @ [93]) @ normalize_markers (normalize_markers r)"
        by (rule normalize_app)
      then show ?thesis using m 2(2) by simp
    next
      case False
      then have "normalize_markers (c # s) = c # normalize_markers s" by (auto split: option.splits)
      then show ?thesis using False 2 native_match_None_normalize [of s] by (auto split: option.splits)
    qed
  qed simp
qed (simp add: normalize_no_native)

lemma normalize_markers_idempotent_witness:
  "normalize_markers (normalize_markers [12304, 49, 8224, 76, 12305]) = lit ''[1]''"
  unfolding conjunct1 [OF normalize_markers_idempotent]
  by (simp add: native_match_def native_tail_def is_space_def is_digit_def Let_def lit_Cons)

end
