(* ===== verification/Retrieval.thy ===== *)
theory Retrieval
  imports DocIndex Llm Assemble "HOL-Library.Product_Lexorder"
begin

text \<open>
  The three retrieval paths: hybrid text search with reranking (\<open>app/retrieval/retriever.py\<close>,
  \<open>rerank.py\<close>, \<open>remote.py\<close>, \<open>factory.py\<close>), visual page search (\<open>visual.py\<close>) and the metadata lookup
  (\<open>metadata_lookup.py\<close>). The vector queries are parameters. That no path returns anything outside the
  requester's scope is stated once, as the interface \<open>acl_search\<close>, interpreted for all three.
\<close>

subsection \<open>Rerankers\<close>

type_synonym reranker = "pystr \<Rightarrow> pystr list \<Rightarrow> rat list"

definition noop_rerank :: reranker where
  "noop_rerank q docs = map (\<lambda>i. of_nat (length docs - i)) [0..<length docs]"

definition token_set :: "pystr \<Rightarrow> pystr set" where
  "token_set s = set (words_of (lower s))"

definition lexical_rerank :: reranker where
  "lexical_rerank q docs =
     (if token_set q = {} then map (\<lambda>_. 0) docs
      else map (\<lambda>d. of_nat (card (token_set q \<inter> token_set d)) / (of_nat (card (token_set q)) + 1 / 10 ^ 9)) docs)"

definition RERANK_DOC_CHARS :: nat where
  "RERANK_DOC_CHARS = 300"

text \<open>\<open>post\<close> is the \<open>/rerank\<close> endpoint of the embeddings service.\<close>

definition service_rerank :: "(pystr \<Rightarrow> pystr list \<Rightarrow> rat list) \<Rightarrow> reranker" where
  "service_rerank post q docs = (if docs = [] then [] else post q (map (take RERANK_DOC_CHARS) docs))"

definition get_reranker :: "cfg_model \<Rightarrow> (pystr \<Rightarrow> pystr list \<Rightarrow> rat list) \<Rightarrow> reranker option" where
  "get_reranker cfg post =
     (let b = lower (reranker_backend cfg) in
      if b = lit ''service'' then Some (service_rerank post)
      else if b = lit ''lexical'' then Some lexical_rerank
      else if b = lit ''none'' then Some noop_rerank
      else None)"

datatype embedder_kind = HashingEmbedder nat | ServiceEmbedder nat

definition get_embedder :: "cfg_model \<Rightarrow> embedder_kind option" where
  "get_embedder cfg =
     (let b = lower (embeddings_backend cfg) in
      if b = lit ''service'' then Some (ServiceEmbedder (embedding_dim cfg))
      else if b = lit ''hashing'' then Some (HashingEmbedder (embedding_dim cfg))
      else None)"

subsection \<open>Text retrieval\<close>

text \<open>
  \<open>hybrid dense sparse admissible k points\<close>: Qdrant's fusion of a dense and a sparse prefetch, both
  filtered, best first. \<open>orelse\<close> and \<open>count_or\<close> are Python's \<open>or\<close> on an optional count; a count
  that came from a request may be negative, and \<open>py_take\<close> is then the slice that leaves off the end.
\<close>

type_synonym hybrid_query =
  "vec \<Rightarrow> nat list \<times> rat list \<Rightarrow> (chunk_payload \<Rightarrow> bool) \<Rightarrow> nat \<Rightarrow> (uuid \<times> chunk_point) list \<Rightarrow> (uuid \<times> chunk_point) list"

definition orelse :: "nat option \<Rightarrow> nat \<Rightarrow> nat" where
  "orelse n d = (case n of Some m \<Rightarrow> if m = 0 then d else m | None \<Rightarrow> d)"

record retrieved_chunk =
  rc_chunk :: uuid
  rc_document :: uuid
  rc_collection :: uuid
  rc_type :: pystr
  rc_page :: "int option"
  rc_section :: "pystr option"
  rc_score :: rat
  rc_snippet :: pystr
  rc_content :: pystr
  rc_file :: "pystr option"
  rc_image :: "pystr option"

text \<open>A point whose payload lacks the ids, or has unparsable ones, makes the search raise (\<open>None\<close>).\<close>

definition retrieved_of :: "rat \<Rightarrow> uuid \<times> chunk_point \<Rightarrow> retrieved_chunk option" where
  "retrieved_of score x = (let p = cx_payload (snd x) in
     case (Option.bind (cy_document p) uuid_parse, Option.bind (cy_collection p) uuid_parse) of
       (Some d, Some c) \<Rightarrow> Some \<lparr>rc_chunk = fst x, rc_document = d, rc_collection = c, rc_type = cy_type p,
          rc_page = cy_page p, rc_section = cy_section p, rc_score = score, rc_snippet = take 300 (cy_content p),
          rc_content = cy_content p, rc_file = Some (cy_file p), rc_image = cy_image p\<rparr>
     | _ \<Rightarrow> None)"

definition acl_filter :: "uuid set \<Rightarrow> pystr option \<Rightarrow> bool" where
  "acl_filter allowed c \<longleftrightarrow> (case c of None \<Rightarrow> False | Some s \<Rightarrow> s \<in> str_uuid ` allowed)"

definition rank_order :: "rat list \<Rightarrow> nat list" where
  "rank_order scores = sort_key (\<lambda>i. - (scores ! i)) [0..<length scores]"

definition count_or :: "int option \<Rightarrow> nat \<Rightarrow> int" where
  "count_or n d = (case n of Some m \<Rightarrow> if m = 0 then int d else m | None \<Rightarrow> int d)"

definition py_take :: "int \<Rightarrow> 'a list \<Rightarrow> 'a list" where
  "py_take n xs = take (nat (if n < 0 then int (length xs) + n else n)) xs"

text \<open>The relevance gate: chunks below a twentieth of the best score are dropped, if anything is left.\<close>

definition gate_order :: "rat list \<Rightarrow> nat list" where
  "gate_order scores =
     (let order = rank_order scores in
      if scores = [] then order
      else let best = Max (set scores) in
        if 0 < best then (let gated = filter (\<lambda>i. best / 20 \<le> scores ! i) order in if gated = [] then order else gated)
        else order)"

text \<open>A negative \<open>top_k\<close> is refused by the vector store, so the search raises (\<open>None\<close>).\<close>

definition text_search ::
  "hybrid_query \<Rightarrow> (pystr \<Rightarrow> vec) \<Rightarrow> (pystr \<Rightarrow> nat list \<times> rat list) \<Rightarrow> reranker \<Rightarrow> cfg_retrieval \<Rightarrow> chunk_point qcoll
     \<Rightarrow> uuid set \<Rightarrow> pystr \<Rightarrow> int option \<Rightarrow> int option \<Rightarrow> retrieved_chunk list option" where
  "text_search qry dense sparse rerank cfg q allowed query top_k top_n =
     (if allowed = {} \<or> blank query then Some []
      else if \<not> qc_exists q then Some []
      else if count_or top_k (retrieval_top_k cfg) < 0 then None
      else let points = qry (dense query) (sparse query) (\<lambda>p. acl_filter allowed (cy_collection p))
                          (nat (count_or top_k (retrieval_top_k cfg))) (qc_points q)
        in if points = [] then Some []
           else let scores = rerank query (map (\<lambda>x. cy_content (cx_payload (snd x))) points)
             in those (map (\<lambda>i. retrieved_of (scores ! i) (points ! i))
                    (py_take (count_or top_n (retrieval_top_n cfg)) (gate_order scores))))"

definition graph_chunk :: "retrieved_chunk \<Rightarrow> chunk_item" where
  "graph_chunk c = \<lparr>k_chunk = str_uuid (rc_chunk c), k_doc = str_uuid (rc_document c), k_coll = str_uuid (rc_collection c),
     k_type = rc_type c, k_page = rc_page c, k_section = rc_section c, k_content = rc_content c, k_score = rc_score c,
     k_file = rc_file c, k_image = rc_image c\<rparr>"

subsection \<open>Visual page retrieval\<close>

record retrieved_page =
  rp_point :: uuid
  rp_document :: uuid
  rp_collection :: uuid
  rp_page :: int
  rp_uri :: pystr
  rp_file :: "pystr option"
  rp_score :: rat

type_synonym page_query =
  "vec list \<Rightarrow> (page_payload \<Rightarrow> bool) \<Rightarrow> nat \<Rightarrow> (uuid \<times> page_point) list \<Rightarrow> (rat \<times> uuid \<times> page_point) list option"

definition retrieved_page_of :: "rat \<times> uuid \<times> page_point \<Rightarrow> retrieved_page option" where
  "retrieved_page_of x = (case x of (score, i, pt) \<Rightarrow> let p = px_payload pt in
     (case (Option.bind (py_document p) uuid_parse, Option.bind (py_collection p) uuid_parse, py_page p) of
        (Some d, Some c, Some n) \<Rightarrow> Some \<lparr>rp_point = i, rp_document = d, rp_collection = c, rp_page = n, rp_uri = py_uri p,
           rp_file = py_file p, rp_score = score\<rparr>
      | _ \<Rightarrow> None))"

text \<open>Invalid points are skipped; a failing embedding or query gives no pages.\<close>

definition visual_search ::
  "page_query \<Rightarrow> (pystr \<Rightarrow> vec list option) \<Rightarrow> cfg_model \<Rightarrow> cfg_retrieval \<Rightarrow> page_point qcoll \<Rightarrow> uuid set \<Rightarrow> pystr \<Rightarrow> nat option
     \<Rightarrow> retrieved_page list" where
  "visual_search qry embq cfgm cfg q allowed query top_k =
     (if allowed = {} \<or> blank query then []
      else if \<not> visual_enabled cfgm (colqwen_base_url cfgm) then []
      else if \<not> qc_exists q then []
      else case embq query of None \<Rightarrow> []
        | Some mv \<Rightarrow>
          (case qry mv (\<lambda>p. acl_filter allowed (py_collection p)) (orelse top_k (visual_top_k_pages cfg)) (qc_points q) of
             None \<Rightarrow> []
           | Some pts \<Rightarrow> List.map_filter retrieved_page_of pts))"

definition graph_page :: "retrieved_page \<Rightarrow> page_item" where
  "graph_page p = \<lparr>g_point = str_uuid (rp_point p), g_doc = str_uuid (rp_document p), g_coll = str_uuid (rp_collection p),
     g_page = rp_page p, g_uri = rp_uri p, g_file = rp_file p, g_score = rp_score p\<rparr>"

subsection \<open>Metadata lookup\<close>

definition FILE_TYPES :: "pystr list" where
  "FILE_TYPES = map lit [''pdf'', ''docx'', ''pptx'', ''xlsx'', ''csv'', ''txt'', ''md'']"

definition STOPWORDS :: "pystr list" where
  "STOPWORDS = map lit [
    ''das'', ''der'', ''die'', ''und'', ''oder'', ''ist'', ''sind'', ''wie'', ''was'', ''wer'', ''wann'',
    ''welche'', ''welches'', ''welcher'', ''viele'', ''seiten'', ''hat'', ''gibt'', ''eine'', ''einen'',
    ''neueste'', ''neuere'', ''aktuellste'', ''version'', ''fassung'', ''dokument'', ''dokumente'',
    ''datei'', ''dateien'', ''sammlung'', ''hochgeladen'', ''aktualisiert'', ''zuletzt'', ''von'',
    ''the'', ''and'', ''what'', ''which'', ''who'', ''when'', ''how'', ''many'', ''pages'', ''does'',
    ''have'', ''there'', ''are'', ''is'', ''latest'', ''newest'', ''version'', ''document'',
    ''documents'', ''file'', ''files'', ''collection'', ''uploaded'', ''updated'', ''recently'',
    ''most'', ''author'', ''type'', ''list'', ''all'', ''available'', ''week'', ''this'', ''was'']"

text \<open>\<open>re.findall(r"[\\w...-]+", query.lower())\<close>, with the parts of hyphenated words.\<close>

definition meta_tokens :: "pystr \<Rightarrow> pystr list" where
  "meta_tokens query =
     (let ws = runs (\<lambda>c. is_word c \<or> c = 45) [] (lower query);
          expanded = concat (map (\<lambda>w. w # (if 45 \<in> set w then filter (\<lambda>p. p \<noteq> []) (split_str [45] w) else [])) ws)
      in filter (\<lambda>w. 3 \<le> length w \<and> w \<notin> set STOPWORDS \<and> w \<notin> set FILE_TYPES) expanded)"

text \<open>\<open>re.search(rf"\\b{t}\\b", q)\<close>: an occurrence with no word character on either side.\<close>

fun word_search :: "pystr \<Rightarrow> bool \<Rightarrow> pystr \<Rightarrow> bool" where
  "word_search t before [] = False"
| "word_search t before (c # s) =
     ((\<not> before \<and> prefix t (c # s) \<and> (case drop (length t) (c # s) of [] \<Rightarrow> True | x # _ \<Rightarrow> \<not> is_word x))
      \<or> word_search t (is_word c) s)"

definition mentioned_types :: "pystr \<Rightarrow> pystr list" where
  "mentioned_types query = filter (\<lambda>t. word_search t False (lower query)) FILE_TYPES"

text \<open>The proleptic Gregorian date of a day number counted from 1970-01-01, and \<open>strftime("%Y-%m-%d")\<close>.\<close>

definition civil :: "int \<Rightarrow> int \<times> int \<times> int" where
  "civil days = (let z = days + 719468; era = z div 146097; doe = z mod 146097;
       yoe = (doe - doe div 1460 + doe div 36524 - doe div 146096) div 365;
       doy = doe - (365 * yoe + yoe div 4 - yoe div 100);
       mp = (5 * doy + 2) div 153;
       d = doy - (153 * mp + 2) div 5 + 1;
       m = (if mp < 10 then mp + 3 else mp - 9)
     in (yoe + era * 400 + (if m \<le> 2 then 1 else 0), m, d))"

definition pad2 :: "int \<Rightarrow> pystr" where
  "pad2 n = (if n < 10 then 48 # int_str n else int_str n)"

definition date_str :: "time \<Rightarrow> pystr" where
  "date_str t = (case civil (floor (t / 86400)) of (y, m, d) \<Rightarrow> int_str y @ [45] @ pad2 m @ [45] @ pad2 d)"

definition render_doc :: "doc_row \<Rightarrow> pystr \<Rightarrow> pystr option \<Rightarrow> pystr \<Rightarrow> pystr" where
  "render_doc doc coll email lang =
     (let pages = (case d_pages doc of Some n \<Rightarrow> int_str n | None \<Rightarrow> lit ''?'');
          who = (\<lambda>unknown. case email of Some e \<Rightarrow> if e = [] then unknown else e | None \<Rightarrow> unknown)
      in if lang = lit ''de'' then
           lit ''Dokument: '' @ d_filename doc @ lit '' | Sammlung: '' @ coll @ lit '' | Typ: '' @ d_type doc
           @ lit '' | Seiten: '' @ pages @ lit '' | Status: '' @ document_status_value (d_status doc)
           @ lit '' | Hochgeladen: '' @ date_str (d_created doc) @ lit '' von '' @ who (lit ''unbekannt'')
           @ lit '' | Zuletzt aktualisiert: '' @ date_str (d_updated doc)
         else
           lit ''Document: '' @ d_filename doc @ lit '' | Collection: '' @ coll @ lit '' | Type: '' @ d_type doc
           @ lit '' | Pages: '' @ pages @ lit '' | Status: '' @ document_status_value (d_status doc)
           @ lit '' | Uploaded: '' @ date_str (d_created doc) @ lit '' by '' @ who (lit ''unknown'')
           @ lit '' | Last updated: '' @ date_str (d_updated doc))"

text \<open>The statement: documents of the scope joined with their collection, newest first.\<close>

definition meta_rows :: "db \<Rightarrow> uuid set \<Rightarrow> pystr list \<Rightarrow> (doc_row \<times> pystr \<times> pystr option) list" where
  "meta_rows d allowed types =
     (let docs = sort_key (\<lambda>x. (- d_updated x, - d_created x))
                   (filter (\<lambda>x. d_coll x \<in> allowed \<and> (types = [] \<or> d_type x \<in> set types)) (t_documents d))
      in List.map_filter (\<lambda>x. case get_by co_id (d_coll x) (t_collections d) of None \<Rightarrow> None
           | Some c \<Rightarrow> Some (x, co_name c, Option.bind (d_uploader x)
               (\<lambda>u. map_option u_email (get_by u_id u (t_users d))))) docs)"

definition lookup_documents :: "cfg_retrieval \<Rightarrow> db \<Rightarrow> uuid set \<Rightarrow> pystr \<Rightarrow> nat option \<Rightarrow> chunk_item list" where
  "lookup_documents cfg d allowed query limit =
     (if allowed = {} then []
      else let lang = detect_lang query;
               rows = meta_rows d allowed (mentioned_types query);
               tokens = meta_tokens query;
               narrowed = filter (\<lambda>(x, name, _). list_ex (\<lambda>t. py_in t (lower (d_filename x)) \<or> py_in t (lower name)) tokens) rows;
               rows' = (if tokens \<noteq> [] \<and> narrowed \<noteq> [] then narrowed else rows)
        in map (\<lambda>(x, name, email). \<lparr>k_chunk = str_uuid (d_id x), k_doc = str_uuid (d_id x), k_coll = str_uuid (d_coll x),
               k_type = lit ''metadata'', k_page = None, k_section = None, k_content = render_doc x name email lang,
               k_score = 1, k_file = Some (d_filename x), k_image = None\<rparr>)
             (take (orelse limit (metadata_max_documents cfg)) rows'))"

subsection \<open>The interface of a retrieval path\<close>

text \<open>\<open>'e\<close> is the environment of a path: its backends, settings and index; \<open>lawful\<close> what is relied on of them.\<close>

locale acl_search =
  fixes lawful :: "'e \<Rightarrow> bool" and search :: "'e \<Rightarrow> uuid set \<Rightarrow> pystr \<Rightarrow> 'h list" and coll :: "'h \<Rightarrow> uuid" and cap :: "'e \<Rightarrow> nat"
  assumes permitted: "lawful e \<Longrightarrow> h \<in> set (search e allowed q) \<Longrightarrow> coll h \<in> allowed"
    and empty_scope: "search e {} q = []"
    and capped: "lawful e \<Longrightarrow> length (search e allowed q) \<le> cap e"
begin

lemma no_leak: "lawful e \<Longrightarrow> coll h \<notin> allowed \<Longrightarrow> h \<notin> set (search e allowed q)"
  using permitted by blast

lemma disjoint_scopes: "lawful e \<Longrightarrow> A \<inter> B = {} \<Longrightarrow> set (search e A q) \<inter> set (search e B q') = {}"
  using permitted by blast

lemma user_scope:
  assumes "lawful e" and "u_role u \<noteq> ADMIN" and "h \<in> set (search e (accessible_collection_ids d u) q)"
  shows "may_read d u (coll h)"
  using permitted [OF assms(1,3)] assms(2) accessible_user_iff by simp

end

record text_env =
  te_query :: hybrid_query
  te_dense :: "pystr \<Rightarrow> vec"
  te_sparse :: "pystr \<Rightarrow> nat list \<times> rat list"
  te_rerank :: reranker
  te_cfg :: cfg_retrieval
  te_index :: "chunk_point qcoll"

definition hybrid_laws :: "hybrid_query \<Rightarrow> bool" where
  "hybrid_laws qry \<longleftrightarrow> (\<forall>v s adm n ps. length (qry v s adm n ps) \<le> n \<and>
     (\<forall>x \<in> set (qry v s adm n ps). x \<in> set ps \<and> adm (cx_payload (snd x))))"

definition text_lawful :: "text_env \<Rightarrow> bool" where
  "text_lawful e \<longleftrightarrow> hybrid_laws (te_query e) \<and> (\<forall>q docs. length (te_rerank e q docs) = length docs)"

definition text_hits :: "text_env \<Rightarrow> uuid set \<Rightarrow> pystr \<Rightarrow> retrieved_chunk list" where
  "text_hits e allowed q = (case text_search (te_query e) (te_dense e) (te_sparse e) (te_rerank e) (te_cfg e) (te_index e)
     allowed q None None of None \<Rightarrow> [] | Some r \<Rightarrow> r)"

lemma hybrid_lawsD: "hybrid_laws qry \<Longrightarrow> x \<in> set (qry v s adm n ps) \<Longrightarrow> x \<in> set ps \<and> adm (cx_payload (snd x))"
  unfolding hybrid_laws_def by blast

lemma set_rank_order [simp]: "set (rank_order scores) = {0..<length scores}"
  by (simp add: rank_order_def)

lemma set_gate_order: "set (gate_order scores) \<subseteq> {0..<length scores}"
  by (auto simp: gate_order_def Let_def)

lemma those_SomeD: "those xs = Some ys \<Longrightarrow> length ys = length xs \<and> (\<forall>y \<in> set ys. Some y \<in> set xs)"
  by (induction xs arbitrary: ys) (auto split: option.splits)

lemma acl_filter_parse: "acl_filter allowed co \<Longrightarrow> Option.bind co uuid_parse = Some c \<Longrightarrow> c \<in> allowed"
  by (auto simp: acl_filter_def split: option.splits)

lemma retrieved_of_coll:
  assumes "retrieved_of sc x = Some r" and "acl_filter allowed (cy_collection (cx_payload (snd x)))"
  shows "rc_collection r \<in> allowed"
proof -
  have "Option.bind (cy_collection (cx_payload (snd x))) uuid_parse = Some (rc_collection r)"
    using assms(1) by (auto simp: retrieved_of_def Let_def split: option.splits)
  with assms(2) show ?thesis by (rule acl_filter_parse)
qed

lemma in_set_py_take: "x \<in> set (py_take n xs) \<Longrightarrow> x \<in> set xs"
  by (auto simp: py_take_def dest: in_set_takeD)

lemma py_take_nat [simp]: "py_take (int n) xs = take n xs"
  by (simp add: py_take_def)

lemma length_py_take: "0 \<le> n \<Longrightarrow> int (length (py_take n xs)) \<le> n"
  by (simp add: py_take_def)

lemma orelse_None [simp]: "orelse None d = d"
  by (simp add: orelse_def)

lemma count_or_None [simp]: "count_or None d = int d"
  by (simp add: count_or_def)

lemma text_search_hit:
  assumes "text_search qry dense sparse rerank cfg q allowed query k n = Some rs" and "r \<in> set rs"
    and "\<forall>q docs. length (rerank q docs) = length docs"
  shows "\<exists>x sc. x \<in> set (qry (dense query) (sparse query) (\<lambda>p. acl_filter allowed (cy_collection p))
      (nat (count_or k (retrieval_top_k cfg))) (qc_points q)) \<and> retrieved_of sc x = Some r"
proof -
  let ?pts = "qry (dense query) (sparse query) (\<lambda>p. acl_filter allowed (cy_collection p))
      (nat (count_or k (retrieval_top_k cfg))) (qc_points q)"
  let ?sc = "rerank query (map (\<lambda>x. cy_content (cx_payload (snd x))) ?pts)"
  have "those (map (\<lambda>i. retrieved_of (?sc ! i) (?pts ! i)) (py_take (count_or n (retrieval_top_n cfg)) (gate_order ?sc))) = Some rs"
    using assms(1,2) by (auto simp: text_search_def Let_def split: if_splits)
  then obtain i where i: "i \<in> set (gate_order ?sc)" "retrieved_of (?sc ! i) (?pts ! i) = Some r"
    using those_SomeD assms(2) by (fastforce dest: in_set_py_take)
  then have "i < length ?pts" using set_gate_order [of ?sc] assms(3) by fastforce
  with i(2) show ?thesis by (meson nth_mem)
qed

interpretation text_path: acl_search text_lawful text_hits rc_collection "\<lambda>e. orelse None (retrieval_top_n (te_cfg e))"
proof
  fix e h allowed q
  assume law: "text_lawful e" and h: "h \<in> set (text_hits e allowed q)"
  then obtain rs where "text_search (te_query e) (te_dense e) (te_sparse e) (te_rerank e) (te_cfg e) (te_index e)
      allowed q None None = Some rs" "h \<in> set rs"
    by (cases "text_search (te_query e) (te_dense e) (te_sparse e) (te_rerank e) (te_cfg e) (te_index e) allowed q None None")
      (auto simp: text_hits_def)
  from text_search_hit [OF this] law obtain x sc where "x \<in> set (te_query e (te_dense e q) (te_sparse e q)
      (\<lambda>p. acl_filter allowed (cy_collection p)) (nat (count_or None (retrieval_top_k (te_cfg e)))) (qc_points (te_index e)))"
    "retrieved_of sc x = Some h" by (auto simp: text_lawful_def)
  moreover from this(1) law have "acl_filter allowed (cy_collection (cx_payload (snd x)))"
    by (auto simp: text_lawful_def dest: hybrid_lawsD)
  ultimately show "rc_collection h \<in> allowed" by (blast intro: retrieved_of_coll)
next
  show "text_hits e {} q = []" for e q by (simp add: text_hits_def text_search_def)
next
  show "length (text_hits e allowed q) \<le> orelse None (retrieval_top_n (te_cfg e))" for e allowed q
    by (auto simp: text_hits_def text_search_def Let_def split: option.splits if_splits dest!: those_SomeD)
qed

record visual_env =
  ve_query :: page_query
  ve_embed :: "pystr \<Rightarrow> vec list option"
  ve_model :: cfg_model
  ve_cfg :: cfg_retrieval
  ve_index :: "page_point qcoll"

definition visual_lawful :: "visual_env \<Rightarrow> bool" where
  "visual_lawful e \<longleftrightarrow> (\<forall>v adm n ps r. ve_query e v adm n ps = Some r \<longrightarrow> length r \<le> n \<and>
     (\<forall>x \<in> set r. snd x \<in> set ps \<and> adm (px_payload (snd (snd x)))))"

definition visual_hits :: "visual_env \<Rightarrow> uuid set \<Rightarrow> pystr \<Rightarrow> retrieved_page list" where
  "visual_hits e allowed q = visual_search (ve_query e) (ve_embed e) (ve_model e) (ve_cfg e) (ve_index e) allowed q None"

lemma retrieved_page_coll:
  assumes "retrieved_page_of x = Some r" and "acl_filter allowed (py_collection (px_payload (snd (snd x))))"
  shows "rp_collection r \<in> allowed"
proof -
  have "Option.bind (py_collection (px_payload (snd (snd x)))) uuid_parse = Some (rp_collection r)"
    using assms(1) by (auto simp: retrieved_page_of_def Let_def split: option.splits prod.splits)
  with assms(2) show ?thesis by (rule acl_filter_parse)
qed

lemma length_map_filter: "length (List.map_filter f xs) \<le> length xs"
  by (simp add: List.map_filter_def)

interpretation visual_path: acl_search visual_lawful visual_hits rp_collection "\<lambda>e. orelse None (visual_top_k_pages (ve_cfg e))"
proof
  fix e h allowed q
  assume law: "visual_lawful e" and h: "h \<in> set (visual_hits e allowed q)"
  then obtain mv pts where "ve_query e mv (\<lambda>p. acl_filter allowed (py_collection p)) (orelse None (visual_top_k_pages (ve_cfg e)))
      (qc_points (ve_index e)) = Some pts" "h \<in> set (List.map_filter retrieved_page_of pts)"
    by (auto simp: visual_hits_def visual_search_def split: option.splits if_splits)
  moreover from this obtain x where "x \<in> set pts" "retrieved_page_of x = Some h"
    by (auto simp: List.map_filter_def)
  ultimately show "rp_collection h \<in> allowed"
    using law unfolding visual_lawful_def by (metis (no_types, lifting) retrieved_page_coll)
next
  show "visual_hits e {} q = []" for e q by (simp add: visual_hits_def visual_search_def)
next
  fix e allowed q
  assume "visual_lawful e"
  then show "length (visual_hits e allowed q) \<le> orelse None (visual_top_k_pages (ve_cfg e))"
    by (auto simp: visual_hits_def visual_search_def visual_lawful_def split: option.splits
        intro: order_trans [OF length_map_filter])
qed

definition metadata_hits :: "cfg_retrieval \<times> db \<Rightarrow> uuid set \<Rightarrow> pystr \<Rightarrow> chunk_item list" where
  "metadata_hits e allowed q = lookup_documents (fst e) (snd e) allowed q None"

definition item_coll :: "chunk_item \<Rightarrow> uuid" where
  "item_coll k = the (uuid_parse (k_coll k))"

lemma meta_rows_coll: "(x, name, email) \<in> set (meta_rows d allowed types) \<Longrightarrow> d_coll x \<in> allowed \<and> x \<in> set (t_documents d)"
  by (auto simp: meta_rows_def List.map_filter_def Let_def split: option.splits)

lemma lookup_item:
  "k \<in> set (lookup_documents cfg d allowed q limit) \<Longrightarrow>
   \<exists>x \<in> set (t_documents d). d_coll x \<in> allowed \<and> k_coll k = str_uuid (d_coll x) \<and> k_doc k = str_uuid (d_id x)"
  by (auto simp: lookup_documents_def Let_def split: if_splits dest!: in_set_takeD meta_rows_coll)

interpretation metadata_path: acl_search "\<lambda>_. True" metadata_hits item_coll "\<lambda>e. orelse None (metadata_max_documents (fst e))"
proof
  show "item_coll h \<in> allowed" if "h \<in> set (metadata_hits e allowed q)" for e h allowed q
    using that by (auto simp: metadata_hits_def item_coll_def dest!: lookup_item)
  show "metadata_hits e {} q = []" for e q by (simp add: metadata_hits_def lookup_documents_def)
  show "length (metadata_hits e allowed q) \<le> orelse None (metadata_max_documents (fst e))" for e allowed q
    by (simp add: metadata_hits_def lookup_documents_def Let_def)
qed

text \<open>
  C7. No retrieval path returns anything outside the requester's scope: with stores that honour the
  filter of a query, every text chunk, page and metadata hit handed to the graph belongs to one of
  the allowed collections, each path keeps its limit, and an empty scope retrieves nothing.
\<close>

theorem retrieval_within_scope:
  assumes "text_lawful te" and "visual_lawful ve"
  shows "(\<forall>k \<in> set (map graph_chunk (text_hits te allowed q)). k_coll k \<in> str_uuid ` allowed)
     \<and> (\<forall>g \<in> set (map graph_page (visual_hits ve allowed q)). g_coll g \<in> str_uuid ` allowed)
     \<and> (\<forall>k \<in> set (lookup_documents cfg d allowed q None). k_coll k \<in> str_uuid ` allowed)
     \<and> length (text_hits te allowed q) \<le> orelse None (retrieval_top_n (te_cfg te))
     \<and> length (visual_hits ve allowed q) \<le> orelse None (visual_top_k_pages (ve_cfg ve))
     \<and> (allowed = {} \<longrightarrow> text_hits te allowed q = [] \<and> visual_hits ve allowed q = [] \<and> lookup_documents cfg d allowed q None = [])"
  using text_path.permitted [OF assms(1)] visual_path.permitted [OF assms(2)] text_path.capped [OF assms(1)]
    visual_path.capped [OF assms(2)] text_path.empty_scope [of te q] visual_path.empty_scope [of ve q]
    metadata_path.empty_scope [of "(cfg, d)" q]
  by (auto simp: graph_chunk_def graph_page_def metadata_hits_def dest!: lookup_item)

lemma sorted_rank: "sorted (map (\<lambda>i. - (scores ! i)) (rank_order scores))"
  by (simp add: rank_order_def)

lemma sorted_gate: "sorted (map (\<lambda>i. - (scores ! i)) (gate_order scores))"
proof -
  have "sorted_wrt (\<lambda>i j. - (scores ! i) \<le> - (scores ! j)) (rank_order scores)"
    using sorted_rank [of scores] by (simp add: sorted_map)
  then have "sorted_wrt (\<lambda>i j. - (scores ! i) \<le> - (scores ! j)) (filter P (rank_order scores))" for P
    by (rule sorted_wrt_filter)
  with sorted_rank [of scores] show ?thesis
    by (auto simp: gate_order_def Let_def sorted_map)
qed

lemma retrieved_score: "retrieved_of sc x = Some r \<Longrightarrow> rc_score r = sc"
  by (auto simp: retrieved_of_def Let_def split: option.splits)

lemma those_map_nth: "those (map f is) = Some rs \<Longrightarrow> list_all2 (\<lambda>i r. f i = Some r) is rs"
  by (induction "is" arbitrary: rs) (auto split: option.splits)

lemma retrieved_scores: "list_all2 (\<lambda>i r. retrieved_of (f i) (g i) = Some r) is rs \<Longrightarrow> map rc_score rs = map f is"
  by (induction rule: list_all2_induct) (auto simp: retrieved_score)

lemma text_search_scores:
  assumes "text_search qry dense sparse rerank cfg q allowed query k n = Some rs"
  shows "rs = [] \<or> (let pts = qry (dense query) (sparse query) (\<lambda>p. acl_filter allowed (cy_collection p))
        (nat (count_or k (retrieval_top_k cfg))) (qc_points q);
      sc = rerank query (map (\<lambda>x. cy_content (cx_payload (snd x))) pts)
    in map rc_score rs = map (\<lambda>i. sc ! i) (py_take (count_or n (retrieval_top_n cfg)) (gate_order sc)))"
  using assms by (auto simp: text_search_def Let_def split: if_splits intro!: retrieved_scores those_map_nth)

lemma gate_bound:
  assumes "i \<in> set (gate_order sc)" and "0 < x" and "x \<in> set sc"
  shows "Max (set sc) / 20 \<le> sc ! i"
proof -
  let ?b = "Max (set sc)"
  have b: "0 < ?b" "?b \<in> set sc"
    using assms(2,3) by (meson List.finite_set Max_ge less_le_trans, metis List.finite_set Max_in empty_iff)
  then obtain j where "j < length sc" "sc ! j = ?b" by (auto simp: in_set_conv_nth)
  with b have "j \<in> set (filter (\<lambda>i. ?b / 20 \<le> sc ! i) (rank_order sc))" by simp
  then have "filter (\<lambda>i. ?b / 20 \<le> sc ! i) (rank_order sc) \<noteq> []" by (rule list.set_cases) simp_all
  with assms b show ?thesis by (auto simp: gate_order_def Let_def split: if_splits)
qed

text \<open>
  What the text path keeps is the best of what it found: the results are in descending order of
  their rerank scores, at most \<open>top_n\<close>, and unless no score is positive every one scores at least a
  twentieth of the best candidate.
\<close>


theorem text_search_ranked:
  assumes "text_search qry dense sparse rerank cfg q allowed query k n = Some rs"
  defines "scores \<equiv> rerank query (map (\<lambda>x. cy_content (cx_payload (snd x)))
      (qry (dense query) (sparse query) (\<lambda>p. acl_filter allowed (cy_collection p)) (nat (count_or k (retrieval_top_k cfg))) (qc_points q)))"
  shows "sorted_wrt (\<lambda>a b. rc_score b \<le> rc_score a) rs
     \<and> (0 \<le> count_or n (retrieval_top_n cfg) \<longrightarrow> int (length rs) \<le> count_or n (retrieval_top_n cfg))
     \<and> ((\<exists>x \<in> set scores. 0 < x) \<longrightarrow> (\<forall>r \<in> set rs. Max (set scores) / 20 \<le> rc_score r))"
proof (cases "rs = []")
  case False
  let ?is = "py_take (count_or n (retrieval_top_n cfg)) (gate_order scores)"
  from text_search_scores [OF assms(1)] False have m: "map rc_score rs = map (\<lambda>i. scores ! i) ?is"
    by (simp add: Let_def scores_def)
  have "sorted_wrt (\<lambda>i j. scores ! j \<le> scores ! i) ?is"
    using sorted_gate [of scores] by (simp add: sorted_map py_take_def sorted_wrt_take)
  then have "sorted_wrt (\<lambda>a b. b \<le> a) (map (\<lambda>i. scores ! i) ?is)" by (simp add: sorted_wrt_map)
  then have "sorted_wrt (\<lambda>a b. rc_score b \<le> rc_score a) rs" unfolding m [symmetric] by (simp add: sorted_wrt_map)
  moreover from arg_cong [OF m, of length] have "(0 \<le> count_or n (retrieval_top_n cfg) \<longrightarrow> int (length rs) \<le> count_or n (retrieval_top_n cfg))" by (simp add: length_py_take)
  moreover have "Max (set scores) / 20 \<le> rc_score r" if "x \<in> set scores" "0 < x" "r \<in> set rs" for x r
  proof -
    from that(3) have "rc_score r \<in> set (map (\<lambda>i. scores ! i) ?is)" unfolding m [symmetric] by simp
    then obtain i where "i \<in> set (gate_order scores)" "rc_score r = scores ! i" by (auto dest: in_set_py_take)
    with that gate_bound show ?thesis by simp
  qed
  ultimately show ?thesis by blast
qed simp

text \<open>Concrete backends, to run the definitions on: the filter is honoured, everything matches.\<close>

definition demo_hybrid :: hybrid_query where
  "demo_hybrid v s adm n ps = take n (filter (\<lambda>x. adm (cx_payload (snd x))) ps)"

definition demo_pages :: page_query where
  "demo_pages mv adm n ps = Some (take n (map (\<lambda>x. (1, x)) (filter (\<lambda>x. adm (px_payload (snd x))) ps)))"

lemma demo_hybrid_laws: "hybrid_laws demo_hybrid"
  by (auto simp: hybrid_laws_def demo_hybrid_def dest: in_set_takeD)

definition demo_text_point :: "uuid \<times> chunk_point" where
  "demo_text_point = make_point 9 [1] ([], []) \<lparr>cy_document = Some (str_uuid 5), cy_collection = Some (str_uuid 3), cy_chunk = lit ''c'',
     cy_type = lit ''text'', cy_page = None, cy_section = None, cy_file = lit ''a.txt'', cy_filetype = lit ''txt'',
     cy_content = lit ''body'', cy_image = None\<rparr>"

definition demo_text :: text_env where
  "demo_text = \<lparr>te_query = demo_hybrid, te_dense = (\<lambda>_. [1]), te_sparse = (\<lambda>_. ([], [])), te_rerank = noop_rerank,
     te_cfg = default_retrieval, te_index = \<lparr>qc_exists = True, qc_points = [demo_text_point]\<rparr>\<rparr>"

definition demo_visual :: visual_env where
  "demo_visual = \<lparr>ve_query = demo_pages, ve_embed = (\<lambda>_. Some [[1]]), ve_model = default_model, ve_cfg = default_retrieval,
     ve_index = \<lparr>qc_exists = True, qc_points = [make_page_point 8 [[1]] (page_payload_of 5 3 1 (lit ''u'') (lit ''a.pdf'') (lit ''pdf''))]\<rparr>\<rparr>"

lemma demo_lawful: "text_lawful demo_text" "visual_lawful demo_visual"
  by (auto simp: text_lawful_def demo_text_def demo_hybrid_laws noop_rerank_def visual_lawful_def demo_visual_def demo_pages_def
      dest!: in_set_takeD)

lemma demo_text_search:
  "text_search demo_hybrid (\<lambda>_. [1]) (\<lambda>_. ([], [])) noop_rerank default_retrieval (te_index demo_text) {3} (lit ''q'') None None
   = Some [\<lparr>rc_chunk = 9, rc_document = 5, rc_collection = 3, rc_type = lit ''text'', rc_page = None, rc_section = None, rc_score = 1,
       rc_snippet = lit ''body'', rc_content = lit ''body'', rc_file = Some (lit ''a.txt''), rc_image = None\<rparr>]"
  by (simp add: text_search_def demo_text_def demo_hybrid_def demo_text_point_def make_point_def acl_filter_def orelse_def count_or_def py_take_def
      default_retrieval_def noop_rerank_def gate_order_def rank_order_def retrieved_of_def Let_def py_defs is_space_def lit_def)

lemma retrieval_within_scope_witness:
  "length (text_hits demo_text {3} (lit ''q'')) = 1 \<and> length (text_hits demo_text {3} (lit ''q'')) \<le> 5
   \<and> text_hits demo_text {} (lit ''q'') = [] \<and> visual_hits demo_visual {} (lit ''q'') = []"
  using retrieval_within_scope [OF demo_lawful, of "{}" "lit ''q''" default_retrieval empty_db]
    retrieval_within_scope [OF demo_lawful, of "{3}" "lit ''q''" default_retrieval empty_db] demo_text_search
  by (simp add: text_hits_def) (simp add: demo_text_def default_retrieval_def orelse_def)

lemma text_search_ranked_witness:
  "length (text_hits demo_text {3} (lit ''q'')) = 1 \<and> length (text_hits demo_text {3} (lit ''q'')) \<le> 5"
  using text_search_ranked [OF demo_text_search] demo_text_search
  by (simp add: text_hits_def demo_text_def default_retrieval_def orelse_def)

end
