(* ===== verification/Search.thy ===== *)
theory Search
  imports Retrieval Complex_Main
begin

text \<open>
  The search endpoint, \<open>app/api/search.py\<close>, and the local embedder, \<open>app/ingestion/embedder.py\<close>: the
  requester's collections, the text path with the counts of the request, the page path on demand; and
  feature hashing into a dense vector of unit length (over the reals, \<open>sqrt\<close>) and a sparse vector. The
  digest is a parameter: \<open>h tok m\<close> is the leading half of the token's MD5 digest, as a number, modulo \<open>m\<close>.
\<close>

subsection \<open>The hashing embedder\<close>

definition tokens :: "pystr \<Rightarrow> pystr list" where
  "tokens t = words_of (lower t)"

definition SPARSE_SPACE :: nat where
  "SPARSE_SPACE = 2 ^ 20"

definition hash_token :: "(pystr \<Rightarrow> nat) \<Rightarrow> pystr \<Rightarrow> nat \<Rightarrow> nat" where
  "hash_token md5 tok m = md5 tok mod m"

definition add_token :: "(pystr \<Rightarrow> nat) \<Rightarrow> nat \<Rightarrow> pystr \<Rightarrow> real list \<Rightarrow> real list" where
  "add_token md5 dimension tok v =
     (let i = hash_token md5 tok dimension; sgn1 = (if hash_token md5 (tok @ lit ''#'') 2 = 0 then 1 else - 1)
      in v[i := v ! i + sgn1])"

definition embed_dense :: "(pystr \<Rightarrow> nat) \<Rightarrow> nat \<Rightarrow> pystr \<Rightarrow> real list" where
  "embed_dense md5 dimension t =
     (let v = fold (add_token md5 dimension) (tokens t) (replicate dimension 0); norm = sqrt (sum_list (map (\<lambda>x. x * x) v))
      in if 0 < norm then map (\<lambda>x. x / norm) v else v[0 := 1])"

fun count_token :: "nat \<Rightarrow> (nat \<times> real) list \<Rightarrow> (nat \<times> real) list" where
  "count_token k [] = [(k, 1)]"
| "count_token k ((j, n) # rest) = (if j = k then (j, n + 1) # rest else (j, n) # count_token k rest)"

definition embed_sparse :: "(pystr \<Rightarrow> nat) \<Rightarrow> pystr \<Rightarrow> nat list \<times> real list" where
  "embed_sparse md5 t =
     (let counts = fold (\<lambda>tok. count_token (hash_token md5 tok SPARSE_SPACE)) (tokens t) []
      in if counts = [] then ([], [])
         else let indices = sort (map fst counts) in (indices, map (\<lambda>i. the (map_of counts i)) indices))"

subsection \<open>The endpoint\<close>

record search_request =
  sq_query :: pystr
  sq_top_k :: "int option"
  sq_top_n :: "int option"
  sq_pages :: bool

record chunk_out =
  so_chunk :: uuid
  so_document :: uuid
  so_collection :: uuid
  so_type :: pystr
  so_page :: "int option"
  so_section :: "pystr option"
  so_score :: rat
  so_snippet :: pystr

record page_out =
  po_document :: uuid
  po_collection :: uuid
  po_page :: int
  po_file :: "pystr option"
  po_score :: rat

record search_response =
  sr_query :: pystr
  sr_count :: nat
  sr_results :: "chunk_out list"
  sr_pages :: "page_out list"

definition chunk_out_of :: "retrieved_chunk \<Rightarrow> chunk_out" where
  "chunk_out_of r = \<lparr>so_chunk = rc_chunk r, so_document = rc_document r, so_collection = rc_collection r, so_type = rc_type r,
     so_page = rc_page r, so_section = rc_section r, so_score = rc_score r, so_snippet = rc_snippet r\<rparr>"

definition page_out_of :: "retrieved_page \<Rightarrow> page_out" where
  "page_out_of p = \<lparr>po_document = rp_document p, po_collection = rp_collection p, po_page = rp_page p, po_file = rp_file p,
     po_score = rp_score p\<rparr>"

text \<open>An empty query fails the validation of the request body.\<close>

definition search_endpoint :: "text_env \<Rightarrow> visual_env \<Rightarrow> db \<Rightarrow> user_row \<Rightarrow> search_request \<Rightarrow> search_response http" where
  "search_endpoint te ve d u body =
     (if sq_query body = [] then Inl (HTTPException 422 (lit ''query''))
      else let allowed = accessible_collection_ids d u in
       (case text_search (te_query te) (te_dense te) (te_sparse te) (te_rerank te) (te_cfg te) (te_index te) allowed
               (sq_query body) (sq_top_k body) (sq_top_n body) of
          None \<Rightarrow> Inl Crash
        | Some results \<Rightarrow>
            let pages = (if sq_pages body
                  then visual_search (ve_query ve) (ve_embed ve) (ve_model ve) (ve_cfg ve) (ve_index ve) allowed (sq_query body) None
                  else [])
            in Inr \<lparr>sr_query = sq_query body, sr_count = length results, sr_results = map chunk_out_of results,
                 sr_pages = map page_out_of pages\<rparr>))"

subsection \<open>The embedder's vectors\<close>

lemma length_fold_add [simp]: "length (fold (add_token md5 dimension) toks v) = length v"
  by (induction toks arbitrary: v) (simp_all add: add_token_def Let_def)

lemma sum_squares_scaled: "sum_list (map (\<lambda>x. x * x) (map (\<lambda>x. x / c) v)) = sum_list (map (\<lambda>x. x * x) v) / (c * c :: real)"
  by (induction v) (simp_all add: add_divide_distrib)

lemma sum_squares_nonneg: "0 \<le> sum_list (map (\<lambda>x. x * x) (v :: real list))"
  by (induction v) simp_all

lemma sum_squares_zero: "sum_list (map (\<lambda>x. x * x) (v :: real list)) = 0 \<Longrightarrow> \<forall>x \<in> set v. x = 0"
proof (induction v)
  case (Cons a v)
  then have "a * a + sum_list (map (\<lambda>x. x * x) v) = 0" "0 \<le> a * a" by simp_all
  with sum_squares_nonneg [of v] have "a * a = 0" "sum_list (map (\<lambda>x. x * x) v) = 0" by linarith+
  with Cons.IH show ?case by simp
qed simp

lemma sum_squares_unit: "\<forall>x \<in> set v. x = 0 \<Longrightarrow> v \<noteq> [] \<Longrightarrow> sum_list (map (\<lambda>x. x * x) (v[0 := 1 :: real])) = 1"
proof (cases v)
  case (Cons a w)
  assume "\<forall>x \<in> set v. x = 0"
  then have "\<forall>x \<in> set w. x = 0" using Cons by simp
  then have "sum_list (map (\<lambda>x. x * x) w) = 0" by (induction w) simp_all
  then show ?thesis using Cons by simp
qed simp

text \<open>The dense vector has the configured size and unit length, for every text, the empty one included.\<close>

lemma embed_dense_unit:
  assumes "0 < dimension"
  shows "length (embed_dense md5 dimension t) = dimension \<and> sum_list (map (\<lambda>x. x * x) (embed_dense md5 dimension t)) = 1"
proof -
  define v where "v = fold (add_token md5 dimension) (tokens t) (replicate dimension (0 :: real))"
  define s where "s = sum_list (map (\<lambda>x. x * x) v)"
  have v: "length v = dimension" by (simp add: v_def)
  have dense: "embed_dense md5 dimension t = (if 0 < sqrt s then map (\<lambda>x. x / sqrt s) v else v[0 := 1])"
    by (simp add: embed_dense_def Let_def v_def s_def)
  show ?thesis
  proof (cases "0 < s")
    case True
    then have "sum_list (map (\<lambda>x. x * x) (map (\<lambda>x. x / sqrt s) v)) = 1"
      unfolding sum_squares_scaled s_def [symmetric] by simp
    with True show ?thesis using v by (simp add: dense del: map_map)
  next
    case False
    then have "s = 0" using sum_squares_nonneg [of v] by (simp add: s_def)
    then have "\<forall>x \<in> set v. x = 0" using sum_squares_zero [of v] by (simp add: s_def)
    then show ?thesis using sum_squares_unit [of v] v assms \<open>s = 0\<close> by (auto simp: dense)
  qed
qed

lemma keys_count_token: "map fst (count_token k cs) = map fst cs @ (if k \<in> fst ` set cs then [] else [k])"
  by (induction k cs rule: count_token.induct) auto

lemma map_of_count_token: "map_of (count_token k cs) = (map_of cs)(k \<mapsto> (case map_of cs k of None \<Rightarrow> 0 | Some n \<Rightarrow> n) + 1)"
  by (induction k cs rule: count_token.induct) (auto simp: fun_eq_iff)

definition counted :: "nat list \<Rightarrow> (nat \<times> real) list \<Rightarrow> bool" where
  "counted ks cs \<longleftrightarrow> distinct (map fst cs) \<and> set (map fst cs) = set ks \<and> (\<forall>k \<in> set ks. map_of cs k = Some (of_nat (count_list ks k)))"

lemma counted_step: "counted ks cs \<Longrightarrow> counted (ks @ [k]) (count_token k cs)"
proof -
  assume c: "counted ks cs"
  then have keys: "set (map fst cs) = set ks" by (simp add: counted_def)
  have "map_of (count_token k cs) j = Some (of_nat (count_list (ks @ [k]) j))" if j: "j \<in> set (ks @ [k])" for j
  proof (cases "j \<in> set ks")
    case True
    then show ?thesis using c by (auto simp: counted_def map_of_count_token)
  next
    case False
    then have "map_of cs j = None" "j = k" using keys j by (auto simp: map_of_eq_None_iff)
    then show ?thesis using False by (simp add: map_of_count_token)
  qed
  with c show ?thesis by (auto simp: counted_def keys_count_token)
qed

lemma counted_fold: "counted ks0 cs \<Longrightarrow> counted (ks0 @ ks) (fold count_token ks cs)"
proof (induction ks arbitrary: ks0 cs)
  case (Cons k ks)
  from Cons.IH [OF counted_step [OF Cons.prems]] show ?case by simp
qed simp

text \<open>
  The sparse vector lists each hashed token once, in ascending order, with the number of its occurrences.
\<close>

lemma embed_sparse_counts:
  assumes "embed_sparse md5 t = (indices, values)"
  defines "hashes \<equiv> map (\<lambda>tok. hash_token md5 tok SPARSE_SPACE) (tokens t)"
  shows "sorted indices \<and> distinct indices \<and> set indices = set hashes \<and> values = map (\<lambda>i. of_nat (count_list hashes i)) indices"
proof -
  define cs where "cs = fold count_token hashes []"
  have c: "counted hashes cs" using counted_fold [of "[]" "[]" hashes] by (simp add: counted_def cs_def)
  have "fold (\<lambda>tok. count_token (hash_token md5 tok SPARSE_SPACE)) (tokens t) [] = cs"
    by (simp add: cs_def hashes_def fold_map comp_def)
  with assms(1) have "indices = sort (map fst cs)" "values = map (\<lambda>i. the (map_of cs i)) indices"
    by (auto simp: embed_sparse_def Let_def split: if_splits)
  with c show ?thesis by (auto simp: counted_def)
qed

subsection \<open>The endpoint stays in scope\<close>

lemma text_search_point:
  assumes "text_lawful te"
    and "text_search (te_query te) (te_dense te) (te_sparse te) (te_rerank te) (te_cfg te) (te_index te) allowed q k n = Some rs"
    and "r \<in> set rs"
  obtains x sc where "x \<in> set (qc_points (te_index te))" and "retrieved_of sc x = Some r" and "rc_collection r \<in> allowed"
proof -
  from text_search_hit [OF assms(2,3)] assms(1) obtain x sc where x: "x \<in> set (te_query te (te_dense te q) (te_sparse te q)
      (\<lambda>p. acl_filter allowed (cy_collection p)) (nat (count_or k (retrieval_top_k (te_cfg te)))) (qc_points (te_index te)))"
    and r: "retrieved_of sc x = Some r" by (auto simp: text_lawful_def)
  from x assms(1) have "x \<in> set (qc_points (te_index te)) \<and> acl_filter allowed (cy_collection (cx_payload (snd x)))"
    by (auto simp: text_lawful_def dest: hybrid_lawsD)
  with r show ?thesis by (blast intro: that retrieved_of_coll)
qed

lemma search_endpoint_hit:
  assumes "text_lawful te" and "search_endpoint te ve d u body = Inr r" and "h \<in> set (sr_results r)"
  obtains x sc c where "x \<in> set (qc_points (te_index te))" and "retrieved_of sc x = Some c" and "h = chunk_out_of c"
    and "rc_collection c \<in> accessible_collection_ids d u"
proof -
  from assms(2,3) obtain rs c where "text_search (te_query te) (te_dense te) (te_sparse te) (te_rerank te) (te_cfg te) (te_index te)
      (accessible_collection_ids d u) (sq_query body) (sq_top_k body) (sq_top_n body) = Some rs" "c \<in> set rs" "h = chunk_out_of c"
    by (auto simp: search_endpoint_def Let_def split: option.splits if_splits)
  with text_search_point [OF assms(1)] that show ?thesis by metis
qed

lemma search_endpoint_page:
  assumes "search_endpoint te ve d u body = Inr r" and "p \<in> set (sr_pages r)"
  obtains c where "p = page_out_of c"
    and "c \<in> set (visual_search (ve_query ve) (ve_embed ve) (ve_model ve) (ve_cfg ve) (ve_index ve) (accessible_collection_ids d u)
      (sq_query body) None)"
  using assms by (auto simp: search_endpoint_def Let_def split: option.splits if_splits)

lemma accessible_readable: "c \<in> accessible_collection_ids d u \<Longrightarrow> may_read d u c"
  by (cases "u_role u = ADMIN") (auto simp: accessible_user_iff intro: may_read.admin)

lemma retrieved_snippet: "retrieved_of sc x = Some r \<Longrightarrow> rc_snippet r = take 300 (cy_content (cx_payload (snd x))) \<and> rc_chunk r = fst x"
  by (auto simp: retrieved_of_def Let_def split: option.splits)

text \<open>A negative count in the request makes the limit meaningless: the slice only drops that many from the end.\<close>

lemma negative_top_n_exceeds_limit: "py_take (count_or (Some (- 1)) 5) xs = butlast xs"
  by (cases xs) (simp_all add: py_take_def count_or_def butlast_conv_take)

end
