(* ===== verification/Normalize.thy ===== *)
theory Normalize
  imports Prelude
begin

text \<open>
  Text normalisation before chunking, \<open>app/ingestion/normalize.py\<close>: line ends, hyphenated line breaks,
  blanks inside lines, runs of empty lines, and headers or footers repeated over the pages.
\<close>

subsection \<open>normalize\_text\<close>

text \<open>\<open>_HYPHEN_BREAK.sub\<close>: the scan goes on after the second letter of a match.\<close>

fun dehyphen :: "pystr \<Rightarrow> pystr" where
  "dehyphen (a # b # c # d # s) =
     (if is_word a \<and> b = 45 \<and> c = 10 \<and> is_word d then a # d # dehyphen s else a # dehyphen (b # c # d # s))"
| "dehyphen s = s"

definition is_blank :: "nat \<Rightarrow> bool" where
  "is_blank c \<longleftrightarrow> c = 32 \<or> c = 9 \<or> c = 160"

function collapse_blanks :: "pystr \<Rightarrow> pystr" where
  "collapse_blanks [] = []"
| "collapse_blanks (c # s) = (if is_blank c then 32 # collapse_blanks (dropWhile is_blank s) else c # collapse_blanks s)"
  by pat_completeness auto
termination
  by (relation "measure length") (auto simp: le_imp_less_Suc length_dropWhile_le)

function squeeze_newlines :: "pystr \<Rightarrow> pystr" where
  "squeeze_newlines [] = []"
| "squeeze_newlines (c # s) =
     (if c = 10 then
        (let n = Suc (length (takeWhile (\<lambda>x. x = 10) s))
         in replicate (if 3 \<le> n then 2 else n) 10 @ squeeze_newlines (dropWhile (\<lambda>x. x = 10) s))
      else c # squeeze_newlines s)"
  by pat_completeness auto
termination
  by (relation "measure length") (auto simp: le_imp_less_Suc length_dropWhile_le)

definition normalize_text :: "pystr \<Rightarrow> pystr" where
  "normalize_text text =
     (if text = [] then []
      else let t1 = replace [13] [10] (replace [13, 10] [10] text);
               t2 = dehyphen t1;
               t3 = join [10] (map (\<lambda>l. strip (collapse_blanks l)) (split_str [10] t2))
           in strip (squeeze_newlines t3))"

lemma normalize_strip [simp]: "strip (normalize_text t) = normalize_text t"
  by (simp add: normalize_text_def Let_def)

subsection \<open>What normalisation leaves\<close>

lemma length_collapse: "length (collapse_blanks s) \<le> length s"
  by (induction s rule: collapse_blanks.induct) (auto intro: le_trans length_dropWhile_le)

lemma length_dehyphen: "length (dehyphen s) \<le> length s"
  by (induction s rule: dehyphen.induct) auto

lemma length_squeeze: "length (squeeze_newlines s) \<le> length s"
proof (induction s rule: squeeze_newlines.induct)
  case (2 c s)
  have "length (takeWhile (\<lambda>x. x = 10) s) + length (dropWhile (\<lambda>x. x = 10) s) = length s"
    by (metis length_append takeWhile_dropWhile_id)
  with 2 show ?case by (auto simp: Let_def)
qed simp

lemma length_split_join: "sep \<noteq> [] \<Longrightarrow> length (join sep (split_str sep s)) = length s"
proof (induction sep s rule: split_str.induct)
  case (1 sep s)
  show ?case
  proof (cases "cut sep s")
    case None
    with 1 show ?thesis by (simp add: split_str_no_sep)
  next
    case (Some p)
    obtain a b where p: "p = (a, b)" by (cases p)
    have ih: "length (join sep (split_str sep b)) = length b" using 1 Some p by auto
    obtain y ys where y: "split_str sep b = y # ys" using split_str_ne [of sep b] by (cases "split_str sep b") auto
    have "split_str sep s = a # split_str sep b" using 1 Some p by (subst split_str.simps) simp
    with ih y cut_length [OF Some [unfolded p]] show ?thesis by simp
  qed
qed

lemma length_join_mono: "list_all2 (\<lambda>x y. length x \<le> length y) xs ys \<Longrightarrow> length (join sep xs) \<le> length (join sep ys)"
proof -
  assume a: "list_all2 (\<lambda>x y. length x \<le> length y) xs ys"
  then have "sum_list (map length xs) \<le> sum_list (map length ys)" by (induction rule: list_all2_induct) auto
  with list_all2_lengthD [OF a] show ?thesis by (simp add: length_join)
qed

lemma length_join_sep: "length sep \<le> length sep' \<Longrightarrow> length (join sep xs) \<le> length (join sep' xs)"
  by (simp add: length_join)

lemma length_replace: "old \<noteq> [] \<Longrightarrow> length new \<le> length old \<Longrightarrow> length (replace old new s) \<le> length s"
  using length_join_sep [of new old "split_str old s"] length_split_join [of old s] by (simp add: replace_def)

lemma length_strip: "length (strip s) \<le> length s"
  by (simp add: strip_def length_strip_by)

definition tidy_lines :: "pystr \<Rightarrow> pystr" where
  "tidy_lines t = join [10] (map (\<lambda>l. strip (collapse_blanks l)) (split_str [10] t))"

lemma length_tidy: "length (tidy_lines t) \<le> length t"
proof -
  have "list_all2 (\<lambda>x y. length x \<le> length y) (map (\<lambda>l. strip (collapse_blanks l)) xs) xs" for xs
    by (induction xs) (auto intro: le_trans [OF length_strip length_collapse])
  then have "length (tidy_lines t) \<le> length (join [10] (split_str [10] t))"
    unfolding tidy_lines_def by (rule length_join_mono)
  then show ?thesis by (simp add: length_split_join)
qed

lemma normalize_text_alt: "normalize_text t = (if t = [] then []
    else strip (squeeze_newlines (tidy_lines (dehyphen (replace [13] [10] (replace [13, 10] [10] t))))))"
  by (simp add: normalize_text_def tidy_lines_def Let_def)

lemma length_normalize: "length (normalize_text t) \<le> length t"
proof -
  let ?t0 = "replace [13, 10] [10] t" and ?t1 = "replace [13] [10] (replace [13, 10] [10] t)"
  have "length ?t1 \<le> length ?t0" "length ?t0 \<le> length t" by (simp_all add: length_replace)
  then have "length (tidy_lines (dehyphen ?t1)) \<le> length t"
    using length_tidy [of "dehyphen ?t1"] length_dehyphen [of ?t1] by linarith
  then have "length (strip (squeeze_newlines (tidy_lines (dehyphen ?t1)))) \<le> length t"
    by (rule le_trans [OF le_trans [OF length_strip length_squeeze]])
  then show ?thesis unfolding normalize_text_alt by simp
qed

subsection \<open>Headers and footers\<close>

definition line_count :: "pystr list \<Rightarrow> pystr \<Rightarrow> nat" where
  "line_count pages lin = length (filter (\<lambda>txt. lin \<in> set (filter (\<lambda>l. l \<noteq> []) (map strip (split_str [10] txt)))) pages)"

definition boilerplate :: "rat \<Rightarrow> pystr list \<Rightarrow> pystr \<Rightarrow> bool" where
  "boilerplate threshold pages lin \<longleftrightarrow>
     0 < line_count pages lin \<and> of_nat (line_count pages lin) / of_nat (length pages) \<ge> threshold \<and> length lin \<le> 80"

definition strip_repeated_boilerplate :: "rat \<Rightarrow> pystr list \<Rightarrow> pystr list" where
  "strip_repeated_boilerplate threshold pages =
     (if length pages < 3 then pages
      else let cand = concat (map (\<lambda>txt. filter (\<lambda>l. l \<noteq> []) (map strip (split_str [10] txt))) pages);
               plate = filter (boilerplate threshold pages) cand
           in if plate = [] then pages
              else map (\<lambda>txt. join [10] (filter (\<lambda>lin. strip lin \<notin> set plate) (split_str [10] txt))) pages)"

lemma line_count_pos: "0 < line_count pages lin \<longleftrightarrow>
    lin \<in> set (concat (map (\<lambda>txt. filter (\<lambda>l. l \<noteq> []) (map strip (split_str [10] txt))) pages))"
  by (auto simp: line_count_def filter_empty_conv)

lemma boilerplate_candidates: "set (filter (boilerplate th pages)
    (concat (map (\<lambda>txt. filter (\<lambda>l. l \<noteq> []) (map strip (split_str [10] txt))) pages))) = {lin. boilerplate th pages lin}"
  using line_count_pos by (auto simp: boilerplate_def)

lemma join_split: "sep \<noteq> [] \<Longrightarrow> join sep (split_str sep s) = s"
proof (induction sep s rule: split_str.induct)
  case (1 sep s)
  show ?case
  proof (cases "cut sep s")
    case None
    with 1 show ?thesis by (simp add: split_str_no_sep)
  next
    case (Some p)
    obtain a b where p: "p = (a, b)" by (cases p)
    obtain y ys where y: "split_str sep b = y # ys" using split_str_ne [of sep b] by (cases "split_str sep b") auto
    have "split_str sep s = a # split_str sep b" using 1 Some p by (subst split_str.simps) simp
    with 1 Some p y cut_Some [OF Some [unfolded p]] show ?thesis by auto
  qed
qed

text \<open>The code's two passes amount to dropping, on every page, the lines that are boilerplate.\<close>

lemma strip_repeated_boilerplate_spec:
  "strip_repeated_boilerplate th pages = (if length pages < 3 then pages
     else map (\<lambda>t. join [10] (filter (\<lambda>l. \<not> boilerplate th pages (strip l)) (split_str [10] t))) pages)"
proof -
  let ?plate = "filter (boilerplate th pages) (concat (map (\<lambda>txt. filter (\<lambda>l. l \<noteq> []) (map strip (split_str [10] txt))) pages))"
  have set: "set ?plate = {l. boilerplate th pages l}" by (rule boilerplate_candidates)
  have lam: "(\<lambda>l. strip l \<notin> set ?plate) = (\<lambda>l. \<not> boilerplate th pages (strip l))"
    unfolding set by simp
  show ?thesis
  proof (cases "?plate = []")
    case True
    then have "\<And>l. \<not> boilerplate th pages l" using set by auto
    then show ?thesis by (simp add: strip_repeated_boilerplate_def join_split map_idI)
  next
    case False
    then show ?thesis unfolding strip_repeated_boilerplate_def Let_def lam by (simp only: if_False)
  qed
qed

end
