(* ===== verification/Chunker.thy ===== *)
theory Chunker
  imports Normalize Tokens Config Model
begin

text \<open>
  Chunking: the shared types (\<open>app/ingestion/types.py\<close>), the semantic chunker (\<open>chunker.py\<close>) and the
  size-bounded one of the legacy path (\<open>chunking.py\<close>). The metadata dictionary of an element or chunk is
  a record with one optional field per key the program uses. A splitting loop whose step does not shrink
  the text (an overlap as large as the window) never ends, so both splitters are partial functions and
  \<open>None\<close> means that the call does not return.
\<close>

subsection \<open>Types\<close>

type_synonym bbox = "rat \<times> rat \<times> rat \<times> rat"

record meta =
  mt_rows :: "pystr list list option"
  mt_header :: "pystr list option"
  mt_caption :: "pystr option"
  mt_png :: "nat list option"
  mt_uri :: "pystr option"
  mt_flags :: "(pystr \<times> json) list"
  mt_bbox :: "bbox option"
  mt_repr :: "pystr option"
  mt_range :: "(nat \<times> nat) option"

definition meta0 :: meta where
  "meta0 = \<lparr>mt_rows = None, mt_header = None, mt_caption = None, mt_png = None, mt_uri = None, mt_flags = [],
     mt_bbox = None, mt_repr = None, mt_range = None\<rparr>"

record element =
  el_kind :: chunk_type
  el_content :: pystr
  el_page :: "int option"
  el_section :: "pystr option"
  el_bbox :: "bbox option"
  el_meta :: meta

record chunk_data =
  cd_type :: chunk_type
  cd_raw :: pystr
  cd_norm :: pystr
  cd_index :: nat
  cd_page :: "int option"
  cd_section :: "pystr option"
  cd_meta :: meta

text \<open>\<open>if s\<close> of an optional string.\<close>

definition truthy :: "pystr option \<Rightarrow> bool" where
  "truthy s \<longleftrightarrow> s \<noteq> None \<and> s \<noteq> Some []"

definition with_bbox :: "element \<Rightarrow> meta \<Rightarrow> meta" where
  "with_bbox el m = (case el_bbox el of None \<Rightarrow> m | Some b \<Rightarrow> m\<lparr>mt_bbox := Some b\<rparr>)"

text \<open>\<open>s[i:]\<close> for an index that may be negative.\<close>

definition slice_from :: "int \<Rightarrow> 'a list \<Rightarrow> 'a list" where
  "slice_from i s = (if 0 \<le> i then drop (nat i) s else last_n (nat (- i)) s)"

subsection \<open>Tables\<close>

record table =
  tb_rows :: "pystr list list"
  tb_header :: "pystr list option"
  tb_caption :: "pystr option"

definition n_rows :: "table \<Rightarrow> nat" where
  "n_rows t = length (tb_rows t)"

definition header_cells :: "table \<Rightarrow> pystr list" where
  "header_cells t = (case tb_header t of None \<Rightarrow> [] | Some h \<Rightarrow> h)"

definition n_cols :: "table \<Rightarrow> nat" where
  "n_cols t = (let widths = map length (tb_rows t) @ (if header_cells t = [] then [] else [length (header_cells t)])
     in if widths = [] then 0 else Max (set widths))"

definition md_escape :: "pystr \<Rightarrow> pystr" where
  "md_escape cell = strip (replace [10] [32] (replace [124] [92, 124] cell))"

definition md_line :: "nat \<Rightarrow> pystr list \<Rightarrow> pystr" where
  "md_line cols cells = lit ''| '' @ join (lit '' | '') (map md_escape cells @ replicate (cols - length cells) []) @ lit '' |''"

definition table_to_markdown :: "table \<Rightarrow> pystr" where
  "table_to_markdown t =
     (let cols = n_cols t;
          header = (if header_cells t = [] then map (\<lambda>i. lit ''Spalte '' @ nat_str (i + 1)) [0..<cols] else header_cells t)
      in join [10] (md_line cols header # (lit ''|'' @ join (lit ''|'') (replicate cols (lit '' --- '')) @ lit ''|'')
           # map (md_line cols) (tb_rows t)))"

definition table_summary :: "table \<Rightarrow> pystr option \<Rightarrow> pystr option \<Rightarrow> pystr" where
  "table_summary t section hint =
     join [32]
       ([lit ''Tabelle mit '' @ nat_str (n_rows t) @ lit '' Zeilen und '' @ nat_str (n_cols t) @ lit '' Spalten'']
        @ (if truthy (tb_caption t) then [lit ''('' @ strip (the (tb_caption t)) @ lit '')'']
           else if truthy hint then [lit ''('' @ strip (the hint) @ lit '')'']
           else if truthy section then [lit ''(Abschnitt: '' @ strip (the section) @ lit '')''] else [])
        @ (if header_cells t = [] then []
           else [[8212] @ lit '' Spalten: '' @ join (lit '', '') (map strip (filter (\<lambda>h. strip h \<noteq> []) (header_cells t)))]))
     @ lit ''.''"

definition column_name :: "pystr list \<Rightarrow> nat \<Rightarrow> pystr" where
  "column_name cols i = strip (if i < length cols then cols ! i else lit ''Spalte'' @ nat_str (i + 1))"

definition serialize_row :: "pystr list \<Rightarrow> pystr list \<Rightarrow> nat \<Rightarrow> pystr" where
  "serialize_row row header row_no =
     (let cols = (if header = [] then map (\<lambda>i. lit ''Spalte'' @ nat_str (i + 1)) [0..<length row] else header)
      in lit ''Zeile '' @ nat_str row_no @ lit '': ''
           @ join (lit '', '') (map (\<lambda>(i, cell). column_name cols i @ lit ''='' @ strip cell)
               (filter (\<lambda>(i, cell). strip cell \<noteq> []) (enumerate 0 row))))"

text \<open>The loop over the rows: \<open>i\<close> is the number of the next row, \<open>buf\<close> holds the lines of rows
  \<open>first .. i - 1\<close>.\<close>

fun pack_rows :: "nat \<Rightarrow> nat \<Rightarrow> nat \<Rightarrow> nat \<Rightarrow> pystr list \<Rightarrow> pystr list \<Rightarrow> (pystr list \<times> nat \<times> nat) list" where
  "pack_rows max_chars slen i first buf [] = (if buf = [] then [] else [(buf, first, i - 1)])"
| "pack_rows max_chars slen i first buf (l # ls) =
     (if buf \<noteq> [] \<and> slen + sum_list (map (\<lambda>x. length x + 1) buf) + length l > max_chars
      then (buf, first, i - 1) # pack_rows max_chars slen (i + 1) i [l] ls
      else pack_rows max_chars slen (i + 1) first (buf @ [l]) ls)"

definition row_chunk :: "pystr \<Rightarrow> element \<Rightarrow> meta \<Rightarrow> pystr list \<times> nat \<times> nat \<Rightarrow> chunk_data" where
  "row_chunk summary el base p = (case p of (ls, a, b) \<Rightarrow>
     (let body = summary @ [10] @ join [10] ls in
      \<lparr>cd_type = CT_TABLE, cd_raw = body, cd_norm = body, cd_index = 0, cd_page = el_page el, cd_section = el_section el,
       cd_meta = base\<lparr>mt_repr := Some (lit ''rows''), mt_range := Some (a, b)\<rparr>\<rparr>))"

definition table_of :: "meta \<Rightarrow> table option" where
  "table_of m = (case mt_rows m of None \<Rightarrow> None
     | Some rows \<Rightarrow> if rows = [] then None else Some \<lparr>tb_rows = rows, tb_header = mt_header m, tb_caption = mt_caption m\<rparr>)"

definition chunk_table :: "cfg_ingest \<Rightarrow> element \<Rightarrow> pystr option \<Rightarrow> chunk_data list" where
  "chunk_table cfg el hint =
     (let m = el_meta el;
          cap = (if truthy hint then hint else el_section el);
          summary = (case table_of m of Some t \<Rightarrow> table_summary t (el_section el) hint
             | None \<Rightarrow> if truthy cap then lit ''Tabelle (Abschnitt: '' @ the cap @ lit '').'' else lit ''Tabelle.'');
          md = (case table_of m of Some t \<Rightarrow> table_to_markdown t | None \<Rightarrow> el_content el);
          base = with_bbox el (m\<lparr>mt_rows := None, mt_header := None\<rparr>);
          body = summary @ [10, 10] @ md
      in \<lparr>cd_type = CT_TABLE, cd_raw = body, cd_norm = body, cd_index = 0, cd_page = el_page el, cd_section = el_section el,
           cd_meta = base\<lparr>mt_repr := Some (lit ''markdown'')\<rparr>\<rparr>
         # (case table_of m of None \<Rightarrow> []
            | Some t \<Rightarrow> if n_rows t > table_row_serialize_threshold cfg
                then map (row_chunk summary el base)
                       (pack_rows (chars_for_tokens (chunk_max_tokens cfg)) (length summary) 1 1 []
                          (map (\<lambda>(i, row). serialize_row row (header_cells t) i) (enumerate 1 (tb_rows t))))
                else []))"

subsection \<open>Text\<close>

partial_function (option) hard_split :: "nat \<Rightarrow> nat \<Rightarrow> pystr \<Rightarrow> pystr list option" where
  "hard_split max_c overlap_c p =
     (if max_c < length p
      then Option.bind (hard_split max_c overlap_c (slice_from (int max_c - int overlap_c) p)) (\<lambda>us. Some (take max_c p # us))
      else Some (if blank p then [] else [p]))"

fun concat_opt :: "'a list option list \<Rightarrow> 'a list option" where
  "concat_opt [] = Some []"
| "concat_opt (None # xs) = None"
| "concat_opt (Some x # xs) = map_option (\<lambda>ys. x @ ys) (concat_opt xs)"

text \<open>One step of the packing loop; \<open>chunks\<close> holds the finished ones, newest last.\<close>

definition pack_step :: "nat \<Rightarrow> nat \<Rightarrow> pystr \<Rightarrow> pystr list \<times> pystr \<Rightarrow> pystr list \<times> pystr" where
  "pack_step max_c overlap_c unit st = (case st of (chunks, buf) \<Rightarrow>
     (let candidate = (if buf = [] then unit else buf @ [10, 10] @ unit) in
      if buf \<noteq> [] \<and> length candidate > max_c
      then (let tail = (if overlap_c = 0 then [] else last_n overlap_c buf)
            in (chunks @ [buf], if tail = [] then unit else tail @ [10, 10] @ unit))
      else (chunks, candidate)))"

definition pack_finish :: "nat \<Rightarrow> nat \<Rightarrow> pystr list \<times> pystr \<Rightarrow> pystr list" where
  "pack_finish min_c max_c st = (case st of (chunks, buf) \<Rightarrow>
     if blank buf then chunks
     else if chunks \<noteq> [] \<and> length buf < min_c \<and> rat_of_nat (length (last chunks) + length buf) < rat_of_nat max_c * (6 / 5)
     then butlast chunks @ [last chunks @ [10, 10] @ buf]
     else chunks @ [buf])"

definition overlap_chars :: "nat \<Rightarrow> rat \<Rightarrow> nat" where
  "overlap_chars n ratio = nat \<lfloor>rat_of_nat n * ratio\<rfloor>"

definition pack_units :: "nat \<Rightarrow> nat \<Rightarrow> nat \<Rightarrow> pystr list \<Rightarrow> pystr list" where
  "pack_units min_c max_c overlap_c units = pack_finish min_c max_c (fold (pack_step max_c overlap_c) units ([], []))"

definition pack_paragraphs :: "cfg_ingest \<Rightarrow> pystr list \<Rightarrow> pystr list option" where
  "pack_paragraphs cfg paragraphs =
     (let min_c = chars_for_tokens (chunk_min_tokens cfg);
          max_c = chars_for_tokens (chunk_max_tokens cfg);
          overlap_c = overlap_chars max_c (chunk_overlap_ratio cfg)
      in map_option (pack_units min_c max_c overlap_c) (concat_opt (map (hard_split max_c overlap_c) paragraphs)))"

text \<open>\<open>(char offset, page)\<close> of every non-empty part, and the joined text.\<close>

fun page_offsets :: "nat \<Rightarrow> element list \<Rightarrow> (nat \<times> int option) list" where
  "page_offsets off [] = []"
| "page_offsets off (el # els) =
     (let n = normalize_text (el_content el)
      in if n = [] then page_offsets off els else (off, el_page el) # page_offsets (off + length n + 2) els)"

definition run_text :: "element list \<Rightarrow> pystr" where
  "run_text els = join [10, 10] (filter (\<lambda>n. n \<noteq> []) (map (\<lambda>el. normalize_text (el_content el)) els))"

definition paragraphs_of :: "pystr \<Rightarrow> pystr list" where
  "paragraphs_of text = filter (\<lambda>p. p \<noteq> []) (map strip (split_str [10, 10] text))"

definition page_at :: "(nat \<times> int option) list \<Rightarrow> nat \<Rightarrow> int option" where
  "page_at offs consumed = fold (\<lambda>(off, pg) page. if off \<le> consumed then pg else page) offs None"

definition text_chunk :: "pystr option \<Rightarrow> int option \<Rightarrow> pystr \<Rightarrow> chunk_data" where
  "text_chunk section page piece = \<lparr>cd_type = CT_TEXT, cd_raw = piece, cd_norm = piece, cd_index = 0, cd_page = page,
     cd_section = section, cd_meta = meta0\<rparr>"

fun attribute_pages :: "rat \<Rightarrow> pystr option \<Rightarrow> (nat \<times> int option) list \<Rightarrow> nat \<Rightarrow> pystr list \<Rightarrow> chunk_data list" where
  "attribute_pages ratio section offs consumed [] = []"
| "attribute_pages ratio section offs consumed (piece # ps) =
     text_chunk section (page_at offs consumed) piece
     # attribute_pages ratio section offs
         (consumed + nat (max 1 (int (length piece) - \<lfloor>rat_of_nat (length piece) * ratio\<rfloor>))) ps"

definition chunk_text_run :: "cfg_ingest \<Rightarrow> element list \<Rightarrow> chunk_data list option" where
  "chunk_text_run cfg run =
     (let text = run_text run in
      if blank text then Some []
      else map_option (attribute_pages (chunk_overlap_ratio cfg) (el_section (hd run)) (page_offsets 0 run) 0)
             (pack_paragraphs cfg (paragraphs_of text)))"

subsection \<open>Dispatch\<close>

definition PASSTHROUGH :: "chunk_type set" where
  "PASSTHROUGH = {CT_IMAGE, CT_CHART, CT_DIAGRAM, CT_FORM, CT_OCR}"

definition is_linebreak :: "nat \<Rightarrow> bool" where
  "is_linebreak c \<longleftrightarrow> (10 \<le> c \<and> c \<le> 13) \<or> (28 \<le> c \<and> c \<le> 30) \<or> c = 133 \<or> c = 8232 \<or> c = 8233"

definition caption_hint :: "element option \<Rightarrow> pystr option" where
  "caption_hint prev = (case prev of None \<Rightarrow> None
     | Some el \<Rightarrow> let line = strip (takeWhile (\<lambda>c. \<not> is_linebreak c) (strip (el_content el)))
         in if line = [] \<or> length line > 160 then None else Some line)"

definition visual_chunk :: "element \<Rightarrow> pystr option \<Rightarrow> chunk_data" where
  "visual_chunk el hint =
     (let n = normalize_text (el_content el);
          n1 = (if n = [] then el_content el else n);
          n2 = (case hint of None \<Rightarrow> n1
             | Some h \<Rightarrow> if h \<noteq> [] \<and> \<not> truthy (mt_caption (el_meta el)) \<and> \<not> py_in h n1 then h @ [10, 10] @ n1 else n1)
      in \<lparr>cd_type = el_kind el, cd_raw = el_content el, cd_norm = n2, cd_index = 0, cd_page = el_page el,
          cd_section = el_section el, cd_meta = with_bbox el (el_meta el)\<rparr>)"

definition flush :: "cfg_ingest \<Rightarrow> element list \<Rightarrow> chunk_data list option" where
  "flush cfg run = (if run = [] then Some [] else chunk_text_run cfg run)"

definition chunk_visual :: "cfg_ingest \<Rightarrow> element \<Rightarrow> element option \<Rightarrow> chunk_data list" where
  "chunk_visual cfg el last_text =
     (let hint = caption_hint last_text in
      if el_kind el = CT_TABLE then chunk_table cfg el hint
      else if el_kind el \<in> PASSTHROUGH then [visual_chunk el hint] else [])"

fun build_loop :: "cfg_ingest \<Rightarrow> element list \<Rightarrow> element option \<Rightarrow> element list \<Rightarrow> chunk_data list option" where
  "build_loop cfg run last_text [] = flush cfg run"
| "build_loop cfg run last_text (el # els) =
     (if el_kind el = CT_TEXT then
        (if run \<noteq> [] \<and> el_section el \<noteq> el_section (hd run)
         then concat_opt [flush cfg run, build_loop cfg [el] (Some el) els]
         else build_loop cfg (run @ [el]) (Some el) els)
      else concat_opt [flush cfg run, Some (chunk_visual cfg el last_text), build_loop cfg [] None els])"

definition renumber :: "chunk_data list \<Rightarrow> chunk_data list" where
  "renumber cs = map (\<lambda>(i, c). c\<lparr>cd_index := i\<rparr>) (enumerate 0 cs)"

definition build_chunks_v2 :: "cfg_ingest \<Rightarrow> element list \<Rightarrow> chunk_data list option" where
  "build_chunks_v2 cfg els = map_option renumber (build_loop cfg [] None els)"

subsection \<open>The legacy chunker\<close>

definition split_step :: "nat \<Rightarrow> nat \<Rightarrow> pystr \<Rightarrow> pystr list \<times> pystr \<Rightarrow> pystr list \<times> pystr" where
  "split_step target overlap para st = (case st of (chunks, buf) \<Rightarrow>
     (if buf \<noteq> [] \<and> length buf + length para + 2 > target
      then (chunks @ [buf], if overlap \<noteq> 0 then last_n overlap buf @ [10, 10] @ para else para)
      else (chunks, if buf \<noteq> [] then buf @ [10, 10] @ para else para)))"

partial_function (option) split_oversized :: "nat \<Rightarrow> nat \<Rightarrow> pystr \<Rightarrow> pystr list option" where
  "split_oversized target overlap c =
     (if rat_of_nat (length c) > rat_of_nat target * (3 / 2)
      then Option.bind (split_oversized target overlap (slice_from (int target - int overlap) c)) (\<lambda>cs. Some (take target c # cs))
      else Some [c])"

definition split_text :: "pystr \<Rightarrow> nat \<Rightarrow> nat \<Rightarrow> pystr list option" where
  "split_text text target overlap =
     (case fold (split_step target overlap) (paragraphs_of text) ([], []) of (chunks, buf) \<Rightarrow>
        map_option (filter (\<lambda>c. \<not> blank c))
          (concat_opt (map (split_oversized target overlap) (if blank buf then chunks else chunks @ [buf]))))"

definition legacy_element :: "cfg_ingest \<Rightarrow> element \<Rightarrow> chunk_data list option" where
  "legacy_element cfg el =
     (if el_kind el \<in> insert CT_TABLE PASSTHROUGH then
        Some [\<lparr>cd_type = el_kind el, cd_raw = el_content el,
               cd_norm = (if el_kind el = CT_TABLE then el_content el else normalize_text (el_content el)), cd_index = 0,
               cd_page = el_page el, cd_section = el_section el, cd_meta = with_bbox el (el_meta el)\<rparr>]
      else let n = normalize_text (el_content el) in
        if n = [] then Some []
        else map_option (map (\<lambda>piece. \<lparr>cd_type = CT_TEXT, cd_raw = piece, cd_norm = piece, cd_index = 0, cd_page = el_page el,
               cd_section = el_section el, cd_meta = el_meta el\<rparr>))
             (split_text n (chunk_target_chars cfg) (chunk_overlap_chars cfg)))"

definition build_chunks :: "cfg_ingest \<Rightarrow> element list \<Rightarrow> chunk_data list option" where
  "build_chunks cfg els = map_option renumber (concat_opt (map (legacy_element cfg) els))"

subsection \<open>Splitting loops return when the overlap is smaller than the window\<close>

lemma concat_opt_Some: "(\<And>x. x \<in> set xs \<Longrightarrow> f x = Some (g x)) \<Longrightarrow> concat_opt (map f xs) = Some (concat (map g xs))"
  by (induction xs) auto

lemma concat_opt_total: "(\<And>x. x \<in> set xs \<Longrightarrow> \<exists>y. x = Some y) \<Longrightarrow> \<exists>y. concat_opt xs = Some y"
proof (induction xs)
  case (Cons x xs)
  then obtain y z where "x = Some y" "concat_opt xs = Some z" by (metis list.set_intros)
  then show ?case by simp
qed simp

lemma concat_opt_Cons_Some: "concat_opt (x # xs) = Some ys \<longleftrightarrow> (\<exists>a b. x = Some a \<and> concat_opt xs = Some b \<and> ys = a @ b)"
  by (cases x) auto

lemma map_option_append_Nil [simp]: "map_option ((@) []) x = x"
  by (cases x) auto

lemma concat_opt_three: "concat_opt [x, Some y, z] = concat_opt [x, map_option ((@) y) (concat_opt [z])]"
  by (cases x; cases z) auto

function pieces :: "nat \<Rightarrow> nat \<Rightarrow> pystr \<Rightarrow> pystr list" where
  "pieces mx ov p = (if mx < length p \<and> ov < mx then take mx p # pieces mx ov (drop (mx - ov) p)
     else if blank p then [] else [p])"
  by pat_completeness auto
termination
  by (relation "measure (\<lambda>(mx, ov, p). length p)") auto

declare pieces.simps [simp del]

lemma slice_from_diff: "ov \<le> mx \<Longrightarrow> slice_from (int mx - int ov) p = drop (mx - ov) p"
  by (simp add: slice_from_def) (metis nat_minus_as_int of_nat_diff)

lemma hard_split_returns: "ov < mx \<Longrightarrow> hard_split mx ov p = Some (pieces mx ov p)"
proof (induction mx ov p rule: pieces.induct)
  case (1 mx ov p)
  then show ?case
    by (subst hard_split.simps, subst pieces.simps) (simp add: slice_from_diff)
qed

lemma pieces_bound: "ov < mx \<Longrightarrow> u \<in> set (pieces mx ov p) \<Longrightarrow> length u \<le> mx"
proof (induction mx ov p rule: pieces.induct)
  case (1 mx ov p)
  then show ?case using pieces.simps [of mx ov p] by (auto split: if_splits)
qed

lemma pieces_small: "length p \<le> mx \<Longrightarrow> \<not> blank p \<Longrightarrow> pieces mx ov p = [p]"
  by (simp add: pieces.simps)

lemma blank_iff: "blank s \<longleftrightarrow> (\<forall>c \<in> set s. is_space c)"
  by (auto simp: py_defs dropWhile_eq_Nil_conv dest: set_dropWhileD)
    (metis Un_iff set_append set_rev takeWhile_dropWhile_id set_takeWhileD)

lemma not_blank_last: "s \<noteq> [] \<Longrightarrow> \<not> is_space (last s) \<Longrightarrow> \<not> blank s"
  by (auto simp: blank_iff)

text \<open>Every stretch of at most \<open>ov + 1\<close> code points of the paragraph lies inside one piece.\<close>

lemma pieces_cover:
  "ov < mx \<Longrightarrow> p \<noteq> [] \<Longrightarrow> \<not> is_space (last p) \<Longrightarrow> k \<le> ov + 1 \<Longrightarrow> a + k \<le> length p \<Longrightarrow>
     \<exists>u \<in> set (pieces mx ov p). py_in (take k (drop a p)) u"
proof (induction mx ov p arbitrary: a rule: pieces.induct)
  case (1 mx ov p)
  show ?case
  proof (cases "mx < length p")
    case False
    then have "pieces mx ov p = [p]" using 1 by (simp add: pieces_small not_blank_last)
    moreover have "p = take a p @ take k (drop a p) @ drop (a + k) p"
      by (metis append_take_drop_id drop_drop add.commute)
    then have "py_in (take k (drop a p)) p" unfolding py_in_iff by blast
    ultimately show ?thesis by simp
  next
    case True
    let ?q = "drop (mx - ov) p"
    have ps: "pieces mx ov p = take mx p # pieces mx ov ?q" using True 1 by (subst pieces.simps) simp
    show ?thesis
    proof (cases "a + k \<le> mx")
      case True
      have "take mx p = take a p @ take k (drop a p) @ take (mx - (a + k)) (drop (a + k) p)"
        using True by (metis add.assoc le_add_diff_inverse take_add drop_drop add.commute)
      then have "py_in (take k (drop a p)) (take mx p)" unfolding py_in_iff by blast
      with ps show ?thesis by simp
    next
      case False
      then have le: "mx - ov \<le> a" using 1(5) by simp
      have "\<exists>u \<in> set (pieces mx ov ?q). py_in (take k (drop (a - (mx - ov)) ?q)) u"
        using 1 True le by (intro 1(1)) auto
      moreover have "drop (a - (mx - ov)) ?q = drop a p" using le by simp
      ultimately show ?thesis using ps by auto
    qed
  qed
qed

subsection \<open>Packing loses nothing and stays bounded\<close>

lemma py_in_refl [simp]: "py_in u u"
  by (simp add: py_in_iff) (metis append_Nil append_Nil2)

lemma py_in_Nil [simp]: "py_in [] s"
  by (cases s) auto

lemma py_in_trans: "py_in u v \<Longrightarrow> py_in v w \<Longrightarrow> py_in u w"
  unfolding py_in_iff by (metis append.assoc)

lemma py_in_append: "py_in u v \<Longrightarrow> py_in u (x @ v)" "py_in u v \<Longrightarrow> py_in u (v @ x)"
  unfolding py_in_iff by (metis append.assoc)+

lemma py_in_set: "py_in u v \<Longrightarrow> set u \<subseteq> set v"
  by (auto simp: py_in_iff)

definition packed :: "pystr list \<times> pystr \<Rightarrow> pystr set" where
  "packed st = {u. (\<exists>c \<in> set (fst st). py_in u c) \<or> py_in u (snd st)}"

lemma pack_step_keeps: "u \<in> packed st \<or> u = unit \<Longrightarrow> u \<in> packed (pack_step mx ov unit st)"
  by (cases st) (auto simp: packed_def pack_step_def Let_def intro: py_in_append)

lemma pack_fold_keeps: "u \<in> packed st \<or> u \<in> set us \<Longrightarrow> u \<in> packed (fold (pack_step mx ov) us st)"
proof (induction us arbitrary: st)
  case (Cons x us)
  have "u \<in> packed (pack_step mx ov x st) \<or> u \<in> set us"
    using Cons.prems pack_step_keeps [of u st x mx ov] by auto
  then show ?case using Cons.IH [of "pack_step mx ov x st"] by simp
qed simp

lemma pack_fold_last: "us \<noteq> [] \<Longrightarrow> \<exists>x. snd (fold (pack_step mx ov) us st) = x @ last us"
proof (induction us rule: rev_induct)
  case (snoc u us)
  have "\<exists>x. snd (pack_step mx ov u t) = x @ u" for t
  proof (cases t)
    case (Pair cs buf)
    have "snd (pack_step mx ov u t) = u \<or> (\<exists>x. snd (pack_step mx ov u t) = (x @ [10, 10]) @ u)"
      by (auto simp: Pair pack_step_def Let_def)
    then show ?thesis by (metis append_Nil)
  qed
  then show ?case by simp
qed simp

lemma pack_finish_keeps:
  assumes "u \<in> packed st" and "\<not> blank (snd st)"
  shows "\<exists>c \<in> set (pack_finish mn mx st). py_in u c"
proof -
  obtain cs buf where st: "st = (cs, buf)" by (cases st)
  consider c where "c \<in> set cs" "py_in u c" | "py_in u buf" using assms(1) by (auto simp: packed_def st)
  then show ?thesis
  proof cases
    case 1
    then have "c \<in> set (butlast cs) \<or> c = last cs"
      by (cases cs rule: rev_cases) auto
    with 1 show ?thesis by (auto simp: pack_finish_def st intro: py_in_append)
  next
    case 2
    with assms(2) show ?thesis by (auto simp: pack_finish_def st intro: py_in_append py_in_append(1) [of u buf "_ @ _"])
  qed
qed

lemma pack_units_keeps: "u \<in> set us \<Longrightarrow> \<not> blank (last us) \<Longrightarrow> \<exists>c \<in> set (pack_units mn mx ov us). py_in u c"
proof -
  assume u: "u \<in> set us" and nb: "\<not> blank (last us)"
  obtain x where "snd (fold (pack_step mx ov) us ([], [])) = x @ last us"
    using pack_fold_last [of us mx ov "([], [])"] u by force
  then have "\<not> blank (snd (fold (pack_step mx ov) us ([], [])))" using nb by (auto simp: blank_iff)
  then show ?thesis unfolding pack_units_def using u by (intro pack_finish_keeps) (simp_all add: pack_fold_keeps)
qed

lemma pieces_last: "p \<noteq> [] \<Longrightarrow> \<not> is_space (last p) \<Longrightarrow> pieces mx ov p \<noteq> [] \<and> last (last (pieces mx ov p)) = last p \<and> last (pieces mx ov p) \<noteq> []"
proof (induction mx ov p rule: pieces.induct)
  case (1 mx ov p)
  let ?q = "drop (mx - ov) p"
  show ?case
  proof (cases "mx < length p \<and> ov < mx")
    case True
    then have q: "?q \<noteq> []" "last ?q = last p" by auto
    then have "pieces mx ov ?q \<noteq> [] \<and> last (last (pieces mx ov ?q)) = last ?q \<and> last (pieces mx ov ?q) \<noteq> []"
      using 1 True by metis
    with q True show ?thesis using pieces.simps [of mx ov p] by simp
  next
    case False
    then have "pieces mx ov p = [p]" using 1(2,3) pieces.simps [of mx ov p] not_blank_last [of p] by auto
    with 1(2) show ?thesis by simp
  qed
qed

definition pack_bounded :: "nat \<Rightarrow> pystr list \<times> pystr \<Rightarrow> bool" where
  "pack_bounded b st \<longleftrightarrow> (\<forall>c \<in> set (fst st). length c \<le> b) \<and> length (snd st) \<le> b"

lemma pack_step_bounded: "length unit \<le> mx \<Longrightarrow> mx + ov + 2 \<le> b \<Longrightarrow> pack_bounded b st \<Longrightarrow> pack_bounded b (pack_step mx ov unit st)"
  by (cases st) (auto simp: pack_bounded_def pack_step_def Let_def)

lemma pack_fold_bounded:
  "\<forall>u \<in> set us. length u \<le> mx \<Longrightarrow> mx + ov + 2 \<le> b \<Longrightarrow> pack_bounded b st \<Longrightarrow> pack_bounded b (fold (pack_step mx ov) us st)"
proof (induction us arbitrary: st)
  case (Cons x us)
  then have "pack_bounded b (pack_step mx ov x st)" by (intro pack_step_bounded) auto
  with Cons show ?case by simp
qed simp

lemma pack_units_bounded:
  assumes "\<forall>u \<in> set us. length u \<le> mx" and "c \<in> set (pack_units mn mx ov us)"
  shows "length c \<le> mx + ov + 2 \<or> rat_of_nat (length c) < rat_of_nat mx * (6 / 5) + 2"
proof -
  obtain cs buf where st: "fold (pack_step mx ov) us ([], []) = (cs, buf)" by fastforce
  have b: "pack_bounded (mx + ov + 2) (cs, buf)"
    using pack_fold_bounded [OF assms(1), of ov "mx + ov + 2" "([], [])"] by (simp add: st pack_bounded_def)
  consider "c \<in> set cs" | "c = buf"
    | "c = last cs @ [10, 10] @ buf" "rat_of_nat (length (last cs) + length buf) < rat_of_nat mx * (6 / 5)"
    using assms(2) by (auto simp: pack_units_def st pack_finish_def dest: in_set_butlastD split: if_splits)
  then show ?thesis using b by cases (auto simp: pack_bounded_def)
qed

subsection \<open>Runs of text\<close>

definition max_chars :: "cfg_ingest \<Rightarrow> nat" where
  "max_chars cfg = chars_for_tokens (chunk_max_tokens cfg)"

definition overlap_of :: "cfg_ingest \<Rightarrow> nat" where
  "overlap_of cfg = overlap_chars (max_chars cfg) (chunk_overlap_ratio cfg)"

definition sane_chunking :: "cfg_ingest \<Rightarrow> bool" where
  "sane_chunking cfg \<longleftrightarrow> 0 < chunk_max_tokens cfg \<and> 0 \<le> chunk_overlap_ratio cfg \<and> chunk_overlap_ratio cfg < 1
     \<and> chunk_overlap_chars cfg < chunk_target_chars cfg"

lemma sane_default: "sane_chunking default_ingest"
  by (simp add: sane_chunking_def default_ingest_def)

lemma overlap_chars_less: "0 < n \<Longrightarrow> r < 1 \<Longrightarrow> overlap_chars n r < n"
proof -
  assume "0 < n" "r < 1"
  then have "rat_of_nat n * r < rat_of_nat n * 1" by (intro mult_strict_left_mono) auto
  then have "\<lfloor>rat_of_nat n * r\<rfloor> < int n" by (simp add: floor_less_iff)
  then show ?thesis using \<open>0 < n\<close> by (simp add: overlap_chars_def nat_less_iff)
qed

lemma sane_overlap: "sane_chunking cfg \<Longrightarrow> overlap_of cfg < max_chars cfg"
  unfolding overlap_of_def by (rule overlap_chars_less) (auto simp: sane_chunking_def max_chars_def chars_for_tokens_def)

definition run_pieces :: "cfg_ingest \<Rightarrow> pystr list \<Rightarrow> pystr list" where
  "run_pieces cfg ps = pack_units (chars_for_tokens (chunk_min_tokens cfg)) (max_chars cfg) (overlap_of cfg)
     (concat (map (pieces (max_chars cfg) (overlap_of cfg)) ps))"

lemma pack_paragraphs_returns: "sane_chunking cfg \<Longrightarrow> pack_paragraphs cfg ps = Some (run_pieces cfg ps)"
  using concat_opt_Some [of ps "hard_split (max_chars cfg) (overlap_of cfg)" "pieces (max_chars cfg) (overlap_of cfg)"]
    hard_split_returns [OF sane_overlap]
  by (simp add: pack_paragraphs_def run_pieces_def max_chars_def overlap_of_def Let_def)

lemma attribute_pages_props:
  "map cd_norm (attribute_pages r sec offs n ps) = ps"
  "c \<in> set (attribute_pages r sec offs n ps) \<Longrightarrow> cd_type c = CT_TEXT \<and> cd_section c = sec \<and> cd_norm c \<in> set ps \<and> cd_raw c = cd_norm c \<and> cd_meta c = meta0"
  by (induction ps arbitrary: n) (auto simp: text_chunk_def)

lemma split_str_subset: "t \<in> set (split_str sep s) \<Longrightarrow> set t \<subseteq> set s"
proof (induction sep s rule: split_str.induct)
  case (1 sep s)
  then show ?case
    by (subst (asm) (2) split_str.simps) (fastforce dest: cut_Some split: option.splits if_splits)
qed

lemma blank_paragraphs: "blank text \<Longrightarrow> paragraphs_of text = []"
proof -
  assume "blank text"
  then have "blank t" if "t \<in> set (split_str [10, 10] text)" for t
    using split_str_subset [OF that] by (auto simp: blank_iff)
  then show ?thesis by (auto simp: paragraphs_of_def filter_empty_conv blank_def)
qed

lemma paragraph_ends: "p \<in> set (paragraphs_of text) \<Longrightarrow> p \<noteq> [] \<and> \<not> is_space (last p)"
  using strip_by_ends [of is_space] by (auto simp: paragraphs_of_def strip_def)

lemma chunk_text_run_norm: "sane_chunking cfg \<Longrightarrow>
    \<exists>cs. chunk_text_run cfg run = Some cs \<and> map cd_norm cs = (if blank (run_text run) then [] else run_pieces cfg (paragraphs_of (run_text run)))
      \<and> (\<forall>c \<in> set cs. cd_type c = CT_TEXT \<and> cd_section c = el_section (hd run) \<and> cd_meta c = meta0)"
  by (auto simp: chunk_text_run_def Let_def pack_paragraphs_returns attribute_pages_props)

lemma run_pieces_cover:
  assumes "sane_chunking cfg" and "\<forall>p \<in> set ps. p \<noteq> [] \<and> \<not> is_space (last p)" and "p \<in> set ps" and "a + k \<le> length p"
    and "k \<le> overlap_of cfg + 1 \<or> length p \<le> max_chars cfg"
  shows "\<exists>c \<in> set (run_pieces cfg ps). py_in (take k (drop a p)) c"
proof -
  let ?w = "take k (drop a p)" and ?mx = "max_chars cfg" and ?ov = "overlap_of cfg"
  let ?us = "concat (map (pieces ?mx ?ov) ps)"
  have ov: "?ov < ?mx" using assms(1) by (rule sane_overlap)
  have p: "p \<noteq> []" "\<not> is_space (last p)" using assms(2,3) by auto
  have "\<exists>u \<in> set (pieces ?mx ?ov p). py_in ?w u"
  proof (cases "length p \<le> ?mx")
    case True
    then have "pieces ?mx ?ov p = [p]" using p by (simp add: pieces_small not_blank_last)
    moreover have "p = take a p @ ?w @ drop (a + k) p" by (metis append_take_drop_id drop_drop add.commute)
    then have "py_in ?w p" unfolding py_in_iff by blast
    ultimately show ?thesis by simp
  next
    case False
    with assms pieces_cover [OF ov p] show ?thesis by blast
  qed
  then obtain u where u: "u \<in> set ?us" "py_in ?w u" using assms(3) by auto
  obtain qs q where ps: "ps = qs @ [q]" using assms(3) by (cases ps rule: rev_cases) auto
  have q: "q \<noteq> []" "\<not> is_space (last q)" using assms(2) by (auto simp: ps)
  have "last ?us = last (pieces ?mx ?ov q)" using pieces_last [OF q] by (simp add: ps)
  then have "\<not> blank (last ?us)" using pieces_last [OF q, of ?mx ?ov] q not_blank_last by metis
  from pack_units_keeps [OF u(1) this] u(2) show ?thesis
    unfolding run_pieces_def by (meson py_in_trans)
qed

lemma run_pieces_bounded:
  assumes "sane_chunking cfg" and "c \<in> set (run_pieces cfg ps)"
  shows "length c \<le> max_chars cfg + overlap_of cfg + 2 \<or> rat_of_nat (length c) < rat_of_nat (max_chars cfg) * (6 / 5) + 2"
  using assms(2) unfolding run_pieces_def
  by (rule pack_units_bounded [rotated]) (auto dest: pieces_bound [OF sane_overlap [OF assms(1)]])

text \<open>
  C15. Chunking a run of text returns, loses nothing and is bounded: every paragraph that fits the window
  appears whole inside one chunk, of a longer one every stretch up to one more than the overlap does,
  every chunk carries the section of the run, and no chunk is longer than the window plus the overlap (or,
  for a merged tail, 1.2 windows) and a paragraph break.
\<close>

theorem text_run_complete_bounded:
  assumes "sane_chunking cfg"
  shows "\<exists>cs. chunk_text_run cfg run = Some cs
    \<and> (\<forall>p \<in> set (paragraphs_of (run_text run)). \<forall>a k. a + k \<le> length p \<and> (k \<le> overlap_of cfg + 1 \<or> length p \<le> max_chars cfg)
         \<longrightarrow> (\<exists>c \<in> set cs. py_in (take k (drop a p)) (cd_norm c)))
    \<and> (\<forall>c \<in> set cs. cd_type c = CT_TEXT \<and> cd_section c = el_section (hd run)
         \<and> (length (cd_norm c) \<le> max_chars cfg + overlap_of cfg + 2
            \<or> rat_of_nat (length (cd_norm c)) < rat_of_nat (max_chars cfg) * (6 / 5) + 2))"
proof -
  let ?ps = "paragraphs_of (run_text run)"
  obtain cs where cs: "chunk_text_run cfg run = Some cs"
      "map cd_norm cs = (if blank (run_text run) then [] else run_pieces cfg ?ps)"
      "\<forall>c \<in> set cs. cd_type c = CT_TEXT \<and> cd_section c = el_section (hd run) \<and> cd_meta c = meta0"
    using chunk_text_run_norm [OF assms] by blast
  have norm: "cd_norm ` set cs = set (if blank (run_text run) then [] else run_pieces cfg ?ps)"
    unfolding cs(2) [symmetric] by (rule set_map [symmetric])
  have cover: "\<exists>c \<in> set cs. py_in (take k (drop a p)) (cd_norm c)"
    if "p \<in> set ?ps" "a + k \<le> length p" "k \<le> overlap_of cfg + 1 \<or> length p \<le> max_chars cfg" for p a k
  proof -
    note w = that
    have "\<not> blank (run_text run)" using that(1) blank_paragraphs by force
    moreover have "\<forall>p \<in> set ?ps. p \<noteq> [] \<and> \<not> is_space (last p)" using paragraph_ends by blast
    ultimately obtain x where "x \<in> set (run_pieces cfg ?ps)" "py_in (take k (drop a p)) x"
      using run_pieces_cover [OF assms _ w] by blast
    moreover have "cd_norm ` set cs = set (run_pieces cfg ?ps)" using norm \<open>\<not> blank (run_text run)\<close> by simp
    ultimately show ?thesis by (metis imageE)
  qed
  have "length (cd_norm c) \<le> max_chars cfg + overlap_of cfg + 2
      \<or> rat_of_nat (length (cd_norm c)) < rat_of_nat (max_chars cfg) * (6 / 5) + 2" if "c \<in> set cs" for c
  proof -
    have "cd_norm c \<in> set (if blank (run_text run) then [] else run_pieces cfg ?ps)" using that unfolding norm [symmetric] by (rule imageI)
    then have "cd_norm c \<in> set (run_pieces cfg ?ps)" by (cases "blank (run_text run)") simp_all
    then show ?thesis by (rule run_pieces_bounded [OF assms])
  qed
  with cs cover show ?thesis by blast
qed

definition demo_text_element :: element where
  "demo_text_element = \<lparr>el_kind = CT_TEXT, el_content = lit ''ab'', el_page = Some 1, el_section = None, el_bbox = None, el_meta = meta0\<rparr>"

lemma demo_normalized: "normalize_text [97, 98] = [97, 98]"
  by (simp add: normalize_text_def replace_absent split_str_no_sep prefix_def is_blank_def py_defs is_space_def)

lemma demo_paragraphs: "paragraphs_of (run_text [demo_text_element]) = [lit ''ab'']"
  by (simp add: paragraphs_of_def run_text_def demo_text_element_def lit_def demo_normalized split_str_no_sep prefix_def py_defs is_space_def)

lemma text_run_complete_bounded_witness:
  "\<exists>cs. chunk_text_run default_ingest [demo_text_element] = Some cs \<and> (\<exists>c \<in> set cs. py_in (lit ''ab'') (cd_norm c))"
proof -
  obtain cs where cs: "chunk_text_run default_ingest [demo_text_element] = Some cs"
    and cover: "\<forall>p \<in> set (paragraphs_of (run_text [demo_text_element])). \<forall>a k. a + k \<le> length p
        \<and> (k \<le> overlap_of default_ingest + 1 \<or> length p \<le> max_chars default_ingest) \<longrightarrow> (\<exists>c \<in> set cs. py_in (take k (drop a p)) (cd_norm c))"
    using text_run_complete_bounded [OF sane_default, of "[demo_text_element]"] by (elim exE conjE)
  have "length (lit ''ab'') \<le> max_chars default_ingest" by (simp add: max_chars_def chars_for_tokens_def default_ingest_def)
  with cover [unfolded demo_paragraphs, rule_format, of "lit ''ab''" 0 2] cs show ?thesis by (simp add: lit_def)
qed

subsection \<open>The builder, against a reference that segments the document first\<close>

abbreviation is_text :: "element \<Rightarrow> bool" where
  "is_text el \<equiv> el_kind el = CT_TEXT"

definition joins :: "element \<Rightarrow> element \<Rightarrow> bool" where
  "joins e f \<longleftrightarrow> is_text e \<and> is_text f \<and> el_section e = el_section f"

text \<open>The maximal runs of text under one heading; every other element stands alone.\<close>

fun segment :: "element list \<Rightarrow> element list list" where
  "segment [] = []"
| "segment (e # es) = (case segment es of [] \<Rightarrow> [[e]]
     | s # ss \<Rightarrow> if s \<noteq> [] \<and> joins e (hd s) then (e # s) # ss else [e] # s # ss)"

fun chunk_segments :: "cfg_ingest \<Rightarrow> element option \<Rightarrow> element list list \<Rightarrow> chunk_data list option" where
  "chunk_segments cfg prev [] = Some []"
| "chunk_segments cfg prev (s # ss) =
     (if is_text (hd s) then concat_opt [chunk_text_run cfg s, chunk_segments cfg (Some (last s)) ss]
      else concat_opt [Some (chunk_visual cfg (hd s) prev), chunk_segments cfg None ss])"

lemma concat_segment: "concat (segment els) = els"
  by (induction els rule: segment.induct) (auto split: list.splits)

lemma segment_ne: "s \<in> set (segment els) \<Longrightarrow> s \<noteq> []"
  by (induction els arbitrary: s rule: segment.induct) (auto split: list.splits if_splits)

lemma segment_uniform: "s \<in> set (segment els) \<Longrightarrow> (\<exists>e. s = [e] \<and> \<not> is_text e) \<or> (\<forall>e \<in> set s. is_text e \<and> el_section e = el_section (hd s))"
proof (induction els arbitrary: s rule: segment.induct)
  case (2 e es)
  show ?case
  proof (cases "segment es")
    case Nil
    with 2 show ?thesis by auto
  next
    case (Cons t ss)
    have t: "(\<exists>e. t = [e] \<and> \<not> is_text e) \<or> (\<forall>e \<in> set t. is_text e \<and> el_section e = el_section (hd t))"
      by (rule 2(1)) (simp add: Cons)
    consider "s \<in> set ss" | "s = t" | "s = [e]" | "s = e # t" "t \<noteq> []" "joins e (hd t)"
      using 2(2) Cons by (auto split: if_splits)
    then show ?thesis
    proof cases
      case 1
      with 2(1) Cons show ?thesis by simp
    next
      case 4
      then have e: "is_text e" "is_text (hd t)" "el_section e = el_section (hd t)" by (simp_all add: joins_def)
      with t have "\<forall>x \<in> set t. is_text x \<and> el_section x = el_section (hd t)"
        by (elim disjE exE conjE) simp_all
      then have "\<forall>x \<in> set t. is_text x \<and> el_section x = el_section e" by (simp only: e(3))
      with 4(1) e(1) show ?thesis by simp
    next
      case 2
      show ?thesis unfolding 2 by (rule t)
    next
      case 3
      show ?thesis unfolding 3 by simp
    qed
  qed
qed simp

lemma hd_segment: "els \<noteq> [] \<Longrightarrow> segment els \<noteq> [] \<and> hd (segment els) \<noteq> [] \<and> hd (hd (segment els)) = hd els"
  by (cases els) (auto split: list.splits)

definition uniform_run :: "element list \<Rightarrow> bool" where
  "uniform_run run \<longleftrightarrow> (\<forall>e \<in> set run. is_text e \<and> el_section e = el_section (hd run))"

lemma segment_run:
  "run \<noteq> [] \<Longrightarrow> uniform_run run \<Longrightarrow> els = [] \<or> \<not> joins (last run) (hd els) \<Longrightarrow> segment (run @ els) = run # segment els"
proof (induction run)
  case (Cons e run)
  show ?case
  proof (cases "run = []")
    case True
    show ?thesis
    proof (cases els)
      case Nil
      with True show ?thesis by simp
    next
      case (Cons x xs)
      then obtain a ss where "segment els = a # ss" "hd a = x"
        using hd_segment [of els] by (cases "segment els") auto
      moreover have "\<not> joins e x" using Cons.prems(3) Cons True by simp
      ultimately show ?thesis using True by simp
    qed
  next
    case False
    then have hd: "el_section (hd run) = el_section e" "is_text (hd run)" "is_text e"
      using Cons.prems(2) by (auto simp: uniform_run_def)
    then have "uniform_run run" using Cons.prems(2) by (auto simp: uniform_run_def)
    with Cons False have "segment (run @ els) = run # segment els" by simp
    with hd False show ?thesis by (simp add: joins_def)
  qed
qed simp

lemma build_loop_segments:
  assumes "uniform_run run" and "run \<noteq> [] \<longrightarrow> lt = Some (last run)"
  shows "build_loop cfg run lt els = chunk_segments cfg lt (segment (run @ els))"
  using assms
proof (induction els arbitrary: run lt)
  case Nil
  show ?case
  proof (cases "run = []")
    case False
    then have "segment run = [run]" using segment_run [of run "[]"] Nil by simp
    moreover have "is_text (hd run)" using Nil False by (simp add: uniform_run_def)
    ultimately show ?thesis using False by (cases "chunk_text_run cfg run") (simp_all add: flush_def)
  qed (simp add: flush_def)
next
  case (Cons el els)
  have run: "segment (run @ es) = run # segment es" if "run \<noteq> []" "es = [] \<or> \<not> joins (last run) (hd es)" for es
    using segment_run [OF that(1) Cons.prems(1) that(2)] .
  have rt: "is_text (hd run)" "el_section (last run) = el_section (hd run)" if "run \<noteq> []"
    using Cons.prems(1) last_in_set [OF that] hd_in_set [OF that] unfolding uniform_run_def by blast+
  consider "is_text el" "run = [] \<or> el_section el = el_section (hd run)" | "is_text el" "run \<noteq> []" "el_section el \<noteq> el_section (hd run)" | "\<not> is_text el"
    by blast
  then show ?case
  proof cases
    case 1
    then have "uniform_run (run @ [el])" using Cons.prems(1) by (cases run) (simp_all add: uniform_run_def)
    then have "build_loop cfg (run @ [el]) (Some el) els = chunk_segments cfg (Some el) (segment (run @ el # els))"
      using Cons.IH [of "run @ [el]" "Some el"] by simp
    moreover have "chunk_segments cfg (Some el) (segment (run @ el # els)) = chunk_segments cfg lt (segment (run @ el # els))"
    proof -
      have "is_text (hd (run @ el # els))" using 1 rt by (cases run) simp_all
      with hd_segment [of "run @ el # els"] show ?thesis by (cases "segment (run @ el # els)") simp_all
    qed
    moreover have "build_loop cfg run lt (el # els) = build_loop cfg (run @ [el]) (Some el) els" using 1 by auto
    ultimately show ?thesis by simp
  next
    case 2
    then have "segment (run @ el # els) = run # segment (el # els)"
      using run [of "el # els"] rt by (auto simp: joins_def)
    moreover have "build_loop cfg [el] (Some el) els = chunk_segments cfg (Some el) (segment (el # els))"
      using Cons.IH [of "[el]" "Some el"] 2 by (simp add: uniform_run_def)
    moreover have "chunk_segments cfg (Some el) (segment (el # els)) = chunk_segments cfg lt (segment (el # els))"
    proof -
      obtain s ss where "segment (el # els) = s # ss" "hd s = el"
        using hd_segment [of "el # els"] by (cases "segment (el # els)") auto
      with 2 show ?thesis by simp
    qed
    ultimately show ?thesis using 2 rt Cons.prems(2) by (simp add: flush_def)
  next
    case 3
    have tail: "build_loop cfg [] None els = chunk_segments cfg None (segment els)"
      using Cons.IH [of "[]" None] by (simp add: uniform_run_def)
    have single: "segment (el # els) = [el] # segment els"
      using 3 hd_segment [of els] by (cases "segment els") (auto simp: joins_def)
    show ?thesis
    proof (cases "run = []")
      case True
      with 3 tail single show ?thesis by (simp add: flush_def)
    next
      case False
      then have "segment (run @ el # els) = run # [el] # segment els"
        using run [of "el # els"] 3 single by (auto simp: joins_def)
      with 3 False rt Cons.prems(2) tail show ?thesis
        by (simp add: flush_def concat_opt_three)
    qed
  qed
qed

lemma renumber_props:
  "map cd_index (renumber cs) = [0..<length cs]" "map cd_norm (renumber cs) = map cd_norm cs" "length (renumber cs) = length cs"
  "c \<in> set (renumber cs) \<Longrightarrow> \<exists>c' \<in> set cs. \<exists>i. c = c'\<lparr>cd_index := i\<rparr>"
proof -
  have "map cd_index (map (\<lambda>(i, c). c\<lparr>cd_index := i\<rparr>) (enumerate n cs)) = [n..<n + length cs]"
    "map cd_norm (map (\<lambda>(i, c). c\<lparr>cd_index := i\<rparr>) (enumerate n cs)) = map cd_norm cs" for n
    by (induction cs arbitrary: n) (simp_all add: upt_conv_Cons del: upt_Suc)
  from this [of 0] show "map cd_index (renumber cs) = [0..<length cs]" "map cd_norm (renumber cs) = map cd_norm cs"
    by (simp_all add: renumber_def)
  show "length (renumber cs) = length cs" by (simp add: renumber_def)
  show "c \<in> set (renumber cs) \<Longrightarrow> \<exists>c' \<in> set cs. \<exists>i. c = c'\<lparr>cd_index := i\<rparr>"
    by (auto simp: renumber_def in_set_enumerate_eq)
qed

lemma chunk_text_run_total: "sane_chunking cfg \<Longrightarrow> \<exists>cs. chunk_text_run cfg run = Some cs"
  using chunk_text_run_norm by blast

lemma chunk_segments_total: "sane_chunking cfg \<Longrightarrow> \<exists>cs. chunk_segments cfg prev ss = Some cs"
proof (induction ss arbitrary: prev)
  case (Cons s ss)
  obtain a b c where "chunk_text_run cfg s = Some a" "chunk_segments cfg (Some (last s)) ss = Some b" "chunk_segments cfg None ss = Some c"
    using Cons chunk_text_run_total by metis
  then show ?case by simp
qed simp

lemma build_chunks_v2_eq: "build_chunks_v2 cfg els = map_option renumber (chunk_segments cfg None (segment els))"
  using build_loop_segments [of "[]" None cfg els] by (simp add: build_chunks_v2_def uniform_run_def)

text \<open>
  C9. The one-pass chunk builder is equivalent to the plain reading of the rules: cut the document into the
  maximal runs of text under one heading and single other elements (cutting loses nothing and never
  joins two headings), chunk each run by itself, give a table or figure the text right above it as caption
  hint, and number the chunks from 0. It returns for every document when the overlap is below the window.
\<close>

theorem build_chunks_v2_segments:
  "build_chunks_v2 cfg els = map_option renumber (chunk_segments cfg None (segment els))
   \<and> concat (segment els) = els
   \<and> (\<forall>s \<in> set (segment els). (\<exists>e. s = [e] \<and> el_kind e \<noteq> CT_TEXT)
        \<or> (s \<noteq> [] \<and> (\<forall>e \<in> set s. el_kind e = CT_TEXT \<and> el_section e = el_section (hd s))))
   \<and> (sane_chunking cfg \<longrightarrow> (\<exists>cs. build_chunks_v2 cfg els = Some cs \<and> map cd_index cs = [0..<length cs]))"
proof -
  have seg: "build_chunks_v2 cfg els = map_option renumber (chunk_segments cfg None (segment els))"
    by (rule build_chunks_v2_eq)
  moreover have "\<exists>cs. build_chunks_v2 cfg els = Some cs \<and> map cd_index cs = [0..<length cs]" if "sane_chunking cfg"
    using chunk_segments_total [OF that, of None "segment els"] by (auto simp: seg renumber_props)
  moreover have "(\<exists>e. s = [e] \<and> el_kind e \<noteq> CT_TEXT)
        \<or> (s \<noteq> [] \<and> (\<forall>e \<in> set s. el_kind e = CT_TEXT \<and> el_section e = el_section (hd s)))" if "s \<in> set (segment els)" for s
    using segment_uniform [OF that] segment_ne [OF that] by argo
  ultimately show ?thesis using concat_segment by blast
qed

lemma build_chunks_v2_segments_witness:
  "\<exists>cs. build_chunks_v2 default_ingest [demo_text_element] = Some cs \<and> map cd_index cs = [0..<length cs]"
  using build_chunks_v2_segments [of default_ingest "[demo_text_element]"] sane_default by blast

subsection \<open>Rows of a large table\<close>

fun row_blocks :: "nat \<Rightarrow> (pystr list \<times> nat \<times> nat) list \<Rightarrow> bool" where
  "row_blocks i [] = True"
| "row_blocks i ((ls, a, b) # ps) \<longleftrightarrow> a = i \<and> ls \<noteq> [] \<and> b + 1 = i + length ls \<and> row_blocks (b + 1) ps"

lemma pack_rows_blocks:
  "i = first + length buf \<Longrightarrow> 1 \<le> first \<Longrightarrow> row_blocks first (pack_rows mx sl i first buf ls)
     \<and> concat (map fst (pack_rows mx sl i first buf ls)) = buf @ ls"
proof (induction mx sl i first buf ls rule: pack_rows.induct)
  case (1 mx sl i first buf)
  then show ?case by (cases buf) auto
next
  case (2 mx sl i first buf l ls)
  show ?case
  proof (cases "buf \<noteq> [] \<and> sl + sum_list (map (\<lambda>x. length x + 1) buf) + length l > mx")
    case True
    with 2(1) 2(3,4) have "row_blocks i (pack_rows mx sl (i + 1) i [l] ls)" "concat (map fst (pack_rows mx sl (i + 1) i [l] ls)) = l # ls"
      by auto
    moreover have "i - 1 + 1 = i" "i - 1 + 1 = first + length buf" using 2(3,4) by simp_all
    ultimately show ?thesis using True by (simp del: One_nat_def add: Suc_eq_plus1)
  next
    case False
    with 2(2) 2(3,4) show ?thesis by auto
  qed
qed

lemma pack_rows_bounded:
  "(length buf \<le> 1 \<or> sl + sum_list (map (\<lambda>x. length x + 1) buf) \<le> mx + 1) \<Longrightarrow>
   (b, r) \<in> set (pack_rows mx sl i first buf ls) \<Longrightarrow> length b \<le> 1 \<or> sl + sum_list (map (\<lambda>x. length x + 1) b) \<le> mx + 1"
proof (induction mx sl i first buf ls rule: pack_rows.induct)
  case (2 mx sl i first buf l ls)
  show ?case
  proof (cases "buf \<noteq> [] \<and> sl + sum_list (map (\<lambda>x. length x + 1) buf) + length l > mx")
    case True
    then have "(b, r) = (buf, first, i - 1) \<or> (b, r) \<in> set (pack_rows mx sl (i + 1) i [l] ls)" using 2(4) by auto
    then show ?thesis using 2(1) 2(3) True by auto
  next
    case False
    then have "(b, r) \<in> set (pack_rows mx sl (i + 1) first (buf @ [l]) ls)" using 2(4) by (simp split: if_splits)
    moreover have "length (buf @ [l]) \<le> 1 \<or> sl + sum_list (map (\<lambda>x. length x + 1) (buf @ [l])) \<le> mx + 1"
      using False by (cases buf) auto
    ultimately show ?thesis using 2(2) False by blast
  qed
qed (auto split: if_splits)

lemma row_blocks_range: "(ls, a, b) \<in> set ps \<Longrightarrow> row_blocks i ps \<Longrightarrow> ls \<noteq> [] \<and> b + 1 = a + length ls"
  by (induction i ps rule: row_blocks.induct) auto

definition table_lines :: "table \<Rightarrow> pystr list" where
  "table_lines t = map (\<lambda>(i, row). serialize_row row (header_cells t) i) (enumerate 1 (tb_rows t))"

text \<open>
  A table with more rows than the threshold is followed by row chunks that hold every row exactly once
  and in order: the row ranges are consecutive from 1, the line of a row is in the chunk whose range names
  it, and a chunk exceeds the window by more than one code point only when it holds a single row.
\<close>

theorem table_rows_partitioned:
  assumes "table_of (el_meta el) = Some t" and "n_rows t > table_row_serialize_threshold cfg"
  shows "\<exists>ps. tl (chunk_table cfg el hint) = map (row_chunk (table_summary t (el_section el) hint) el
             (with_bbox el ((el_meta el)\<lparr>mt_rows := None, mt_header := None\<rparr>))) ps
     \<and> row_blocks 1 ps \<and> concat (map fst ps) = table_lines t
     \<and> (\<forall>c \<in> set (tl (chunk_table cfg el hint)). length (cd_norm c) \<le> max_chars cfg + 1
           \<or> (\<exists>a. mt_range (cd_meta c) = Some (a, a)))"
proof -
  let ?s = "table_summary t (el_section el) hint" and ?base = "with_bbox el ((el_meta el)\<lparr>mt_rows := None, mt_header := None\<rparr>)"
  let ?ps = "pack_rows (max_chars cfg) (length ?s) 1 1 [] (table_lines t)"
  have tl: "tl (chunk_table cfg el hint) = map (row_chunk ?s el ?base) ?ps"
    using assms by (simp add: chunk_table_def max_chars_def table_lines_def Let_def)
  have blocks: "row_blocks 1 ?ps" "concat (map fst ?ps) = table_lines t"
    using pack_rows_blocks [of 1 1 "[]" "max_chars cfg" "length ?s" "table_lines t"] by simp_all
  have "length (cd_norm (row_chunk ?s el ?base p)) \<le> max_chars cfg + 1 \<or> (\<exists>a. mt_range (cd_meta (row_chunk ?s el ?base p)) = Some (a, a))"
    if p: "p \<in> set ?ps" for p
  proof -
    obtain ls a b where pe: "p = (ls, a, b)" by (cases p)
    have r: "ls \<noteq> [] \<and> b + 1 = a + length ls" using row_blocks_range [OF p [unfolded pe] blocks(1)] .
    have "length ls \<le> 1 \<or> length ?s + sum_list (map (\<lambda>x. length x + 1) ls) \<le> max_chars cfg + 1"
      using pack_rows_bounded [of "[]" "length ?s" "max_chars cfg" ls "(a, b)" 1 1 "table_lines t"] p by (simp add: pe)
    moreover have "length ?s + sum_list (map (\<lambda>x. length x + 1) ls) = length (?s @ [10] @ join [10] ls)"
      using r by (cases ls) (simp_all add: length_join sum_list_Suc)
    ultimately show ?thesis using r by (cases "length ls") (auto simp: row_chunk_def pe Let_def)
  qed
  with tl blocks show ?thesis by auto
qed

definition demo_table_element :: element where
  "demo_table_element = \<lparr>el_kind = CT_TABLE, el_content = [], el_page = Some 1, el_section = None, el_bbox = None,
     el_meta = meta0\<lparr>mt_rows := Some (replicate 9 [lit ''a''])\<rparr>\<rparr>"

lemma table_rows_partitioned_witness:
  "\<exists>ps. row_blocks 1 ps \<and> length (concat (map fst ps)) = 9 \<and> length (tl (chunk_table default_ingest demo_table_element None)) = length ps"
proof -
  let ?t = "\<lparr>tb_rows = replicate 9 [lit ''a''], tb_header = None, tb_caption = None\<rparr>"
  have "table_of (el_meta demo_table_element) = Some ?t" "n_rows ?t > table_row_serialize_threshold default_ingest"
    by (simp_all add: table_of_def demo_table_element_def meta0_def n_rows_def default_ingest_def)
  from table_rows_partitioned [OF this, of None] obtain ps where
    "tl (chunk_table default_ingest demo_table_element None) = map (row_chunk (table_summary ?t (el_section demo_table_element) None) demo_table_element
       (with_bbox demo_table_element ((el_meta demo_table_element)\<lparr>mt_rows := None, mt_header := None\<rparr>))) ps"
    "row_blocks 1 ps" "concat (map fst ps) = table_lines ?t" by (elim exE conjE)
  then show ?thesis by (intro exI [of _ ps]) (simp add: table_lines_def)
qed

subsection \<open>Chunks longer than the documented window\<close>

text \<open>
  The overlap is put in front of a paragraph without counting it: two paragraphs that just fit the
  window of 600 tokens make a second chunk of more than 600.
\<close>

lemma chunk_exceeds_window:
  "\<exists>cs c. pack_paragraphs default_ingest [replicate 2280 97, replicate 2280 98] = Some cs \<and> c \<in> set cs
     \<and> chunk_max_tokens default_ingest < estimate_tokens c"
proof -
  have mx: "max_chars default_ingest = 2280" "overlap_of default_ingest = 342"
    by (simp_all add: overlap_of_def overlap_chars_def max_chars_def chars_for_tokens_def default_ingest_def)
  have nb: "\<not> blank (replicate 2280 97)" "\<not> blank (replicate 2280 98)" by (simp_all add: blank_iff is_space_def)
  let ?c = "last_n 342 (replicate 2280 97) @ [10, 10] @ replicate 2280 98"
  have us: "concat (map (pieces 2280 342) [replicate 2280 97, replicate 2280 98]) = [replicate 2280 97, replicate 2280 98]"
    using nb by (simp add: pieces_small)
  have "last_n 342 (replicate 2280 (97::nat)) \<noteq> []" by (simp add: last_n_def)
  then have "fold (pack_step 2280 342) [replicate 2280 97, replicate 2280 98] ([], []) = ([replicate 2280 97], ?c)"
    by (simp add: pack_step_def Let_def)
  moreover have "\<not> blank ?c" by (auto simp: blank_iff is_space_def)
  ultimately have "?c \<in> set (run_pieces default_ingest [replicate 2280 97, replicate 2280 98])"
    unfolding run_pieces_def mx us pack_units_def by (simp add: pack_finish_def chars_for_tokens_def default_ingest_def)
  moreover have "chunk_max_tokens default_ingest < estimate_tokens ?c"
    by (simp add: estimate_tokens_def estimate_len_def default_ingest_def)
  ultimately show ?thesis using pack_paragraphs_returns [OF sane_default] by blast
qed

subsection \<open>The legacy chunker packs the same way, and returns\<close>

lemma last_n_ne: "0 < n \<Longrightarrow> s \<noteq> [] \<Longrightarrow> last_n n s \<noteq> []"
  by (simp add: last_n_def) (cases s, auto)

lemma split_step_packs: "split_step target overlap = pack_step target overlap"
  by (intro ext) (auto simp: split_step_def pack_step_def Let_def last_n_ne split: prod.splits)

lemma split_oversized_returns: "ov < target \<Longrightarrow> \<exists>cs. split_oversized target ov c = Some cs"
proof (induction "length c" arbitrary: c rule: less_induct)
  case less
  show ?case
  proof (cases "rat_of_nat (length c) > rat_of_nat target * (3 / 2)")
    case True
    have c: "0 < length c" using True less.prems by (cases "length c") auto
    have "\<exists>cs. split_oversized target ov (drop (target - ov) c) = Some cs"
    proof (rule less.hyps)
      show "length (drop (target - ov) c) < length c" unfolding length_drop using c less.prems by linarith
    qed (rule less.prems)
    then show ?thesis using less.prems by (subst split_oversized.simps) (auto simp: slice_from_diff)
  next
    case False
    then show ?thesis by (subst split_oversized.simps) simp
  qed
qed

lemma split_text_returns: "ov < target \<Longrightarrow> \<exists>cs. split_text t target ov = Some cs"
proof -
  assume ov: "ov < target"
  have "\<exists>cs. concat_opt (map (split_oversized target ov) xs) = Some cs" for xs
    by (rule concat_opt_total) (auto simp: split_oversized_returns [OF ov])
  then show ?thesis
    by (cases "fold (split_step target ov) (paragraphs_of t) ([], [])") (auto simp: split_text_def)
qed

lemma build_chunks_returns: "sane_chunking cfg \<Longrightarrow> \<exists>cs. build_chunks cfg els = Some cs"
proof -
  assume sane: "sane_chunking cfg"
  have "\<exists>cs. legacy_element cfg el = Some cs" for el
    using split_text_returns [of "chunk_overlap_chars cfg" "chunk_target_chars cfg" "normalize_text (el_content el)"] sane
    by (auto simp: legacy_element_def sane_chunking_def Let_def)
  then have "\<exists>cs. concat_opt (map (legacy_element cfg) els) = Some cs" by (intro concat_opt_total) auto
  then show ?thesis by (auto simp: build_chunks_def)
qed

end
