(* ===== verification/Parsers.thy ===== *)
theory Parsers
  imports Chunker Files
begin

text \<open>
  The parsers: plain text, Markdown and HTML (\<open>app/ingestion/parsers/text.py\<close>), DOCX, XLSX and CSV
  (\<open>office.py\<close>), PDF (\<open>pdf.py\<close>), images (\<open>image.py\<close>, \<open>app/ingestion/ocr.py\<close>) and Docling
  (\<open>docling_parser.py\<close>). What the libraries extract from the bytes (BeautifulSoup, python-docx, openpyxl,
  PyMuPDF, pdfplumber, Pillow, pytesseract, Docling) is given to a parser as a record of the items the
  code reads; the CSV reader of the standard library is modelled.
\<close>

definition VISUAL_NOT_INTERPRETED :: pystr where
  "VISUAL_NOT_INTERPRETED = lit ''[visual '' @ [8212] @ lit '' not interpreted]''"

definition plain_element :: "chunk_type \<Rightarrow> pystr \<Rightarrow> int option \<Rightarrow> pystr option \<Rightarrow> element" where
  "plain_element kind content page section = \<lparr>el_kind = kind, el_content = content, el_page = page, el_section = section,
     el_bbox = None, el_meta = meta0\<rparr>"

definition flagged_element :: "chunk_type \<Rightarrow> pystr \<Rightarrow> int \<Rightarrow> (pystr \<times> json) list \<Rightarrow> element" where
  "flagged_element kind content page flags = \<lparr>el_kind = kind, el_content = content, el_page = Some page, el_section = None,
     el_bbox = None, el_meta = meta0\<lparr>mt_flags := flags\<rparr>\<rparr>"

subsection \<open>Plain text, Markdown, HTML\<close>

definition decode_text :: "bytes \<Rightarrow> pystr" where
  "decode_text data = (case utf8_decode data of Some t \<Rightarrow> t
     | None \<Rightarrow> (case utf16_decode data of Some t \<Rightarrow> t | None \<Rightarrow> data))"

definition parse_txt :: "bytes \<Rightarrow> element list" where
  "parse_txt data = [plain_element CT_TEXT (decode_text data) None None]"

text \<open>\<open>^(#{1,6})\s+(.*)$\<close>: the stripped second group.\<close>

definition md_heading :: "pystr \<Rightarrow> pystr option" where
  "md_heading line =
     (let n = length (takeWhile (\<lambda>c. c = 35) line); r = drop n line
      in if 1 \<le> n \<and> n \<le> 6 \<and> r \<noteq> [] \<and> is_space (hd r) then Some (strip (dropWhile is_space r)) else None)"

definition flush_section :: "pystr option \<Rightarrow> pystr list \<Rightarrow> element list" where
  "flush_section section buf = (let body = strip (join [10] buf) in if body = [] then [] else [plain_element CT_TEXT body None section])"

text \<open>Lines are headings (\<open>Inl title\<close>) or text (\<open>Inr line\<close>); the loop Markdown and DOCX share.\<close>

fun group_sections :: "pystr option \<Rightarrow> pystr list \<Rightarrow> (pystr + pystr) list \<Rightarrow> element list" where
  "group_sections section buf [] = flush_section section buf"
| "group_sections section buf (Inl title # ls) = flush_section section buf @ group_sections (Some title) [] ls"
| "group_sections section buf (Inr l # ls) = group_sections section (buf @ [l]) ls"

definition or_single :: "element list \<Rightarrow> element \<Rightarrow> element list" where
  "or_single els dflt = (if els = [] then [dflt] else els)"

definition parse_markdown :: "bytes \<Rightarrow> element list" where
  "parse_markdown data =
     (let text = decode_text data;
          ls = map (\<lambda>l. case md_heading l of Some t \<Rightarrow> Inl t | None \<Rightarrow> Inr l) (split_str [10] text)
      in or_single (group_sections None [] ls) (plain_element CT_TEXT text None None))"

definition md_row :: "pystr list \<Rightarrow> pystr" where
  "md_row cells = lit ''| '' @ join (lit '' | '') cells @ lit '' |''"

text \<open>\<open>soup\<close>: the rows of every table (cells stripped), and the text outside tables, scripts and styles.\<close>

definition parse_html :: "(pystr \<Rightarrow> pystr list list list \<times> pystr) \<Rightarrow> bytes \<Rightarrow> element list" where
  "parse_html soup data =
     (case soup (decode_text data) of (tables, body) \<Rightarrow>
        let rows = map (\<lambda>t. map md_row (filter (\<lambda>cells. cells \<noteq> []) t)) tables;
            els = map (\<lambda>r. plain_element CT_TABLE (join [10] r) None None) (filter (\<lambda>r. r \<noteq> []) rows)
        in or_single (if blank body then els else plain_element CT_TEXT body None None # els) (plain_element CT_TEXT [] None None))"

subsection \<open>DOCX, XLSX, CSV\<close>

definition rows_to_markdown :: "pystr list list \<Rightarrow> pystr" where
  "rows_to_markdown rows = join [10] (map md_row (filter (\<lambda>r. \<exists>c \<in> set r. \<not> blank c) rows))"

record docx_file =
  dx_paragraphs :: "(pystr \<times> pystr) list"
  dx_tables :: "pystr list list list"

definition docx_line :: "pystr \<times> pystr \<Rightarrow> (pystr + pystr) list" where
  "docx_line p = (case p of (text, style) \<Rightarrow>
     let t = strip text; st = lower style in
     if t = [] then [] else if prefix (lit ''heading'') st \<or> st = lit ''title'' then [Inl t] else [Inr t])"

fun last_section :: "pystr option \<Rightarrow> (pystr + pystr) list \<Rightarrow> pystr option" where
  "last_section section [] = section"
| "last_section section (Inl t # ls) = last_section (Some t) ls"
| "last_section section (Inr l # ls) = last_section section ls"

definition parse_docx :: "docx_file \<Rightarrow> element list" where
  "parse_docx f =
     (let ls = concat (map docx_line (dx_paragraphs f));
          tables = filter (\<lambda>md. md \<noteq> []) (map rows_to_markdown (dx_tables f))
      in or_single (group_sections None [] ls @ map (\<lambda>md. plain_element CT_TABLE md None (last_section None ls)) tables)
           (plain_element CT_TEXT [] None None))"

text \<open>Worksheets: title and the \<open>str\<close> of every cell, empty for no value.\<close>

definition parse_xlsx :: "(pystr \<times> pystr list list) list \<Rightarrow> element list" where
  "parse_xlsx sheets =
     or_single (concat (map (\<lambda>(title, rows). let md = rows_to_markdown rows in
         if md = [] then [] else [plain_element CT_TABLE md None (Some title)]) sheets))
       (plain_element CT_TABLE [] None None)"

text \<open>The state machine of \<open>csv.reader\<close> in the default dialect. \<open>Inl\<close> is the message of \<open>_csv.Error\<close>.\<close>

datatype csv_state = Start_record | Start_field | In_field | In_quoted | Quote_in_quoted | Eat_crnl

record csv =
  cs_state :: csv_state
  cs_field :: pystr
  cs_fields :: "pystr list"

definition csv_save :: "csv_state \<Rightarrow> csv \<Rightarrow> csv" where
  "csv_save st r = r\<lparr>cs_state := st, cs_field := [], cs_fields := cs_fields r @ [cs_field r]\<rparr>"

definition csv_add :: "csv_state \<Rightarrow> nat \<Rightarrow> csv \<Rightarrow> pystr + csv" where
  "csv_add st c r = (if 131072 \<le> length (cs_field r) then Inl (lit ''field larger than field limit (131072)'') else Inr (r\<lparr>cs_state := st, cs_field := cs_field r @ [c]\<rparr>))"

definition is_crnl :: "nat \<Rightarrow> bool" where
  "is_crnl c \<longleftrightarrow> c = 10 \<or> c = 13"

definition csv_start_field :: "nat \<Rightarrow> csv \<Rightarrow> pystr + csv" where
  "csv_start_field c r =
     (if is_crnl c then Inr (csv_save Eat_crnl r)
      else if c = 34 then Inr (r\<lparr>cs_state := In_quoted\<rparr>)
      else if c = 44 then Inr (csv_save Start_field r)
      else csv_add In_field c r)"

fun csv_char :: "nat \<Rightarrow> csv \<Rightarrow> pystr + csv" where
  "csv_char c r = (case cs_state r of
       Start_record \<Rightarrow> if is_crnl c then Inr (r\<lparr>cs_state := Eat_crnl\<rparr>) else csv_start_field c r
     | Start_field \<Rightarrow> csv_start_field c r
     | In_field \<Rightarrow> if is_crnl c then Inr (csv_save Eat_crnl r) else if c = 44 then Inr (csv_save Start_field r) else csv_add In_field c r
     | In_quoted \<Rightarrow> if c = 34 then Inr (r\<lparr>cs_state := Quote_in_quoted\<rparr>) else csv_add In_quoted c r
     | Quote_in_quoted \<Rightarrow> if c = 34 then csv_add In_quoted 34 r else if c = 44 then Inr (csv_save Start_field r)
         else if is_crnl c then Inr (csv_save Eat_crnl r) else csv_add In_field c r
     | Eat_crnl \<Rightarrow> if is_crnl c then Inr r
         else Inl (lit ''new-line character seen in unquoted field - do you need to open the file with newline='' @ [39, 39, 63]))"

text \<open>The end of a line.\<close>

definition csv_eol :: "csv \<Rightarrow> csv" where
  "csv_eol r = (case cs_state r of Start_record \<Rightarrow> r | Eat_crnl \<Rightarrow> r\<lparr>cs_state := Start_record\<rparr> | In_quoted \<Rightarrow> r
     | _ \<Rightarrow> csv_save Start_record r)"

fun csv_chars :: "pystr \<Rightarrow> csv \<Rightarrow> pystr + csv" where
  "csv_chars [] r = Inr (csv_eol r)"
| "csv_chars (c # cs) r = (case csv_char c r of Inl er \<Rightarrow> Inl er | Inr r1 \<Rightarrow> csv_chars cs r1)"

definition csv0 :: csv where
  "csv0 = \<lparr>cs_state = Start_record, cs_field = [], cs_fields = []\<rparr>"

text \<open>A record ends when the state is \<open>Start_record\<close> after a line; an open quote at the end of the
  input closes the record.\<close>

fun csv_lines :: "csv \<Rightarrow> pystr list \<Rightarrow> pystr + pystr list list" where
  "csv_lines r [] = Inr (if cs_field r \<noteq> [] \<or> cs_state r = In_quoted then [cs_fields r @ [cs_field r]] else [])"
| "csv_lines r (l # ls) =
     (case csv_chars l r of Inl er \<Rightarrow> Inl er
      | Inr r1 \<Rightarrow> if cs_state r1 = Start_record then map_sum id ((#) (cs_fields r1)) (csv_lines csv0 ls)
          else csv_lines r1 ls)"

text \<open>The lines of a \<open>StringIO\<close>, each with its newline.\<close>

fun io_lines :: "pystr \<Rightarrow> pystr \<Rightarrow> pystr list" where
  "io_lines acc [] = (if acc = [] then [] else [acc])"
| "io_lines acc (c # s) = (if c = 10 then (acc @ [10]) # io_lines [] s else io_lines (acc @ [c]) s)"

definition csv_rows :: "pystr \<Rightarrow> pystr + pystr list list" where
  "csv_rows text = csv_lines csv0 (io_lines [] text)"

definition parse_csv :: "bytes \<Rightarrow> pystr + element list" where
  "parse_csv data = map_sum id (\<lambda>rows. [plain_element CT_TABLE (rows_to_markdown rows) None None]) (csv_rows (utf8_decode_replace data))"

subsection \<open>Images and PDF\<close>

text \<open>\<open>im_ocr\<close>: pytesseract's text, \<open>None\<close> when it raises.\<close>

record image =
  im_width :: nat
  im_height :: nat
  im_ocr :: "pystr option"

definition ocr_image :: "image \<Rightarrow> pystr" where
  "ocr_image im = (case im_ocr im of None \<Rightarrow> [] | Some t \<Rightarrow> strip t)"

definition flag :: "string \<Rightarrow> bool \<Rightarrow> pystr \<times> json" where
  "flag k b = (lit k, JBool b)"

text \<open>\<open>Inl msg\<close>: Pillow cannot load the image.\<close>

definition parse_image :: "pystr + image \<Rightarrow> element list" where
  "parse_image opened = (case opened of
       Inl msg \<Rightarrow> [plain_element CT_IMAGE (VISUAL_NOT_INTERPRETED @ lit '' (unreadable image: '' @ msg @ lit '')'') (Some 1) None]
     | Inr im \<Rightarrow> let t = ocr_image im in
         if t \<noteq> [] then [flagged_element CT_OCR t 1 [flag ''visual'' True, flag ''ocr'' True]]
         else [flagged_element CT_IMAGE VISUAL_NOT_INTERPRETED 1 [flag ''visual'' True, flag ''interpreted'' False]])"

text \<open>A page as PyMuPDF gives it: text, embedded images (\<open>None\<close>: extraction raised), the raster.\<close>

record pdf_page =
  pp_text :: pystr
  pp_images :: "image option list"
  pp_raster :: "image option"

definition MIN_IMG_PX :: nat where
  "MIN_IMG_PX = 50"

definition embedded_figure :: "int \<Rightarrow> image option \<Rightarrow> element list" where
  "embedded_figure page_no im = (case im of None \<Rightarrow> []
     | Some i \<Rightarrow> if im_width i < MIN_IMG_PX \<or> im_height i < MIN_IMG_PX then []
         else let t = ocr_image i in
           if t \<noteq> [] then [flagged_element CT_OCR t page_no [flag ''visual'' True, (lit ''source'', JStr (lit ''embedded_image''))]]
           else [flagged_element CT_IMAGE VISUAL_NOT_INTERPRETED page_no [flag ''visual'' True, flag ''interpreted'' False]])"

definition scanned_page :: "int \<Rightarrow> image option \<Rightarrow> element" where
  "scanned_page page_no raster =
     (let t = (case raster of None \<Rightarrow> [] | Some i \<Rightarrow> ocr_image i) in
      if t \<noteq> [] then flagged_element CT_OCR t page_no [flag ''visual'' True, flag ''scanned'' True]
      else flagged_element CT_IMAGE VISUAL_NOT_INTERPRETED page_no [flag ''visual'' True, flag ''interpreted'' False, flag ''scanned'' True])"

text \<open>pdfplumber's tables of a page, as far as it got before raising; a cell may be missing.\<close>

definition plumbed_table :: "pystr option list list \<Rightarrow> pystr list" where
  "plumbed_table rows = map (\<lambda>r. md_row (map (\<lambda>c. case c of None \<Rightarrow> [] | Some t \<Rightarrow> t) r))
     (filter (\<lambda>r. \<exists>c \<in> set r. c \<noteq> None \<and> \<not> blank (the c)) rows)"

definition tables_by_page :: "pystr option list list list list \<Rightarrow> nat \<Rightarrow> pystr list" where
  "tables_by_page pages i = (if i < length pages
     then map (join [10]) (filter (\<lambda>rows. rows \<noteq> []) (map plumbed_table (pages ! i))) else [])"

definition parse_page :: "pystr option list list list list \<Rightarrow> nat \<Rightarrow> pdf_page \<Rightarrow> element list" where
  "parse_page plumbed i p =
     (let page_no = int i + 1; text = strip (pp_text p) in
      (if text \<noteq> [] then plain_element CT_TEXT text (Some page_no) None # concat (map (embedded_figure page_no) (pp_images p))
       else [scanned_page page_no (pp_raster p)])
      @ map (\<lambda>md. plain_element CT_TABLE md (Some page_no) None) (tables_by_page plumbed i))"

definition parse_pdf :: "pystr option list list list list \<Rightarrow> pdf_page list \<Rightarrow> element list" where
  "parse_pdf plumbed pages = concat (map (\<lambda>(i, p). parse_page plumbed i p) (enumerate 0 pages))"

subsection \<open>Docling\<close>

text \<open>The items of a converted document. Provenance: page and box of the first entry; a cell: its text
  and whether it is a column header; a picture: its PNG, \<open>None\<close> when there is none or cropping raised.\<close>

type_synonym prov = "(int option \<times> bbox option) option"

datatype docling_item =
    Section_item "pystr option"
  | Table_item prov "(pystr option \<times> bool) list list" "pystr option"
  | Picture_item prov "bytes option" "pystr option"
  | Text_item prov "pystr option"
  | Other_item

definition stripped :: "pystr option \<Rightarrow> pystr" where
  "stripped t = (case t of None \<Rightarrow> [] | Some s \<Rightarrow> strip s)"

definition nonempty :: "'a list \<Rightarrow> 'a list option" where
  "nonempty s = (if s = [] then None else Some s)"

definition prov_page :: "prov \<Rightarrow> int option" where
  "prov_page p = (case p of None \<Rightarrow> None | Some (page, box) \<Rightarrow> page)"

definition prov_box :: "prov \<Rightarrow> bbox option" where
  "prov_box p = (case p of None \<Rightarrow> None | Some (page, box) \<Rightarrow> box)"

definition table_element :: "prov \<Rightarrow> (pystr option \<times> bool) list list \<Rightarrow> pystr option \<Rightarrow> pystr option \<Rightarrow> element" where
  "table_element p grid cap section =
     (let cells = map (map (\<lambda>(t, h). stripped t)) grid;
          headed = (grid \<noteq> [] \<and> (\<exists>(t, h) \<in> set (hd grid). h))
      in \<lparr>el_kind = CT_TABLE, el_content = [], el_page = prov_page p, el_section = section, el_bbox = prov_box p,
          el_meta = meta0\<lparr>mt_rows := Some (if headed then tl cells else cells),
            mt_header := (if headed then nonempty (hd cells) else None), mt_caption := nonempty (stripped cap)\<rparr>\<rparr>)"

definition figure_element :: "prov \<Rightarrow> bytes option \<Rightarrow> pystr option \<Rightarrow> pystr option \<Rightarrow> element option" where
  "figure_element p png cap section =
     (let caption = nonempty (stripped cap) in
      if png = None \<and> caption = None then None
      else Some \<lparr>el_kind = CT_IMAGE, el_content = stripped cap, el_page = prov_page p, el_section = section, el_bbox = prov_box p,
          el_meta = meta0\<lparr>mt_png := (if png = Some [] then None else png), mt_caption := caption\<rparr>\<rparr>)"

fun docling_elements :: "pystr option \<Rightarrow> docling_item list \<Rightarrow> element list" where
  "docling_elements section [] = []"
| "docling_elements section (Section_item t # xs) =
     docling_elements (if stripped t = [] then section else Some (stripped t)) xs"
| "docling_elements section (Table_item p grid cap # xs) = table_element p grid cap section # docling_elements section xs"
| "docling_elements section (Picture_item p png cap # xs) =
     (case figure_element p png cap section of None \<Rightarrow> [] | Some el \<Rightarrow> [el]) @ docling_elements section xs"
| "docling_elements section (Text_item p t # xs) =
     (if stripped t = [] then [] else [\<lparr>el_kind = CT_TEXT, el_content = stripped t, el_page = prov_page p, el_section = section,
        el_bbox = prov_box p, el_meta = meta0\<rparr>]) @ docling_elements section xs"
| "docling_elements section (Other_item # xs) = docling_elements section xs"

text \<open>\<open>Inl\<close>: status and messages of a failed conversion.\<close>

definition parse_docling :: "pystr \<times> pystr list + docling_item list \<Rightarrow> pystr + element list" where
  "parse_docling converted = (case converted of
       Inl (st, errors) \<Rightarrow> Inl (lit ''docling conversion failed ('' @ st @ lit ''): '' @ join (lit ''; '') (take 3 errors))
     | Inr items \<Rightarrow> Inr (docling_elements None items))"

end
