(* ===== verification/Pipeline.thy ===== *)
theory Pipeline
  imports Parsers
begin

text \<open>
  The pipeline from file bytes to chunks, \<open>app/ingestion/pipeline.py\<close>: parser dispatch, removal of
  repeated headers and footers, the figure pass (a sink uploads and captions each crop; its state is
  threaded through), and the choice of chunker. What the extraction libraries deliver for the given bytes
  is the record \<open>libs\<close>; \<open>Inl\<close> is an exception with its text, \<open>None\<close> a call that never returns.
\<close>

record libs =
  lb_soup :: "pystr \<Rightarrow> pystr list list list \<times> pystr"
  lb_docx :: "bytes \<Rightarrow> pystr + docx_file"
  lb_xlsx :: "bytes \<Rightarrow> pystr + (pystr \<times> pystr list list) list"
  lb_pdf :: "bytes \<Rightarrow> pystr + pystr option list list list list \<times> pdf_page list"
  lb_image :: "bytes \<Rightarrow> pystr + image"
  lb_docling :: "bytes \<Rightarrow> pystr \<Rightarrow> pystr \<times> pystr list + docling_item list"

definition DOCLING_TYPES :: "pystr set" where
  "DOCLING_TYPES = {lit ''pdf'', lit ''docx'', lit ''pptx'', lit ''xlsx''}"

definition PARSERS :: "libs \<Rightarrow> (pystr \<times> (bytes \<Rightarrow> pystr + element list)) list" where
  "PARSERS lb =
     [(lit ''pdf'', \<lambda>data. map_sum id (\<lambda>(plumbed, pages). parse_pdf plumbed pages) (lb_pdf lb data)),
      (lit ''docx'', \<lambda>data. map_sum id parse_docx (lb_docx lb data)),
      (lit ''xlsx'', \<lambda>data. map_sum id parse_xlsx (lb_xlsx lb data)),
      (lit ''csv'', parse_csv),
      (lit ''txt'', \<lambda>data. Inr (parse_txt data)),
      (lit ''md'', \<lambda>data. Inr (parse_markdown data)),
      (lit ''html'', \<lambda>data. Inr (parse_html (lb_soup lb) data)),
      (lit ''image'', \<lambda>data. Inr (parse_image (lb_image lb data)))]"

definition use_docling :: "cfg_ingest \<Rightarrow> pystr \<Rightarrow> bool" where
  "use_docling cfg file_type \<longleftrightarrow> parser_backend cfg = lit ''docling'' \<and> file_type \<in> DOCLING_TYPES"

definition no_parser :: "cfg_ingest \<Rightarrow> pystr \<Rightarrow> pystr" where
  "no_parser cfg file_type = lit ''No parser for file type '' @ repr_str file_type @ lit '' (backend='' @ parser_backend cfg @ lit '')''"

definition parse :: "cfg_ingest \<Rightarrow> libs \<Rightarrow> bytes \<Rightarrow> pystr \<Rightarrow> pystr + element list" where
  "parse cfg lb data file_type =
     (if use_docling cfg file_type then parse_docling (lb_docling lb data file_type)
      else case map_of (PARSERS lb) file_type of None \<Rightarrow> Inl (no_parser cfg file_type) | Some f \<Rightarrow> f data)"

text \<open>A page number of 0 counts as no page.\<close>

definition is_text_page :: "element \<Rightarrow> bool" where
  "is_text_page e \<longleftrightarrow> el_kind e = CT_TEXT \<and> el_page e \<noteq> None \<and> el_page e \<noteq> Some 0"

fun refill :: "element list \<Rightarrow> pystr list \<Rightarrow> element list" where
  "refill [] cs = []"
| "refill (e # es) cs = (if is_text_page e then (case cs of [] \<Rightarrow> e # refill es [] | c # cs' \<Rightarrow> e\<lparr>el_content := c\<rparr> # refill es cs')
     else e # refill es cs)"

definition denoise :: "element list \<Rightarrow> element list" where
  "denoise els =
     (let pages = filter is_text_page els in
      if length pages \<ge> 3 then refill els (strip_repeated_boilerplate (3 / 5) (map el_content pages)) else els)"

text \<open>The sink gives the URI and the element's new content, or raises.\<close>

type_synonym 's sink = "element \<Rightarrow> 's \<Rightarrow> (pystr + pystr option \<times> pystr) \<times> 's"

definition strip_png :: "element \<Rightarrow> element" where
  "strip_png el = el\<lparr>el_meta := (el_meta el)\<lparr>mt_png := None\<rparr>\<rparr>"

definition set_uri :: "pystr option \<Rightarrow> element \<Rightarrow> element" where
  "set_uri uri el = (if truthy uri then el\<lparr>el_meta := (el_meta el)\<lparr>mt_uri := uri\<rparr>\<rparr> else el)"

fun resolve_figures :: "'s sink option \<Rightarrow> element list \<Rightarrow> 's \<Rightarrow> (pystr + element list) \<times> 's" where
  "resolve_figures sink [] s = (Inr [], s)"
| "resolve_figures sink (el # els) s =
     (if mt_png (el_meta el) = None
      then (case resolve_figures sink els s of (r, s1) \<Rightarrow> (map_sum id ((#) el) r, s1))
      else (case (case sink of None \<Rightarrow> (Inr (None, el_content el), s) | Some f \<Rightarrow> f el s) of
              (Inl er, s1) \<Rightarrow> (Inl er, s1)
            | (Inr (uri, content), s1) \<Rightarrow>
                (case resolve_figures sink els s1 of (r, s2) \<Rightarrow> (map_sum id ((#) (set_uri uri (strip_png (el\<lparr>el_content := content\<rparr>)))) r, s2))))"

definition page_count :: "element list \<Rightarrow> int" where
  "page_count els = (let pages = List.map_filter el_page els in if pages = [] then 1 else Max (set pages))"

definition run_pipeline ::
  "cfg_ingest \<Rightarrow> libs \<Rightarrow> 's sink option \<Rightarrow> bytes \<Rightarrow> pystr \<Rightarrow> 's \<Rightarrow> ((pystr + chunk_data list \<times> int) \<times> 's) option" where
  "run_pipeline cfg lb sink data file_type s =
     (case parse cfg lb data file_type of
        Inl er \<Rightarrow> Some (Inl er, s)
      | Inr els0 \<Rightarrow>
          let els = denoise els0; n = page_count els in
          if use_docling cfg file_type
          then (case resolve_figures sink els s of
                  (Inl er, s1) \<Rightarrow> Some (Inl er, s1)
                | (Inr els1, s1) \<Rightarrow> map_option (\<lambda>cs. (Inr (cs, n), s1)) (build_chunks_v2 cfg els1))
          else map_option (\<lambda>cs. (Inr (cs, n), s)) (build_chunks cfg els))"

subsection \<open>Every accepted type has a parser\<close>

lemma parser_known: "map_of (PARSERS lb) t \<noteq> None \<longleftrightarrow> t \<in> SUPPORTED - {lit ''pptx''}"
proof -
  have "fst ` set (PARSERS lb) = SUPPORTED - {lit ''pptx''}"
    unfolding set_SUPPORTED by (auto simp: PARSERS_def)
  then show ?thesis by (metis map_of_eq_None_iff)
qed

lemma parse_docling_cases: "parse_docling c = Inl er \<Longrightarrow> \<exists>x. c = Inl x"
  by (cases c) (auto simp: parse_docling_def split: prod.splits)

text \<open>
  C33. An upload that was accepted has a parser: with the default backend every detected type is parsed, and
  with the legacy backend every type but PowerPoint, which is refused with the message naming the backend.
\<close>

theorem accepted_types_parse:
  assumes "detect f data = Inr t"
  shows "(parser_backend cfg = lit ''docling'' \<longrightarrow> use_docling cfg t \<or> map_of (PARSERS lb) t \<noteq> None)
    \<and> (parser_backend cfg \<noteq> lit ''docling'' \<longrightarrow>
         (if t = lit ''pptx'' then parse cfg lb data t = Inl (no_parser cfg t)
          else \<exists>p. map_of (PARSERS lb) t = Some p \<and> parse cfg lb data t = p data))"
proof -
  have t: "t \<in> SUPPORTED"
    using assms by (rule detect_supported)
  have "map_of (PARSERS lb) (lit ''pptx'') = None" using parser_known [of lb "lit ''pptx''"] by auto
  with t show ?thesis
    using parser_known [of lb t] by (auto simp: use_docling_def DOCLING_TYPES_def parse_def)
qed

lemma accepted_types_parse_witness:
  "\<forall>lb. map_of (PARSERS lb) (lit ''txt'') \<noteq> None"
proof -
  have "map_of ext_map (lit ''.txt'') = Some (lit ''txt'')" by (simp add: ext_map_def)
  then have d: "detect (lit ''a.txt'') [104] = Inr (lit ''txt'')"
    unfolding detect_eq txt_extension by (simp add: magic_type_def lit_Cons)
  have "\<not> use_docling default_ingest (lit ''txt'')" "parser_backend default_ingest = lit ''docling''"
    by (simp_all add: default_ingest_def use_docling_def DOCLING_TYPES_def)
  then show ?thesis using accepted_types_parse [OF d, of default_ingest] by blast
qed

subsection \<open>No image bytes in chunks\<close>

lemma map_sum_iff [simp]: "map_sum id f r = Inr y \<longleftrightarrow> (\<exists>x. r = Inr x \<and> y = f x)" "map_sum id f r = Inl er \<longleftrightarrow> r = Inl er"
  by (cases r; auto)+

lemma png_meta0 [simp]: "mt_png meta0 = None"
  by (simp add: meta0_def)

lemma resolve_no_png: "resolve_figures sink els s = (Inr els', s') \<Longrightarrow> e \<in> set els' \<Longrightarrow> mt_png (el_meta e) = None"
proof (induction els arbitrary: s els' s' e)
  case (Cons el els)
  show ?case
  proof (cases "mt_png (el_meta el) = None")
    case True
    then obtain es where "resolve_figures sink els s = (Inr es, s')" "els' = el # es"
      using Cons.prems(1) by (auto split: prod.splits)
    with True Cons show ?thesis by auto
  next
    case False
    then obtain s1 es uri content where "resolve_figures sink els s1 = (Inr es, s')"
        "els' = set_uri uri (strip_png (el\<lparr>el_content := content\<rparr>)) # es"
      using Cons.prems(1) by (auto split: prod.splits sum.splits option.splits)
    with Cons show ?thesis by (auto simp: set_uri_def strip_png_def)
  qed
qed simp

lemma with_bbox_png [simp]: "mt_png (with_bbox el m) = mt_png m"
  by (simp add: with_bbox_def split: option.splits)

lemma chunk_visual_png: "c \<in> set (chunk_visual cfg el prev) \<Longrightarrow> mt_png (cd_meta c) = mt_png (el_meta el)"
  by (auto simp: chunk_visual_def chunk_table_def row_chunk_def visual_chunk_def Let_def split: option.splits if_splits)

lemma chunk_text_run_png: "chunk_text_run cfg run = Some cs \<Longrightarrow> c \<in> set cs \<Longrightarrow> mt_png (cd_meta c) = None"
  by (auto simp: chunk_text_run_def Let_def attribute_pages_props split: if_splits)

lemma chunk_segments_png:
  "chunk_segments cfg prev ss = Some cs \<Longrightarrow> \<forall>s \<in> set ss. s \<noteq> [] \<and> (\<forall>e \<in> set s. mt_png (el_meta e) = None) \<Longrightarrow>
     c \<in> set cs \<Longrightarrow> mt_png (cd_meta c) = None"
proof (induction ss arbitrary: prev cs)
  case (Cons s ss)
  have "hd s \<in> set s" using Cons.prems(2) by auto
  then have "mt_png (el_meta (hd s)) = None" using Cons.prems(2) by auto
  moreover obtain a b p where "cs = a @ b" "chunk_segments cfg p ss = Some b"
      "chunk_text_run cfg s = Some a \<or> a = chunk_visual cfg (hd s) prev"
    using Cons.prems(1) by (auto simp: concat_opt_Cons_Some split: if_splits)
  ultimately show ?case
    using Cons.IH [of p b] Cons.prems(2,3) by (auto dest: chunk_text_run_png chunk_visual_png)
qed simp

lemma build_v2_png:
  assumes "build_chunks_v2 cfg els = Some cs" and "\<forall>e \<in> set els. mt_png (el_meta e) = None" and "c \<in> set cs"
  shows "mt_png (cd_meta c) = None"
proof -
  obtain cs0 where cs0: "chunk_segments cfg None (segment els) = Some cs0" "cs = renumber cs0"
    using assms(1) by (auto simp: build_chunks_v2_eq)
  have "\<forall>s \<in> set (segment els). s \<noteq> [] \<and> (\<forall>e \<in> set s. mt_png (el_meta e) = None)"
    using segment_ne concat_segment [of els] assms(2) by (metis UN_I set_concat)
  then have "\<forall>c \<in> set cs0. mt_png (cd_meta c) = None" using chunk_segments_png [OF cs0(1)] by blast
  then show ?thesis using renumber_props(4) [of c cs0] assms(3) cs0(2) by fastforce
qed

lemma legacy_element_png: "legacy_element cfg el = Some cs \<Longrightarrow> c \<in> set cs \<Longrightarrow> mt_png (cd_meta c) = mt_png (el_meta el)"
  by (auto simp: legacy_element_def Let_def split: if_splits)

lemma concat_opt_set: "concat_opt xs = Some ys \<Longrightarrow> y \<in> set ys \<Longrightarrow> \<exists>x. Some x \<in> set xs \<and> y \<in> set x"
proof (induction xs arbitrary: ys)
  case (Cons x xs)
  then obtain a b where "x = Some a" "concat_opt xs = Some b" "y \<in> set a \<or> y \<in> set b"
    by (auto simp: concat_opt_Cons_Some)
  with Cons.IH [of b] show ?case by auto
qed simp

lemma build_chunks_png:
  assumes "build_chunks cfg els = Some cs" and "\<forall>e \<in> set els. mt_png (el_meta e) = None" and "c \<in> set cs"
  shows "mt_png (cd_meta c) = None"
proof -
  obtain cs0 where cs0: "concat_opt (map (legacy_element cfg) els) = Some cs0" "cs = renumber cs0"
    using assms(1) by (auto simp: build_chunks_def)
  obtain d i where d: "d \<in> set cs0" "c = d\<lparr>cd_index := i\<rparr>" using renumber_props(4) [of c cs0] assms(3) cs0(2) by blast
  then obtain x where x: "Some x \<in> set (map (legacy_element cfg) els)" "d \<in> set x" using concat_opt_set [OF cs0(1)] by blast
  then obtain e where e: "e \<in> set els" "legacy_element cfg e = Some x" by auto
  then have "mt_png (cd_meta d) = None" using legacy_element_png [OF e(2) x(2)] assms(2) by simp
  then show ?thesis by (simp add: d(2))
qed

lemma plain_png [simp]: "mt_png (el_meta (plain_element k t p s)) = None" "mt_png (el_meta (flagged_element k t n fl)) = None"
  by (simp_all add: plain_element_def flagged_element_def)

lemma group_sections_png: "e \<in> set (group_sections sec buf ls) \<Longrightarrow> mt_png (el_meta e) = None"
  by (induction sec buf ls rule: group_sections.induct) (auto simp: flush_section_def Let_def split: if_splits)

lemma or_single_png: "e \<in> set (or_single els d) \<Longrightarrow> e \<in> set els \<or> e = d"
  by (auto simp: or_single_def split: if_splits)

lemma parse_page_png: "e \<in> set (parse_page plumbed i p) \<Longrightarrow> mt_png (el_meta e) = None"
  by (auto simp: parse_page_def embedded_figure_def scanned_page_def Let_def split: if_splits option.splits)

lemma legacy_parsers_png:
  "e \<in> set (parse_txt data) \<Longrightarrow> mt_png (el_meta e) = None"
  "e \<in> set (parse_markdown data) \<Longrightarrow> mt_png (el_meta e) = None"
  "e \<in> set (parse_html soup data) \<Longrightarrow> mt_png (el_meta e) = None"
  "e \<in> set (parse_docx f) \<Longrightarrow> mt_png (el_meta e) = None"
  "e \<in> set (parse_xlsx sheets) \<Longrightarrow> mt_png (el_meta e) = None"
  "parse_csv data = Inr els \<Longrightarrow> e \<in> set els \<Longrightarrow> mt_png (el_meta e) = None"
  "e \<in> set (parse_image opened) \<Longrightarrow> mt_png (el_meta e) = None"
  "e \<in> set (parse_pdf plumbed pages) \<Longrightarrow> mt_png (el_meta e) = None"
  by (auto simp: parse_txt_def parse_markdown_def parse_html_def parse_docx_def parse_xlsx_def parse_csv_def parse_image_def
      parse_pdf_def Let_def dest!: or_single_png dest: group_sections_png parse_page_png split: prod.splits sum.splits if_splits)

lemma parse_legacy_png:
  assumes "parse cfg lb data t = Inr els" and "\<not> use_docling cfg t" and "e \<in> set els"
  shows "mt_png (el_meta e) = None"
proof -
  obtain f where "map_of (PARSERS lb) t = Some f" and f: "f data = Inr els"
    using assms(1,2) by (auto simp: parse_def split: option.splits)
  then have "(t, f) \<in> set (PARSERS lb)" by (blast dest: map_of_SomeD)
  with f assms(3) show ?thesis
    by (auto simp: PARSERS_def dest: legacy_parsers_png split: prod.splits)
qed

lemma refill_meta: "map el_meta (refill els cs) = map el_meta els"
  by (induction els cs rule: refill.induct) (auto split: list.splits)

lemma denoise_png: "\<forall>e \<in> set els. mt_png (el_meta e) = None \<Longrightarrow> \<forall>e \<in> set (denoise els). mt_png (el_meta e) = None"
proof -
  assume a: "\<forall>e \<in> set els. mt_png (el_meta e) = None"
  have "el_meta ` set (denoise els) = el_meta ` set els"
    unfolding denoise_def Let_def by (simp flip: set_map add: refill_meta)
  with a show ?thesis by (metis image_iff)
qed

lemma build_numbered:
  "build_chunks_v2 cfg els = Some cs \<Longrightarrow> map cd_index cs = [0..<length cs]"
  "build_chunks cfg els = Some cs \<Longrightarrow> map cd_index cs = [0..<length cs]"
  by (auto simp: build_chunks_v2_def build_chunks_def renumber_props)

lemma build_v2_returns: "sane_chunking cfg \<Longrightarrow> \<exists>cs. build_chunks_v2 cfg els = Some cs"
  using chunk_segments_total [of cfg None "segment els"] by (auto simp: build_chunks_v2_eq)

lemma run_pipeline_cases:
  assumes "run_pipeline cfg lb sink data t s = Some (Inr (cs, n), s')"
  obtains els where "use_docling cfg t" "build_chunks_v2 cfg els = Some cs" "\<forall>e \<in> set els. mt_png (el_meta e) = None"
  | els where "\<not> use_docling cfg t" "build_chunks cfg els = Some cs" "\<forall>e \<in> set els. mt_png (el_meta e) = None"
proof -
  obtain els0 where p: "parse cfg lb data t = Inr els0"
    using assms by (auto simp: run_pipeline_def split: sum.splits)
  show thesis
  proof (cases "use_docling cfg t")
    case True
    then obtain els1 where r: "resolve_figures sink (denoise els0) s = (Inr els1, s')" "build_chunks_v2 cfg els1 = Some cs"
      using assms p by (auto simp: run_pipeline_def Let_def split: prod.splits sum.splits)
    show thesis by (rule that(1) [OF True r(2)]) (use resolve_no_png [OF r(1)] in blast)
  next
    case False
    then have b: "build_chunks cfg (denoise els0) = Some cs"
      using assms p by (auto simp: run_pipeline_def Let_def)
    have "\<forall>e \<in> set els0. mt_png (el_meta e) = None" using parse_legacy_png [OF p False] by blast
    then show thesis by (intro that(2) [OF False b] denoise_png)
  qed
qed

lemma run_pipeline_returns: "sane_chunking cfg \<Longrightarrow> run_pipeline cfg lb sink data t s \<noteq> None"
  using build_v2_returns [of cfg] build_chunks_returns [of cfg]
  by (auto simp: run_pipeline_def Let_def split: sum.splits prod.splits)

text \<open>
  C20. The pipeline always returns when the overlaps are below their windows, with chunks or with the
  parser's or sink's error; and the chunks it returns are numbered from 0 without gaps and carry no image
  bytes in their metadata, whichever parser and chunker the file takes and even without a figure sink.
\<close>

theorem pipeline_returns_clean:
  assumes "sane_chunking cfg"
  shows "\<exists>r s'. run_pipeline cfg lb sink data t s = Some (r, s')
    \<and> (\<forall>cs n. r = Inr (cs, n) \<longrightarrow> map cd_index cs = [0..<length cs] \<and> (\<forall>c \<in> set cs. mt_png (cd_meta c) = None))"
proof -
  have "run_pipeline cfg lb sink data t s \<noteq> None" by (rule run_pipeline_returns [OF assms])
  then obtain r s' where r: "run_pipeline cfg lb sink data t s = Some (r, s')" by auto
  have "map cd_index cs = [0..<length cs] \<and> (\<forall>c \<in> set cs. mt_png (cd_meta c) = None)" if "r = Inr (cs, n)" for cs n
    using r unfolding that
  proof (cases rule: run_pipeline_cases)
    case (1 els)
    then show ?thesis using build_numbered(1) build_v2_png by blast
  next
    case (2 els)
    then show ?thesis using build_numbered(2) build_chunks_png by blast
  qed
  with r show ?thesis by blast
qed

definition demo_libs :: libs where
  "demo_libs = \<lparr>lb_soup = (\<lambda>t. ([], t)), lb_docx = (\<lambda>_. Inl []), lb_xlsx = (\<lambda>_. Inl []), lb_pdf = (\<lambda>_. Inl []), lb_image = (\<lambda>_. Inl []),
     lb_docling = (\<lambda>data t. Inr [Picture_item None (Some data) (Some (lit ''fig''))])\<rparr>"

lemma pipeline_returns_clean_witness:
  "\<exists>cs n s'. run_pipeline default_ingest demo_libs None [1, 2] (lit ''pdf'') () = Some (Inr (cs, n), s') \<and> (\<forall>c \<in> set cs. mt_png (cd_meta c) = None)"
proof -
  obtain r s' where r: "run_pipeline default_ingest demo_libs None [1, 2] (lit ''pdf'') () = Some (r, s')"
    and clean: "\<forall>cs n. r = Inr (cs, n) \<longrightarrow> map cd_index cs = [0..<length cs] \<and> (\<forall>c \<in> set cs. mt_png (cd_meta c) = None)"
    using pipeline_returns_clean [OF sane_default, of demo_libs None "[1, 2]" "lit ''pdf''" "()"] by blast
  have "use_docling default_ingest (lit ''pdf'')" by (simp add: use_docling_def default_ingest_def DOCLING_TYPES_def)
  then have "\<exists>cs n. r = Inr (cs, n)"
    using r by (auto simp: run_pipeline_def parse_def parse_docling_def demo_libs_def Let_def figure_element_def denoise_def
        is_text_page_def split: prod.splits sum.splits option.splits if_splits)
  then show ?thesis using r clean by blast
qed

end
