(* ===== verification/Indexer.thy ===== *)
theory Indexer
  imports DocIndex Pipeline Jobs
begin

text \<open>
  The document indexer, \<open>app/ingestion/indexer.py\<close>. State: the database as the session sees it and as last
  committed, the two Qdrant collections, the object store and the volume. External services are the
  fields of \<open>index_env\<close>; \<open>ie_fault\<close> says which of their calls raise, and with which message. A stage
  callback commits, as the worker's does. \<open>None\<close>: the pipeline does not return.
\<close>

record istore =
  ix_db :: db
  ix_saved :: db
  ix_chunks :: "chunk_point qcoll"
  ix_pages :: "page_point qcoll"
  ix_objects :: objects
  ix_volume :: volume

datatype io_call = Io_ensure | Io_clear | Io_put nat | Io_upsert

record index_env =
  ie_model :: cfg_model
  ie_ingest :: cfg_ingest
  ie_dir :: pystr
  ie_libs :: libs
  ie_vlm :: "nat list \<Rightarrow> pystr \<Rightarrow> int option \<Rightarrow> pystr option"
  ie_dense :: "pystr \<Rightarrow> pystr + vec"
  ie_sparse :: "pystr \<Rightarrow> pystr + nat list \<times> rat list"
  ie_render :: "nat list \<Rightarrow> (int \<times> nat list) list"
  ie_embed_page :: "nat list \<Rightarrow> vec list option"
  ie_sha :: "nat list \<Rightarrow> pystr"
  ie_object_err :: "pystr \<times> pystr \<Rightarrow> bool"
  ie_fault :: "io_call \<Rightarrow> pystr option"
  ie_ids :: "nat \<Rightarrow> uuid"
  ie_page_ids :: "uuid list"
  ie_now :: time

subsection \<open>Transactions\<close>

definition commit :: "istore \<Rightarrow> istore" where
  "commit st = st\<lparr>ix_saved := ix_db st\<rparr>"

definition rollback :: "istore \<Rightarrow> istore" where
  "rollback st = st\<lparr>ix_db := ix_saved st\<rparr>"

definition on_db :: "(db \<Rightarrow> db) \<Rightarrow> istore \<Rightarrow> istore" where
  "on_db f st = st\<lparr>ix_db := f (ix_db st)\<rparr>"

text \<open>The worker's \<open>_stage\<close>: the progress row follows, and everything pending is committed; without a
  progress row nothing happens.\<close>

definition on_stage :: "uuid option \<Rightarrow> ingest_status \<Rightarrow> istore \<Rightarrow> istore" where
  "on_stage job st s = (case job of None \<Rightarrow> s | Some j \<Rightarrow>
     if get_by j_id j (t_jobs (ix_db s)) = None then s else commit (on_db (job_stage j st) s))"

subsection \<open>Clearing and the figure sink\<close>

definition clear_existing :: "uuid \<Rightarrow> istore \<Rightarrow> istore" where
  "clear_existing doc st =
     st\<lparr>ix_db := (ix_db st)\<lparr>t_chunks := filter (\<lambda>c. ch_doc c \<noteq> doc) (t_chunks (ix_db st))\<rparr>,
        ix_chunks := qc_delete (chunk_of_document doc) (ix_chunks st)\<rparr>"

definition pad3 :: "nat \<Rightarrow> pystr" where
  "pad3 n = (let s = nat_str n in replicate (3 - length s) 48 @ s)"

definition figure_id :: "int option \<Rightarrow> nat \<Rightarrow> pystr" where
  "figure_id page n = lit ''p'' @ int_str (case page of None \<Rightarrow> 0 | Some p \<Rightarrow> p) @ lit ''-'' @ pad3 n"

definition figure_sink :: "index_env \<Rightarrow> uuid option \<Rightarrow> uuid \<Rightarrow> (istore \<times> nat) sink" where
  "figure_sink e job doc el s = (case s of (st, n) \<Rightarrow>
     (case mt_png (el_meta el) of
        None \<Rightarrow> (Inr (None, el_content el), (st, n))
      | Some png \<Rightarrow>
          if png = [] then (Inr (None, el_content el), (st, n))
          else let st1 = on_stage job Q_CAPTIONING st in
            (case ie_fault e (Io_put (n + 1)) of
               Some msg \<Rightarrow> (Inl msg, (st1, n + 1))
             | None \<Rightarrow>
                 (case put_figure (ie_model e) doc (figure_id (el_page el) (n + 1)) png (ix_objects st1) of (uri, os) \<Rightarrow>
                    (Inr (Some uri, caption (ie_model e) (ie_vlm e) png (chunk_type_value (el_kind el)) (el_page el)
                        (if el_content el = [] then None else Some (el_content el))),
                     (st1\<lparr>ix_objects := os\<rparr>, n + 1))))))"

subsection \<open>Rows and points\<close>

definition json_strs :: "pystr list \<Rightarrow> json" where
  "json_strs xs = JList (map JStr xs)"

text \<open>The metadata dictionary as JSON; bytes have no JSON form, so the statement would raise.\<close>

definition meta_json :: "meta \<Rightarrow> (pystr \<times> json) list option" where
  "meta_json m =
     (if mt_png m \<noteq> None then None
      else Some ((case mt_rows m of None \<Rightarrow> [] | Some r \<Rightarrow> [(lit ''rows'', JList (map json_strs r))])
        @ (case mt_header m of None \<Rightarrow> [] | Some h \<Rightarrow> [(lit ''header'', json_strs h)])
        @ (case mt_caption m of None \<Rightarrow> [] | Some c \<Rightarrow> [(lit ''caption'', JStr c)])
        @ (case mt_uri m of None \<Rightarrow> [] | Some u \<Rightarrow> [(lit ''image_uri'', JStr u)])
        @ mt_flags m
        @ (case mt_bbox m of None \<Rightarrow> [] | Some (l, t, r, b) \<Rightarrow> [(lit ''bbox'', JList [JNum l, JNum t, JNum r, JNum b])])
        @ (case mt_repr m of None \<Rightarrow> [] | Some r \<Rightarrow> [(lit ''table_repr'', JStr r)])
        @ (case mt_range m of None \<Rightarrow> [] | Some (a, b) \<Rightarrow> [(lit ''row_range'', JList [JInt (int a), JInt (int b)])])))"

definition chunk_row_of :: "index_env \<Rightarrow> doc_row \<Rightarrow> uuid \<Rightarrow> pystr \<Rightarrow> chunk_data \<Rightarrow> chunk_row" where
  "chunk_row_of e doc i digest c = \<lparr>ch_id = i, ch_doc = d_id doc, ch_coll = d_coll doc, ch_filename = d_filename doc,
     ch_filetype = d_type doc, ch_page = cd_page c, ch_section = cd_section c, ch_type = cd_type c, ch_index = cd_index c,
     ch_raw = cd_raw c, ch_norm = cd_norm c, ch_meta = (case meta_json (cd_meta c) of None \<Rightarrow> [] | Some m \<Rightarrow> m), ch_hash = digest\<rparr>"

definition chunk_payload_of :: "doc_row \<Rightarrow> uuid \<Rightarrow> chunk_data \<Rightarrow> chunk_payload" where
  "chunk_payload_of doc i c = \<lparr>cy_document = Some (str_uuid (d_id doc)), cy_collection = Some (str_uuid (d_coll doc)),
     cy_chunk = str_uuid i, cy_type = chunk_type_value (cd_type c), cy_page = cd_page c, cy_section = cd_section c,
     cy_file = d_filename doc, cy_filetype = d_type doc, cy_content = cd_norm c, cy_image = mt_uri (cd_meta c)\<rparr>"

definition encode_error :: pystr where
  "encode_error = lit ''utf-8 codec error: surrogates not allowed''"

definition index_chunk :: "index_env \<Rightarrow> doc_row \<Rightarrow> uuid \<Rightarrow> chunk_data \<Rightarrow> pystr + chunk_row \<times> (uuid \<times> chunk_point)" where
  "index_chunk e doc i c =
     (case text_hash (ie_sha e) (cd_norm c) of None \<Rightarrow> Inl encode_error
      | Some digest \<Rightarrow>
          let t = (if cd_norm c \<noteq> [] then cd_norm c else cd_raw c) in
          (case ie_dense e t of Inl er \<Rightarrow> Inl er
           | Inr dense \<Rightarrow> (case ie_sparse e t of Inl er \<Rightarrow> Inl er
              | Inr sparse \<Rightarrow> Inr (chunk_row_of e doc i digest c, make_point i dense sparse (chunk_payload_of doc i c)))))"

fun index_chunks :: "index_env \<Rightarrow> doc_row \<Rightarrow> nat \<Rightarrow> chunk_data list \<Rightarrow> pystr + (chunk_row \<times> (uuid \<times> chunk_point)) list" where
  "index_chunks e doc k [] = Inr []"
| "index_chunks e doc k (c # cs) =
     (case index_chunk e doc (ie_ids e k) c of Inl er \<Rightarrow> Inl er
      | Inr x \<Rightarrow> (case index_chunks e doc (Suc k) cs of Inl er \<Rightarrow> Inl er | Inr xs \<Rightarrow> Inr (x # xs)))"

text \<open>What the database refuses when the rows are flushed: a section title over 1024 characters, a zero
  character in a text column, metadata without a JSON form.\<close>

definition row_refused :: "chunk_data \<Rightarrow> bool" where
  "row_refused c \<longleftrightarrow> (case cd_section c of None \<Rightarrow> False | Some s \<Rightarrow> 1024 < length s \<or> 0 \<in> set s)
     \<or> 0 \<in> set (cd_raw c) \<or> 0 \<in> set (cd_norm c) \<or> meta_json (cd_meta c) = None"

definition flush_error :: pystr where
  "flush_error = lit ''DataError''"

subsection \<open>index\_document\<close>

definition page_pass :: "index_env \<Rightarrow> doc_row \<Rightarrow> nat list \<Rightarrow> istore \<Rightarrow> istore" where
  "page_pass e doc data st =
     (if visual_path (ie_model e) = lit ''full'' \<and> d_type doc = lit ''pdf''
      then (case index_pages (ie_model e) (ie_render e) (ie_embed_page e) (d_id doc) (d_coll doc) data (d_filename doc) (d_type doc)
               (ie_page_ids e) (ix_objects st) (ix_pages st) of (n, os, q) \<Rightarrow> st\<lparr>ix_objects := os, ix_pages := q\<rparr>)
      else st)"

text \<open>After the pipeline: rows, points, page pass, commit.\<close>

definition store_chunks :: "index_env \<Rightarrow> doc_row \<Rightarrow> nat list \<Rightarrow> chunk_data list \<Rightarrow> int \<Rightarrow> istore \<Rightarrow> (pystr + nat) \<times> istore" where
  "store_chunks e doc data cs pages st =
     (case index_chunks e doc 0 cs of Inl er \<Rightarrow> (Inl er, st)
      | Inr xs \<Rightarrow>
        (case ie_fault e Io_upsert of Some msg \<Rightarrow> (Inl msg, st)
         | None \<Rightarrow>
           let st1 = st\<lparr>ix_db := (ix_db st)\<lparr>t_chunks := t_chunks (ix_db st) @ map fst xs\<rparr>,
                         ix_chunks := qc_upsert (map snd xs) (ix_chunks st)\<rparr>;
               st2 = page_pass e doc data st1
           in if list_ex row_refused cs then (Inl flush_error, st2)
              else (Inr (length cs),
                    commit (on_db (upd_doc (ie_now e) (d_id doc) (\<lambda>d. d\<lparr>d_status := INDEXED, d_pages := Some pages\<rparr>)) st2))))"

text \<open>The \<open>try\<close> block.\<close>

definition index_body :: "index_env \<Rightarrow> uuid option \<Rightarrow> doc_row \<Rightarrow> istore \<Rightarrow> ((pystr + nat) \<times> istore) option" where
  "index_body e job doc st0 =
     (let st1 = on_stage job Q_PARSING st0 in
      case read_document (ie_dir e) (d_id doc) (d_filename doc) (ix_volume st1) of
        None \<Rightarrow> Some (Inl (lit ''No such file or directory''), st1)
      | Some data \<Rightarrow>
        (case ie_fault e Io_ensure of Some msg \<Rightarrow> Some (Inl msg, st1)
         | None \<Rightarrow>
           let st2 = st1\<lparr>ix_chunks := qc_ensure (ix_chunks st1)\<rparr> in
           (case ie_fault e Io_clear of Some msg \<Rightarrow> Some (Inl msg, st2)
            | None \<Rightarrow>
              let st3 = clear_existing (d_id doc) st2;
                  st4 = st3\<lparr>ix_objects := snd (objects_delete_document (ie_model e) (ie_object_err e) (d_id doc) (ix_objects st3))\<rparr>
              in (case run_pipeline (ie_ingest e) (ie_libs e) (Some (figure_sink e job (d_id doc))) data (d_type doc) (st4, 0) of
                    None \<Rightarrow> None
                  | Some (Inl er, (st5, n)) \<Rightarrow> Some (Inl er, st5)
                  | Some (Inr (cs, pages), (st5, n)) \<Rightarrow> Some (store_chunks e doc data cs pages (on_stage job Q_INDEXING st5))))))"

definition index_failed :: "time \<Rightarrow> uuid \<Rightarrow> pystr \<Rightarrow> istore \<Rightarrow> istore" where
  "index_failed now i er st =
     (let st1 = rollback st in
      if get_by d_id i (t_documents (ix_db st1)) = None then st1
      else commit (on_db (upd_doc now i (\<lambda>d. d\<lparr>d_status := FAILED, d_error := Some (take 2000 er)\<rparr>)) st1))"

definition index_document :: "index_env \<Rightarrow> uuid option \<Rightarrow> uuid \<Rightarrow> istore \<Rightarrow> ((pystr + nat) \<times> istore) option" where
  "index_document e job i st =
     (case get_by d_id i (t_documents (ix_db st)) of
        None \<Rightarrow> Some (Inl (lit ''Document '' @ str_uuid i @ lit '' not found''), st)
      | Some doc \<Rightarrow>
          let st0 = commit (on_db (upd_doc (ie_now e) i (\<lambda>d. d\<lparr>d_status := PROCESSING, d_error := None\<rparr>)) st) in
          (case index_body e job doc st0 of None \<Rightarrow> None
           | Some (Inl er, st1) \<Rightarrow> Some (Inl er, index_failed (ie_now e) i er st1)
           | Some (Inr n, st1) \<Rightarrow> Some (Inr n, st1)))"

subsection \<open>Isolation: what belongs to other documents\<close>

definition foreign_db :: "uuid \<Rightarrow> db \<Rightarrow> doc_row list \<times> chunk_row list \<times> user_row list \<times> coll_row list \<times> perm_row list" where
  "foreign_db i d = (filter (\<lambda>r. d_id r \<noteq> i) (t_documents d), filter (\<lambda>c. ch_doc c \<noteq> i) (t_chunks d), t_users d, t_collections d,
     t_permissions d)"

definition foreign_chunks :: "uuid \<Rightarrow> istore \<Rightarrow> (uuid \<times> chunk_point) list" where
  "foreign_chunks i st = filter (\<lambda>x. \<not> chunk_of_document i (snd x)) (qc_points (ix_chunks st))"

definition foreign_pages :: "uuid \<Rightarrow> istore \<Rightarrow> (uuid \<times> page_point) list" where
  "foreign_pages i st = filter (\<lambda>x. \<not> page_of_document i (snd x)) (qc_points (ix_pages st))"

definition foreign_objects :: "uuid \<Rightarrow> objects \<Rightarrow> objects" where
  "foreign_objects i os = filter (\<lambda>ob. \<not> object_of i ob) os"

definition isolated :: "uuid \<Rightarrow> istore \<Rightarrow> istore \<Rightarrow> bool" where
  "isolated i st0 st \<longleftrightarrow> foreign_db i (ix_db st) = foreign_db i (ix_db st0) \<and> foreign_db i (ix_saved st) = foreign_db i (ix_db st0)
     \<and> foreign_chunks i st = foreign_chunks i st0 \<and> foreign_pages i st = foreign_pages i st0
     \<and> foreign_objects i (ix_objects st) = foreign_objects i (ix_objects st0) \<and> ix_volume st = ix_volume st0"

definition unused_ids :: "index_env \<Rightarrow> uuid \<Rightarrow> istore \<Rightarrow> bool" where
  "unused_ids e i st \<longleftrightarrow> (\<forall>x \<in> set (foreign_chunks i st). fst x \<notin> range (ie_ids e)) \<and> (\<forall>x \<in> set (foreign_pages i st). fst x \<notin> set (ie_page_ids e))"

lemma isolated_commit [intro]: "isolated i st0 st \<Longrightarrow> isolated i st0 (commit st)" "isolated i st0 st \<Longrightarrow> isolated i st0 (rollback st)"
  by (simp_all add: isolated_def commit_def rollback_def foreign_chunks_def foreign_pages_def)

lemma isolated_on_db: "isolated i st0 st \<Longrightarrow> (\<And>d. foreign_db i (f d) = foreign_db i d) \<Longrightarrow> isolated i st0 (on_db f st)"
  by (simp add: isolated_def on_db_def foreign_chunks_def foreign_pages_def)

lemma filter_upd_by: "(\<And>r. key (f r) = key r) \<Longrightarrow> filter (\<lambda>r. key r \<noteq> k) (upd_by key k f rows) = filter (\<lambda>r. key r \<noteq> k) rows"
  by (induction rows) (auto simp: upd_by_def)

lemma foreign_upd_doc: "(\<And>r. d_id (f r) = d_id r) \<Longrightarrow> foreign_db i (upd_doc now i f d) = foreign_db i d"
  by (simp add: foreign_db_def upd_doc_def filter_upd_by)

lemma foreign_job_stage: "foreign_db i (job_stage j st d) = foreign_db i d"
  by (simp add: foreign_db_def job_stage_def)

lemma isolated_stage [intro]: "isolated i st0 st \<Longrightarrow> isolated i st0 (on_stage job q st)"
  by (auto simp: on_stage_def foreign_job_stage intro!: isolated_commit isolated_on_db split: option.splits)

lemma isolated_clear [intro]: "isolated i st0 st \<Longrightarrow> isolated i st0 (clear_existing i st)"
  by (simp add: isolated_def clear_existing_def foreign_db_def foreign_chunks_def foreign_pages_def qc_delete_def)

lemma isolated_ensure [intro]: "isolated i st0 st \<Longrightarrow> isolated i st0 (st\<lparr>ix_chunks := qc_ensure (ix_chunks st)\<rparr>)"
  by (simp add: isolated_def foreign_chunks_def foreign_pages_def)

lemma isolated_objects: "isolated i st0 st \<Longrightarrow> foreign_objects i os = foreign_objects i (ix_objects st) \<Longrightarrow> isolated i st0 (st\<lparr>ix_objects := os\<rparr>)"
  by (simp add: isolated_def foreign_chunks_def foreign_pages_def)

lemma foreign_delete: "foreign_objects i (snd (objects_delete_document cfg err i os)) = foreign_objects i os"
  by (simp add: objects_delete_document_def delete_in_bucket_def Let_def foreign_objects_def object_of_def conj_commute cong: conj_cong)


lemma foreign_put:
  assumes "object_of i ((b, k), [])"
  shows "foreign_objects i (snd (put_object b k bytes os)) = foreign_objects i os"
proof -
  have "object_of i ((b, k), x)" for x using assms by (simp add: object_of_def)
  then show ?thesis
    unfolding put_object_def foreign_objects_def by (auto intro!: filter_cong simp: object_of_def)
qed

lemma figure_key_of: "object_of i ((b, figure_key i fid), [])" "object_of i ((b, page_key i n), [])"
  by (simp_all add: object_of_def document_prefix_def figure_key_def page_key_def)

lemma isolated_sink: "isolated i st0 st \<Longrightarrow> isolated i st0 (fst (snd (figure_sink e job i el (st, n))))"
proof -
  assume a: "isolated i st0 st"
  note b = isolated_stage [OF a, of job Q_CAPTIONING]
  have "foreign_objects i os = foreign_objects i (ix_objects (on_stage job Q_CAPTIONING st))"
    if "put_figure (ie_model e) i fid png (ix_objects (on_stage job Q_CAPTIONING st)) = (uri, os)" for fid png uri os
    using foreign_put [OF figure_key_of(1)] that unfolding put_figure_def by (metis snd_conv)
  then show ?thesis
    using a b by (auto simp: figure_sink_def Let_def intro!: isolated_objects split: option.splits prod.splits)
qed

subsection \<open>The pipeline threads the sink's state\<close>

lemma resolve_figures_inv:
  assumes "\<And>el s. P s \<Longrightarrow> P (snd (sink el s))" and "P s"
  shows "P (snd (resolve_figures (Some sink) els s))"
  using assms(2)
proof (induction els arbitrary: s)
  case (Cons el els)
  have step: "P (snd (sink el s))" by (rule assms(1) [OF Cons.prems])
  show ?case
  proof (cases "mt_png (el_meta el) = None")
    case True
    then show ?thesis using Cons.IH [OF Cons.prems] by (auto split: prod.split)
  next
    case False
    then show ?thesis using step Cons.IH [of "snd (sink el s)"] by (cases "sink el s") (auto split: sum.split prod.split)
  qed
qed simp

lemma run_pipeline_inv:
  assumes "\<And>el s. P s \<Longrightarrow> P (snd (sink el s))" and "P s" and "run_pipeline cfg lb (Some sink) data t s = Some (r, s')"
  shows "P s'"
proof -
  have res: "P s1" if "resolve_figures (Some sink) els s = (x, s1)" for els x s1
    using resolve_figures_inv [of P sink s els, OF assms(1) assms(2)] that by simp
  show ?thesis
    using assms(2,3) res unfolding run_pipeline_def Let_def
    by (auto split: sum.splits prod.splits if_splits)
qed

subsection \<open>Page pass and storing\<close>

lemma foreign_page_points: "foreign_objects i (snd (page_points cfg emb i coll file ft ps ids os)) = foreign_objects i os"
proof (induction ps arbitrary: ids os)
  case (Cons p ps)
  obtain n png where p: "p = (n, png)" by (cases p)
  obtain uri os1 where put: "put_page cfg i n png os = (uri, os1)" by fastforce
  have "foreign_objects i os1 = foreign_objects i os"
    using foreign_put [OF figure_key_of(2)] put unfolding put_page_def by (metis snd_conv)
  then show ?case using Cons.IH by (auto simp: p put split: option.split list.split prod.split) (metis snd_conv)+
qed simp

lemma filter_upsert_foreign:
  assumes "\<And>x. x \<in> set ps \<Longrightarrow> sel (snd x)" and "\<And>x. x \<in> set (qc_points q) \<Longrightarrow> \<not> sel (snd x) \<Longrightarrow> fst x \<notin> fst ` set ps"
  shows "filter (\<lambda>x. \<not> sel (snd x)) (qc_points (qc_upsert ps q)) = filter (\<lambda>x. \<not> sel (snd x)) (qc_points q)"
proof -
  have a: "filter (\<lambda>x. \<not> sel (snd x)) ps = []" using assms(1) by (simp add: filter_empty_conv)
  have b: "filter (\<lambda>x. \<not> sel (snd x)) (filter (\<lambda>x. fst x \<notin> fst ` set ps) (qc_points q)) = filter (\<lambda>x. \<not> sel (snd x)) (qc_points q)"
    unfolding filter_filter by (rule filter_cong [OF refl]) (use assms(2) in blast)
  show ?thesis by (simp add: qc_upsert_def a b del: filter_filter)
qed

lemma isolated_page_pass:
  assumes "isolated (d_id doc) st0 st" and "unused_ids e (d_id doc) st0"
  shows "isolated (d_id doc) st0 (page_pass e doc data st)"
proof (cases "visual_path (ie_model e) = lit ''full'' \<and> d_type doc = lit ''pdf'' \<and> visual_enabled (ie_model e) (colqwen_base_url (ie_model e))")
  case True
  let ?i = "d_id doc"
  obtain pts os where pp: "page_points (ie_model e) (ie_embed_page e) ?i (d_coll doc) (d_filename doc) (d_type doc) (ie_render e data) (ie_page_ids e) (ix_objects st) = (pts, os)"
    by fastforce
  have os: "foreign_objects ?i os = foreign_objects ?i (ix_objects st)"
    using foreign_page_points [of ?i "ie_model e" "ie_embed_page e" "d_coll doc" "d_filename doc" "d_type doc" "ie_render e data" "ie_page_ids e" "ix_objects st"] pp by simp
  have mine: "page_of_document ?i (snd x) \<and> fst x \<in> set (ie_page_ids e)" if "x \<in> set pts" for x
    using page_points_payload [of x "ie_model e" "ie_embed_page e" ?i "d_coll doc" "d_filename doc" "d_type doc" "ie_render e data" "ie_page_ids e" "ix_objects st"] that pp
    by (auto simp: page_of_document_def page_payload_of_def)
  let ?q = "qc_upsert pts (pages_delete_by_document ?i (qc_ensure (ix_pages st)))"
  have "\<forall>x \<in> set (foreign_pages ?i st). fst x \<notin> set (ie_page_ids e)"
    using assms unfolding unused_ids_def isolated_def by simp
  then have fresh: "fst x \<notin> fst ` set pts" if "x \<in> set (qc_points (ix_pages st))" "\<not> page_of_document ?i (snd x)" for x
  proof -
    have "x \<in> set (foreign_pages ?i st)" using that by (simp add: foreign_pages_def)
    then have "fst x \<notin> set (ie_page_ids e)" using \<open>\<forall>x \<in> set (foreign_pages ?i st). fst x \<notin> set (ie_page_ids e)\<close> by blast
    moreover have "fst ` set pts \<subseteq> set (ie_page_ids e)" using mine by blast
    ultimately show ?thesis by blast
  qed
  have pd: "qc_points (pages_delete_by_document ?i (qc_ensure (ix_pages st))) = foreign_pages ?i st"
    by (simp add: pages_delete_by_document_def qc_delete_def foreign_pages_def)
  have "filter (\<lambda>x. \<not> page_of_document ?i (snd x)) (qc_points ?q)
      = filter (\<lambda>x. \<not> page_of_document ?i (snd x)) (qc_points (pages_delete_by_document ?i (qc_ensure (ix_pages st))))"
    by (rule filter_upsert_foreign) (use mine fresh in \<open>auto simp: pd foreign_pages_def\<close>)
  then have "filter (\<lambda>x. \<not> page_of_document ?i (snd x)) (qc_points ?q) = foreign_pages ?i st"
    by (simp add: pd) (simp add: foreign_pages_def)
  then have "isolated ?i st0 (st\<lparr>ix_objects := os, ix_pages := ?q\<rparr>)"
    using assms(1) os by (simp add: isolated_def foreign_chunks_def foreign_pages_def)
  then show ?thesis using True pp by (simp add: page_pass_def index_pages_def)
next
  case False
  then show ?thesis using assms(1) by (auto simp: page_pass_def index_pages_def)
qed

lemma index_chunks_props:
  "index_chunks e doc k cs = Inr xs \<Longrightarrow> map (ch_id \<circ> fst) xs = map (ie_ids e) [k..<k + length cs]
     \<and> map (fst \<circ> snd) xs = map (ie_ids e) [k..<k + length cs]
     \<and> (\<forall>x \<in> set xs. ch_doc (fst x) = d_id doc \<and> ch_coll (fst x) = d_coll doc \<and> chunk_of_document (d_id doc) (snd (snd x))
          \<and> cy_collection (cx_payload (snd (snd x))) = Some (str_uuid (d_coll doc)) \<and> cy_chunk (cx_payload (snd (snd x))) = str_uuid (ch_id (fst x))
          \<and> cy_content (cx_payload (snd (snd x))) = ch_norm (fst x))"
proof (induction cs arbitrary: k xs)
  case (Cons c cs)
  obtain x ys where x: "index_chunk e doc (ie_ids e k) c = Inr x" and ys: "index_chunks e doc (Suc k) cs = Inr ys" and xs: "xs = x # ys"
    using Cons.prems by (auto split: sum.splits)
  have "ch_id (fst x) = ie_ids e k \<and> fst (snd x) = ie_ids e k \<and> ch_doc (fst x) = d_id doc \<and> ch_coll (fst x) = d_coll doc
      \<and> chunk_of_document (d_id doc) (snd (snd x)) \<and> cy_collection (cx_payload (snd (snd x))) = Some (str_uuid (d_coll doc))
      \<and> cy_chunk (cx_payload (snd (snd x))) = str_uuid (ch_id (fst x)) \<and> cy_content (cx_payload (snd (snd x))) = ch_norm (fst x)"
    using x by (auto simp: index_chunk_def Let_def chunk_row_of_def make_point_def chunk_payload_of_def chunk_of_document_def
        split: option.splits sum.splits)
  moreover have "[k..<k + length (c # cs)] = k # [Suc k..<Suc k + length cs]" by (simp add: upt_conv_Cons del: upt_Suc)
  ultimately show ?case using Cons.IH [OF ys] by (simp add: xs del: upt_Suc)
qed simp

lemma page_pass_frame [simp]:
  "ix_db (page_pass e doc data st) = ix_db st" "ix_saved (page_pass e doc data st) = ix_saved st"
  "ix_chunks (page_pass e doc data st) = ix_chunks st"
  by (auto simp: page_pass_def split: prod.splits)

lemma isolated_store_chunks:
  assumes "isolated (d_id doc) st0 st" and "unused_ids e (d_id doc) st0"
  shows "isolated (d_id doc) st0 (snd (store_chunks e doc data cs pages st))"
proof (cases "index_chunks e doc 0 cs")
  case (Inl er)
  with assms(1) show ?thesis by (simp add: store_chunks_def)
next
  case (Inr xs)
  let ?i = "d_id doc"
  note props = index_chunks_props [OF Inr]
  show ?thesis
  proof (cases "ie_fault e Io_upsert")
    case None
    let ?st1 = "st\<lparr>ix_db := (ix_db st)\<lparr>t_chunks := t_chunks (ix_db st) @ map fst xs\<rparr>, ix_chunks := qc_upsert (map snd xs) (ix_chunks st)\<rparr>"
    have "fst ` set (map snd xs) = set (map (fst \<circ> snd) xs)" by (simp add: image_image)
    then have ids: "fst ` set (map snd xs) \<subseteq> range (ie_ids e)" using props by auto
    have new: "chunk_of_document ?i (snd x)" if "x \<in> set (map snd xs)" for x using that props by auto
    have "\<forall>x \<in> set (foreign_chunks ?i st). fst x \<notin> range (ie_ids e)"
      using assms unfolding unused_ids_def isolated_def by simp
    then have fresh: "fst x \<notin> fst ` set (map snd xs)" if "x \<in> set (qc_points (ix_chunks st))" "\<not> chunk_of_document ?i (snd x)" for x
    proof -
      have "x \<in> set (foreign_chunks ?i st)" using that by (simp add: foreign_chunks_def)
      then show ?thesis using \<open>\<forall>x \<in> set (foreign_chunks ?i st). fst x \<notin> range (ie_ids e)\<close> ids by blast
    qed
    have "filter (\<lambda>x. \<not> chunk_of_document ?i (snd x)) (qc_points (qc_upsert (map snd xs) (ix_chunks st))) = foreign_chunks ?i st"
      unfolding foreign_chunks_def by (rule filter_upsert_foreign) (use new fresh in auto)
    moreover have "foreign_db ?i ((ix_db st)\<lparr>t_chunks := t_chunks (ix_db st) @ map fst xs\<rparr>) = foreign_db ?i (ix_db st)"
      using props by (auto simp: foreign_db_def filter_empty_conv)
    ultimately have "isolated ?i st0 ?st1"
      using assms(1) by (simp add: isolated_def foreign_chunks_def foreign_pages_def)
    from isolated_page_pass [OF this assms(2)] None Inr show ?thesis
      by (auto simp: store_chunks_def Let_def intro!: isolated_commit isolated_on_db foreign_upd_doc)
  qed (use Inr assms(1) in \<open>simp add: store_chunks_def\<close>)
qed

lemma isolated_failed: "isolated i st0 st \<Longrightarrow> isolated i st0 (index_failed now i er st)"
  by (auto simp: index_failed_def Let_def intro!: isolated_commit isolated_on_db foreign_upd_doc)

lemma isolated_body:
  assumes "isolated (d_id doc) st0 st" and "unused_ids e (d_id doc) st0" and "index_body e job doc st = Some (r, st')"
  shows "isolated (d_id doc) st0 st'"
proof -
  let ?i = "d_id doc" and ?st1 = "on_stage job Q_PARSING st"
  let ?st2 = "?st1\<lparr>ix_chunks := qc_ensure (ix_chunks ?st1)\<rparr>"
  let ?st3 = "clear_existing ?i ?st2"
  let ?st4 = "?st3\<lparr>ix_objects := snd (objects_delete_document (ie_model e) (ie_object_err e) ?i (ix_objects ?st3))\<rparr>"
  have i1: "isolated ?i st0 ?st1" "isolated ?i st0 ?st2" using assms(1) by auto
  have i4: "isolated ?i st0 ?st4" using i1(2) by (intro isolated_objects foreign_delete) auto
  have pipe: "isolated ?i st0 (fst s')" if "run_pipeline (ie_ingest e) (ie_libs e) (Some (figure_sink e job ?i)) data t (?st4, 0) = Some (x, s')" for data t x s'
    by (rule run_pipeline_inv [where P = "\<lambda>s. isolated ?i st0 (fst s)", OF _ _ that]) (use i4 isolated_sink in \<open>auto simp: split_beta\<close>)
  show ?thesis
  proof (cases "read_document (ie_dir e) ?i (d_filename doc) (ix_volume ?st1)")
    case None
    with assms(3) i1 show ?thesis by (simp add: index_body_def Let_def)
  next
    case (Some data)
    consider "st' = ?st1" | "st' = ?st2"
      | x s' where "run_pipeline (ie_ingest e) (ie_libs e) (Some (figure_sink e job ?i)) data (d_type doc) (?st4, 0) = Some (x, s')"
          "st' = fst s' \<or> (\<exists>cs pages. st' = snd (store_chunks e doc data cs pages (on_stage job Q_INDEXING (fst s'))))"
      using assms(3) Some
      by (auto simp: index_body_def Let_def split: option.splits sum.splits prod.splits) (metis fst_conv snd_conv)+
    then show ?thesis
    proof cases
      case 3
      from pipe [OF 3(1)] have "isolated ?i st0 (fst s')" .
      with 3(2) show ?thesis using isolated_store_chunks [OF isolated_stage assms(2)] by auto
    qed (use i1 in simp_all)
  qed
qed

subsection \<open>What a run leaves of its own document\<close>

definition row_is :: "uuid \<Rightarrow> doc_row \<Rightarrow> istore \<Rightarrow> bool" where
  "row_is i r st \<longleftrightarrow> get_by d_id i (t_documents (ix_db st)) = Some r \<and> get_by d_id i (t_documents (ix_saved st)) = Some r"

definition own_points :: "uuid \<Rightarrow> istore \<Rightarrow> (uuid \<times> chunk_point) list" where
  "own_points i st = filter (\<lambda>x. chunk_of_document i (snd x)) (qc_points (ix_chunks st))"

definition own_rows :: "uuid \<Rightarrow> db \<Rightarrow> chunk_row list" where
  "own_rows i d = filter (\<lambda>c. ch_doc c = i) (t_chunks d)"

definition cleared :: "uuid \<Rightarrow> istore \<Rightarrow> bool" where
  "cleared i st \<longleftrightarrow> own_points i st = [] \<and> own_rows i (ix_db st) = []"

text \<open>The state the pipeline starts from.\<close>

definition prepared :: "index_env \<Rightarrow> uuid option \<Rightarrow> doc_row \<Rightarrow> istore \<Rightarrow> istore" where
  "prepared e job doc st =
     (let st1 = on_stage job Q_PARSING st;
          st3 = clear_existing (d_id doc) (st1\<lparr>ix_chunks := qc_ensure (ix_chunks st1)\<rparr>)
      in st3\<lparr>ix_objects := snd (objects_delete_document (ie_model e) (ie_object_err e) (d_id doc) (ix_objects st3))\<rparr>)"

definition rows_from :: "chunk_row set \<Rightarrow> istore \<Rightarrow> bool" where
  "rows_from R st \<longleftrightarrow> set (t_chunks (ix_db st)) \<subseteq> R \<and> set (t_chunks (ix_saved st)) \<subseteq> R"

definition steady :: "uuid \<Rightarrow> doc_row \<Rightarrow> chunk_row set \<Rightarrow> istore \<Rightarrow> bool" where
  "steady i r R st \<longleftrightarrow> row_is i r st \<and> rows_from R st"

lemma job_stage_frame [simp]: "t_documents (job_stage j q d) = t_documents d" "t_chunks (job_stage j q d) = t_chunks d"
  by (simp_all add: job_stage_def)

lemma steady_stage [intro]: "steady i r R st \<Longrightarrow> steady i r R (on_stage job q st)"
  by (auto simp: steady_def row_is_def rows_from_def on_stage_def commit_def on_db_def split: option.splits)

lemma cleared_stage [intro]: "cleared i st \<Longrightarrow> cleared i (on_stage job q st)"
  by (auto simp: cleared_def own_points_def own_rows_def on_stage_def commit_def on_db_def split: option.splits)

lemma steady_objects [simp]: "steady i r R (st\<lparr>ix_objects := os\<rparr>) = steady i r R st" "cleared i (st\<lparr>ix_objects := os\<rparr>) = cleared i st"
  by (simp_all add: steady_def row_is_def rows_from_def cleared_def own_points_def own_rows_def)

lemma sink_keeps:
  "steady i r R st \<Longrightarrow> steady i r R (fst (snd (figure_sink e job d el (st, n))))"
  "cleared i st \<Longrightarrow> cleared i (fst (snd (figure_sink e job d el (st, n))))"
  by (auto simp: figure_sink_def Let_def split: option.splits prod.splits)

lemma steady_prepared: "steady i r R st \<Longrightarrow> steady i r R (prepared e job doc st)"
  using steady_stage [of i r R st job Q_PARSING]
  by (auto simp: prepared_def Let_def) (auto simp: steady_def row_is_def rows_from_def clear_existing_def)

lemma cleared_prepared: "cleared (d_id doc) (prepared e job doc st)"
  by (auto simp: prepared_def Let_def cleared_def own_points_def own_rows_def clear_existing_def qc_delete_def filter_empty_conv)

lemma pipeline_keeps:
  assumes "run_pipeline cfg lb (Some (figure_sink e job d)) data t (st, n) = Some (x, s')"
  shows "steady i r R st \<Longrightarrow> steady i r R (fst s')" and "cleared i st \<Longrightarrow> cleared i (fst s')"
proof -
  show "steady i r R st \<Longrightarrow> steady i r R (fst s')"
    by (rule run_pipeline_inv [where P = "\<lambda>s. steady i r R (fst s)", OF _ _ assms]) (auto simp: split_beta sink_keeps)
  show "cleared i st \<Longrightarrow> cleared i (fst s')"
    by (rule run_pipeline_inv [where P = "\<lambda>s. cleared i (fst s)", OF _ _ assms]) (auto simp: split_beta sink_keeps)
qed

text \<open>The body, on its branches.\<close>

lemma index_body_cases:
  assumes "index_body e job doc st = Some (res, st')"
  obtains (early) er where "res = Inl er" "st' = on_stage job Q_PARSING st \<or> st' = (on_stage job Q_PARSING st)\<lparr>ix_chunks := qc_ensure (ix_chunks (on_stage job Q_PARSING st))\<rparr>"
  | (pipe) er data n where "res = Inl er"
      "run_pipeline (ie_ingest e) (ie_libs e) (Some (figure_sink e job (d_id doc))) data (d_type doc) (prepared e job doc st, 0) = Some (Inl er, (st', n))"
  | (stored) data cs pages st5 n where
      "run_pipeline (ie_ingest e) (ie_libs e) (Some (figure_sink e job (d_id doc))) data (d_type doc) (prepared e job doc st, 0) = Some (Inr (cs, pages), (st5, n))"
      "(res, st') = store_chunks e doc data cs pages (on_stage job Q_INDEXING st5)"
proof -
  let ?run = "\<lambda>data. run_pipeline (ie_ingest e) (ie_libs e) (Some (figure_sink e job (d_id doc))) data (d_type doc) (prepared e job doc st, 0)"
  have body: "index_body e job doc st = (case read_document (ie_dir e) (d_id doc) (d_filename doc) (ix_volume (on_stage job Q_PARSING st)) of
       None \<Rightarrow> Some (Inl (lit ''No such file or directory''), on_stage job Q_PARSING st)
     | Some data \<Rightarrow> (case ie_fault e Io_ensure of Some msg \<Rightarrow> Some (Inl msg, on_stage job Q_PARSING st)
        | None \<Rightarrow> (case ie_fault e Io_clear of
            Some msg \<Rightarrow> Some (Inl msg, (on_stage job Q_PARSING st)\<lparr>ix_chunks := qc_ensure (ix_chunks (on_stage job Q_PARSING st))\<rparr>)
          | None \<Rightarrow> (case ?run data of None \<Rightarrow> None
             | Some (Inl er, (st5, n)) \<Rightarrow> Some (Inl er, st5)
             | Some (Inr (cs, pages), (st5, n)) \<Rightarrow> Some (store_chunks e doc data cs pages (on_stage job Q_INDEXING st5))))))"
    unfolding index_body_def prepared_def Let_def ..
  show thesis
    using assms unfolding body
    by (auto split: option.splits sum.splits prod.splits intro: early pipe stored)
qed

lemma store_chunks_cases:
  assumes "store_chunks e doc data cs pages st = (res, st')"
  obtains (early) er where "res = Inl er" "st' = st"
  | (refused) xs where "res = Inl flush_error" "index_chunks e doc 0 cs = Inr xs" "list_ex row_refused cs"
      "ix_saved st' = ix_saved st" "ix_chunks st' = qc_upsert (map snd xs) (ix_chunks st)"
  | (complete) xs where "res = Inr (length cs)" "index_chunks e doc 0 cs = Inr xs" "\<not> list_ex row_refused cs" "ix_saved st' = ix_db st'"
      "ix_chunks st' = qc_upsert (map snd xs) (ix_chunks st)" "t_chunks (ix_db st') = t_chunks (ix_db st) @ map fst xs"
      "t_documents (ix_db st') = upd_by d_id (d_id doc) (touch (ie_now e) (\<lambda>d. d\<lparr>d_status := INDEXED, d_pages := Some pages\<rparr>)) (t_documents (ix_db st))"
  using assms
  by (auto simp: store_chunks_def Let_def commit_def on_db_def upd_doc_def split: sum.splits option.splits if_splits
      intro: early refused complete)

lemma own_upsert:
  assumes "own_points i st = []" and "\<And>x. x \<in> set ps \<Longrightarrow> chunk_of_document i (snd x)"
  shows "filter (\<lambda>x. chunk_of_document i (snd x)) (qc_points (qc_upsert ps (ix_chunks st))) = ps"
proof -
  have "filter (\<lambda>x. chunk_of_document i (snd x)) ps = ps" using assms(2) by (simp add: filter_id_conv)
  moreover have "filter (\<lambda>x. chunk_of_document i (snd x)) (filter P (qc_points (ix_chunks st))) = []" for P
    using assms(1) by (auto simp: own_points_def filter_empty_conv)
  ultimately show ?thesis using assms(1) by (simp add: qc_upsert_def own_points_def)
qed

lemma row_upd: "get_by d_id i rows = Some r \<Longrightarrow> (\<And>x. d_id (f x) = d_id x) \<Longrightarrow> get_by d_id i (upd_by d_id i f rows) = Some (f r)"
  by (simp add: docs.get_upd)

lemma steady_failed:
  assumes "steady i r R st"
  shows "get_by d_id i (t_documents (ix_db (index_failed now i er st))) = Some (touch now (\<lambda>r. r\<lparr>d_status := FAILED, d_error := Some (take 2000 er)\<rparr>) r)
     \<and> ix_saved (index_failed now i er st) = ix_db (index_failed now i er st) \<and> set (t_chunks (ix_db (index_failed now i er st))) \<subseteq> R
     \<and> ix_chunks (index_failed now i er st) = ix_chunks st"
  using assms by (auto simp: index_failed_def Let_def rollback_def commit_def on_db_def upd_doc_def steady_def row_is_def rows_from_def row_upd)

definition processing :: "time \<Rightarrow> doc_row \<Rightarrow> doc_row" where
  "processing now = touch now (\<lambda>r. r\<lparr>d_status := PROCESSING, d_error := None\<rparr>)"

lemma steady_start:
  assumes "get_by d_id i (t_documents (ix_db st)) = Some r" and "set (t_chunks (ix_db st)) \<subseteq> R"
  shows "steady i (processing now r) R (commit (on_db (upd_doc now i (\<lambda>d. d\<lparr>d_status := PROCESSING, d_error := None\<rparr>)) st))"
  using assms by (simp add: steady_def row_is_def rows_from_def commit_def on_db_def upd_doc_def processing_def row_upd)

definition start_index :: "time \<Rightarrow> uuid \<Rightarrow> istore \<Rightarrow> istore" where
  "start_index now i st = commit (on_db (upd_doc now i (\<lambda>d. d\<lparr>d_status := PROCESSING, d_error := None\<rparr>)) st)"

lemma index_document_body:
  assumes "get_by d_id i (t_documents (ix_db st)) = Some doc"
  shows "index_document e job i st = (case index_body e job doc (start_index (ie_now e) i st) of None \<Rightarrow> None
     | Some (Inl er, st1) \<Rightarrow> Some (Inl er, index_failed (ie_now e) i er st1) | Some (Inr n, st1) \<Rightarrow> Some (Inr n, st1))"
  using assms by (simp add: index_document_def start_index_def)

text \<open>
  C11. Indexing is confined to its document: whatever happens, success, failure at any step or a retry, the rows,
  points, page points, stored objects and files of every other document, the users, collections and
  grants are exactly what they were, in the session and in the committed database.
\<close>

theorem index_isolated:
  assumes "index_document e job i st = Some (res, st')" and "ix_saved st = ix_db st" and "unused_ids e i st"
  shows "isolated i st st'"
proof (cases "get_by d_id i (t_documents (ix_db st))")
  case None
  then show ?thesis using assms by (simp add: index_document_def isolated_def)
next
  case (Some doc)
  then have i: "d_id doc = i" by (auto dest: get_by_SomeD)
  have "isolated i st st" using assms(2) by (simp add: isolated_def)
  then have s0: "isolated i st (start_index (ie_now e) i st)"
    unfolding start_index_def by (intro isolated_commit isolated_on_db foreign_upd_doc) simp_all
  obtain r1 st1 where b: "index_body e job doc (start_index (ie_now e) i st) = Some (r1, st1)"
      and st': "st' = st1 \<or> (\<exists>er. st' = index_failed (ie_now e) i er st1)"
    using assms(1) unfolding index_document_body [OF Some] by (auto split: option.splits sum.splits prod.splits)
  have "isolated i st st1" using isolated_body [OF _ _ b] s0 assms(3) by (simp add: i)
  with st' show ?thesis by (auto intro: isolated_failed)
qed

lemma index_success:
  assumes "index_document e job i st = Some (Inr n, st')"
  obtains doc data cs pages st5 k where "get_by d_id i (t_documents (ix_db st)) = Some doc" and "d_id doc = i"
    and "run_pipeline (ie_ingest e) (ie_libs e) (Some (figure_sink e job i)) data (d_type doc)
        (prepared e job doc (start_index (ie_now e) i st), 0) = Some (Inr (cs, pages), (st5, k))"
    and "store_chunks e doc data cs pages (on_stage job Q_INDEXING st5) = (Inr n, st')"
    and "row_is i (processing (ie_now e) doc) (on_stage job Q_INDEXING st5)"
proof -
  obtain doc where doc: "get_by d_id i (t_documents (ix_db st)) = Some doc"
    using assms by (auto simp: index_document_def split: option.splits)
  then have i: "d_id doc = i" by (auto dest: get_by_SomeD)
  have b: "index_body e job doc (start_index (ie_now e) i st) = Some (Inr n, st')"
    using assms unfolding index_document_body [OF doc] by (auto split: option.splits sum.splits prod.splits)
  have st0: "steady i (processing (ie_now e) doc) (set (t_chunks (ix_db st))) (start_index (ie_now e) i st)"
    unfolding start_index_def by (rule steady_start [OF doc]) simp
  obtain data cs pages st5 k where run: "run_pipeline (ie_ingest e) (ie_libs e) (Some (figure_sink e job i)) data (d_type doc)
        (prepared e job doc (start_index (ie_now e) i st), 0) = Some (Inr (cs, pages), (st5, k))"
      and sc: "store_chunks e doc data cs pages (on_stage job Q_INDEXING st5) = (Inr n, st')"
    using b by (cases rule: index_body_cases) (auto simp: i)
  show thesis
    using steady_stage [OF pipeline_keeps(1) [OF run steady_prepared [OF st0]], of job Q_INDEXING]
    by (intro that [OF doc i run sc]) (simp add: steady_def)
qed

lemma index_success_row:
  assumes "index_document e job i st = Some (Inr n, st')"
  shows "map_option d_status (get_by d_id i (t_documents (ix_db st'))) = Some INDEXED \<and> ix_saved st' = ix_db st'"
proof -
  obtain doc data cs pages st5 k where i: "d_id doc = i"
    and sc: "store_chunks e doc data cs pages (on_stage job Q_INDEXING st5) = (Inr n, st')"
    and row: "row_is i (processing (ie_now e) doc) (on_stage job Q_INDEXING st5)"
    using index_success [OF assms] by metis
  from sc show ?thesis by (cases rule: store_chunks_cases) (use row in \<open>auto simp: i row_is_def row_upd\<close>)
qed

text \<open>
  C14. A successful run leaves exactly one index of the document, whatever was there before: its points and
  its chunk rows carry the same fresh ids in the same order and the same number the call returns, each
  point has the ACL key of the document's collection and the content of its row, and the document is
  committed as indexed. So re-indexing leaves neither orphans nor duplicates.
\<close>

theorem index_exact:
  assumes "index_document e job i st = Some (Inr n, st')"
  shows "\<exists>doc. get_by d_id i (t_documents (ix_db st)) = Some doc
     \<and> map fst (own_points i st') = map (ie_ids e) [0..<n] \<and> map ch_id (own_rows i (ix_db st')) = map (ie_ids e) [0..<n]
     \<and> (\<forall>x \<in> set (own_points i st'). cy_collection (cx_payload (snd x)) = Some (str_uuid (d_coll doc))
          \<and> (\<exists>c \<in> set (own_rows i (ix_db st')). ch_id c = fst x \<and> ch_coll c = d_coll doc \<and> ch_norm c = cy_content (cx_payload (snd x))))
     \<and> map_option d_status (get_by d_id i (t_documents (ix_db st'))) = Some INDEXED \<and> ix_saved st' = ix_db st'"
proof -
  obtain doc data cs pages st5 k where doc: "get_by d_id i (t_documents (ix_db st)) = Some doc" and i: "d_id doc = i"
      and run: "run_pipeline (ie_ingest e) (ie_libs e) (Some (figure_sink e job i)) data (d_type doc)
        (prepared e job doc (start_index (ie_now e) i st), 0) = Some (Inr (cs, pages), (st5, k))"
      and sc: "store_chunks e doc data cs pages (on_stage job Q_INDEXING st5) = (Inr n, st')"
    using index_success [OF assms] by metis
  let ?st6 = "on_stage job Q_INDEXING st5"
  have cl: "cleared i ?st6" using pipeline_keeps(2) [OF run cleared_prepared [of doc, unfolded i]] by auto
  obtain xs where xs: "n = length cs" "index_chunks e doc 0 cs = Inr xs" "ix_saved st' = ix_db st'"
      "ix_chunks st' = qc_upsert (map snd xs) (ix_chunks ?st6)" "t_chunks (ix_db st') = t_chunks (ix_db ?st6) @ map fst xs"
      "t_documents (ix_db st') = upd_by d_id i (touch (ie_now e) (\<lambda>d. d\<lparr>d_status := INDEXED, d_pages := Some pages\<rparr>)) (t_documents (ix_db ?st6))"
    using sc by (cases rule: store_chunks_cases) (auto simp: i)
  note props = index_chunks_props [OF xs(2)]
  have pts: "own_points i st' = map snd xs"
    unfolding own_points_def xs(4) by (rule own_upsert) (use cl props in \<open>auto simp: cleared_def i\<close>)
  have rows: "own_rows i (ix_db st') = map fst xs"
    using cl props by (auto simp: own_rows_def xs(5) cleared_def i filter_id_conv)
  have "map_option d_status (get_by d_id i (t_documents (ix_db st'))) = Some INDEXED" using index_success_row [OF assms] by simp
  moreover have "\<forall>x \<in> set (own_points i st'). cy_collection (cx_payload (snd x)) = Some (str_uuid (d_coll doc))
          \<and> (\<exists>c \<in> set (own_rows i (ix_db st')). ch_id c = fst x \<and> ch_coll c = d_coll doc \<and> ch_norm c = cy_content (cx_payload (snd x)))"
  proof
    fix x assume "x \<in> set (own_points i st')"
    then obtain y where y: "y \<in> set xs" "x = snd y" by (auto simp: pts)
    have "map (ch_id \<circ> fst) xs = map (fst \<circ> snd) xs" using props by simp
    then have "ch_id (fst y) = fst (snd y)" using y(1) by (simp add: map_eq_conv)
    then show "cy_collection (cx_payload (snd x)) = Some (str_uuid (d_coll doc))
          \<and> (\<exists>c \<in> set (own_rows i (ix_db st')). ch_id c = fst x \<and> ch_coll c = d_coll doc \<and> ch_norm c = cy_content (cx_payload (snd x)))"
      using y props by (auto simp: rows)
  qed
  moreover have "map fst (own_points i st') = map (ie_ids e) [0..<n]" "map ch_id (own_rows i (ix_db st')) = map (ie_ids e) [0..<n]"
    using props by (simp_all add: pts rows xs(1) comp_def)
  ultimately show ?thesis using doc xs(3) by blast
qed

subsection \<open>A commit that fails\<close>


lemma volume_frame [simp]: "ix_volume (on_stage job q st) = ix_volume st" "ix_volume (start_index now i st) = ix_volume st"
  by (auto simp: on_stage_def commit_def on_db_def start_index_def split: option.splits)

lemma index_body_run:
  assumes "read_document (ie_dir e) (d_id doc) (d_filename doc) (ix_volume st) = Some data" and "ie_fault e = (\<lambda>_. None)"
    and "run_pipeline (ie_ingest e) (ie_libs e) (Some (figure_sink e job (d_id doc))) data (d_type doc) (prepared e job doc st, 0)
           = Some (Inr (cs, pages), (st5, k))"
  shows "index_body e job doc st = Some (store_chunks e doc data cs pages (on_stage job Q_INDEXING st5))"
  using assms by (simp add: index_body_def prepared_def Let_def)

text \<open>
  When the database refuses the new rows, for a zero character in the text or a section title over 1024
  characters, the transaction is rolled back and the document marked failed, but the points written to
  Qdrant just before stay: every chunk remains searchable, with no row behind it.
\<close>

theorem failed_commit_leaves_points:
  assumes "get_by d_id i (t_documents (ix_db st)) = Some doc" and "ie_fault e = (\<lambda>_. None)"
    and "read_document (ie_dir e) i (d_filename doc) (ix_volume st) = Some data"
    and "run_pipeline (ie_ingest e) (ie_libs e) (Some (figure_sink e job i)) data (d_type doc) (prepared e job doc (start_index (ie_now e) i st), 0)
           = Some (Inr (cs, pages), (st5, k))"
    and "index_chunks e doc 0 cs = Inr xs" and "list_ex row_refused cs"
    and "\<forall>c \<in> set (t_chunks (ix_db st)). ch_id c \<notin> range (ie_ids e)"
  shows "\<exists>st'. index_document e job i st = Some (Inl flush_error, st')
     \<and> map_option d_status (get_by d_id i (t_documents (ix_saved st'))) = Some FAILED
     \<and> map fst (own_points i st') = map (ie_ids e) [0..<length cs]
     \<and> (\<forall>c \<in> set (t_chunks (ix_saved st')). ch_id c \<notin> fst ` set (own_points i st'))"
proof -
  have i: "d_id doc = i" using assms(1) by (auto dest: get_by_SomeD)
  let ?st6 = "on_stage job Q_INDEXING st5" and ?R = "set (t_chunks (ix_db st))"
  obtain r st1 where sc: "store_chunks e doc data cs pages ?st6 = (r, st1)" by fastforce
  have body: "index_body e job doc (start_index (ie_now e) i st) = Some (r, st1)"
    using index_body_run [of e doc "start_index (ie_now e) i st" data job cs pages st5 k] assms(2-4) sc by (simp add: i)
  have sc': "r = Inl flush_error" "ix_saved st1 = ix_saved ?st6" "ix_chunks st1 = qc_upsert (map snd xs) (ix_chunks ?st6)"
    using sc by (cases rule: store_chunks_cases) (use assms(2,5,6) sc in \<open>auto simp: store_chunks_def Let_def\<close>)
  have st0: "steady i (processing (ie_now e) doc) ?R (start_index (ie_now e) i st)"
    unfolding start_index_def by (rule steady_start [OF assms(1)]) simp
  have sy: "steady i (processing (ie_now e) doc) ?R ?st6"
    using steady_stage [OF pipeline_keeps(1) [OF assms(4) steady_prepared [OF st0]], of job Q_INDEXING] by simp
  have cl: "cleared i ?st6" using pipeline_keeps(2) [OF assms(4) cleared_prepared [of doc, unfolded i]] by auto
  let ?st' = "index_failed (ie_now e) i flush_error st1"
  have ret: "index_document e job i st = Some (Inl flush_error, ?st')"
    unfolding index_document_body [OF assms(1)] body sc'(1) by simp
  note props = index_chunks_props [OF assms(5)]
  have fin: "get_by d_id i (t_documents (ix_saved ?st')) = Some (touch (ie_now e) (\<lambda>r. r\<lparr>d_status := FAILED, d_error := Some (take 2000 flush_error)\<rparr>) (processing (ie_now e) doc))"
      "set (t_chunks (ix_saved ?st')) \<subseteq> ?R" "ix_chunks ?st' = ix_chunks st1"
    using sy sc'(2) by (auto simp: index_failed_def Let_def rollback_def commit_def on_db_def upd_doc_def steady_def row_is_def rows_from_def row_upd)
  have pts: "own_points i ?st' = map snd xs"
    unfolding own_points_def fin(3) sc'(3) by (rule own_upsert) (use cl props in \<open>auto simp: cleared_def i\<close>)
  then have ids: "map fst (own_points i ?st') = map (ie_ids e) [0..<length cs]" using props by (simp add: comp_def)
  then have "fst ` set (own_points i ?st') \<subseteq> range (ie_ids e)" by (metis (no_types) image_subsetI list.set_map rangeI subset_trans image_mono top_greatest)
  with fin(2) assms(7) have "\<forall>c \<in> set (t_chunks (ix_saved ?st')). ch_id c \<notin> fst ` set (own_points i ?st')" by blast
  with ret fin(1) ids show ?thesis by auto
qed

subsection \<open>Witnesses\<close>

definition demo_env_ix :: index_env where
  "demo_env_ix = \<lparr>ie_model = default_model, ie_ingest = default_ingest, ie_dir = lit ''/data'', ie_libs = demo_libs,
     ie_vlm = (\<lambda>_ _ _. None), ie_dense = (\<lambda>_. Inr [1]), ie_sparse = (\<lambda>_. Inr ([], [])), ie_render = (\<lambda>_. []), ie_embed_page = (\<lambda>_. None),
     ie_sha = (\<lambda>b. b), ie_object_err = (\<lambda>_. False), ie_fault = (\<lambda>_. None), ie_ids = (\<lambda>n. of_nat n), ie_page_ids = [], ie_now = 0\<rparr>"

definition demo_doc :: doc_row where
  "demo_doc = \<lparr>d_id = 7, d_coll = 3, d_filename = lit ''a.txt'', d_type = lit ''txt'', d_hash = [], d_status = PENDING, d_pages = None,
     d_error = None, d_uploader = None, d_created = 0, d_updated = 0\<rparr>"

definition demo_istore :: "bytes \<Rightarrow> istore" where
  "demo_istore data = (let d = empty_db\<lparr>t_documents := [demo_doc]\<rparr> in
     \<lparr>ix_db = d, ix_saved = d, ix_chunks = qcoll0, ix_pages = qcoll0, ix_objects = [],
      ix_volume = [(document_path (lit ''/data'') 7 (lit ''a.txt''), data)]\<rparr>)"

definition demo_chunk :: "pystr \<Rightarrow> chunk_data" where
  "demo_chunk t = \<lparr>cd_type = CT_TEXT, cd_raw = t, cd_norm = t, cd_index = 0, cd_page = None, cd_section = None, cd_meta = meta0\<rparr>"

lemma short_normalized: "x \<notin> {10, 13} \<Longrightarrow> \<not> is_space x \<Longrightarrow> normalize_text [97, x, 98] = [97, x, 98]"
  by (auto simp: normalize_text_def replace_absent split_str_no_sep prefix_def is_blank_def py_defs is_space_def)

lemma short_pipeline:
  assumes "x \<notin> {10, 13}" and "\<not> is_space x" and "x < 128"
  shows "run_pipeline default_ingest demo_libs sink [97, x, 98] (lit ''txt'') s = Some (Inr ([demo_chunk [97, x, 98]], 1), s)"
proof -
  let ?t = "[97, x, 98]"
  have "utf8_decode ?t = Some ?t" by (rule utf8_decode_ascii) (use assms(3) in simp)
  then have dec: "decode_text ?t = ?t" by (simp only: decode_text_def option.case)
  have nd: "\<not> use_docling default_ingest (lit ''txt'')" by (simp add: use_docling_def DOCLING_TYPES_def)
  have "parse default_ingest demo_libs ?t (lit ''txt'') = Inr [plain_element CT_TEXT ?t None None]"
    using nd dec by (simp add: parse_def PARSERS_def parse_txt_def)
  moreover have "denoise [plain_element CT_TEXT ?t None None] = [plain_element CT_TEXT ?t None None]"
    by (simp add: denoise_def is_text_page_def plain_element_def)
  moreover have "page_count [plain_element CT_TEXT ?t None None] = 1"
    by (simp add: page_count_def plain_element_def List.map_filter_simps)
  moreover have "paragraphs_of ?t = [?t]"
    using assms by (auto simp: paragraphs_of_def split_str_no_sep prefix_def py_defs is_space_def)
  then have "split_text ?t 1200 150 = Some [?t]"
    by (simp add: split_text_def split_step_def blank_iff is_space_def split_oversized.simps)
  then have "build_chunks default_ingest [plain_element CT_TEXT ?t None None] = Some [demo_chunk ?t]"
    using short_normalized [OF assms(1,2)]
    by (simp add: build_chunks_def legacy_element_def plain_element_def PASSTHROUGH_def default_ingest_def renumber_def demo_chunk_def Let_def)
  ultimately show ?thesis using nd by (simp add: run_pipeline_def)
qed

lemma demo_istore_get: "get_by d_id 7 (t_documents (ix_db (demo_istore data))) = Some demo_doc"
  by (simp add: demo_istore_def demo_doc_def get_by_def Let_def)

lemma demo_read: "read_document (ie_dir demo_env_ix) 7 (d_filename demo_doc) (ix_volume (demo_istore data)) = Some data"
  by (simp add: demo_istore_def demo_env_ix_def demo_doc_def read_document_def Let_def)

lemma demo_env_fields: "ie_ingest demo_env_ix = default_ingest" "ie_libs demo_env_ix = demo_libs" "ie_fault demo_env_ix = (\<lambda>_. None)"
    "d_type demo_doc = lit ''txt''" "d_id demo_doc = 7"
  by (simp_all add: demo_env_ix_def demo_doc_def)

lemma demo_index_chunks: "\<forall>c \<in> set t. c < 128 \<Longrightarrow> t \<noteq> [] \<Longrightarrow> \<exists>xs. index_chunks demo_env_ix demo_doc 0 [demo_chunk t] = Inr xs"
  by (simp add: index_chunk_def text_hash_def demo_chunk_def utf8_ascii demo_env_ix_def Let_def)

lemma demo_refused: "list_ex row_refused [demo_chunk t] \<longleftrightarrow> 0 \<in> set t"
  by (auto simp: row_refused_def demo_chunk_def meta_json_def)

lemma demo_index:
  assumes "x \<notin> {0, 10, 13}" and "\<not> is_space x" and "x < 128" and "get_by d_id 7 (t_documents (ix_db st)) = Some demo_doc"
    and "read_document (ie_dir demo_env_ix) 7 (d_filename demo_doc) (ix_volume st) = Some [97, x, 98]"
  shows "\<exists>st'. index_document demo_env_ix job 7 st = Some (Inr 1, st')"
proof -
  let ?t = "[97, x, 98]" and ?st = "start_index (ie_now demo_env_ix) 7 st"
  have "index_body demo_env_ix job demo_doc ?st = Some (store_chunks demo_env_ix demo_doc ?t [demo_chunk ?t] 1
      (on_stage job Q_INDEXING (prepared demo_env_ix job demo_doc ?st)))"
    by (rule index_body_run) (use short_pipeline [of x] assms in \<open>simp_all add: demo_env_fields\<close>)
  moreover obtain xs where "index_chunks demo_env_ix demo_doc 0 [demo_chunk ?t] = Inr xs"
    using demo_index_chunks [of ?t] assms(3) by auto
  then have "\<exists>st'. store_chunks demo_env_ix demo_doc ?t [demo_chunk ?t] 1 st0 = (Inr 1, st')" for st0
    using demo_refused [of ?t] assms(1) unfolding store_chunks_def by (simp add: demo_env_fields Let_def)
  then obtain st' where "store_chunks demo_env_ix demo_doc ?t [demo_chunk ?t] 1
      (on_stage job Q_INDEXING (prepared demo_env_ix job demo_doc ?st)) = (Inr 1, st')" by blast
  ultimately show ?thesis unfolding index_document_body [OF assms(4)] by (intro exI [of _ st']) simp
qed

lemma index_points_exist:
  assumes "index_document e job i st = Some (Inr n, st')" and "0 < n"
  shows "qc_points (ix_chunks st') \<noteq> []"
proof -
  obtain doc data cs pages st5 where sc: "store_chunks e doc data cs pages (on_stage job Q_INDEXING st5) = (Inr n, st')"
    using index_success [OF assms(1)] by metis
  then obtain xs where "n = length cs" "index_chunks e doc 0 cs = Inr xs" "ix_chunks st' = qc_upsert (map snd xs) (ix_chunks (on_stage job Q_INDEXING st5))"
    by (cases rule: store_chunks_cases) auto
  moreover from this have "xs \<noteq> []" using index_chunks_props [of e doc 0 cs xs] assms(2) by auto
  ultimately show ?thesis by (simp add: qc_upsert_def)
qed

lemma demo_index_99: "\<exists>st'. index_document demo_env_ix None 7 (demo_istore [97, 99, 98]) = Some (Inr 1, st')"
  by (rule demo_index [OF _ _ _ demo_istore_get demo_read]) (simp_all add: is_space_def)

lemma index_isolated_witness:
  "\<exists>st'. index_document demo_env_ix None 7 (demo_istore [97, 99, 98]) = Some (Inr 1, st') \<and> isolated 7 (demo_istore [97, 99, 98]) st'"
proof -
  obtain st' where r: "index_document demo_env_ix None 7 (demo_istore [97, 99, 98]) = Some (Inr 1, st')" using demo_index_99 by blast
  have "ix_saved (demo_istore [97, 99, 98]) = ix_db (demo_istore [97, 99, 98])" by (simp add: demo_istore_def Let_def)
  moreover have "unused_ids demo_env_ix 7 (demo_istore [97, 99, 98])"
    by (simp add: unused_ids_def foreign_chunks_def foreign_pages_def demo_istore_def qcoll0_def Let_def)
  ultimately show ?thesis using index_isolated [OF r] r by blast
qed

lemma index_exact_witness:
  "\<exists>st'. index_document demo_env_ix None 7 (demo_istore [97, 99, 98]) = Some (Inr 1, st') \<and> map fst (own_points 7 st') = [0]
     \<and> map ch_id (own_rows 7 (ix_db st')) = [0]"
proof -
  obtain st' where r: "index_document demo_env_ix None 7 (demo_istore [97, 99, 98]) = Some (Inr 1, st')" using demo_index_99 by blast
  from index_exact [OF r] r show ?thesis by (auto simp: demo_env_ix_def)
qed

lemma failed_commit_leaves_points_witness:
  "\<exists>st'. index_document demo_env_ix None 7 (demo_istore [97, 0, 98]) = Some (Inl flush_error, st') \<and> map fst (own_points 7 st') = [0]"
proof -
  let ?t = "[97, 0, 98] :: nat list"
  obtain xs where xs: "index_chunks demo_env_ix demo_doc 0 [demo_chunk ?t] = Inr xs" using demo_index_chunks [of ?t] by auto
  have run: "run_pipeline (ie_ingest demo_env_ix) (ie_libs demo_env_ix) (Some (figure_sink demo_env_ix None 7)) ?t (d_type demo_doc)
      (prepared demo_env_ix None demo_doc (start_index (ie_now demo_env_ix) 7 (demo_istore ?t)), 0)
      = Some (Inr ([demo_chunk ?t], 1), (prepared demo_env_ix None demo_doc (start_index (ie_now demo_env_ix) 7 (demo_istore ?t)), 0))"
    using short_pipeline [of 0] by (simp add: demo_env_fields is_space_def)
  have "\<forall>c \<in> set (t_chunks (ix_db (demo_istore ?t))). ch_id c \<notin> range (ie_ids demo_env_ix)"
    by (simp add: demo_istore_def empty_db_def Let_def)
  from failed_commit_leaves_points [OF demo_istore_get _ demo_read run xs _ this]
  show ?thesis using demo_refused [of ?t] by (auto simp: demo_env_fields demo_env_ix_def)
qed

end
