(* ===== verification/Graph.thy ===== *)
theory Graph
  imports Retrieval
begin

text \<open>
  The agent graph: its state (\<open>app/graph/state.py\<close>), its nodes (\<open>nodes.py\<close>), its routing and circuit
  breakers (\<open>builder.py\<close>), run step by step the way LangGraph drives it. The injected collaborators
  (LLM client, retrievers, cache, queue) are the fields of an environment; \<open>live_env\<close> puts the models of
  the other theories there. Absent keys of the state have the default every reader gives them, and the
  three latency figures are left out. A node that raises gives \<open>None\<close>.
\<close>

subsection \<open>State\<close>

record gstate =
  gs_messages :: "(message_role \<times> pystr) list"
  gs_query :: pystr
  gs_allowed :: "pystr list"
  gs_request :: pystr
  gs_rewritten :: pystr
  gs_route :: "pystr option"
  gs_intent :: "pystr option"
  gs_source :: "pystr option"
  gs_plan :: "pystr list"
  gs_chunks :: "chunk_item list"
  gs_pages :: "page_item list"
  gs_answer :: pystr
  gs_citations :: "citation list"
  gs_tokens :: nat
  gs_images :: nat
  gs_cache_hit :: bool
  gs_relevance :: bool
  gs_grounded :: bool
  gs_insufficient :: bool
  gs_rretries :: nat
  gs_gretries :: nat
  gs_iterations :: nat

definition gstate0 :: gstate where
  "gstate0 = \<lparr>gs_messages = [], gs_query = [], gs_allowed = [], gs_request = [], gs_rewritten = [], gs_route = None,
     gs_intent = None, gs_source = None, gs_plan = [], gs_chunks = [], gs_pages = [], gs_answer = [], gs_citations = [],
     gs_tokens = 0, gs_images = 0, gs_cache_hit = False, gs_relevance = False, gs_grounded = False,
     gs_insufficient = False, gs_rretries = 0, gs_gretries = 0, gs_iterations = 0\<rparr>"

record eval_item =
  ev_request :: pystr
  ev_query :: pystr
  ev_answer :: pystr
  ev_route :: "pystr option"
  ev_cache_hit :: bool
  ev_contexts :: "pystr list"
  ev_docs :: "pystr list"
  ev_citations :: "citation list"
  ev_insufficient :: bool

text \<open>What a turn changes outside its state: the cache, the eval queue, the tokens streamed out.\<close>

record gworld =
  gw_cache :: sem_cache
  gw_queue :: "eval_item list"
  gw_streamed :: "pystr list"

subsection \<open>The environment\<close>

text \<open>
  The LLM calls take the iteration count first: the model need not answer the same prompt twice the
  same way. \<open>ge_store\<close> gives the cache as the write leaves it, also when it fails half-way.
\<close>

record genv =
  ge_retr :: cfg_retrieval
  ge_brk :: cfg_breakers
  ge_multimodal :: bool
  ge_eval :: bool
  ge_intent :: "nat \<Rightarrow> pystr \<Rightarrow> pystr option"
  ge_plan :: "nat \<Rightarrow> pystr \<Rightarrow> pystr list option"
  ge_rewrite :: "nat \<Rightarrow> pystr \<Rightarrow> pystr"
  ge_generate :: "nat \<Rightarrow> pystr \<Rightarrow> pystr list \<Rightarrow> (message_role \<times> pystr) list \<Rightarrow> pystr list \<Rightarrow> pystr \<times> pystr list"
  ge_relevant :: "nat \<Rightarrow> pystr \<Rightarrow> pystr list \<Rightarrow> bool"
  ge_grounded :: "nat \<Rightarrow> pystr \<Rightarrow> pystr list \<Rightarrow> bool"
  ge_text :: "uuid set \<Rightarrow> pystr \<Rightarrow> retrieved_chunk list option"
  ge_visual :: "uuid set \<Rightarrow> pystr \<Rightarrow> retrieved_page list"
  ge_metadata :: "uuid set \<Rightarrow> pystr \<Rightarrow> chunk_item list option"
  ge_object :: "pystr \<Rightarrow> nat list option"
  ge_lookup :: "uuid set \<Rightarrow> pystr \<Rightarrow> sem_cache \<Rightarrow> (cache_hit option \<times> sem_cache) option"
  ge_store :: "pystr \<Rightarrow> pystr \<Rightarrow> uuid list \<Rightarrow> uuid list \<Rightarrow> uuid set \<Rightarrow> citation list \<Rightarrow> sem_cache \<Rightarrow> sem_cache"
  ge_queue_up :: bool

subsection \<open>Helpers of the nodes\<close>

definition REFERS_BACK :: "pystr list" where
  "REFERS_BACK = map lit [''es'', ''dazu'', ''davon'', ''damit'', ''dort'', ''dies'', ''diese'', ''dieser'', ''dieses'', ''denen'',
     ''mehr'', ''it'', ''that'', ''this'', ''those'', ''they'', ''there'', ''more''] @ [lit ''dar'' @ [252] @ lit ''ber'']"

definition FOLLOW_UP_OPENERS :: "pystr list" where
  "FOLLOW_UP_OPENERS = map lit [''und '', ''and '', ''what about'', ''was ist mit'', ''wie ist es mit'', ''auch '']"

text \<open>The characters of the \<open>strip\<close> call, the typographic quotes U+201E, U+201C and U+201D included.\<close>

definition word_punct :: "nat \<Rightarrow> bool" where
  "word_punct c \<longleftrightarrow> c \<in> set (lit ''?!.,;:'' @ [34, 39, 8222, 8220, 8221, 40, 41])"

definition is_follow_up :: "pystr \<Rightarrow> bool" where
  "is_follow_up question =
     (let q = lower (strip question);
          words = filter (\<lambda>w. w \<noteq> []) (map (strip_by word_punct) (split_ws q))
      in if length words \<le> 3 \<or> list_ex (\<lambda>p. prefix p q) FOLLOW_UP_OPENERS then True
         else length words \<le> 8 \<and> list_ex (\<lambda>w. w \<in> set REFERS_BACK) words)"

definition uuids :: "pystr list \<Rightarrow> uuid set" where
  "uuids ids = set (List.map_filter uuid_parse ids)"

definition bump :: "gstate \<Rightarrow> gstate" where
  "bump s = s\<lparr>gs_iterations := Suc (gs_iterations s)\<rparr>"

definition assistant :: "pystr \<Rightarrow> (message_role \<times> pystr) list" where
  "assistant a = [(M_ASSISTANT, a)]"

definition doc_citation :: "pystr \<Rightarrow> citation" where
  "doc_citation d = \<lparr>ci_marker = None, ci_document = Some d, ci_chunk = None, ci_page = None, ci_type = None,
     ci_file = None, ci_section = None, ci_content = None, ci_image = None, ci_revoked = False\<rparr>"

subsection \<open>Nodes\<close>

definition input_guard :: "gstate \<Rightarrow> gstate" where
  "input_guard s = (let s' = bump s in
     if blank (gs_query s) then s'\<lparr>gs_insufficient := True, gs_answer := lit ''Empty query.'',
         gs_messages := gs_messages s @ assistant (lit ''Empty query.'')\<rparr>
     else s')"

definition semantic_cache :: "genv \<Rightarrow> gstate \<Rightarrow> gworld \<Rightarrow> (gstate \<times> gworld) option" where
  "semantic_cache e s w =
     (let allowed = uuids (gs_allowed s) in
      case (if allowed = {} then Some (None, gw_cache w) else ge_lookup e allowed (gs_query s) (gw_cache w)) of
        None \<Rightarrow> None
      | Some (Some h, c) \<Rightarrow> Some ((bump s)\<lparr>gs_cache_hit := True, gs_answer := hit_answer h,
           gs_citations := (if hit_cites h \<noteq> [] then hit_cites h else map doc_citation (hit_docs h)),
           gs_messages := gs_messages s @ assistant (hit_answer h)\<rparr>, w\<lparr>gw_cache := c\<rparr>)
      | Some (None, c) \<Rightarrow> Some ((bump s)\<lparr>gs_cache_hit := False\<rparr>, w\<lparr>gw_cache := c\<rparr>))"

definition router :: "genv \<Rightarrow> gstate \<Rightarrow> gstate" where
  "router e s = (let dn = classify (ge_intent e (gs_iterations s)) (gs_query s) in
     (bump s)\<lparr>gs_intent := Some (rd_intent dn), gs_source := Some (rd_source dn), gs_route := Some (rd_intent dn)\<rparr>)"

definition metadata_lookup :: "genv \<Rightarrow> gstate \<Rightarrow> gstate" where
  "metadata_lookup e s =
     (let allowed = uuids (gs_allowed s);
          chunks = (if allowed = {} then [] else case ge_metadata e allowed (gs_query s) of None \<Rightarrow> [] | Some c \<Rightarrow> c)
      in (bump s)\<lparr>gs_chunks := chunks\<rparr>)"

definition planner :: "genv \<Rightarrow> gstate \<Rightarrow> gstate option" where
  "planner e s = map_option (\<lambda>p. (bump s)\<lparr>gs_plan := p\<rparr>) (ge_plan e (gs_iterations s) (gs_query s))"

text \<open>The query actually searched: the rewritten one, or the question with the previous user turn before it.\<close>

definition prior_turns :: "gstate \<Rightarrow> pystr list" where
  "prior_turns s = butlast (map snd (filter (\<lambda>m. fst m = M_USER) (gs_messages s)))"

definition search_query :: "gstate \<Rightarrow> pystr" where
  "search_query s =
     (if gs_rewritten s \<noteq> [] then gs_rewritten s
      else if is_follow_up (gs_query s) \<and> prior_turns s \<noteq> [] then last (prior_turns s) @ [32] @ gs_query s
      else gs_query s)"

definition retriever_node :: "genv \<Rightarrow> gstate \<Rightarrow> gstate option" where
  "retriever_node e s =
     (let allowed = uuids (gs_allowed s); query = search_query s in
      case (if allowed = {} then Some [] else ge_text e allowed query) of
        None \<Rightarrow> None
      | Some chunks \<Rightarrow>
          (let pages = (if gs_intent s = Some (lit ''visual'') \<and> allowed \<noteq> {} then map graph_page (ge_visual e allowed query) else [])
           in Some ((bump s)\<lparr>gs_pages := pages, gs_chunks := map graph_chunk chunks\<rparr>)))"

definition retrieval_grader :: "genv \<Rightarrow> gstate \<Rightarrow> gstate" where
  "retrieval_grader e s = (bump s)\<lparr>gs_relevance :=
     gs_chunks s \<noteq> [] \<and> ge_relevant e (gs_iterations s) (gs_query s) (map k_content (gs_chunks s))\<rparr>"

definition rewrite :: "genv \<Rightarrow> gstate \<Rightarrow> gstate" where
  "rewrite e s = (bump s)\<lparr>gs_rretries := Suc (gs_rretries s), gs_rewritten := ge_rewrite e (gs_iterations s) (gs_query s)\<rparr>"

definition generator :: "genv \<Rightarrow> gstate \<Rightarrow> gworld \<Rightarrow> gstate \<times> gworld" where
  "generator e s w =
     (let a = assemble (ge_retr e) (ge_object e) (uuids (gs_allowed s)) None
                (Some (if ge_multimodal e then context_max_images (ge_retr e) else 0)) (gs_chunks s) (gs_pages s);
          history = butlast (filter (\<lambda>m. fst m = M_USER \<or> fst m = M_ASSISTANT) (gs_messages s));
          (raw, toks) = ge_generate e (gs_iterations s) (gs_query s) (as_blocks a) history (map ai_b64 (as_images a));
          answer = normalize_markers raw
      in ((bump s)\<lparr>gs_answer := answer, gs_citations := extract_citations answer (as_packed a),
            gs_tokens := as_tokens a, gs_images := length (as_images a)\<rparr>,
          w\<lparr>gw_streamed := gw_streamed w @ toks\<rparr>))"

definition hallucination_grader :: "genv \<Rightarrow> gstate \<Rightarrow> gstate" where
  "hallucination_grader e s =
     (let answer = strip (gs_answer s);
          ok = (if \<not> hallucination_check_enabled (ge_brk e) then answer \<noteq> [] \<and> answer \<noteq> INSUFFICIENT_ANSWER
                else ge_grounded e (gs_iterations s) answer (map k_content (gs_chunks s)))
      in (bump s)\<lparr>gs_grounded := ok\<rparr>)"

definition retry_generation :: "gstate \<Rightarrow> gstate" where
  "retry_generation s = (bump s)\<lparr>gs_gretries := Suc (gs_gretries s)\<rparr>"

definition insufficient :: "gstate \<Rightarrow> gstate" where
  "insufficient s = (bump s)\<lparr>gs_insufficient := True, gs_answer := INSUFFICIENT_ANSWER, gs_citations := [],
     gs_messages := gs_messages s @ assistant INSUFFICIENT_ANSWER\<rparr>"

definition finalize_answer :: "gstate \<Rightarrow> gstate" where
  "finalize_answer s = (bump s)\<lparr>gs_messages := gs_messages s @ assistant (gs_answer s)\<rparr>"

text \<open>An id that does not parse makes the write raise before anything is stored; the node swallows it.\<close>

definition cache_writer :: "genv \<Rightarrow> gstate \<Rightarrow> gworld \<Rightarrow> gstate \<times> gworld" where
  "cache_writer e s w =
     (bump s,
      if gs_answer s \<noteq> [] \<and> gs_chunks s \<noteq> [] \<and> \<not> gs_insufficient s then
        (case (those (map (uuid_parse \<circ> k_coll) (gs_chunks s)), those (map (uuid_parse \<circ> k_doc) (gs_chunks s))) of
           (Some cs, Some ds) \<Rightarrow> w\<lparr>gw_cache := ge_store e (gs_query s) (gs_answer s) (remdups cs) (remdups ds)
                (uuids (gs_allowed s)) (gs_citations s) (gw_cache w)\<rparr>
         | _ \<Rightarrow> w)
      else w)"

definition eval_item_of :: "gstate \<Rightarrow> eval_item" where
  "eval_item_of s = \<lparr>ev_request = gs_request s, ev_query = gs_query s, ev_answer = gs_answer s, ev_route = gs_route s,
     ev_cache_hit = gs_cache_hit s, ev_contexts = map k_content (gs_chunks s),
     ev_docs = sorted_list_of_set (set (map k_doc (gs_chunks s))), ev_citations = gs_citations s,
     ev_insufficient = gs_insufficient s\<rparr>"

definition eval_queue :: "genv \<Rightarrow> gstate \<Rightarrow> gworld \<Rightarrow> gstate \<times> gworld" where
  "eval_queue e s w = (bump s, if ge_eval e \<and> ge_queue_up e then w\<lparr>gw_queue := gw_queue w @ [eval_item_of s]\<rparr> else w)"

subsection \<open>Routing\<close>

datatype node = Input_guard | Semantic_cache | Router | Metadata_lookup | Planner | Retriever | Retrieval_grader | Rewrite
  | Generator | Hallucination_grader | Retry_generation | Finalize_answer | Cache_writer | Insufficient_answer | Eval_queue

definition over_budget :: "genv \<Rightarrow> gstate \<Rightarrow> bool" where
  "over_budget e s \<longleftrightarrow> max_graph_iterations (ge_brk e) \<le> gs_iterations s"

definition after_input :: "gstate \<Rightarrow> node" where
  "after_input s = (if gs_insufficient s then Eval_queue else Semantic_cache)"

definition after_cache :: "gstate \<Rightarrow> node" where
  "after_cache s = (if gs_cache_hit s then Eval_queue else Router)"

definition after_router :: "genv \<Rightarrow> gstate \<Rightarrow> node" where
  "after_router e s = (if over_budget e s then Insufficient_answer
     else let intent = (case gs_intent s of None \<Rightarrow> lit ''text'' | Some i \<Rightarrow> i) in
       if intent = lit ''multi_doc'' then Planner
       else if intent = lit ''metadata'' then Metadata_lookup
       else Retriever)"

definition after_metadata :: "genv \<Rightarrow> gstate \<Rightarrow> node" where
  "after_metadata e s = (if over_budget e s then Insufficient_answer
     else if gs_chunks s \<noteq> [] then Generator else Retriever)"

definition after_grade :: "genv \<Rightarrow> gstate \<Rightarrow> node" where
  "after_grade e s = (if over_budget e s then Insufficient_answer
     else if gs_relevance s then Generator
     else if gs_rretries s < max_retrieval_retries (ge_brk e) then Rewrite
     else if gs_chunks s \<noteq> [] then Generator else Insufficient_answer)"

definition after_halluc :: "genv \<Rightarrow> gstate \<Rightarrow> node" where
  "after_halluc e s = (if over_budget e s then Insufficient_answer
     else if gs_grounded s then Finalize_answer
     else if gs_gretries s < max_generation_retries (ge_brk e) then Retry_generation
     else Insufficient_answer)"

fun run_node :: "genv \<Rightarrow> node \<Rightarrow> gstate \<Rightarrow> gworld \<Rightarrow> (gstate \<times> gworld) option" where
  "run_node e Input_guard s w = Some (input_guard s, w)"
| "run_node e Semantic_cache s w = semantic_cache e s w"
| "run_node e Router s w = Some (router e s, w)"
| "run_node e Metadata_lookup s w = Some (metadata_lookup e s, w)"
| "run_node e Planner s w = map_option (\<lambda>s'. (s', w)) (planner e s)"
| "run_node e Retriever s w = map_option (\<lambda>s'. (s', w)) (retriever_node e s)"
| "run_node e Retrieval_grader s w = Some (retrieval_grader e s, w)"
| "run_node e Rewrite s w = Some (rewrite e s, w)"
| "run_node e Generator s w = Some (generator e s w)"
| "run_node e Hallucination_grader s w = Some (hallucination_grader e s, w)"
| "run_node e Retry_generation s w = Some (retry_generation s, w)"
| "run_node e Finalize_answer s w = Some (finalize_answer s, w)"
| "run_node e Cache_writer s w = Some (cache_writer e s w)"
| "run_node e Insufficient_answer s w = Some (insufficient s, w)"
| "run_node e Eval_queue s w = Some (eval_queue e s w)"

fun next_node :: "genv \<Rightarrow> node \<Rightarrow> gstate \<Rightarrow> node option" where
  "next_node e Input_guard s = Some (after_input s)"
| "next_node e Semantic_cache s = Some (after_cache s)"
| "next_node e Router s = Some (after_router e s)"
| "next_node e Metadata_lookup s = Some (after_metadata e s)"
| "next_node e Planner s = Some Retriever"
| "next_node e Retriever s = Some Retrieval_grader"
| "next_node e Retrieval_grader s = Some (after_grade e s)"
| "next_node e Rewrite s = Some Retriever"
| "next_node e Generator s = Some Hallucination_grader"
| "next_node e Hallucination_grader s = Some (after_halluc e s)"
| "next_node e Retry_generation s = Some Generator"
| "next_node e Finalize_answer s = Some Cache_writer"
| "next_node e Cache_writer s = Some Eval_queue"
| "next_node e Insufficient_answer s = Some Eval_queue"
| "next_node e Eval_queue s = None"

subsection \<open>Driving the graph\<close>

text \<open>
  LangGraph executes one node per step, saves the state, and raises once the recursion limit is used
  up. An exception ends the run with the state saved last.
\<close>

datatype turn = Finished gstate gworld | Raised gstate gworld

type_synonym gconf = "node \<times> gstate \<times> gworld"

fun gstep :: "genv \<Rightarrow> gconf \<Rightarrow> gconf + turn" where
  "gstep e (n, s, w) = (case run_node e n s w of
      None \<Rightarrow> Inr (Raised s w)
    | Some (s', w') \<Rightarrow> (case next_node e n s' of None \<Rightarrow> Inr (Finished s' w') | Some n' \<Rightarrow> Inl (n', s', w')))"

fun drive :: "('c \<Rightarrow> 'c + 'r) \<Rightarrow> nat \<Rightarrow> 'c \<Rightarrow> 'r option" where
  "drive step 0 c = None"
| "drive step (Suc k) c = (case step c of Inl c' \<Rightarrow> drive step k c' | Inr r \<Rightarrow> Some r)"

definition recursion_limit :: "cfg_breakers \<Rightarrow> nat" where
  "recursion_limit cfg = max_graph_iterations cfg * 3 + 10"

definition invoke :: "genv \<Rightarrow> gstate \<Rightarrow> gworld \<Rightarrow> turn option" where
  "invoke e s w = drive (gstep e) (recursion_limit (ge_brk e)) (Input_guard, s, w)"

text \<open>The input of a turn, merged into the state the checkpointer kept for the session.\<close>

definition turn_input :: "gstate \<Rightarrow> pystr \<Rightarrow> uuid list \<Rightarrow> pystr \<Rightarrow> gstate" where
  "turn_input saved msg allowed rid = saved\<lparr>gs_messages := gs_messages saved @ [(M_USER, msg)], gs_query := msg,
     gs_allowed := map str_uuid allowed, gs_request := rid, gs_iterations := 0, gs_rretries := 0, gs_gretries := 0\<rparr>"

subsection \<open>Termination\<close>

text \<open>The interface of a machine with a decreasing rank; the graph is one.\<close>

locale ranked_machine =
  fixes step :: "'c \<Rightarrow> 'c + 'r" and rank :: "'c \<Rightarrow> nat"
  assumes rank_pos: "0 < rank c"
    and rank_dec: "step c = Inl c' \<Longrightarrow> rank c' < rank c"
begin

lemma returns: "rank c \<le> k \<Longrightarrow> \<exists>r. drive step k c = Some r"
proof (induction k arbitrary: c)
  case 0
  then show ?case using rank_pos [of c] by simp
next
  case (Suc k)
  show ?case
  proof (cases "step c")
    case (Inl c')
    with rank_dec [of c c'] Suc.prems have "rank c' \<le> k" by simp
    with Inl Suc.IH show ?thesis by simp
  qed simp
qed

lemma fuel_irrelevant: "rank c \<le> k \<Longrightarrow> rank c \<le> m \<Longrightarrow> drive step k c = drive step m c"
proof (induction k arbitrary: c m)
  case 0
  then show ?case using rank_pos [of c] by simp
next
  case (Suc k)
  then obtain m' where m: "m = Suc m'" using rank_pos [of c] by (cases m) auto
  show ?case
  proof (cases "step c")
    case (Inl c')
    with rank_dec [of c c'] Suc.prems m have "rank c' \<le> k" "rank c' \<le> m'" by simp_all
    with Inl m Suc.IH [of c' m'] show ?thesis by simp
  qed (simp add: m)
qed

end

text \<open>An invariant of the steps holds where the run ends.\<close>

lemma drive_inv:
  assumes "drive step k c = Some r" and "I c"
    and "\<And>c c'. I c \<Longrightarrow> step c = Inl c' \<Longrightarrow> I c'" and "\<And>c r. I c \<Longrightarrow> step c = Inr r \<Longrightarrow> Q r"
  shows "Q r"
  using assms(1,2)
proof (induction k arbitrary: c)
  case (Suc k)
  then show ?case
    by (cases "step c") (auto intro: assms(3,4))
qed simp

fun node_height :: "node \<Rightarrow> nat" where
  "node_height Eval_queue = 1"
| "node_height Cache_writer = 2"
| "node_height Insufficient_answer = 2"
| "node_height Finalize_answer = 3"
| "node_height Hallucination_grader = 3"
| "node_height Retrieval_grader = 3"
| "node_height Router = 3"
| "node_height Metadata_lookup = 3"
| "node_height Generator = 4"
| "node_height Retriever = 4"
| "node_height Semantic_cache = 4"
| "node_height _ = 5"

text \<open>Below the iteration cap every step spends one iteration; above it only the way out is left.\<close>

definition graph_rank :: "genv \<Rightarrow> gconf \<Rightarrow> nat" where
  "graph_rank e c = (case c of (n, s, w) \<Rightarrow> let cap = max_graph_iterations (ge_brk e) in
     if cap \<le> gs_iterations s then node_height n else cap - gs_iterations s + 5)"

lemma node_height_bounds [bounds]: "0 < node_height n" "node_height n \<le> 5"
  by (cases n; simp)+

lemmas node_defs = bump_def input_guard_def semantic_cache_def router_def metadata_lookup_def planner_def retriever_node_def
  retrieval_grader_def rewrite_def generator_def hallucination_grader_def retry_generation_def insufficient_def
  finalize_answer_def cache_writer_def eval_queue_def

lemmas route_defs = after_input_def after_cache_def after_router_def after_metadata_def after_grade_def after_halluc_def

text \<open>Every node counts itself.\<close>

lemma run_node_bumps: "run_node e n s w = Some (s', w') \<Longrightarrow> gs_iterations s' = Suc (gs_iterations s)"
  by (cases n) (auto simp: node_defs Let_def split: option.splits if_splits prod.splits)

lemma next_node_descends:
  assumes "next_node e n s = Some n'" and "over_budget e s"
  shows "node_height n' < node_height n"
  using assms by (cases n) (auto simp: route_defs)

lemma gstep_Inl: "gstep e (n, s, w) = Inl (n', s', w') \<longleftrightarrow> run_node e n s w = Some (s', w') \<and> next_node e n s' = Some n'"
  by (auto split: option.splits)

lemma gstep_Inr: "gstep e (n, s, w) = Inr r \<longleftrightarrow> (run_node e n s w = None \<and> r = Raised s w)
     \<or> (\<exists>s' w'. run_node e n s w = Some (s', w') \<and> next_node e n s' = None \<and> r = Finished s' w')"
  by (auto split: option.splits)

interpretation agent: ranked_machine "gstep e" "graph_rank e" for e
proof
  show "0 < graph_rank e c" for c
    by (auto simp: graph_rank_def Let_def bounds split: prod.splits)
next
  fix c c' assume "gstep e c = Inl c'"
  moreover obtain n s w n' s' w' where c: "c = (n, s, w)" "c' = (n', s', w')" by (metis prod.exhaust)
  ultimately have run: "run_node e n s w = Some (s', w')" and nxt: "next_node e n s' = Some n'"
    using gstep_Inl by blast+
  show "graph_rank e c' < graph_rank e c"
    using run_node_bumps [OF run] next_node_descends [OF nxt] node_height_bounds [of n']
    by (auto simp: graph_rank_def c Let_def over_budget_def)
qed

lemma graph_rank_le: "graph_rank e (n, s, w) \<le> max_graph_iterations (ge_brk e) + 5"
  using node_height_bounds [of n] by (simp add: graph_rank_def Let_def)

text \<open>
  C19. Every turn ends: whatever the models answer, however often they ask to rewrite or regenerate,
  and whatever the retry limits, the graph comes to its end or raises within \<open>max_graph_iterations + 5\<close>
  nodes, so the recursion limit of the runner is never what stops it.
\<close>

theorem invoke_returns:
  "invoke e s w \<noteq> None \<and> drive (gstep e) (max_graph_iterations (ge_brk e) + 5) (Input_guard, s, w) = invoke e s w"
proof
  have r: "graph_rank e (Input_guard, s, w) \<le> recursion_limit (ge_brk e)"
    by (rule order_trans [OF graph_rank_le]) (simp add: recursion_limit_def)
  from agent.returns [OF r] show "invoke e s w \<noteq> None" by (simp add: invoke_def)
  show "drive (gstep e) (max_graph_iterations (ge_brk e) + 5) (Input_guard, s, w) = invoke e s w"
    unfolding invoke_def using graph_rank_le r by (rule agent.fuel_irrelevant)
qed

subsection \<open>What a turn may end with\<close>

definition cited_ok :: "gstate \<Rightarrow> bool" where
  "cited_ok s \<longleftrightarrow> (\<forall>c \<in> set (gs_citations s). \<exists>k n. c = citation_of n k \<and> k_coll k \<in> str_uuid ` uuids (gs_allowed s))"

lemma packed_permitted:
  "k \<in> set (as_packed (assemble cfg get allowed tb mi chunks pages)) \<Longrightarrow> k_coll k \<in> str_uuid ` allowed"
  using assemble_inv [of allowed cfg tb mi chunks pages get] unfolding pack_inv_def by blast

lemma extracted_from: "c \<in> set (extract_citations answer ks) \<Longrightarrow> \<exists>k \<in> set ks. \<exists>n. c = citation_of n k"
  by (force simp: extract_citations_def split: if_splits)

lemma generator_cited: "generator e s w = (s', w') \<Longrightarrow> cited_ok s'"
proof -
  assume "generator e s w = (s', w')"
  then obtain raw mi where "gs_allowed s' = gs_allowed s" "gs_citations s' = extract_citations (normalize_markers raw)
      (as_packed (assemble (ge_retr e) (ge_object e) (uuids (gs_allowed s)) None mi (gs_chunks s) (gs_pages s)))"
    by (auto simp: generator_def Let_def bump_def split: prod.splits)
  then show ?thesis unfolding cited_ok_def using extracted_from packed_permitted by metis
qed

definition cache_looked :: "genv \<Rightarrow> gstate \<Rightarrow> gworld \<Rightarrow> sem_cache" where
  "cache_looked e s w = (if uuids (gs_allowed s) = {} then gw_cache w
     else case ge_lookup e (uuids (gs_allowed s)) (gs_query s) (gw_cache w) of None \<Rightarrow> gw_cache w | Some (h, c) \<Rightarrow> c)"

definition served_hit :: "genv \<Rightarrow> gstate \<Rightarrow> gworld \<Rightarrow> gstate \<Rightarrow> bool" where
  "served_hit e s0 w0 s \<longleftrightarrow> (\<exists>h c. uuids (gs_allowed s0) \<noteq> {}
     \<and> ge_lookup e (uuids (gs_allowed s0)) (gs_query s0) (gw_cache w0) = Some (Some h, c) \<and> gs_answer s = hit_answer h
     \<and> gs_citations s = (if hit_cites h \<noteq> [] then hit_cites h else map doc_citation (hit_docs h)))"

definition refused :: "gstate \<Rightarrow> bool" where
  "refused s \<longleftrightarrow> gs_insufficient s \<and> gs_answer s = INSUFFICIENT_ANSWER \<and> gs_citations s = []"

definition accepted :: "gstate \<Rightarrow> bool" where
  "accepted s \<longleftrightarrow> \<not> gs_insufficient s \<and> gs_grounded s \<and> cited_ok s"

lemma outcome_bump [simp]: "served_hit e s0 w0 (bump s) = served_hit e s0 w0 s" "refused (bump s) = refused s"
  "accepted (bump s) = accepted s" "gs_cache_hit (bump s) = gs_cache_hit s" "gs_insufficient (bump s) = gs_insufficient s"
  by (simp_all add: served_hit_def refused_def accepted_def cited_ok_def bump_def)

text \<open>The invariant of a turn that starts with a question in a live session.\<close>

definition turn_inv :: "genv \<Rightarrow> gstate \<Rightarrow> gworld \<Rightarrow> gconf \<Rightarrow> bool" where
  "turn_inv e s0 w0 c = (case c of (n, s, w) \<Rightarrow>
     gs_query s = gs_query s0 \<and> gs_allowed s = gs_allowed s0 \<and>
     (if n = Eval_queue then
        (if gs_cache_hit s then served_hit e s0 w0 s \<and> \<not> gs_insufficient s \<and> gw_cache w = cache_looked e s0 w0
         else (refused s \<and> gw_cache w = cache_looked e s0 w0) \<or> accepted s)
      else \<not> gs_insufficient s \<and>
        (if n \<in> {Input_guard, Semantic_cache} then gw_cache w = gw_cache w0
         else \<not> gs_cache_hit s \<and> gw_cache w = cache_looked e s0 w0 \<and>
              (n \<in> {Hallucination_grader, Finalize_answer, Cache_writer} \<longrightarrow> cited_ok s) \<and>
              (n \<in> {Finalize_answer, Cache_writer} \<longrightarrow> gs_grounded s))))"

lemma cited_ok_cong: "gs_citations s' = gs_citations s \<Longrightarrow> gs_allowed s' = gs_allowed s \<Longrightarrow> cited_ok s' = cited_ok s"
  by (simp add: cited_ok_def)

lemma semantic_cache_out:
  assumes "semantic_cache e s w = Some (s', w')"
  shows "gs_query s' = gs_query s \<and> gs_allowed s' = gs_allowed s \<and> gs_insufficient s' = gs_insufficient s
     \<and> gw_cache w' = cache_looked e s w \<and> (gs_cache_hit s' \<longrightarrow> served_hit e s w s')"
proof (cases "uuids (gs_allowed s) = {}")
  case True
  with assms show ?thesis by (auto simp: semantic_cache_def bump_def cache_looked_def)
next
  case False
  then obtain h c where l: "ge_lookup e (uuids (gs_allowed s)) (gs_query s) (gw_cache w) = Some (h, c)"
    using assms by (cases "ge_lookup e (uuids (gs_allowed s)) (gs_query s) (gw_cache w)") (auto simp: semantic_cache_def)
  with False assms show ?thesis
    by (cases h) (auto simp: semantic_cache_def bump_def cache_looked_def served_hit_def)
qed

lemma turn_inv_step:
  assumes q: "\<not> blank (gs_query s0)" and inv: "turn_inv e s0 w0 (n, s, w)"
    and run: "run_node e n s w = Some (s', w')" and nxt: "next_node e n s' = Some n'"
  shows "turn_inv e s0 w0 (n', s', w')"
proof (cases n)
  case Input_guard
  then show ?thesis using q inv run nxt
    by (auto simp: turn_inv_def input_guard_def bump_def Let_def route_defs)
next
  case Semantic_cache
  then have sc: "semantic_cache e s w = Some (s', w')" using run by simp
  have same: "gs_query s = gs_query s0" "gs_allowed s = gs_allowed s0" "gw_cache w = gw_cache w0" "\<not> gs_insufficient s"
    using inv Semantic_cache by (auto simp: turn_inv_def)
  then have "cache_looked e s w = cache_looked e s0 w0" "served_hit e s w = served_hit e s0 w0"
    unfolding cache_looked_def served_hit_def fun_eq_iff by (simp_all cong: option.case_cong)
  with semantic_cache_out [OF sc] same nxt Semantic_cache show ?thesis
    by (auto simp: turn_inv_def route_defs split: if_splits)
next
  case Router
  then show ?thesis using inv run nxt
    by (auto simp: turn_inv_def router_def bump_def Let_def route_defs split: if_splits)
next
  case Metadata_lookup
  then show ?thesis using inv run nxt
    by (auto simp: turn_inv_def metadata_lookup_def bump_def Let_def route_defs split: if_splits)
next
  case Planner
  then show ?thesis using inv run nxt
    by (auto simp: turn_inv_def planner_def bump_def)
next
  case Retriever
  then show ?thesis using inv run nxt
    by (auto simp: turn_inv_def retriever_node_def bump_def Let_def split: option.splits)
next
  case Retrieval_grader
  then show ?thesis using inv run nxt
    by (auto simp: turn_inv_def retrieval_grader_def bump_def route_defs split: if_splits)
next
  case Rewrite
  then show ?thesis using inv run nxt
    by (auto simp: turn_inv_def rewrite_def bump_def)
next
  case Generator
  then have "generator e s w = (s', w')" using run by simp
  from generator_cited [OF this] this show ?thesis using Generator inv nxt
    by (auto simp: turn_inv_def generator_def bump_def Let_def split: prod.splits)
next
  case Hallucination_grader
  then show ?thesis using inv run nxt
    by (auto simp: turn_inv_def hallucination_grader_def bump_def Let_def route_defs cited_ok_def split: if_splits)
next
  case Retry_generation
  then show ?thesis using inv run nxt
    by (auto simp: turn_inv_def retry_generation_def bump_def)
next
  case Finalize_answer
  then show ?thesis using inv run nxt
    by (auto simp: turn_inv_def finalize_answer_def bump_def cited_ok_def)
next
  case Cache_writer
  then show ?thesis using inv run nxt
    by (auto simp: turn_inv_def cache_writer_def bump_def accepted_def cited_ok_def)
next
  case Insufficient_answer
  then show ?thesis using inv run nxt
    by (auto simp: turn_inv_def insufficient_def bump_def refused_def)
next
  case Eval_queue
  then show ?thesis using nxt by simp
qed

definition turn_outcome :: "genv \<Rightarrow> gstate \<Rightarrow> gworld \<Rightarrow> turn \<Rightarrow> bool" where
  "turn_outcome e s0 w0 r = (case r of Raised s w \<Rightarrow> True
     | Finished s w \<Rightarrow> if gs_cache_hit s then served_hit e s0 w0 s \<and> \<not> gs_insufficient s \<and> gw_cache w = cache_looked e s0 w0
         else (refused s \<and> gw_cache w = cache_looked e s0 w0) \<or> accepted s)"

lemma invoke_outcome:
  assumes "\<not> blank (gs_query s0)" and "\<not> gs_insufficient s0" and "invoke e s0 w0 = Some r"
  shows "turn_outcome e s0 w0 r"
proof (rule drive_inv [OF assms(3) [unfolded invoke_def], where I = "turn_inv e s0 w0"])
  show "turn_inv e s0 w0 (Input_guard, s0, w0)" using assms by (simp add: turn_inv_def)
next
  fix c c' assume "turn_inv e s0 w0 c" "gstep e c = Inl c'"
  moreover obtain n s w n' s' w' where "c = (n, s, w)" "c' = (n', s', w')" by (metis prod.exhaust)
  ultimately show "turn_inv e s0 w0 c'" using gstep_Inl turn_inv_step [OF assms(1)] by blast
next
  fix c r assume inv: "turn_inv e s0 w0 c" and r: "gstep e c = Inr r"
  obtain n s w where c: "c = (n, s, w)" by (metis prod.exhaust)
  show "turn_outcome e s0 w0 r"
  proof (cases n)
    case Eval_queue
    with inv r c show ?thesis
      by (auto simp: turn_inv_def turn_outcome_def eval_queue_def split: if_splits)
  qed (use r [unfolded c gstep_Inr] in \<open>auto simp: turn_outcome_def\<close>)
qed

lemma uuids_str [simp]: "uuids (map str_uuid allowed) = set allowed"
  by (auto simp: uuids_def List.map_filter_def)

lemma run_node_allowed: "run_node e n s w = Some (s', w') \<Longrightarrow> gs_allowed s' = gs_allowed s"
  by (cases n) (auto simp: node_defs Let_def split: option.splits if_splits prod.splits)

lemma invoke_allowed:
  assumes "invoke e s0 w0 = Some (Finished s' w')"
  shows "gs_allowed s' = gs_allowed s0"
proof -
  have "case Finished s' w' of Finished s w \<Rightarrow> gs_allowed s = gs_allowed s0 | Raised s w \<Rightarrow> True"
  proof (rule drive_inv [OF assms [unfolded invoke_def], where I = "\<lambda>(n, s, w). gs_allowed s = gs_allowed s0"])
    show "case c' of (n, s, w) \<Rightarrow> gs_allowed s = gs_allowed s0"
      if "case c of (n, s, w) \<Rightarrow> gs_allowed s = gs_allowed s0" "gstep e c = Inl c'" for c c'
      using that run_node_allowed by (cases c; cases c') (fastforce split: option.splits)
    show "case r of Finished s w \<Rightarrow> gs_allowed s = gs_allowed s0 | Raised s w \<Rightarrow> True"
      if "case c of (n, s, w) \<Rightarrow> gs_allowed s = gs_allowed s0" "gstep e c = Inr r" for c r
      using that run_node_allowed by (cases c) (fastforce split: option.splits turn.splits)
  qed simp
  then show ?thesis by simp
qed


text \<open>
  C34. A session that was refused once is lost: the flag survives in the saved state, so every later
  turn ends at the input guard with the old answer and the old citations, whatever is asked and
  whatever the requester may read. Nothing is looked up, retrieved or generated.
\<close>

theorem refused_session_stuck:
  assumes "gs_insufficient saved"
  shows "\<exists>s' w'. invoke e (turn_input saved msg allowed rid) w = Some (Finished s' w')
     \<and> gs_answer s' = (if blank msg then lit ''Empty query.'' else gs_answer saved)
     \<and> gs_citations s' = gs_citations saved \<and> gs_insufficient s'
     \<and> gw_cache w' = gw_cache w \<and> gw_streamed w' = gw_streamed w"
proof -
  obtain k where "recursion_limit (ge_brk e) = Suc (Suc k)" by (auto simp: recursion_limit_def)
  with assms show ?thesis
    by (simp add: invoke_def input_guard_def bump_def Let_def after_input_def eval_queue_def turn_input_def)
qed

text \<open>Likewise the rewritten query of an earlier turn is searched instead of the new question.\<close>

lemma stale_rewritten_query:
  "gs_rewritten saved \<noteq> [] \<Longrightarrow> search_query (turn_input saved msg allowed rid) = gs_rewritten saved"
  by (simp add: search_query_def turn_input_def)

text \<open>A turn that raises leaves the previous turn's answer and citations in the state.\<close>

lemma raised_keeps_answer:
  assumes "ge_lookup e (set allowed) msg (gw_cache w) = None" and "allowed \<noteq> []" and "\<not> gs_insufficient saved" and "\<not> blank msg"
  shows "\<exists>s'. invoke e (turn_input saved msg allowed rid) w = Some (Raised s' w) \<and> gs_answer s' = gs_answer saved
     \<and> gs_citations s' = gs_citations saved"
proof -
  obtain k where "recursion_limit (ge_brk e) = Suc (Suc k)" by (auto simp: recursion_limit_def)
  with assms show ?thesis
    by (simp add: invoke_def input_guard_def bump_def Let_def after_input_def semantic_cache_def turn_input_def)
qed

text \<open>The plan is written and never read: the retrieval after it is the one without it.\<close>

lemma plan_unread: "search_query (s\<lparr>gs_plan := p\<rparr>) = search_query s"
  by (simp add: search_query_def prior_turns_def)

subsection \<open>The live environment\<close>

text \<open>The models of the other components in their places, as \<open>app/graph/runtime.py\<close> wires them.\<close>

definition live_env ::
  "cfg_retrieval \<Rightarrow> cfg_breakers \<Rightarrow> cfg_model \<Rightarrow> bool \<Rightarrow> (nat \<Rightarrow> backend) \<Rightarrow> (nat \<Rightarrow> backend) \<Rightarrow> (nat \<Rightarrow> stream_backend)
     \<Rightarrow> (pystr \<Rightarrow> json option) \<Rightarrow> (json \<Rightarrow> pystr) \<Rightarrow> text_env \<Rightarrow> visual_env \<Rightarrow> db \<Rightarrow> objects
     \<Rightarrow> (pystr \<Rightarrow> pystr) \<Rightarrow> (pystr \<Rightarrow> vec) \<Rightarrow> point_query \<Rightarrow> uuid \<Rightarrow> time \<Rightarrow> bool \<Rightarrow> genv" where
  "live_env retr brk model ev gen cls stream loads str_of te ve d objs sha emb qry eid now up =
     \<lparr>ge_retr = retr, ge_brk = brk, ge_multimodal = llm_multimodal model, ge_eval = ev,
      ge_intent = (\<lambda>i. route_intent (cls i) loads model),
      ge_plan = (\<lambda>i. plan (gen i) loads str_of model),
      ge_rewrite = (\<lambda>i. rewrite_query (gen i) model),
      ge_generate = (\<lambda>i. generate_stream (stream i) model),
      ge_relevant = (\<lambda>i. grade_relevance (gen i) loads model),
      ge_grounded = (\<lambda>i. grade_grounded (gen i) loads model),
      ge_text = (\<lambda>a q. text_search (te_query te) (te_dense te) (te_sparse te) (te_rerank te) (te_cfg te) (te_index te) a q None None),
      ge_visual = visual_hits ve,
      ge_metadata = (\<lambda>a q. Some (lookup_documents retr d a q None)),
      ge_object = get_object objs,
      ge_lookup = (\<lambda>a q c. Some (lookup sha emb qry retr True a q now c)),
      ge_store = (\<lambda>q ans cs ds sc ci. store sha emb eid q ans cs ds (Some sc) ci now),
      ge_queue_up = up\<rparr>"

subsection \<open>A turn, run\<close>

definition demo_env :: genv where
  "demo_env = \<lparr>ge_retr = default_retrieval, ge_brk = default_breakers\<lparr>hallucination_check_enabled := False\<rparr>, ge_multimodal = False, ge_eval = True,
     ge_intent = (\<lambda>_ _. None), ge_plan = (\<lambda>_ _. None), ge_rewrite = (\<lambda>_ q. q),
     ge_generate = (\<lambda>_ _ _ _ _. (lit ''ok'', [lit ''ok''])), ge_relevant = (\<lambda>_ _ _. True), ge_grounded = (\<lambda>_ _ _. True),
     ge_text = (\<lambda>a q. text_search demo_hybrid (\<lambda>_. [1]) (\<lambda>_. ([], [])) noop_rerank default_retrieval (te_index demo_text) a q None None),
     ge_visual = (\<lambda>_ _. []), ge_metadata = (\<lambda>_ _. None), ge_object = (\<lambda>_. None),
     ge_lookup = (\<lambda>a q c. Some (None, c)), ge_store = (\<lambda>q ans cs ds sc ci c. c), ge_queue_up = True\<rparr>"

lemma drive_numeral: "drive step (numeral k) c = (case step c of Inl c' \<Rightarrow> drive step (pred_numeral k) c' | Inr r \<Rightarrow> Some r)"
  by (simp add: numeral_eq_Suc)

lemma demo_turn:
  "\<exists>s' w'. invoke demo_env (turn_input gstate0 (lit ''q'') [3] []) w = Some (Finished s' w') \<and> \<not> gs_cache_hit s' \<and> gs_answer s' = lit ''ok''"
proof -
  have b: "\<not> blank (lit ''q'')" by (simp add: py_defs is_space_def lit_def)
  have c: "classify (\<lambda>_. None) (lit ''q'') = \<lparr>rd_intent = lit ''text'', rd_source = lit ''fallback''\<rparr>"
    using b by (simp add: classify_def FALLBACK_INTENT_def)
  have q: "search_query s = lit ''q''" if "gs_rewritten s = []" "gs_query s = lit ''q''" "gs_messages s = [(M_USER, lit ''q'')]" for s
    using that by (simp add: search_query_def prior_turns_def)
  have n: "normalize_markers (lit ''ok'') = lit ''ok''" "strip (lit ''ok'') = lit ''ok''" "lit ''ok'' \<noteq> INSUFFICIENT_ANSWER"
    by (simp_all add: lit_def py_defs is_space_def INSUFFICIENT_ANSWER_def)
  have u: "uuids [str_uuid 3] = {3}" using uuids_str [of "[3]"] by simp
  show ?thesis
    using b c n u demo_text_search
    by (simp cong: option.case_cong_weak add: invoke_def recursion_limit_def demo_env_def default_breakers_def drive_numeral node_defs route_defs Let_def
        turn_input_def gstate0_def over_budget_def q graph_chunk_def split_beta)
qed

definition demo_world :: gworld where
  "demo_world = \<lparr>gw_cache = empty_cache, gw_queue = [], gw_streamed = []\<rparr>"


lemma refused_session_stuck_witness:
  "\<exists>s' w'. invoke demo_env (turn_input (gstate0\<lparr>gs_insufficient := True, gs_answer := INSUFFICIENT_ANSWER\<rparr>) (lit ''new'') [3] []) demo_world
     = Some (Finished s' w') \<and> gs_answer s' = INSUFFICIENT_ANSWER"
  using refused_session_stuck [of "gstate0\<lparr>gs_insufficient := True, gs_answer := INSUFFICIENT_ANSWER\<rparr>" demo_env "lit ''new''" "[3]" "[]" demo_world]
  by (auto simp: py_defs is_space_def lit_def)

end
