(* ===== verification/Eval.thy ===== *)
theory Eval
  imports Graph Files
begin

text \<open>
  Evaluation: the judge (\<open>app/eval/judge.py\<close>), its persistence (\<open>app/eval/runner.py\<close>,
  \<open>app/models/eval.py\<close>) and the golden-set regression (\<open>app/eval/golden.py\<close>). The judge model is a
  function of the named question and the prompt, \<open>None\<close> when the call raises; a score is the exact
  decimal the reply starts with.
\<close>

subsection \<open>Scores\<close>

datatype judge_question = Ask_faithfulness | Ask_citations | Ask_answer_relevancy | Ask_context_relevancy | Ask_retrieval_quality

type_synonym judge = "judge_question \<Rightarrow> pystr \<Rightarrow> pystr option"

definition decimal :: "pystr \<Rightarrow> nat" where
  "decimal ds = fold (\<lambda>c n. n * 10 + (c - 48)) ds 0"

text \<open>\<open>(\d+(?:\.\d+)?)\<close>, searched; the value of the match.\<close>

definition first_number :: "pystr \<Rightarrow> rat option" where
  "first_number s =
     (let t = dropWhile (\<lambda>c. \<not> is_digit c) s;
          whole = takeWhile is_digit t;
          r = dropWhile is_digit t;
          frac = (if r \<noteq> [] \<and> hd r = 46 then takeWhile is_digit (tl r) else [])
      in if t = [] then None
         else Some (of_nat (decimal whole) + of_nat (decimal frac) / 10 ^ length frac))"

definition score_unit :: "judge \<Rightarrow> judge_question \<Rightarrow> pystr \<Rightarrow> rat" where
  "score_unit chat ask user =
     (case chat ask user of
        None \<Rightarrow> 1 / 2
      | Some out \<Rightarrow> (case first_number out of None \<Rightarrow> 1 / 2 | Some x \<Rightarrow> max 0 (min 1 (x / 10))))"

record eval_scores =
  sc_faithfulness :: rat
  sc_answer :: rat
  sc_context :: rat
  sc_retrieval :: rat
  sc_citation :: rat
  sc_only_allowed :: bool

definition eval_context :: "pystr list \<Rightarrow> pystr" where
  "eval_context contexts = take 4000 (join [10, 10] (numbered 1 contexts))"

definition only_allowed :: "pystr list \<Rightarrow> citation list \<Rightarrow> bool" where
  "only_allowed retrieved cites = list_all (\<lambda>c. case ci_document c of None \<Rightarrow> False | Some d \<Rightarrow> d \<in> set retrieved) cites"

definition evaluate :: "judge \<Rightarrow> eval_item \<Rightarrow> eval_scores" where
  "evaluate chat p =
     (let ctx = eval_context (ev_contexts p);
          about = lit ''CONTEXT:'' @ [10] @ ctx @ [10, 10] @ lit ''ANSWER:'' @ [10] @ ev_answer p;
          asked = lit ''QUESTION: '' @ ev_query p @ [10, 10];
          abstained = (ev_insufficient p \<or> blank (ev_answer p))
      in \<lparr>sc_faithfulness = (if abstained then 1 else score_unit chat Ask_faithfulness about),
          sc_answer = score_unit chat Ask_answer_relevancy (asked @ lit ''ANSWER:'' @ [10] @ ev_answer p),
          sc_context = score_unit chat Ask_context_relevancy (asked @ lit ''CONTEXT:'' @ [10] @ ctx),
          sc_retrieval = score_unit chat Ask_retrieval_quality (asked @ lit ''CONTEXT:'' @ [10] @ ctx),
          sc_citation = (if abstained then 1 else if ev_citations p = [] then 0 else score_unit chat Ask_citations about),
          sc_only_allowed = only_allowed (ev_docs p) (ev_citations p)\<rparr>)"

subsection \<open>Results\<close>

record eval_row = eval_scores +
  er_request :: uuid
  er_query :: pystr
  er_answer :: pystr
  er_route :: "pystr option"
  er_cache_hit :: bool

definition eval_row_of :: "eval_scores \<Rightarrow> uuid \<Rightarrow> eval_item \<Rightarrow> eval_row" where
  "eval_row_of s i p = eval_scores.extend s \<lparr>er_request = i, er_query = ev_query p, er_answer = ev_answer p, er_route = ev_route p,
     er_cache_hit = ev_cache_hit p\<rparr>"

text \<open>A request id that is no UUID, a zero character or a route over 64 characters raises; nothing is stored.\<close>

definition persist_eval :: "eval_item \<Rightarrow> eval_scores \<Rightarrow> uuid \<Rightarrow> eval_row list \<Rightarrow> eval_row list option" where
  "persist_eval p s fresh rows =
     (case (if ev_request p = [] then Some fresh else uuid_parse (ev_request p)) of
        None \<Rightarrow> None
      | Some i \<Rightarrow>
          if 0 \<in> set (ev_query p) \<or> 0 \<in> set (ev_answer p) \<or> (case ev_route p of None \<Rightarrow> False | Some r \<Rightarrow> 64 < length r \<or> 0 \<in> set r)
          then None else Some (rows @ [eval_row_of s i p]))"

definition handle_eval :: "judge \<Rightarrow> eval_item \<Rightarrow> uuid \<Rightarrow> eval_row list \<Rightarrow> eval_row list" where
  "handle_eval chat p fresh rows = (case persist_eval p (evaluate chat p) fresh rows of None \<Rightarrow> rows | Some rows' \<Rightarrow> rows')"

subsection \<open>The golden set\<close>

record golden_case =
  gc_id :: pystr
  gc_query :: pystr
  gc_insufficient :: bool
  gc_contains :: "pystr list"
  gc_citation :: bool

record case_result =
  cr_id :: pystr
  cr_passed :: bool
  cr_reason :: pystr
  cr_answer :: pystr

text \<open>\<open>loads\<close>: JSON decoding of one line into a case; \<open>None\<close> raises.\<close>

definition load_cases :: "(pystr \<Rightarrow> golden_case option) \<Rightarrow> pystr list \<Rightarrow> golden_case list option" where
  "load_cases loads ls = those (map loads (filter (\<lambda>l. l \<noteq> [] \<and> \<not> prefix [35] l) (map strip ls)))"

definition golden_input :: "pystr \<Rightarrow> uuid list \<Rightarrow> gstate" where
  "golden_input q allowed = gstate0\<lparr>gs_messages := [(M_USER, q)], gs_query := q, gs_allowed := map str_uuid allowed,
     gs_iterations := 0, gs_rretries := 0, gs_gretries := 0\<rparr>"

definition repr_list :: "pystr list \<Rightarrow> pystr" where
  "repr_list xs = lit ''['' @ join (lit '', '') (map repr_str xs) @ lit '']''"

definition missing_phrases :: "golden_case \<Rightarrow> pystr \<Rightarrow> pystr list" where
  "missing_phrases c answer = filter (\<lambda>s. \<not> py_in (lower s) (lower answer)) (gc_contains c)"

definition judge_case :: "golden_case \<Rightarrow> gstate \<Rightarrow> case_result" where
  "judge_case c s =
     (let res = (\<lambda>ok reason. \<lparr>cr_id = gc_id c, cr_passed = ok, cr_reason = reason, cr_answer = gs_answer s\<rparr>) in
      if gc_insufficient c then res (gs_insufficient s) (if gs_insufficient s then [] else lit ''expected insufficient'')
      else if missing_phrases c (gs_answer s) \<noteq> [] then res False (lit ''missing '' @ repr_list (missing_phrases c (gs_answer s)))
      else if gc_citation c \<and> gs_citations s = [] then res False (lit ''expected a citation'')
      else res True [])"

text \<open>One turn of the production graph in a fresh thread; an exception of the graph propagates.\<close>

definition run_case :: "genv \<Rightarrow> golden_case \<Rightarrow> uuid list \<Rightarrow> gworld \<Rightarrow> (case_result \<times> gworld) option" where
  "run_case e c allowed w =
     (case invoke e (golden_input (gc_query c) allowed) w of
        Some (Finished s w') \<Rightarrow> Some (judge_case c s, w')
      | _ \<Rightarrow> None)"

fun run_golden :: "genv \<Rightarrow> golden_case list \<Rightarrow> uuid list \<Rightarrow> gworld \<Rightarrow> case_result list option" where
  "run_golden e [] allowed w = Some []"
| "run_golden e (c # cs) allowed w =
     (case run_case e c allowed w of None \<Rightarrow> None
      | Some (r, w') \<Rightarrow> map_option ((#) r) (run_golden e cs allowed w'))"

definition golden_passed :: "case_result list \<Rightarrow> nat" where
  "golden_passed rs = length (filter cr_passed rs)"

definition golden_green :: "case_result list \<Rightarrow> bool" where
  "golden_green rs \<longleftrightarrow> golden_passed rs = length rs \<and> 0 < length rs"

definition golden_failures :: "case_result list \<Rightarrow> case_result list" where
  "golden_failures rs = filter (\<lambda>r. \<not> cr_passed r) rs"

subsection \<open>What the scores mean\<close>

lemma score_unit_bounds [bounds]: "0 \<le> score_unit chat ask user" "score_unit chat ask user \<le> 1"
  by (auto simp: score_unit_def split: option.splits)

lemma only_allowed_iff: "only_allowed docs cites \<longleftrightarrow> ci_document ` set cites \<subseteq> Some ` set docs"
  by (auto simp: only_allowed_def list_all_iff image_iff split: option.splits)

text \<open>
  Whatever the judge model replies, or when it fails, the five scores lie between 0 and 1; the security
  verdict does not depend on it: it holds exactly when every citation names a retrieved document; an
  abstention counts as faithful, and a silent judge gives one half.
\<close>

theorem evaluate_sound:
  "{sc_faithfulness (evaluate chat p), sc_answer (evaluate chat p), sc_context (evaluate chat p), sc_retrieval (evaluate chat p),
      sc_citation (evaluate chat p)} \<subseteq> {0..1}
   \<and> sc_only_allowed (evaluate chat p) = (ci_document ` set (ev_citations p) \<subseteq> Some ` set (ev_docs p))
   \<and> sc_faithfulness (evaluate chat (p\<lparr>ev_insufficient := True\<rparr>)) = 1
   \<and> sc_answer (evaluate (\<lambda>_ _. None) p) = 1 / 2"
  by (simp add: evaluate_def Let_def bounds only_allowed_iff) (simp add: score_unit_def)

subsection \<open>The golden set\<close>

lemma run_case_result:
  assumes "run_case e c allowed w = Some (r, w')"
  shows "\<exists>s. invoke e (golden_input (gc_query c) allowed) w = Some (Finished s w') \<and> r = judge_case c s"
  using assms by (auto simp: run_case_def split: option.splits turn.splits)

definition meets :: "golden_case \<Rightarrow> case_result \<Rightarrow> bool" where
  "meets c r \<longleftrightarrow> cr_id r = gc_id c \<and> (cr_passed r \<longrightarrow> gc_insufficient c \<or> (\<forall>s \<in> set (gc_contains c). py_in (lower s) (lower (cr_answer r))))"

lemma judge_case_meets: "meets c (judge_case c s)"
  by (auto simp: meets_def judge_case_def Let_def missing_phrases_def filter_empty_conv)

lemma run_golden_meets: "run_golden e cs allowed w = Some rs \<Longrightarrow> list_all2 meets cs rs"
  by (induction cs arbitrary: w rs) (auto split: option.splits prod.splits dest!: run_case_result intro: judge_case_meets)

text \<open>
  A report has one result per case in order; it is green exactly when it is not empty and has no
  failure, and then every case that did not expect an abstention has all its phrases in the answer.
\<close>

lemma golden_report:
  assumes "run_golden e cs allowed w = Some rs"
  shows "map cr_id rs = map gc_id cs \<and> golden_green rs = (cs \<noteq> [] \<and> golden_failures rs = [])
     \<and> (golden_green rs \<longrightarrow> list_all2 (\<lambda>c r. gc_insufficient c \<or> (\<forall>s \<in> set (gc_contains c). py_in (lower s) (lower (cr_answer r)))) cs rs)"
proof -
  have m: "list_all2 meets cs rs" using assms by (rule run_golden_meets)
  have len: "length (filter P rs) = length rs \<longleftrightarrow> filter (\<lambda>r. \<not> P r) rs = []" for P
    by (metis (no_types, lifting) filter_True filter_empty_conv length_filter_less less_irrefl)
  have green: "golden_green rs = (cs \<noteq> [] \<and> golden_failures rs = [])"
    using list_all2_lengthD [OF m] by (auto simp: golden_green_def golden_passed_def golden_failures_def len)
  moreover have "map cr_id rs = map gc_id cs" using m by (induction rule: list_all2_induct) (simp_all add: meets_def)
  moreover have "list_all2 (\<lambda>c r. gc_insufficient c \<or> (\<forall>s \<in> set (gc_contains c). py_in (lower s) (lower (cr_answer r)))) cs rs"
    if "golden_green rs"
  proof -
    have "\<forall>r \<in> set rs. cr_passed r" using that unfolding green by (auto simp: golden_failures_def filter_empty_conv)
    with m show ?thesis by (induction rule: list_all2_induct) (auto simp: meets_def)
  qed
  ultimately show ?thesis by blast
qed

subsection \<open>A cached answer is always reported\<close>

lemma drive_step: "step c = Inl c' \<Longrightarrow> drive step (Suc k) c = drive step k c'"
  "step c = Inr r \<Longrightarrow> drive step (Suc k) c = Some r"
  by simp_all

text \<open>
  A cached answer with citations, served in a session that has not retrieved anything, is queued for
  evaluation with an empty set of retrieved documents, so it is always recorded as drawing on documents
  outside the permitted scope, although it was served within it.
\<close>

theorem cached_answer_flagged:
  assumes "gs_chunks saved = []" and "\<not> gs_insufficient saved" and "\<not> blank msg" and "allowed \<noteq> []" and "ge_eval e \<and> ge_queue_up e"
    and "ge_lookup e (set allowed) msg (gw_cache w) = Some (Some h, c)" and "hit_cites h \<noteq> []"
  shows "\<exists>s' w' it. invoke e (turn_input saved msg allowed rid) w = Some (Finished s' w') \<and> gs_answer s' = hit_answer h
     \<and> gw_queue w' = gw_queue w @ [it] \<and> \<not> sc_only_allowed (evaluate chat it)"
proof -
  let ?s0 = "turn_input saved msg allowed rid"
  let ?s1 = "bump ?s0"
  let ?s2 = "(bump ?s1)\<lparr>gs_cache_hit := True, gs_answer := hit_answer h, gs_citations := hit_cites h,
       gs_messages := gs_messages ?s1 @ assistant (hit_answer h)\<rparr>"
  let ?w1 = "w\<lparr>gw_cache := c\<rparr>"
  let ?w2 = "?w1\<lparr>gw_queue := gw_queue w @ [eval_item_of ?s2]\<rparr>"
  have ids: "uuids (gs_allowed ?s1) = set allowed"
    by (simp add: uuids_def turn_input_def bump_def List.map_filter_def comp_def)
  have "gstep e (Input_guard, ?s0, w) = Inl (Semantic_cache, ?s1, w)"
    using assms(2,3) by (simp add: input_guard_def after_input_def turn_input_def bump_def Let_def)
  moreover have "gstep e (Semantic_cache, ?s1, w) = Inl (Eval_queue, ?s2, ?w1)"
    using assms(4,6,7) ids by (simp add: semantic_cache_def Let_def) (simp add: turn_input_def bump_def after_cache_def)
  moreover have "gstep e (Eval_queue, ?s2, ?w1) = Inr (Finished (bump ?s2) ?w2)"
    using assms(5) by (simp add: eval_queue_def)
  moreover obtain k where "recursion_limit (ge_brk e) = Suc (Suc (Suc k))"
    by (auto simp: recursion_limit_def numeral_eq_Suc)
  ultimately have "invoke e ?s0 w = Some (Finished (bump ?s2) ?w2)" by (simp add: invoke_def del: gstep.simps)
  moreover have "\<not> sc_only_allowed (evaluate chat (eval_item_of ?s2))"
    using assms(1,7) by (simp add: evaluate_def Let_def only_allowed_iff eval_item_of_def turn_input_def bump_def)
  moreover have "gs_answer (bump ?s2) = hit_answer h" by (simp add: bump_def)
  ultimately show ?thesis by (intro exI [of _ "bump ?s2"] exI [of _ ?w2] exI [of _ "eval_item_of ?s2"]) simp
qed

definition demo_hit :: cache_hit where
  "demo_hit = \<lparr>hit_answer = lit ''a'', hit_query = lit ''q'', hit_score = 1, hit_colls = [str_uuid 3], hit_docs = [str_uuid 4],
     hit_cites = [doc_citation (str_uuid 4)]\<rparr>"

definition demo_env_hit :: genv where
  "demo_env_hit = demo_env\<lparr>ge_lookup := \<lambda>_ _ c. Some (Some demo_hit, c)\<rparr>"

lemma cached_answer_flagged_witness:
  "\<exists>s' w' it. invoke demo_env_hit (turn_input gstate0 (lit ''q'') [3] []) demo_world = Some (Finished s' w')
     \<and> gw_queue w' = gw_queue demo_world @ [it] \<and> \<not> sc_only_allowed (evaluate (\<lambda>_ _. Some (lit ''10'')) it)"
proof -
  have "\<not> blank (lit ''q'')" by (simp add: blank_def strip_def strip_by_def lstrip_by_def rstrip_by_def lit_Cons is_space_def)
  moreover have "gs_chunks gstate0 = []" "\<not> gs_insufficient gstate0" by (simp_all add: gstate0_def)
  moreover have "ge_eval demo_env_hit \<and> ge_queue_up demo_env_hit"
      "ge_lookup demo_env_hit (set [3]) (lit ''q'') (gw_cache demo_world) = Some (Some demo_hit, gw_cache demo_world)"
    by (simp_all add: demo_env_def demo_env_hit_def)
  moreover have "hit_cites demo_hit \<noteq> []" by (simp add: demo_hit_def)
  ultimately show ?thesis
    using cached_answer_flagged [of gstate0 "lit ''q''" "[3]" demo_env_hit demo_world demo_hit "gw_cache demo_world" "[]" "\<lambda>_ _. Some (lit ''10'')"]
    by blast
qed

end
