(* ===== verification/Worker.thy ===== *)
theory Worker
  imports Indexer Eval
begin

text \<open>
  The background worker, \<open>worker/main.py\<close>: one tick of its loop sweeps the semantic cache when due, pops
  one payload, from the ingest queue before the evaluation queue, and handles it. What a tick meets
  (clock, fresh ids, failures of the services) is indexed by the tick's number. The heartbeat file, the
  logging and the tracing of scores are left out. Draining the queues is an instance of \<open>ranked_machine\<close>.
\<close>

record worker_world =
  ww_store :: istore
  ww_broker :: broker
  ww_evals :: "eval_item list"
  ww_results :: "eval_row list"
  ww_cache :: sem_cache
  ww_last_purge :: time
  ww_tick :: nat

text \<open>\<open>wk_push\<close>: Redis accepts the write that follows a failed run. \<open>wk_purge\<close>: the sweep does not raise.\<close>

record worker_env =
  wk_index :: "nat \<Rightarrow> index_env"
  wk_now :: "nat \<Rightarrow> time"
  wk_fresh :: "nat \<Rightarrow> uuid"
  wk_push :: "nat \<Rightarrow> bool"
  wk_purge :: "nat \<Rightarrow> bool"
  wk_judge :: judge
  wk_retr :: cfg_retrieval
  wk_brk :: cfg_breakers

subsection \<open>One ingestion payload\<close>

text \<open>A new session sees what is committed. Tracking never stops the run: it goes on without a row.\<close>

definition start_tracking :: "worker_env \<Rightarrow> nat \<Rightarrow> payload_rec \<Rightarrow> istore \<Rightarrow> (uuid option \<times> istore) option" where
  "start_tracking e n p st =
     (case job_started (jp_job p) (jp_doc p) (jp_attempt p) (wk_fresh e n) (wk_now e n) (ix_db (rollback st)) of
        Inl Document_gone \<Rightarrow> None
      | Inl (Tracking_failed _) \<Rightarrow> Some (None, rollback st)
      | Inr (j, d) \<Rightarrow> Some (Some j, commit ((rollback st)\<lparr>ix_db := d\<rparr>)))"

definition run_index :: "worker_env \<Rightarrow> nat \<Rightarrow> uuid option \<Rightarrow> payload_rec \<Rightarrow> istore \<Rightarrow> ((pystr + nat) \<times> istore) option" where
  "run_index e n job p st =
     (case uuid_parse (jp_doc p) of None \<Rightarrow> Some (Inl BADLY_FORMED, st) | Some i \<Rightarrow> index_document (wk_index e n) job i st)"

definition close_job :: "uuid option \<Rightarrow> pystr option \<Rightarrow> bool \<Rightarrow> time \<Rightarrow> istore \<Rightarrow> istore" where
  "close_job job error requeued now st =
     (case job of None \<Rightarrow> st | Some j \<Rightarrow>
        if get_by j_id j (t_jobs (ix_db st)) = None then st else commit (on_db (job_finished j error requeued now) st))"

definition will_retry :: "worker_env \<Rightarrow> payload_rec \<Rightarrow> bool" where
  "will_retry e p \<longleftrightarrow> jp_attempt p + 1 < int (max_indexing_retries (wk_brk e))"

definition after_failure :: "worker_env \<Rightarrow> nat \<Rightarrow> uuid option \<Rightarrow> pystr \<Rightarrow> payload_rec \<Rightarrow> broker \<Rightarrow> broker" where
  "after_failure e n job er p b =
     (if \<not> wk_push e n then b
      else if will_retry e p then enqueue_index_sync (jp_doc p) (jp_attempt p + 1) (map_option str_uuid job) b
      else push_dlq (mk_payload (jp_doc p) (jp_attempt p) (map_option str_uuid job)) er (wk_now e n) b)"

text \<open>\<open>None\<close>: the run does not return.\<close>

definition handle_job :: "worker_env \<Rightarrow> nat \<Rightarrow> payload_rec \<Rightarrow> worker_world \<Rightarrow> worker_world option" where
  "handle_job e n p w =
     (case start_tracking e n p (ww_store w) of
        None \<Rightarrow> Some (w\<lparr>ww_store := rollback (ww_store w)\<rparr>)
      | Some (job, st1) \<Rightarrow>
        (case run_index e n job p st1 of
           None \<Rightarrow> None
         | Some (Inr k, st2) \<Rightarrow> Some (w\<lparr>ww_store := close_job job None False (wk_now e n) st2\<rparr>)
         | Some (Inl er, st2) \<Rightarrow>
             Some (w\<lparr>ww_store := close_job job (Some er) (will_retry e p) (wk_now e n) st2,
                     ww_broker := after_failure e n job er p (ww_broker w)\<rparr>)))"

subsection \<open>The loop\<close>

definition sweep :: "worker_env \<Rightarrow> worker_world \<Rightarrow> worker_world" where
  "sweep e w =
     (let now = wk_now e (ww_tick w) in
      if now - ww_last_purge w \<ge> semantic_cache_purge_interval_s (wk_retr e)
      then w\<lparr>ww_last_purge := now,
             ww_cache := (if wk_purge e (ww_tick w) then snd (purge_expired (wk_retr e) now (ww_cache w)) else ww_cache w)\<rparr>
      else w)"

text \<open>\<open>popped\<close>: \<open>blpop\<close> did not raise.\<close>

definition tick :: "worker_env \<Rightarrow> bool \<Rightarrow> worker_world \<Rightarrow> worker_world option" where
  "tick e popped w =
     (let w1 = (sweep e w)\<lparr>ww_tick := Suc (ww_tick w)\<rparr>; n = ww_tick w in
      if \<not> popped then Some w1
      else (case bk_queue (ww_broker w1) of
          p # ps \<Rightarrow> handle_job e n p (w1\<lparr>ww_broker := (ww_broker w1)\<lparr>bk_queue := ps\<rparr>\<rparr>)
        | [] \<Rightarrow> (case ww_evals w1 of
            [] \<Rightarrow> Some w1
          | it # its \<Rightarrow> Some (w1\<lparr>ww_evals := its, ww_results := handle_eval (wk_judge e) it (wk_fresh e n) (ww_results w1)\<rparr>))))"

subsection \<open>Frame\<close>

lemma sweep_frame [simp]:
  "ww_store (sweep e w) = ww_store w" "ww_broker (sweep e w) = ww_broker w" "ww_evals (sweep e w) = ww_evals w"
  "ww_results (sweep e w) = ww_results w" "ww_tick (sweep e w) = ww_tick w"
  by (simp_all add: sweep_def Let_def)

lemma close_job_frame [simp]:
  "t_documents (ix_db (close_job job er rq now st)) = t_documents (ix_db st)"
  "ix_saved st = ix_db st \<Longrightarrow> ix_saved (close_job job er rq now st) = ix_db (close_job job er rq now st)"
  "ix_chunks (close_job job er rq now st) = ix_chunks st"
  by (auto simp: close_job_def commit_def on_db_def job_finished_def split: option.splits)

lemma handle_job_frame:
  "handle_job e n p w = Some w' \<Longrightarrow> ww_evals w' = ww_evals w \<and> ww_results w' = ww_results w \<and> ww_cache w' = ww_cache w
     \<and> ww_tick w' = ww_tick w \<and> ww_last_purge w' = ww_last_purge w"
  by (auto simp: handle_job_def split: option.splits sum.splits prod.splits)

subsection \<open>What a run leaves of a document\<close>

lemma row_other: "k \<noteq> i \<Longrightarrow> (\<And>x. d_id (f x) = d_id x) \<Longrightarrow> get_by d_id i (upd_by d_id k f rows) = get_by d_id i rows"
  by (simp add: docs.get_upd)

lemma index_result_committed:
  assumes "index_document e job k st = Some (res, st')" and "ix_saved st = ix_db st"
  shows "ix_saved st' = ix_db st'"
proof (cases "get_by d_id k (t_documents (ix_db st))")
  case None
  then show ?thesis using assms by (simp add: index_document_def)
next
  case (Some doc)
  then obtain r1 st1 where b: "index_body e job doc (start_index (ie_now e) k st) = Some (r1, st1)"
      and st': "(\<exists>er. r1 = Inl er \<and> st' = index_failed (ie_now e) k er st1) \<or> (\<exists>n. r1 = Inr n \<and> st' = st1)"
    using assms(1) unfolding index_document_body [OF Some] by (auto split: option.splits sum.splits prod.splits)
  from st' show ?thesis
  proof (elim disjE exE conjE)
    fix n assume "r1 = Inr n" "st' = st1"
    with b show ?thesis by (cases rule: index_body_cases) (auto elim!: store_chunks_cases dest: sym)
  qed (auto simp: index_failed_def Let_def rollback_def commit_def)
qed

lemma row_is_iff: "ix_saved st = ix_db st \<Longrightarrow> row_is i r st \<longleftrightarrow> get_by d_id i (t_documents (ix_db st)) = Some r"
  by (simp add: row_is_def)

text \<open>The row of another document is left alone.\<close>

lemma index_keeps_row:
  assumes "index_document e job k st = Some (res, st')" and "k \<noteq> i" and "row_is i r st"
  shows "row_is i r st'"
proof (cases "get_by d_id k (t_documents (ix_db st))")
  case None
  then show ?thesis using assms by (simp add: index_document_def)
next
  case (Some doc)
  then have k: "d_id doc = k" by (auto dest: get_by_SomeD)
  have s0: "steady i r UNIV (start_index (ie_now e) k st)"
    using assms(2,3) by (simp add: start_index_def steady_def row_is_def rows_from_def commit_def on_db_def upd_doc_def row_other)
  obtain r1 st1 where b: "index_body e job doc (start_index (ie_now e) k st) = Some (r1, st1)"
      and st': "(\<exists>er. r1 = Inl er \<and> st' = index_failed (ie_now e) k er st1) \<or> (\<exists>n. r1 = Inr n \<and> st' = st1)"
    using assms(1) unfolding index_document_body [OF Some] by (auto split: option.splits sum.splits prod.splits)
  have saved: "get_by d_id i (t_documents (ix_saved st1)) = Some r \<and> (r1 \<in> range Inr \<longrightarrow> row_is i r st1)"
    using b
  proof (cases rule: index_body_cases)
    case (early er)
    then show ?thesis using steady_stage [OF s0, of job Q_PARSING] by (auto simp: steady_def row_is_def)
  next
    case (pipe er data n)
    from pipeline_keeps(1) [OF pipe(2) steady_prepared [OF s0]] pipe(1) show ?thesis by (auto simp: steady_def row_is_def)
  next
    case (stored data cs pages st5 n)
    have sy: "row_is i r (on_stage job Q_INDEXING st5)"
      using steady_stage [OF pipeline_keeps(1) [OF stored(1) steady_prepared [OF s0]], of job Q_INDEXING] by (simp add: steady_def)
    from stored(2) [symmetric] show ?thesis
      by (cases rule: store_chunks_cases) (use sy assms(2) in \<open>auto simp: row_is_def k row_other\<close>)
  qed
  with st' assms(2) show ?thesis
    by (auto simp: index_failed_def Let_def rollback_def commit_def on_db_def upd_doc_def row_is_def row_other)
qed

text \<open>Nor does a run remove the row of its own document.\<close>

lemma index_keeps_own_row:
  assumes "index_document e job i st = Some (res, st')" and "row_is i r st"
  shows "\<exists>r'. row_is i r' st'"
proof -
  have doc: "get_by d_id i (t_documents (ix_db st)) = Some r" using assms(2) by (simp add: row_is_def)
  then have i: "d_id r = i" by (auto dest: get_by_SomeD)
  let ?r = "processing (ie_now e) r"
  have s0: "steady i ?r UNIV (start_index (ie_now e) i st)" unfolding start_index_def by (rule steady_start [OF doc]) simp
  obtain r1 st1 where b: "index_body e job r (start_index (ie_now e) i st) = Some (r1, st1)"
      and st': "(\<exists>er. r1 = Inl er \<and> st' = index_failed (ie_now e) i er st1) \<or> (\<exists>n. r1 = Inr n \<and> st' = st1)"
    using assms(1) unfolding index_document_body [OF doc] by (auto split: option.splits sum.splits prod.splits)
  have "(\<exists>r'. get_by d_id i (t_documents (ix_saved st1)) = Some r') \<and> (r1 \<in> range Inr \<longrightarrow> (\<exists>r'. row_is i r' st1))"
    using b
  proof (cases rule: index_body_cases)
    case (early er)
    then show ?thesis using steady_stage [OF s0, of job Q_PARSING] by (auto simp: steady_def row_is_def)
  next
    case (pipe er data n)
    from pipeline_keeps(1) [OF pipe(2) steady_prepared [OF s0]] pipe(1) show ?thesis by (auto simp: steady_def row_is_def)
  next
    case (stored data cs pages st5 n)
    have sy: "row_is i ?r (on_stage job Q_INDEXING st5)"
      using steady_stage [OF pipeline_keeps(1) [OF stored(1) steady_prepared [OF s0]], of job Q_INDEXING] by (simp add: steady_def)
    from stored(2) [symmetric] show ?thesis
      by (cases rule: store_chunks_cases) (use sy in \<open>auto simp: row_is_def i row_upd\<close>)
  qed
  with st' show ?thesis
    by (auto simp: index_failed_def Let_def rollback_def commit_def on_db_def upd_doc_def row_is_def row_upd)
qed

definition committed :: "worker_world \<Rightarrow> bool" where
  "committed w \<longleftrightarrow> ix_saved (ww_store w) = ix_db (ww_store w)"

lemma tracking_keeps:
  assumes "start_tracking e n p st = Some (job, st1)" and "ix_saved st = ix_db st"
  shows "ix_saved st1 = ix_db st1" and "row_is i r st \<Longrightarrow> row_is i r st1"
  using assms
  by (auto simp: start_tracking_def rollback_def commit_def row_is_def split: sum.splits track_error.splits dest!: job_started_frame)

lemma tracking_gone:
  assumes "start_tracking e n p st = None" and "ix_saved st = ix_db st" and "row_is i r st"
  shows "uuid_parse (jp_doc p) \<noteq> Some i"
  using assms
  by (auto simp: start_tracking_def job_started_def get_or_create_def track_new_def rollback_def row_is_def
      split: sum.splits track_error.splits option.splits if_splits)

text \<open>The cases of handling one payload.\<close>

lemma handle_job_cases:
  assumes "handle_job e n p w = Some w'"
  obtains (gone) "start_tracking e n p (ww_store w) = None" and "w' = w\<lparr>ww_store := rollback (ww_store w)\<rparr>"
  | (indexed) job st1 i k st2 where "start_tracking e n p (ww_store w) = Some (job, st1)" and "uuid_parse (jp_doc p) = Some i"
      and "index_document (wk_index e n) job i st1 = Some (Inr k, st2)"
      and "w' = w\<lparr>ww_store := close_job job None False (wk_now e n) st2\<rparr>"
  | (failed) job st1 er st2 where "start_tracking e n p (ww_store w) = Some (job, st1)"
      and "run_index e n job p st1 = Some (Inl er, st2)"
      and "w' = w\<lparr>ww_store := close_job job (Some er) (will_retry e p) (wk_now e n) st2,
                 ww_broker := after_failure e n job er p (ww_broker w)\<rparr>"
  using assms
  by (auto simp: handle_job_def run_index_def split: option.splits sum.splits prod.splits intro: gone indexed failed)

lemma close_job_row: "row_is i r st \<Longrightarrow> row_is i r (close_job job er rq now st)"
  by (auto simp: close_job_def row_is_def commit_def on_db_def job_finished_def split: option.splits)

lemma run_index_keeps:
  assumes "run_index e n job p st = Some (res, st')" and "ix_saved st = ix_db st"
  shows "ix_saved st' = ix_db st'"
    and "row_is i r st \<Longrightarrow> uuid_parse (jp_doc p) \<noteq> Some i \<Longrightarrow> row_is i r st'"
    and "row_is i r st \<Longrightarrow> \<exists>r'. row_is i r' st'"
  using assms index_result_committed index_keeps_row index_keeps_own_row
  by (auto simp: run_index_def split: option.splits) (metis index_keeps_own_row index_keeps_row)+

subsection \<open>No payload is lost\<close>

text \<open>A document the queue owes a run has been indexed, or the owing payload is queued or dead-lettered.\<close>

definition owed :: "uuid \<Rightarrow> payload_rec list \<Rightarrow> bool" where
  "owed i ps \<longleftrightarrow> (\<exists>p \<in> set ps. uuid_parse (jp_doc p) = Some i)"

definition dead :: "uuid \<Rightarrow> dead_letter list \<Rightarrow> bool" where
  "dead i ls \<longleftrightarrow> (\<exists>l \<in> set ls. uuid_parse (jp_doc l) = Some i)"

definition accounted :: "uuid \<Rightarrow> worker_world \<Rightarrow> bool" where
  "accounted i w \<longleftrightarrow> (\<exists>r. row_is i r (ww_store w) \<and> (d_status r = INDEXED
     \<or> owed i (bk_queue (ww_broker w)) \<or> dead i (bk_dlq (ww_broker w))))"

lemma after_failure_accounts:
  assumes "wk_push e n"
  shows "owed i (p # bk_queue b) \<or> dead i (bk_dlq b) \<longleftrightarrow>
    owed i (bk_queue (after_failure e n job er p b)) \<or> dead i (bk_dlq (after_failure e n job er p b))"
  using assms
  by (auto simp: after_failure_def enqueue_index_sync_def push_dlq_def mk_payload_def owed_def dead_def payload_rec.defs)

lemma handle_job_committed:
  assumes "handle_job e n p w = Some w'" and "committed w"
  shows "committed w'"
  using assms(1)
proof (cases rule: handle_job_cases)
  case gone
  then show ?thesis by (simp add: committed_def rollback_def)
next
  case (indexed job st1 i k st2)
  have "ix_saved st1 = ix_db st1" using tracking_keeps(1) [OF indexed(1)] assms(2) by (simp add: committed_def)
  with indexed show ?thesis using index_result_committed [OF indexed(3)] by (simp add: committed_def)
next
  case (failed job st1 er st2)
  have "ix_saved st1 = ix_db st1" using tracking_keeps(1) [OF failed(1)] assms(2) by (simp add: committed_def)
  with failed show ?thesis using run_index_keeps(1) [OF failed(2)] by (simp add: committed_def)
qed

lemma handle_job_accounts:
  assumes "handle_job e n p w = Some w'" and "committed w" and "wk_push e n"
    and "row_is i r (ww_store w)"
    and "d_status r = INDEXED \<or> owed i (p # bk_queue (ww_broker w)) \<or> dead i (bk_dlq (ww_broker w))"
  shows "accounted i w'"
  using assms(1)
proof (cases rule: handle_job_cases)
  case gone
  then have "uuid_parse (jp_doc p) \<noteq> Some i" using tracking_gone assms(2,4) by (simp add: committed_def)
  moreover have "rollback (ww_store w) = ww_store w" using assms(2) by (simp add: committed_def rollback_def)
  ultimately show ?thesis using gone(2) assms(4,5) by (auto simp: accounted_def owed_def)
next
  case (indexed job st1 k m st2)
  note st1 = tracking_keeps [OF indexed(1) assms(2) [unfolded committed_def]]
  show ?thesis
  proof (cases "k = i")
    case True
    have "map_option d_status (get_by d_id i (t_documents (ix_db st2))) = Some INDEXED \<and> ix_saved st2 = ix_db st2"
      using index_success_row [OF indexed(3)] True by simp
    then obtain r2 where "row_is i r2 st2" "d_status r2 = INDEXED" by (auto simp: row_is_def)
    then show ?thesis using indexed(4) by (auto simp: accounted_def intro: close_job_row)
  next
    case False
    have "row_is i r st2" using index_keeps_row [OF indexed(3) False] st1(2) [OF assms(4)] by simp
    then show ?thesis using indexed(2,4) False assms(5) by (auto simp: accounted_def owed_def intro: close_job_row)
  qed
next
  case (failed job st1 er st2)
  note st1 = tracking_keeps [OF failed(1) assms(2) [unfolded committed_def]]
  note keeps = run_index_keeps(2,3) [OF failed(2) st1(1) st1(2) [OF assms(4)]]
  have owing: "owed i (p # bk_queue (ww_broker w)) \<or> dead i (bk_dlq (ww_broker w)) \<Longrightarrow>
      owed i (bk_queue (ww_broker w')) \<or> dead i (bk_dlq (ww_broker w'))"
    using failed(3) after_failure_accounts [OF assms(3)] by simp
  show ?thesis
  proof (cases "uuid_parse (jp_doc p) = Some i")
    case True
    then have "owed i (p # bk_queue (ww_broker w))" by (simp add: owed_def)
    then show ?thesis using owing keeps(2) failed(3) by (auto simp: accounted_def intro: close_job_row)
  next
    case False
    then show ?thesis using keeps(1) assms(5) owing failed(3) by (auto simp: accounted_def intro: close_job_row)
  qed
qed

lemma tick_accounts:
  assumes "tick e popped w = Some w'" and "committed w" and "\<And>n. wk_push e n" and "accounted i w"
  shows "committed w' \<and> accounted i w'"
proof -
  let ?w1 = "(sweep e w)\<lparr>ww_tick := Suc (ww_tick w)\<rparr>"
  have same: "committed ?w1" "accounted i ?w1" using assms(2,4) by (simp_all add: committed_def accounted_def)
  show ?thesis
  proof (cases "popped \<and> bk_queue (ww_broker w) \<noteq> []")
    case True
    then obtain p ps where q: "bk_queue (ww_broker w) = p # ps" by (auto simp: neq_Nil_conv)
    let ?w2 = "?w1\<lparr>ww_broker := (ww_broker w)\<lparr>bk_queue := ps\<rparr>\<rparr>"
    have h: "handle_job e (ww_tick w) p ?w2 = Some w'" using assms(1) True q by (simp add: tick_def Let_def)
    have c: "committed ?w2" using assms(2) by (simp add: committed_def)
    obtain r where "row_is i r (ww_store w)" "d_status r = INDEXED \<or> owed i (p # ps) \<or> dead i (bk_dlq (ww_broker w))"
      using assms(4) q by (auto simp: accounted_def)
    then show ?thesis using handle_job_committed [OF h c] handle_job_accounts [OF h c assms(3), of i r] by simp
  next
    case False
    then have "ww_store w' = ww_store w \<and> ww_broker w' = ww_broker w"
      using assms(1) by (auto simp: tick_def Let_def split: list.splits if_splits)
    then show ?thesis using assms(2,4) by (simp add: committed_def accounted_def)
  qed
qed

subsection \<open>Draining\<close>

datatype drained = Drained worker_world | Hung

definition drain_step :: "worker_env \<Rightarrow> worker_world \<Rightarrow> worker_world + drained" where
  "drain_step e w = (if bk_queue (ww_broker w) = [] \<and> ww_evals w = [] then Inr (Drained w)
     else (case tick e True w of None \<Rightarrow> Inr Hung | Some w' \<Rightarrow> Inl w'))"

text \<open>The runs a payload may still take.\<close>

definition budget :: "worker_env \<Rightarrow> payload_rec \<Rightarrow> nat" where
  "budget e p = nat (max 1 (int (max_indexing_retries (wk_brk e)) - jp_attempt p))"

definition backlog :: "worker_env \<Rightarrow> worker_world \<Rightarrow> nat" where
  "backlog e w = sum_list (map (budget e) (bk_queue (ww_broker w))) + length (ww_evals w) + 1"

lemma after_failure_budget:
  "sum_list (map (budget e) (bk_queue (after_failure e n job er p b))) < budget e p + sum_list (map (budget e) (bk_queue b))"
  by (auto simp: after_failure_def enqueue_index_sync_def push_dlq_def mk_payload_def budget_def will_retry_def)

lemma budget_pos: "0 < budget e p"
  by (simp add: budget_def)

lemma handle_job_budget:
  assumes "handle_job e n p w = Some w'"
  shows "backlog e w' < backlog e w + budget e p"
  using assms
proof (cases rule: handle_job_cases)
  case (failed job st1 er st2)
  then show ?thesis using after_failure_budget [of e n job er p "ww_broker w"] by (simp add: backlog_def)
qed (auto simp: backlog_def budget_pos)

lemma tick_backlog:
  assumes "tick e True w = Some w'" and "\<not> (bk_queue (ww_broker w) = [] \<and> ww_evals w = [])"
  shows "backlog e w' < backlog e w"
proof (cases "bk_queue (ww_broker w)")
  case (Cons p ps)
  with assms(1) have "handle_job e (ww_tick w) p ((sweep e w)\<lparr>ww_tick := Suc (ww_tick w), ww_broker := (ww_broker w)\<lparr>bk_queue := ps\<rparr>\<rparr>) = Some w'"
    by (simp add: tick_def Let_def)
  from handle_job_budget [OF this] Cons show ?thesis by (simp add: backlog_def)
next
  case Nil
  with assms show ?thesis by (auto simp: tick_def Let_def backlog_def split: list.splits)
qed

interpretation draining: ranked_machine "drain_step e" "backlog e" for e
proof
  show "0 < backlog e c" for c by (simp add: backlog_def)
  show "drain_step e c = Inl c' \<Longrightarrow> backlog e c' < backlog e c" for c c'
    by (auto simp: drain_step_def intro: tick_backlog split: if_splits option.splits)
qed

lemma index_document_returns: "sane_chunking (ie_ingest e) \<Longrightarrow> index_document e job i st \<noteq> None"
  by (auto simp: run_pipeline_returns index_document_def index_body_def Let_def split: option.splits sum.splits prod.splits)

lemma tick_returns:
  assumes "\<And>n. sane_chunking (ie_ingest (wk_index e n))"
  shows "tick e popped w \<noteq> None"
  by (auto simp: index_document_returns [OF assms] tick_def handle_job_def run_index_def Let_def split: option.splits sum.splits prod.splits list.splits)

lemma drain_accounts:
  assumes "\<And>n. sane_chunking (ie_ingest (wk_index e n))" and "\<And>n. wk_push e n"
  shows "\<exists>w'. drive (drain_step e) (backlog e w) w = Some (Drained w') \<and> bk_queue (ww_broker w') = [] \<and> ww_evals w' = []
    \<and> (committed w \<and> accounted i w \<longrightarrow> committed w' \<and> accounted i w')"
proof -
  define I where "I \<longleftrightarrow> committed w \<and> accounted i w"
  obtain res where run: "drive (drain_step e) (backlog e w) w = Some res"
    using draining.returns [of e w "backlog e w"] by blast
  have "\<exists>w'. res = Drained w' \<and> bk_queue (ww_broker w') = [] \<and> ww_evals w' = [] \<and> (I \<longrightarrow> committed w' \<and> accounted i w')"
  proof (rule drive_inv [OF run, where I = "\<lambda>w. I \<longrightarrow> committed w \<and> accounted i w"])
    show "I \<longrightarrow> committed w \<and> accounted i w" by (simp add: I_def)
    show "I \<longrightarrow> committed c' \<and> accounted i c'" if "I \<longrightarrow> committed c \<and> accounted i c" "drain_step e c = Inl c'" for c c'
      using that tick_accounts [OF _ _ assms(2), of True c c' i] by (auto simp: drain_step_def split: if_splits option.splits)
    show "\<exists>w'. r = Drained w' \<and> bk_queue (ww_broker w') = [] \<and> ww_evals w' = [] \<and> (I \<longrightarrow> committed w' \<and> accounted i w')"
      if "I \<longrightarrow> committed c \<and> accounted i c" "drain_step e c = Inr r" for c r
      using that by (auto simp: drain_step_def tick_returns [OF assms(1)] split: if_splits option.splits)
  qed
  with run show ?thesis unfolding I_def by blast
qed

lemma accounted_settled:
  assumes "accounted i w" and "bk_queue (ww_broker w) = []"
  shows "map_option d_status (get_by d_id i (t_documents (ix_db (ww_store w)))) = Some INDEXED
    \<or> (\<exists>l \<in> set (bk_dlq (ww_broker w)). uuid_parse (jp_doc l) = Some i)"
  using assms by (auto simp: accounted_def row_is_def owed_def dead_def)

text \<open>
  C8. The worker settles what it is owed: with the services reachable it empties both queues within one tick
  per pending evaluation and at most as many runs per payload as the retry limit leaves, and then every
  document that a payload named at the start has been indexed or has an entry among the dead letters,
  whatever fails in between.
\<close>

theorem worker_settles:
  assumes "\<And>n. sane_chunking (ie_ingest (wk_index e n))" and "\<And>n. wk_push e n" and "ix_saved (ww_store w) = ix_db (ww_store w)"
  shows "\<exists>w'. drive (drain_step e) (backlog e w) w = Some (Drained w') \<and> bk_queue (ww_broker w') = [] \<and> ww_evals w' = []
    \<and> (\<forall>p i r. p \<in> set (bk_queue (ww_broker w)) \<longrightarrow> uuid_parse (jp_doc p) = Some i \<longrightarrow> get_by d_id i (t_documents (ix_db (ww_store w))) = Some r \<longrightarrow>
         map_option d_status (get_by d_id i (t_documents (ix_db (ww_store w')))) = Some INDEXED
         \<or> (\<exists>l \<in> set (bk_dlq (ww_broker w')). uuid_parse (jp_doc l) = Some i))"
proof -
  obtain w' where w': "drive (drain_step e) (backlog e w) w = Some (Drained w')" "bk_queue (ww_broker w') = []" "ww_evals w' = []"
    using drain_accounts [OF assms(1,2)] by blast
  have "map_option d_status (get_by d_id i (t_documents (ix_db (ww_store w')))) = Some INDEXED
         \<or> (\<exists>l \<in> set (bk_dlq (ww_broker w')). uuid_parse (jp_doc l) = Some i)"
    if "p \<in> set (bk_queue (ww_broker w))" "uuid_parse (jp_doc p) = Some i" "get_by d_id i (t_documents (ix_db (ww_store w))) = Some r" for p i r
  proof -
    have "committed w \<and> accounted i w"
      using that assms(3) by (auto simp: committed_def accounted_def row_is_def owed_def)
    then have "accounted i w'" using drain_accounts [OF assms(1,2), of w i] w'(1) by auto
    then show ?thesis using w'(2) by (rule accounted_settled)
  qed
  with w' show ?thesis by auto
qed

text \<open>
  A payload exists only in the worker's hands between pop and requeue: when Redis refuses the write
  after a failed run, the queue and the dead letters hold nothing of it although its progress row says
  it is queued again.
\<close>

theorem payload_lost_without_push:
  assumes "uuid_parse (jp_doc p) = Some i" and "start_tracking e n p (ww_store w) = Some (Some j, st1)"
    and "index_document (wk_index e n) (Some j) i st1 = Some (Inl er, st2)" and "get_by j_id j (t_jobs (ix_db st2)) \<noteq> None"
    and "\<not> wk_push e n" and "will_retry e p"
  shows "\<exists>w'. handle_job e n p w = Some w' \<and> ww_broker w' = ww_broker w
    \<and> map_option j_status (get_by j_id j (t_jobs (ix_saved (ww_store w')))) = Some Q_QUEUED"
  using assms by (auto simp: handle_job_def run_index_def after_failure_def close_job_def commit_def on_db_def job_finished_def
      get_job_upd finish_row_def)

subsection \<open>Witnesses\<close>

definition demo_worker_env :: "bool \<Rightarrow> worker_env" where
  "demo_worker_env push = \<lparr>wk_index = (\<lambda>_. demo_env_ix), wk_now = of_nat, wk_fresh = of_nat, wk_push = (\<lambda>_. push), wk_purge = (\<lambda>_. True),
     wk_judge = (\<lambda>_ _. None), wk_retr = default_retrieval, wk_brk = default_breakers\<rparr>"

definition demo_payload :: payload_rec where
  "demo_payload = mk_payload (str_uuid 7) 0 (Some (str_uuid 9))"

text \<open>The document's file is missing, so every run fails.\<close>

definition demo_worker :: worker_world where
  "demo_worker = (let d = empty_db\<lparr>t_documents := [demo_doc], t_jobs := [new_job 9 7 0]\<rparr> in
     \<lparr>ww_store = \<lparr>ix_db = d, ix_saved = d, ix_chunks = qcoll0, ix_pages = qcoll0, ix_objects = [], ix_volume = []\<rparr>,
      ww_broker = \<lparr>bk_queue = [demo_payload], bk_dlq = []\<rparr>, ww_evals = [], ww_results = [], ww_cache = empty_cache, ww_last_purge = 0, ww_tick = 0\<rparr>)"

lemma worker_settles_witness:
  "\<exists>w'. drive (drain_step (demo_worker_env True)) 4 demo_worker = Some (Drained w')
     \<and> (map_option d_status (get_by d_id 7 (t_documents (ix_db (ww_store w')))) = Some INDEXED
        \<or> (\<exists>l \<in> set (bk_dlq (ww_broker w')). uuid_parse (jp_doc l) = Some 7))"
proof -
  have "sane_chunking (ie_ingest (wk_index (demo_worker_env True) n))" for n
    by (simp add: demo_worker_env_def demo_env_ix_def sane_default)
  moreover have "wk_push (demo_worker_env True) n" for n by (simp add: demo_worker_env_def)
  moreover have "ix_saved (ww_store demo_worker) = ix_db (ww_store demo_worker)" by (simp add: demo_worker_def Let_def)
  moreover have "backlog (demo_worker_env True) demo_worker = 4"
    by (simp add: backlog_def budget_def demo_worker_def demo_payload_def mk_payload_def demo_worker_env_def default_breakers_def Let_def)
  moreover have "demo_payload \<in> set (bk_queue (ww_broker demo_worker))" "uuid_parse (jp_doc demo_payload) = Some 7"
      "get_by d_id 7 (t_documents (ix_db (ww_store demo_worker))) = Some demo_doc"
    by (simp_all add: demo_worker_def demo_payload_def mk_payload_def demo_doc_def get_by_def Let_def)
  ultimately show ?thesis using worker_settles [of "demo_worker_env True" demo_worker] by metis
qed

lemma payload_lost_without_push_witness:
  "\<exists>w'. handle_job (demo_worker_env False) 0 demo_payload (demo_worker\<lparr>ww_broker := \<lparr>bk_queue = [], bk_dlq = []\<rparr>\<rparr>) = Some w'
     \<and> bk_queue (ww_broker w') = [] \<and> bk_dlq (ww_broker w') = []"
proof -
  let ?e = "demo_worker_env False" and ?w = "demo_worker\<lparr>ww_broker := \<lparr>bk_queue = [], bk_dlq = []\<rparr>\<rparr>"
  have up: "uuid_parse (jp_doc demo_payload) = Some 7" by (simp add: demo_payload_def mk_payload_def)
  have "\<exists>st1. start_tracking ?e 0 demo_payload (ww_store ?w) = Some (Some 9, st1) \<and> get_by j_id 9 (t_jobs (ix_db st1)) \<noteq> None
      \<and> get_by d_id 7 (t_documents (ix_db st1)) = Some demo_doc \<and> ix_volume st1 = []"
    by (simp add: start_tracking_def job_started_def get_or_create_def demo_payload_def mk_payload_def demo_worker_def demo_worker_env_def
        rollback_def commit_def upd_job_def upd_by_def get_by_def new_job_def demo_doc_def Let_def)
  then obtain st1 where st1: "start_tracking ?e 0 demo_payload (ww_store ?w) = Some (Some 9, st1)" "get_by j_id 9 (t_jobs (ix_db st1)) \<noteq> None"
      "get_by d_id 7 (t_documents (ix_db st1)) = Some demo_doc" "ix_volume st1 = []"
    by blast
  have "\<exists>er st2. index_document (wk_index ?e 0) (Some 9) 7 st1 = Some (Inl er, st2) \<and> get_by j_id 9 (t_jobs (ix_db st2)) \<noteq> None"
    using st1(2-4)
    by (auto simp: index_document_def index_body_def read_document_def on_stage_def job_stage_def index_failed_def rollback_def commit_def
        on_db_def upd_doc_def get_job_upd Let_def)
  then obtain er st2 where "index_document (wk_index ?e 0) (Some 9) 7 st1 = Some (Inl er, st2)" "get_by j_id 9 (t_jobs (ix_db st2)) \<noteq> None"
    by blast
  moreover have "\<not> wk_push ?e 0" "will_retry ?e demo_payload"
    by (simp_all add: demo_worker_env_def will_retry_def demo_payload_def mk_payload_def default_breakers_def)
  ultimately obtain w' where "handle_job ?e 0 demo_payload ?w = Some w'" "ww_broker w' = ww_broker ?w"
    using payload_lost_without_push [OF up st1(1)] by blast
  then show ?thesis by simp
qed

end
