(* ===== verification/Redis.thy ===== *)
theory Redis
  imports Model
begin

text \<open>
  The Redis instance as the API processes see it (\<open>app/core/redis.py\<close> and the counters of
  \<open>app/core/ratelimit.py\<close>). Keys are f-strings over disjoint prefixes, so each key family is a field:
  the jti denylist (with the expiry instant \<open>EX\<close> sets), the per-user session epochs and the integer
  counters (value and optional expiry). \<open>r_up\<close> says whether Redis is reachable; a command sent to an
  unreachable Redis raises. One request reads the clock once (\<open>now\<close>).
\<close>

datatype counter_key = RPM uuid int | Inflight uuid | GlobalInflight

record redis =
  r_up :: bool
  r_deny :: "pystr \<Rightarrow> time option"
  r_epoch :: "uuid \<Rightarrow> time option"
  r_cnt :: "counter_key \<Rightarrow> (int \<times> time option) option"

definition empty_redis :: redis where
  "empty_redis = \<lparr>r_up = True, r_deny = (\<lambda>_. None), r_epoch = (\<lambda>_. None), r_cnt = (\<lambda>_. None)\<rparr>"

subsection \<open>Denylist and session epochs\<close>

definition revoke_jti :: "pystr \<Rightarrow> int \<Rightarrow> time \<Rightarrow> redis \<Rightarrow> http_error + redis" where
  "revoke_jti jti ttl now r =
     (if ttl \<le> 0 then Inr r
      else if \<not> r_up r then Inl Crash
      else Inr (r\<lparr>r_deny := (r_deny r)(jti \<mapsto> now + of_int ttl)\<rparr>))"

definition is_revoked :: "pystr \<Rightarrow> time \<Rightarrow> redis \<Rightarrow> bool" where
  "is_revoked jti now r =
     (if \<not> r_up r then False
      else case r_deny r jti of None \<Rightarrow> False | Some e \<Rightarrow> now < e)"

definition bump_session_epoch :: "uuid \<Rightarrow> time \<Rightarrow> redis \<Rightarrow> http_error + redis" where
  "bump_session_epoch uid now r =
     (if \<not> r_up r then Inl Crash
      else Inr (r\<lparr>r_epoch := (r_epoch r)(uid \<mapsto> now)\<rparr>))"

definition session_epoch :: "uuid \<Rightarrow> redis \<Rightarrow> time" where
  "session_epoch uid r =
     (if \<not> r_up r then 0 else case r_epoch r uid of None \<Rightarrow> 0 | Some v \<Rightarrow> v)"

lemma revoke_jti_up: "revoke_jti jti ttl now r = Inr r' \<Longrightarrow> r_up r' = r_up r"
  by (auto simp: revoke_jti_def split: if_splits)

lemma revoke_jti_epoch: "revoke_jti jti ttl now r = Inr r' \<Longrightarrow> r_epoch r' = r_epoch r"
  by (auto simp: revoke_jti_def split: if_splits)

lemma revoked_after:
  assumes "revoke_jti jti ttl now r = Inr r'" and "r_up r'" and "0 < ttl" and "t < now + of_int ttl"
  shows "is_revoked jti t r'"
  using assms by (auto simp: revoke_jti_def is_revoked_def split: if_splits)

lemma revoke_jti_other:
  "revoke_jti jti ttl now r = Inr r' \<Longrightarrow> j \<noteq> jti \<Longrightarrow> is_revoked j t r' = is_revoked j t r"
  by (auto simp: revoke_jti_def is_revoked_def split: if_splits)

lemma is_revoked_fails_open: "\<not> r_up r \<Longrightarrow> \<not> is_revoked jti now r"
  by (simp add: is_revoked_def)

lemma epoch_after_bump:
  "bump_session_epoch uid now r = Inr r' \<Longrightarrow> session_epoch uid r' = now"
  by (auto simp: bump_session_epoch_def session_epoch_def split: if_splits)

lemma epoch_bump_other:
  "bump_session_epoch uid now r = Inr r' \<Longrightarrow> v \<noteq> uid \<Longrightarrow> session_epoch v r' = session_epoch v r"
  by (auto simp: bump_session_epoch_def session_epoch_def split: if_splits)

subsection \<open>Counters: INCR, DECR, EXPIRE, SET\<close>

definition live :: "time \<Rightarrow> (int \<times> time option) option \<Rightarrow> (int \<times> time option) option" where
  "live now c = (case c of None \<Rightarrow> None
     | Some (v, e) \<Rightarrow> (case e of None \<Rightarrow> Some (v, None) | Some t \<Rightarrow> if now < t then Some (v, e) else None))"

definition cnt_value :: "counter_key \<Rightarrow> time \<Rightarrow> redis \<Rightarrow> int" where
  "cnt_value k now r = (case live now (r_cnt r k) of None \<Rightarrow> 0 | Some (v, _) \<Rightarrow> v)"

definition r_add :: "int \<Rightarrow> counter_key \<Rightarrow> time \<Rightarrow> redis \<Rightarrow> int \<times> redis" where
  "r_add d k now r = (let v = cnt_value k now r + d;
       e = (case live now (r_cnt r k) of None \<Rightarrow> None | Some (_, e) \<Rightarrow> e)
     in (v, r\<lparr>r_cnt := (r_cnt r)(k \<mapsto> (v, e))\<rparr>))"

definition r_incr :: "counter_key \<Rightarrow> time \<Rightarrow> redis \<Rightarrow> int \<times> redis" where
  "r_incr = r_add 1"

definition r_decr :: "counter_key \<Rightarrow> time \<Rightarrow> redis \<Rightarrow> int \<times> redis" where
  "r_decr = r_add (- 1)"

definition r_expire :: "counter_key \<Rightarrow> rat \<Rightarrow> time \<Rightarrow> redis \<Rightarrow> redis" where
  "r_expire k ttl now r = (case live now (r_cnt r k) of None \<Rightarrow> r
     | Some (v, _) \<Rightarrow> r\<lparr>r_cnt := (r_cnt r)(k \<mapsto> (v, Some (now + ttl)))\<rparr>)"

definition r_set0 :: "counter_key \<Rightarrow> redis \<Rightarrow> redis" where
  "r_set0 k r = r\<lparr>r_cnt := (r_cnt r)(k \<mapsto> (0, None))\<rparr>"

lemmas r_counter_defs = r_incr_def r_decr_def r_add_def r_expire_def r_set0_def cnt_value_def live_def

lemma live_live [simp]: "live now (live now c) = live now c"
  by (auto simp: live_def split: option.splits)

lemma live_Some: "live now c = Some p \<Longrightarrow> c = Some p"
  by (auto simp: live_def split: option.splits if_splits)

lemma cnt_value_add [simp]: "cnt_value k now (snd (r_add d k now r)) = cnt_value k now r + d"
proof (cases "live now (r_cnt r k)")
  case None
  then show ?thesis by (simp add: cnt_value_def r_add_def live_def)
next
  case (Some p)
  then obtain v e where p: "live now (r_cnt r k) = Some (v, e)" by (cases p) auto
  then have "live now (Some (v + d, e)) = Some (v + d, e)"
    by (auto simp: live_def split: option.splits if_splits)
  with p show ?thesis by (simp add: cnt_value_def r_add_def Let_def)
qed

lemma fst_add [simp]: "fst (r_add d k now r) = cnt_value k now r + d"
  by (simp add: r_add_def Let_def)

lemma cnt_value_other [simp]: "k' \<noteq> k \<Longrightarrow> cnt_value k' now' (snd (r_add d k now r)) = cnt_value k' now' r"
  by (simp add: cnt_value_def r_add_def Let_def)

lemma up_add [simp]: "r_up (snd (r_add d k now r)) = r_up r"
  by (simp add: r_add_def Let_def)

lemma cnt_value_expire [simp]: "0 < ttl \<Longrightarrow> cnt_value k' now (r_expire k ttl now r) = cnt_value k' now r"
proof (cases "live now (r_cnt r k)")
  case None
  then show ?thesis by (simp add: r_expire_def)
next
  case (Some p)
  moreover assume "0 < ttl"
  moreover obtain v e where "p = (v, e)" by (cases p)
  ultimately show ?thesis
    by (auto simp: r_expire_def cnt_value_def live_def)
qed

lemma up_expire [simp]: "r_up (r_expire k ttl now r) = r_up r"
  by (auto simp: r_expire_def split: option.splits prod.splits)

lemma up_set0 [simp]: "r_up (r_set0 k r) = r_up r"
  by (simp add: r_set0_def)

lemma cnt_value_set0 [simp]: "cnt_value k' now (r_set0 k r) = (if k' = k then 0 else cnt_value k' now r)"
  by (simp add: r_set0_def cnt_value_def live_def)

end
