(* ===== verification/Security.thy ===== *)
theory Security
  imports Redis Config Codec "HOL-Library.Countable"
begin

text \<open>
  Passwords and tokens (\<open>app/core/security.py\<close>), the authentication dependencies
  (\<open>app/core/deps.py\<close>) and the endpoints of \<open>app/api/auth.py\<close>. The JWT library is a pair of
  parameters, \<open>enc\<close> (signing) and \<open>dec\<close> (verification at an instant, \<open>None\<close> for a \<open>JWTError\<close>); what is
  relied on is \<open>jose_laws\<close>. bcrypt is the pair \<open>hashpw\<close>, \<open>checkpw\<close>. Both token gates, the bearer check
  and the refresh endpoint's, are instances of one interface, \<open>token_gate\<close>.
\<close>

subsection \<open>Passwords\<close>

definition BCRYPT_MAX_BYTES :: nat where
  "BCRYPT_MAX_BYTES = 72"

definition to_bcrypt_bytes :: "pystr \<Rightarrow> nat list option" where
  "to_bcrypt_bytes plain = map_option (take BCRYPT_MAX_BYTES) (utf8 plain)"

text \<open>bcrypt's output is ASCII, so \<open>.decode("utf-8")\<close> of it and \<open>.encode\<close> back are identities.\<close>

definition hash_password :: "(nat list \<Rightarrow> pystr) \<Rightarrow> pystr \<Rightarrow> pystr option" where
  "hash_password hashpw plain = map_option hashpw (to_bcrypt_bytes plain)"

definition verify_password :: "(nat list \<Rightarrow> nat list \<Rightarrow> bool option) \<Rightarrow> pystr \<Rightarrow> pystr \<Rightarrow> bool" where
  "verify_password checkpw plain hashed =
     (case to_bcrypt_bytes plain of None \<Rightarrow> False
      | Some b \<Rightarrow> (case utf8 hashed of None \<Rightarrow> False
          | Some h \<Rightarrow> (case checkpw b h of None \<Rightarrow> False | Some ok \<Rightarrow> ok)))"

text \<open>What is relied on of bcrypt: hashes are ASCII and a hash checks exactly the bytes it was made of.\<close>

definition bcrypt_laws :: "(nat list \<Rightarrow> pystr) \<Rightarrow> (nat list \<Rightarrow> nat list \<Rightarrow> bool option) \<Rightarrow> bool" where
  "bcrypt_laws hashpw checkpw \<longleftrightarrow>
     (\<forall>b. \<forall>c \<in> set (hashpw b). c < 128) \<and>
     (\<forall>b b'. length b \<le> 72 \<longrightarrow> length b' \<le> 72 \<longrightarrow> checkpw b' (hashpw b) = Some (b' = b))"

lemma length_bcrypt_bytes: "to_bcrypt_bytes p = Some b \<Longrightarrow> length b \<le> 72"
  by (auto simp: to_bcrypt_bytes_def BCRYPT_MAX_BYTES_def)

text \<open>
  A password verifies against a stored hash exactly when its UTF-8 encoding agrees with the
  original password's in the first 72 bytes: bytes beyond the bound never matter, and an input
  that cannot be encoded is rejected rather than raising.
\<close>

theorem verify_password_spec:
  assumes "bcrypt_laws hashpw checkpw" and "hash_password hashpw p = Some h"
  shows "verify_password checkpw q h \<longleftrightarrow>
           (\<exists>bq bp. utf8 q = Some bq \<and> utf8 p = Some bp \<and> take 72 bq = take 72 bp)"
proof -
  obtain b where b: "to_bcrypt_bytes p = Some b" "h = hashpw b"
    using assms(2) by (auto simp: hash_password_def)
  have "utf8 h = Some h"
    using assms(1) b(2) by (intro utf8_ascii) (simp add: bcrypt_laws_def)
  moreover have "checkpw b' h = Some (b' = b)" if "to_bcrypt_bytes q = Some b'" for b'
    using assms(1) b length_bcrypt_bytes [OF that] length_bcrypt_bytes [OF b(1)]
    by (simp add: bcrypt_laws_def)
  ultimately show ?thesis
    using b(1) by (auto simp: verify_password_def to_bcrypt_bytes_def BCRYPT_MAX_BYTES_def split: option.splits)
qed

text \<open>A stand-in for bcrypt under which the laws hold: a hash is the bytes, made ASCII in unary.\<close>

definition unary_hash :: "nat list \<Rightarrow> pystr" where
  "unary_hash b = concat (map (\<lambda>n. replicate n 49 @ [48]) b)"

lemma takeWhile_unary: "takeWhile ((=) 49) (replicate n 49 @ 48 # s) = replicate n (49::nat)"
  by (induction n) auto

lemma unary_hash_inject: "unary_hash a = unary_hash b \<Longrightarrow> a = b"
proof (induction a arbitrary: b)
  case Nil
  then show ?case by (cases b) (auto simp: unary_hash_def)
next
  case (Cons n a)
  then obtain m b' where b: "b = m # b'" by (cases b) (auto simp: unary_hash_def)
  have eq: "replicate n 49 @ 48 # unary_hash a = replicate m (49::nat) @ 48 # unary_hash b'"
    using Cons.prems b by (simp add: unary_hash_def)
  from arg_cong [OF this, of "takeWhile ((=) 49)"] have "n = m"
    unfolding takeWhile_unary by simp
  with eq Cons.IH b show ?case by simp
qed

lemma unary_bcrypt: "bcrypt_laws unary_hash (\<lambda>b h. Some (h = unary_hash b))"
  by (auto simp: bcrypt_laws_def dest: unary_hash_inject) (auto simp: unary_hash_def split: if_splits)

lemma verify_password_spec_witness:
  "\<not> verify_password (\<lambda>b h. Some (h = unary_hash b)) (lit ''hunter'') (unary_hash (lit ''hunter2''))"
  by (subst verify_password_spec [OF unary_bcrypt, of "lit ''hunter2''"])
    (simp_all add: hash_password_def to_bcrypt_bytes_def utf8_ascii BCRYPT_MAX_BYTES_def lit_Cons utf8_cp_def)

subsection \<open>Tokens\<close>

record payload =
  pl_sub :: "pystr option"
  pl_role :: "pystr option"
  pl_dept :: "pystr option"
  pl_type :: "pystr option"
  pl_jti :: "pystr option"
  pl_iat :: "rat option"
  pl_exp :: "int option"

record issued_token =
  it_token :: pystr
  it_jti :: pystr
  it_expires :: time

definition ACCESS :: pystr where "ACCESS = lit ''access''"
definition REFRESH :: pystr where "REFRESH = lit ''refresh''"

lemma token_types [simp]: "ACCESS \<noteq> REFRESH" "REFRESH \<noteq> ACCESS"
  by (simp_all add: ACCESS_def REFRESH_def)

text \<open>\<open>ttl\<close> in seconds; \<open>jti\<close> is the fresh \<open>uuid4().hex\<close>.\<close>

definition create_token ::
  "(payload \<Rightarrow> pystr) \<Rightarrow> uuid \<Rightarrow> pystr \<Rightarrow> uuid option \<Rightarrow> pystr \<Rightarrow> nat \<Rightarrow> uuid \<Rightarrow> time \<Rightarrow> issued_token" where
  "create_token enc subject role dept ttype ttl jti now =
     \<lparr>it_token = enc \<lparr>pl_sub = Some (str_uuid subject), pl_role = Some role,
        pl_dept = map_option str_uuid dept, pl_type = Some ttype, pl_jti = Some (uuid_hex jti),
        pl_iat = Some now, pl_exp = Some (floor (now + of_nat ttl))\<rparr>,
      it_jti = uuid_hex jti, it_expires = now + of_nat ttl\<rparr>"

definition create_access_token ::
  "(payload \<Rightarrow> pystr) \<Rightarrow> cfg_auth \<Rightarrow> uuid \<Rightarrow> pystr \<Rightarrow> uuid option \<Rightarrow> uuid \<Rightarrow> time \<Rightarrow> issued_token" where
  "create_access_token enc cfg subject role dept =
     create_token enc subject role dept ACCESS (access_token_ttl_min cfg * 60)"

definition create_refresh_token ::
  "(payload \<Rightarrow> pystr) \<Rightarrow> cfg_auth \<Rightarrow> uuid \<Rightarrow> pystr \<Rightarrow> uuid option \<Rightarrow> uuid \<Rightarrow> time \<Rightarrow> issued_token" where
  "create_refresh_token enc cfg subject role dept =
     create_token enc subject role dept REFRESH (refresh_token_ttl_days cfg * 86400)"

text \<open>
  What is relied on of \<open>jose\<close>: a token is not the empty string, a signed payload decodes to itself until its \<open>exp\<close> second is over, a
  token whose \<open>exp\<close> lies before the current second does not decode, and the payload of a token does
  not depend on the instant.
\<close>

definition jose_laws :: "(payload \<Rightarrow> pystr) \<Rightarrow> (time \<Rightarrow> pystr \<Rightarrow> payload option) \<Rightarrow> bool" where
  "jose_laws enc dec \<longleftrightarrow>
     (\<forall>p. enc p \<noteq> []) \<and>
     (\<forall>p t. (\<forall>e. pl_exp p = Some e \<longrightarrow> floor t \<le> e) \<longrightarrow> dec t (enc p) = Some p) \<and>
     (\<forall>t tok p e. dec t tok = Some p \<longrightarrow> pl_exp p = Some e \<longrightarrow> floor t \<le> e) \<and>
     (\<forall>t t' tok p p'. dec t tok = Some p \<longrightarrow> dec t' tok = Some p' \<longrightarrow> p = p')"

lemma jose_roundtrip: "jose_laws enc dec \<Longrightarrow> pl_exp p = Some e \<Longrightarrow> floor t \<le> e \<Longrightarrow> dec t (enc p) = Some p"
  by (simp add: jose_laws_def)

lemma jose_expired: "jose_laws enc dec \<Longrightarrow> dec t tok = Some p \<Longrightarrow> pl_exp p = Some e \<Longrightarrow> floor t \<le> e"
  unfolding jose_laws_def by blast

lemma jose_stable: "jose_laws enc dec \<Longrightarrow> dec t tok = Some p \<Longrightarrow> dec t' tok = Some p' \<Longrightarrow> p' = p"
  unfolding jose_laws_def by blast

lemma jose_nonempty: "jose_laws enc dec \<Longrightarrow> enc p \<noteq> []"
  unfolding jose_laws_def by blast

text \<open>A concrete pair satisfying the laws: signing numbers the payload, decoding reads it back.\<close>

definition num_enc :: "payload \<Rightarrow> pystr" where
  "num_enc p = [to_nat (pl_sub p, pl_role p, pl_dept p, pl_type p, pl_jti p, pl_iat p, pl_exp p)]"

definition num_dec :: "time \<Rightarrow> pystr \<Rightarrow> payload option" where
  "num_dec t tok = (case tok of [n] \<Rightarrow>
       (case from_nat n of (a, b, c, e, f, g, h) \<Rightarrow>
          if (case h of None \<Rightarrow> False | Some x \<Rightarrow> x < floor t) then None
          else Some \<lparr>pl_sub = a, pl_role = b, pl_dept = c, pl_type = e, pl_jti = f, pl_iat = g, pl_exp = h\<rparr>)
     | _ \<Rightarrow> None)"

lemma num_jose: "jose_laws num_enc num_dec"
  unfolding jose_laws_def num_enc_def num_dec_def
  by (auto split: list.splits prod.splits option.splits if_splits)

subsection \<open>The bearer dependency\<close>

definition credentials_exc :: http_error where
  "credentials_exc = HTTPException 401 (lit ''Could not validate credentials'')"

definition iat_of :: "payload \<Rightarrow> rat" where
  "iat_of p = (case pl_iat p of None \<Rightarrow> 0 | Some v \<Rightarrow> v)"

definition get_current_user ::
  "(time \<Rightarrow> pystr \<Rightarrow> payload option) \<Rightarrow> time \<Rightarrow> db \<Rightarrow> redis \<Rightarrow> pystr option \<Rightarrow> user_row http" where
  "get_current_user dec now d r creds =
     (case creds of None \<Rightarrow> Inl credentials_exc
      | Some tok \<Rightarrow>
        if tok = [] then Inl credentials_exc
        else (case dec now tok of None \<Rightarrow> Inl credentials_exc
          | Some p \<Rightarrow>
            if pl_type p \<noteq> Some ACCESS then Inl credentials_exc
            else (case pl_jti p of None \<Rightarrow> Inl credentials_exc
              | Some jti \<Rightarrow>
                if jti = [] \<or> is_revoked jti now r then Inl credentials_exc
                else (case Option.bind (pl_sub p) uuid_parse of None \<Rightarrow> Inl credentials_exc
                  | Some uid \<Rightarrow>
                    (case get_by u_id uid (t_users d) of None \<Rightarrow> Inl credentials_exc
                     | Some u \<Rightarrow>
                       if \<not> u_active u then Inl credentials_exc
                       else if iat_of p < session_epoch (u_id u) r then Inl credentials_exc
                       else Inr u)))))"

definition require_admin :: "user_row \<Rightarrow> user_row http" where
  "require_admin u = (if u_role u \<noteq> ADMIN then Inl (HTTPException 403 (lit ''Admin role required'')) else Inr u)"

subsection \<open>Endpoints\<close>

definition first_hop :: "pystr option \<Rightarrow> pystr option \<Rightarrow> pystr option" where
  "first_hop forwarded peer = (case forwarded of
       Some f \<Rightarrow> if f = [] then peer else Some (strip (hd (split_str [44] f)))
     | None \<Rightarrow> peer)"

definition ttl_seconds :: "int \<Rightarrow> time \<Rightarrow> int" where
  "ttl_seconds ex now = max 0 (ex - floor now)"

datatype cookie_op = SetRefresh pystr nat | ClearRefresh

record token_response =
  tr_access :: pystr
  tr_refresh :: pystr
  tr_expires_in :: nat
  tr_cookie :: cookie_op

definition issue_pair ::
  "(payload \<Rightarrow> pystr) \<Rightarrow> cfg_auth \<Rightarrow> user_row \<Rightarrow> uuid \<Rightarrow> uuid \<Rightarrow> time \<Rightarrow> token_response" where
  "issue_pair enc cfg u ja jr now =
     (let access = create_access_token enc cfg (u_id u) (role_value (u_role u)) (u_dept u) ja now;
          refresh = create_refresh_token enc cfg (u_id u) (role_value (u_role u)) (u_dept u) jr now
      in \<lparr>tr_access = it_token access, tr_refresh = it_token refresh,
          tr_expires_in = access_token_ttl_min cfg * 60,
          tr_cookie = SetRefresh (it_token refresh) (refresh_token_ttl_days cfg * 86400)\<rparr>)"

definition login ::
  "(payload \<Rightarrow> pystr) \<Rightarrow> (nat list \<Rightarrow> nat list \<Rightarrow> bool option) \<Rightarrow> cfg_auth \<Rightarrow> pystr \<Rightarrow> pystr \<Rightarrow> pystr option
     \<Rightarrow> uuid \<Rightarrow> uuid \<Rightarrow> time \<Rightarrow> db \<Rightarrow> token_response http \<times> db" where
  "login enc checkpw cfg email password ip ja jr now d =
     (case scalar_one_or_none (filter (\<lambda>u. u_email u = email) (t_users d)) of
        Inl e \<Rightarrow> (Inl e, d)
      | Inr None \<Rightarrow>
          (Inl (HTTPException 401 (lit ''Invalid credentials'')),
           record_audit A_LOGIN_FAILED None None None (Some [(lit ''email'', JStr email)]) ip now d)
      | Inr (Some u) \<Rightarrow>
          if \<not> verify_password checkpw password (u_hash u) then
            (Inl (HTTPException 401 (lit ''Invalid credentials'')),
             record_audit A_LOGIN_FAILED (Some (u_id u)) None None (Some [(lit ''email'', JStr email)]) ip now d)
          else if \<not> u_active u then
            (Inl (HTTPException 403 (lit ''Account is disabled'')),
             record_audit A_LOGIN_FAILED (Some (u_id u)) None None
               (Some [(lit ''email'', JStr email), (lit ''reason'', JStr (lit ''account_disabled''))]) ip now d)
          else
            (Inr (issue_pair enc cfg u ja jr now),
             record_audit A_LOGIN (Some (u_id u)) None None None ip now d))"

text \<open>The checks of the refresh endpoint, up to the rotation.\<close>

definition presented_token :: "pystr option \<Rightarrow> pystr option \<Rightarrow> pystr option" where
  "presented_token body cookie =
     (case body of Some b \<Rightarrow> if b = [] then cookie else Some b | None \<Rightarrow> cookie)"

definition unauthorized :: "string \<Rightarrow> http_error" where
  "unauthorized msg = HTTPException 401 (lit msg)"

definition refresh_checks ::
  "(time \<Rightarrow> pystr \<Rightarrow> payload option) \<Rightarrow> time \<Rightarrow> db \<Rightarrow> redis \<Rightarrow> pystr option \<Rightarrow> (user_row \<times> payload \<times> pystr) http" where
  "refresh_checks dec now d r presented =
     (case presented of None \<Rightarrow> Inl (unauthorized ''No refresh token'')
      | Some tok \<Rightarrow>
        if tok = [] then Inl (unauthorized ''No refresh token'')
        else (case dec now tok of None \<Rightarrow> Inl (unauthorized ''Invalid refresh token'')
          | Some p \<Rightarrow>
            if pl_type p \<noteq> Some REFRESH then Inl (unauthorized ''Not a refresh token'')
            else (case pl_jti p of None \<Rightarrow> Inl (unauthorized ''Refresh token revoked'')
              | Some jti \<Rightarrow>
                if jti = [] \<or> is_revoked jti now r then Inl (unauthorized ''Refresh token revoked'')
                else (case Option.bind (pl_sub p) uuid_parse of None \<Rightarrow> Inl (unauthorized ''Invalid refresh token'')
                  | Some uid \<Rightarrow>
                    (case get_by u_id uid (t_users d) of None \<Rightarrow> Inl (unauthorized ''Invalid refresh token'')
                     | Some u \<Rightarrow>
                       if \<not> u_active u then Inl (unauthorized ''Invalid refresh token'')
                       else if iat_of p < session_epoch (u_id u) r then Inl (unauthorized ''Refresh token revoked'')
                       else Inr (u, p, jti))))))"

text \<open>\<open>payload["exp"]\<close> raises \<open>KeyError\<close> on a token without \<open>exp\<close>; a failing revocation fails the request.\<close>

definition refresh ::
  "(payload \<Rightarrow> pystr) \<Rightarrow> (time \<Rightarrow> pystr \<Rightarrow> payload option) \<Rightarrow> cfg_auth \<Rightarrow> pystr option \<Rightarrow> pystr option \<Rightarrow> pystr option
     \<Rightarrow> uuid \<Rightarrow> uuid \<Rightarrow> time \<Rightarrow> db \<Rightarrow> redis \<Rightarrow> token_response http \<times> db \<times> redis" where
  "refresh enc dec cfg body cookie ip ja jr now d r =
     (case refresh_checks dec now d r (presented_token body cookie) of
        Inl e \<Rightarrow> (Inl e, d, r)
      | Inr (u, p, jti) \<Rightarrow>
          (case pl_exp p of None \<Rightarrow> (Inl Crash, d, r)
           | Some ex \<Rightarrow>
             (case revoke_jti jti (ttl_seconds ex now) now r of
                Inl e \<Rightarrow> (Inl e, d, r)
              | Inr r' \<Rightarrow>
                  (Inr (issue_pair enc cfg u ja jr now),
                   record_audit A_TOKEN_REFRESH (Some (u_id u)) None None None ip now d, r'))))"

definition revoke_cookie ::
  "(time \<Rightarrow> pystr \<Rightarrow> payload option) \<Rightarrow> time \<Rightarrow> pystr option \<Rightarrow> redis \<Rightarrow> http_error + redis" where
  "revoke_cookie dec now cookie r =
     (case cookie of None \<Rightarrow> Inr r
      | Some c \<Rightarrow>
        if c = [] then Inr r
        else (case dec now c of None \<Rightarrow> Inr r
          | Some rp \<Rightarrow>
            (case pl_jti rp of None \<Rightarrow> Inr r
             | Some j \<Rightarrow>
               if j = [] then Inr r
               else revoke_jti j (ttl_seconds (case pl_exp rp of None \<Rightarrow> 0 | Some e \<Rightarrow> e) now) now r)))"

definition logout ::
  "(time \<Rightarrow> pystr \<Rightarrow> payload option) \<Rightarrow> pystr option \<Rightarrow> pystr option \<Rightarrow> time \<Rightarrow> db \<Rightarrow> redis
     \<Rightarrow> cookie_op http \<times> db \<times> redis" where
  "logout dec creds cookie now d r =
     (case get_current_user dec now d r creds of
        Inl e \<Rightarrow> (Inl e, d, r)
      | Inr u \<Rightarrow>
          (case Option.bind creds (dec now) of
             None \<Rightarrow> (Inl Crash, d, r)
           | Some p \<Rightarrow>
             (case (pl_jti p, pl_exp p) of
                (Some jti, Some ex) \<Rightarrow>
                  (case revoke_jti jti (ttl_seconds ex now) now r of
                     Inl e \<Rightarrow> (Inl e, d, r)
                   | Inr r1 \<Rightarrow>
                     (case revoke_cookie dec now cookie r1 of
                        Inl e \<Rightarrow> (Inl e, d, r1)
                      | Inr r2 \<Rightarrow> (Inr ClearRefresh, record_audit A_LOGOUT (Some (u_id u)) None None None None now d, r2)))
              | _ \<Rightarrow> (Inl Crash, d, r))))"

subsection \<open>The interface of a token gate\<close>

text \<open>What a token must satisfy to stand for a user, whatever kind of token a gate asks for.\<close>

definition token_valid ::
  "pystr \<Rightarrow> (time \<Rightarrow> pystr \<Rightarrow> payload option) \<Rightarrow> time \<Rightarrow> db \<Rightarrow> redis \<Rightarrow> pystr \<Rightarrow> user_row \<Rightarrow> bool" where
  "token_valid kind dec now d r tok u \<longleftrightarrow>
     tok \<noteq> [] \<and> (\<exists>p jti. dec now tok = Some p \<and> pl_type p = Some kind \<and> pl_jti p = Some jti \<and> jti \<noteq> []
       \<and> \<not> is_revoked jti now r
       \<and> (\<exists>uid. Option.bind (pl_sub p) uuid_parse = Some uid \<and> get_by u_id uid (t_users d) = Some u)
       \<and> u_active u \<and> session_epoch (u_id u) r \<le> iat_of p)"

lemma token_validI:
  assumes "tok \<noteq> []" "dec now tok = Some p" "pl_type p = Some kind" "pl_jti p = Some jti" "jti \<noteq> []"
    and "\<not> is_revoked jti now r" "Option.bind (pl_sub p) uuid_parse = Some uid"
    and "get_by u_id uid (t_users d) = Some u" "u_active u" "session_epoch (u_id u) r \<le> iat_of p"
  shows "token_valid kind dec now d r tok u"
  using assms unfolding token_valid_def by blast

locale token_gate =
  fixes kind :: pystr
    and gate :: "(time \<Rightarrow> pystr \<Rightarrow> payload option) \<Rightarrow> time \<Rightarrow> db \<Rightarrow> redis \<Rightarrow> pystr \<Rightarrow> user_row http"
  assumes admits_iff: "gate dec now d r tok = Inr u \<longleftrightarrow> token_valid kind dec now d r tok u"
    and refuses_401: "gate dec now d r tok = Inl e \<Longrightarrow> http_status e = 401"
begin

lemma refused: "(\<And>u. \<not> token_valid kind dec now d r tok u) \<Longrightarrow> \<exists>e. gate dec now d r tok = Inl e \<and> http_status e = 401"
  by (metis admits_iff refuses_401 sum.exhaust)

lemma wrong_kind: "dec now tok = Some p \<Longrightarrow> pl_type p \<noteq> Some kind \<Longrightarrow>
    \<exists>e. gate dec now d r tok = Inl e \<and> http_status e = 401"
  by (rule refused) (auto simp: token_valid_def)

lemma revoked_refused: "dec now tok = Some p \<Longrightarrow> pl_jti p = Some jti \<Longrightarrow> is_revoked jti now r \<Longrightarrow>
    \<exists>e. gate dec now d r tok = Inl e \<and> http_status e = 401"
  by (rule refused) (auto simp: token_valid_def)

lemma undecodable_refused: "dec now tok = None \<Longrightarrow> \<exists>e. gate dec now d r tok = Inl e \<and> http_status e = 401"
  by (rule refused) (auto simp: token_valid_def)

lemma stale_epoch_refused:
  "dec now tok = Some p \<Longrightarrow> Option.bind (pl_sub p) uuid_parse = Some uid \<Longrightarrow>
   iat_of p < session_epoch uid r \<Longrightarrow> \<exists>e. gate dec now d r tok = Inl e \<and> http_status e = 401"
  by (rule refused) (auto simp: token_valid_def dest: get_by_SomeD)

lemma inactive_refused:
  "dec now tok = Some p \<Longrightarrow> Option.bind (pl_sub p) uuid_parse = Some uid \<Longrightarrow>
   (\<And>u. get_by u_id uid (t_users d) = Some u \<Longrightarrow> \<not> u_active u) \<Longrightarrow>
   \<exists>e. gate dec now d r tok = Inl e \<and> http_status e = 401"
  by (rule refused) (auto simp: token_valid_def)

lemma expired_refused:
  assumes "jose_laws enc dec" and "dec now tok \<in> {None, Some p}" and "pl_exp p = Some ex" and "ex < floor now"
  shows "\<exists>e. gate dec now d r tok = Inl e \<and> http_status e = 401"
proof -
  have "dec now tok \<noteq> Some p" using jose_expired [OF assms(1)] assms(3,4) by fastforce
  with assms(2) show ?thesis by (intro undecodable_refused) simp
qed

end

definition access_gate ::
  "(time \<Rightarrow> pystr \<Rightarrow> payload option) \<Rightarrow> time \<Rightarrow> db \<Rightarrow> redis \<Rightarrow> pystr \<Rightarrow> user_row http" where
  "access_gate dec now d r tok = get_current_user dec now d r (Some tok)"

definition refresh_gate ::
  "(time \<Rightarrow> pystr \<Rightarrow> payload option) \<Rightarrow> time \<Rightarrow> db \<Rightarrow> redis \<Rightarrow> pystr \<Rightarrow> user_row http" where
  "refresh_gate dec now d r tok = map_sum id fst (refresh_checks dec now d r (Some tok))"

lemma get_current_user_Inr:
  "get_current_user dec now d r (Some tok) = Inr u \<longleftrightarrow> token_valid ACCESS dec now d r tok u"
  by (fastforce simp: get_current_user_def token_valid_def not_less split: option.splits if_splits)

lemma get_current_user_Inl: "get_current_user dec now d r creds = Inl e \<Longrightarrow> e = credentials_exc"
  by (auto simp: get_current_user_def split: option.splits if_splits)

lemma refresh_checks_Inr:
  "refresh_checks dec now d r (Some tok) = Inr (u, p, jti) \<longleftrightarrow>
     token_valid REFRESH dec now d r tok u \<and> dec now tok = Some p \<and> pl_jti p = Some jti"
  by (fastforce simp: refresh_checks_def token_valid_def not_less split: option.splits if_splits)

lemma refresh_checks_Inl: "refresh_checks dec now d r c = Inl e \<Longrightarrow> http_status e = 401"
  by (auto simp: refresh_checks_def unauthorized_def split: option.splits if_splits)

lemma refresh_gate_Inr: "refresh_gate dec now d r tok = Inr u \<longleftrightarrow> token_valid REFRESH dec now d r tok u"
proof
  assume "refresh_gate dec now d r tok = Inr u"
  then obtain p jti where "refresh_checks dec now d r (Some tok) = Inr (u, p, jti)"
    by (cases "refresh_checks dec now d r (Some tok)") (auto simp: refresh_gate_def)
  then show "token_valid REFRESH dec now d r tok u" by (simp add: refresh_checks_Inr)
next
  assume v: "token_valid REFRESH dec now d r tok u"
  then obtain p jti where "dec now tok = Some p" "pl_jti p = Some jti"
    by (auto simp: token_valid_def)
  with v have "refresh_checks dec now d r (Some tok) = Inr (u, p, jti)"
    by (simp add: refresh_checks_Inr)
  then show "refresh_gate dec now d r tok = Inr u" by (simp add: refresh_gate_def)
qed

interpretation acc: token_gate ACCESS access_gate
proof
  show "access_gate dec now d r tok = Inr u \<longleftrightarrow> token_valid ACCESS dec now d r tok u" for dec now d r tok u
    by (simp add: access_gate_def get_current_user_Inr)
  show "access_gate dec now d r tok = Inl e \<Longrightarrow> http_status e = 401" for dec now d r tok e
    by (auto simp: access_gate_def credentials_exc_def dest: get_current_user_Inl)
qed

interpretation ref: token_gate REFRESH refresh_gate
proof
  show "refresh_gate dec now d r tok = Inr u \<longleftrightarrow> token_valid REFRESH dec now d r tok u" for dec now d r tok u
    by (rule refresh_gate_Inr)
  show "refresh_gate dec now d r tok = Inl e \<Longrightarrow> http_status e = 401" for dec now d r tok e
    by (cases "refresh_checks dec now d r (Some tok)")
      (auto simp: refresh_gate_def dest: refresh_checks_Inl)
qed

lemma refresh_refused:
  assumes "presented_token body cookie = Some tok" and "\<exists>e. refresh_gate dec now d r tok = Inl e \<and> http_status e = 401"
  shows "\<exists>e. refresh enc dec cfg body cookie ip ja jr now d r = (Inl e, d, r) \<and> http_status e = 401"
proof -
  from assms(2) obtain e where "refresh_checks dec now d r (Some tok) = Inl e" "http_status e = 401"
    by (cases "refresh_checks dec now d r (Some tok)") (auto simp: refresh_gate_def)
  then show ?thesis using assms(1) by (simp add: refresh_def)
qed

lemma refresh_Inr:
  assumes "refresh enc dec cfg body cookie ip ja jr now d r = (Inr resp, d', r')"
  obtains tok u p jti ex where "presented_token body cookie = Some tok" "token_valid REFRESH dec now d r tok u"
    "dec now tok = Some p" "pl_jti p = Some jti" "pl_exp p = Some ex"
    "revoke_jti jti (ttl_seconds ex now) now r = Inr r'" "resp = issue_pair enc cfg u ja jr now"
    "d' = record_audit A_TOKEN_REFRESH (Some (u_id u)) None None None ip now d"
proof -
  obtain u p jti where c: "refresh_checks dec now d r (presented_token body cookie) = Inr (u, p, jti)"
    using assms by (auto simp: refresh_def split: sum.splits)
  then obtain tok where tok: "presented_token body cookie = Some tok"
    by (cases "presented_token body cookie") (auto simp: refresh_checks_def)
  have v: "token_valid REFRESH dec now d r tok u" "dec now tok = Some p" "pl_jti p = Some jti"
    using c tok by (simp_all add: refresh_checks_Inr)
  with assms c tok that show thesis
    by (auto simp: refresh_def split: option.splits sum.splits)
qed

subsection \<open>Properties\<close>

lemma issue_pair_simps:
  "tr_access (issue_pair enc cfg u ja jr now) = it_token (create_access_token enc cfg (u_id u) (role_value (u_role u)) (u_dept u) ja now)"
  "tr_refresh (issue_pair enc cfg u ja jr now) = it_token (create_refresh_token enc cfg (u_id u) (role_value (u_role u)) (u_dept u) jr now)"
  by (simp_all add: issue_pair_def Let_def)

lemma created_token_valid:
  assumes "jose_laws enc dec" and "floor t \<le> floor (now + of_nat ttl)"
    and "get_by u_id (u_id u) (t_users d) = Some u" and "u_active u"
    and "\<not> is_revoked (uuid_hex jti) t r" and "session_epoch (u_id u) r \<le> now"
  shows "token_valid kind dec t d r (it_token (create_token enc (u_id u) ro dp kind ttl jti now)) u"
proof (rule token_validI)
  let ?p = "\<lparr>pl_sub = Some (str_uuid (u_id u)), pl_role = Some ro, pl_dept = map_option str_uuid dp,
     pl_type = Some kind, pl_jti = Some (uuid_hex jti), pl_iat = Some now, pl_exp = Some (floor (now + of_nat ttl))\<rparr>"
  show "it_token (create_token enc (u_id u) ro dp kind ttl jti now) \<noteq> []"
    using jose_nonempty [OF assms(1)] by (simp add: create_token_def)
  show "dec t (it_token (create_token enc (u_id u) ro dp kind ttl jti now)) = Some ?p"
    using jose_roundtrip [OF assms(1) _ assms(2)] by (simp add: create_token_def)
  show "uuid_hex jti \<noteq> []" by (metis length_uuid_hex list.size(3) zero_neq_numeral)
qed (use assms in \<open>simp_all add: iat_of_def\<close>)

lemma created_token_decodes:
  assumes "jose_laws enc dec" and "floor t \<le> floor (now + of_nat ttl)"
  shows "\<exists>p. dec t (it_token (create_token enc s ro dp kind ttl jti now)) = Some p \<and> pl_type p = Some kind"
  using jose_roundtrip [OF assms(1) _ assms(2)] by (simp add: create_token_def)

text \<open>
  Logging in writes exactly one audit row and changes nothing else. It succeeds, with a LOGIN
  row, exactly when an active user has the address and the password verifies; a correct
  password on a disabled account gives 403, and every other failure gives the same 401, so an
  unknown address is not distinguishable from a wrong password.
\<close>

theorem login_outcome:
  assumes "distinct (map u_email (t_users d))"
    and "login enc checkpw cfg email password ip ja jr now d = (res, d')"
  shows "\<exists>row. d' = d\<lparr>t_audit := t_audit d @ [row]\<rparr> \<and> a_ip row = ip \<and> a_created row = now
     \<and> (case res of
          Inr resp \<Rightarrow> a_action row = A_LOGIN \<and> (\<exists>u \<in> set (t_users d). u_email u = email \<and> u_active u
             \<and> verify_password checkpw password (u_hash u) \<and> a_user row = Some (u_id u)
             \<and> resp = issue_pair enc cfg u ja jr now)
        | Inl e \<Rightarrow> a_action row = A_LOGIN_FAILED
             \<and> e = (if \<exists>u \<in> set (t_users d). u_email u = email \<and> \<not> u_active u
                        \<and> verify_password checkpw password (u_hash u)
                    then HTTPException 403 (lit ''Account is disabled'')
                    else HTTPException 401 (lit ''Invalid credentials''))
             \<and> \<not> (\<exists>u \<in> set (t_users d). u_email u = email \<and> u_active u
                        \<and> verify_password checkpw password (u_hash u)))"
using assms(1)
proof (cases rule: filter_key_cases [where e = email])
  case absent
  then have "\<not> (\<exists>u \<in> set (t_users d). u_email u = email)" by blast
  with absent assms(2) show ?thesis
    by (auto simp: login_def scalar_one_or_none_def record_audit_def add_row_def)
next
  case (unique u)
  then have ex: "(\<exists>v \<in> set (t_users d). u_email v = email \<and> Q v) = Q u" for Q by blast
  show ?thesis
    using assms(2) unique(3) unfolding ex
    by (cases "verify_password checkpw password (u_hash u)"; cases "u_active u")
      (simp_all add: login_def scalar_one_or_none_def record_audit_def add_row_def, auto)
qed

text \<open>
  The pair a login or a rotation issues: until its \<open>exp\<close> second is over the access token
  authenticates its user at the bearer gate and the refresh token at the refresh gate, as long as
  the user stays active, the token is not denylisted and no session epoch lies after the issue; and
  neither token is ever accepted at the other gate.
\<close>

theorem issued_pair_gates:
  assumes laws: "jose_laws enc dec"
    and user: "get_by u_id (u_id u) (t_users d) = Some u" "u_active u" "session_epoch (u_id u) r \<le> now"
    and fresh: "\<not> is_revoked (uuid_hex ja) t r" "\<not> is_revoked (uuid_hex jr) t r"
    and resp: "resp = issue_pair enc cfg u ja jr now"
  shows "(floor t \<le> floor (now + of_nat (access_token_ttl_min cfg * 60)) \<longrightarrow>
            access_gate dec t d r (tr_access resp) = Inr u \<and>
            refresh enc dec cfg (Some (tr_access resp)) cookie ip k1 k2 t d r =
              (Inl (HTTPException 401 (lit ''Not a refresh token'')), d, r)) \<and>
         (floor t \<le> floor (now + of_nat (refresh_token_ttl_days cfg * 86400)) \<longrightarrow>
            refresh_gate dec t d r (tr_refresh resp) = Inr u \<and>
            get_current_user dec t d r (Some (tr_refresh resp)) = Inl credentials_exc)"
proof (intro conjI impI)
  assume t: "floor t \<le> floor (now + of_nat (access_token_ttl_min cfg * 60))"
  show "access_gate dec t d r (tr_access resp) = Inr u"
    unfolding resp issue_pair_simps create_access_token_def acc.admits_iff
    by (rule created_token_valid [OF laws t user(1,2) fresh(1) user(3)])
  obtain p where "dec t (tr_access resp) = Some p" "pl_type p = Some ACCESS"
    using created_token_decodes [OF laws t] unfolding resp issue_pair_simps create_access_token_def by blast
  moreover have "tr_access resp \<noteq> []"
    using jose_nonempty [OF laws] unfolding resp issue_pair_simps create_access_token_def by (simp add: create_token_def)
  ultimately show "refresh enc dec cfg (Some (tr_access resp)) cookie ip k1 k2 t d r =
              (Inl (HTTPException 401 (lit ''Not a refresh token'')), d, r)"
    by (simp add: refresh_def refresh_checks_def presented_token_def unauthorized_def)
next
  assume t: "floor t \<le> floor (now + of_nat (refresh_token_ttl_days cfg * 86400))"
  show "refresh_gate dec t d r (tr_refresh resp) = Inr u"
    unfolding resp issue_pair_simps create_refresh_token_def ref.admits_iff
    by (rule created_token_valid [OF laws t user(1,2) fresh(2) user(3)])
  obtain p where "dec t (tr_refresh resp) = Some p" "pl_type p = Some REFRESH"
    using created_token_decodes [OF laws t] unfolding resp issue_pair_simps create_refresh_token_def by blast
  then show "get_current_user dec t d r (Some (tr_refresh resp)) = Inl credentials_exc"
    by (simp add: get_current_user_def)
qed

text \<open>
  C16. A refresh token is rotated: once a refresh with it has succeeded, presenting the same token
  again, in the body or as the cookie, is refused with 401 and changes nothing, until the denylist
  entry's lifetime is over, provided Redis is reachable and has kept the entry.
\<close>

theorem refresh_single_use:
  assumes "jose_laws enc dec"
    and "refresh enc dec cfg body cookie ip ja jr now d r = (Inr resp, d', r')"
    and "presented_token body cookie = Some tok"
    and "dec now tok = Some p" and "pl_exp p = Some ex" and "floor now < ex"
    and "t < now + of_int (ex - floor now)"
    and "r_up r2" and "r_deny r' \<subseteq>\<^sub>m r_deny r2"
    and "presented_token body2 cookie2 = Some tok"
  shows "\<exists>e. refresh enc dec cfg body2 cookie2 ip2 ja2 jr2 t d2 r2 = (Inl e, d2, r2) \<and> http_status e = 401"
proof (rule refresh_refused [OF assms(10)])
  obtain u jti where j: "pl_jti p = Some jti"
    and rv: "revoke_jti jti (ttl_seconds ex now) now r = Inr r'"
    using refresh_Inr [OF assms(2)] assms(3,4,5) by (metis option.inject)
  have ttl: "ttl_seconds ex now = ex - floor now" using assms(6) by (simp add: ttl_seconds_def)
  then have "r_deny r' jti = Some (now + of_int (ex - floor now))"
    using rv assms(6) by (auto simp: revoke_jti_def split: if_splits)
  then have "r_deny r2 jti = Some (now + of_int (ex - floor now))"
    using assms(9) by (metis domI map_le_def)
  then have rev: "is_revoked jti t r2" using assms(7,8) by (simp add: is_revoked_def)
  show "\<exists>e. refresh_gate dec t d2 r2 tok = Inl e \<and> http_status e = 401"
  proof (cases "dec t tok")
    case None
    then show ?thesis by (rule ref.undecodable_refused)
  next
    case (Some p')
    then have "p' = p" using jose_stable [OF assms(1) assms(4)] by blast
    with Some j rev show ?thesis by (blast intro: ref.revoked_refused)
  qed
qed

text \<open>
  The denylist entry ends before the token does: it lives until \<open>now + (exp - floor now)\<close>, but
  the token decodes until its \<open>exp\<close> second is over. In between, the rotated token is accepted again.
\<close>

theorem rotated_token_revives:
  assumes "jose_laws enc dec"
    and "refresh enc dec cfg (Some tok) None ip ja jr now d r = (Inr resp, d', r')"
    and "dec now tok = Some p" and "pl_exp p = Some ex"
    and "now + of_int (ex - floor now) \<le> t" and "floor t \<le> ex" and "dec t tok = Some p"
    and True: "r_up r'"
  shows "\<exists>resp2 d2 r2. refresh enc dec cfg (Some tok) None ip ja2 jr2 t d' r' = (Inr resp2, d2, r2)"
proof -
  obtain u jti where pt: "presented_token (Some tok) None = Some tok" "token_valid REFRESH dec now d r tok u"
    and j: "pl_jti p = Some jti" and rv: "revoke_jti jti (ttl_seconds ex now) now r = Inr r'"
    and d': "d' = record_audit A_TOKEN_REFRESH (Some (u_id u)) None None None ip now d"
  proof (rule refresh_Inr [OF assms(2)])
    fix tok' u p' jti ex'
    assume a: "presented_token (Some tok) None = Some tok'" "token_valid REFRESH dec now d r tok' u"
      "dec now tok' = Some p'" "pl_jti p' = Some jti" "pl_exp p' = Some ex'"
      "revoke_jti jti (ttl_seconds ex' now) now r = Inr r'"
      "d' = record_audit A_TOKEN_REFRESH (Some (u_id u)) None None None ip now d"
    have "tok' = tok" using a(1) by (auto simp: presented_token_def split: if_splits)
    with a assms(3,4) that show thesis by auto
  qed
  have nr: "\<not> is_revoked jti now r" using pt(2) assms(3) j by (auto simp: token_valid_def)
  have "floor now \<le> ex" using jose_expired [OF assms(1,3,4)] .
  then have le: "now \<le> t" using assms(5) by (meson dual_order.trans le_add_same_cancel1 diff_ge_0_iff_ge of_int_0_le_iff)
  have "\<not> is_revoked jti t r'"
    using rv nr True le assms(5) \<open>floor now \<le> ex\<close>
    by (auto simp: revoke_jti_def is_revoked_def ttl_seconds_def split: if_splits option.splits)
  moreover have "session_epoch v r' = session_epoch v r" for v
    using revoke_jti_epoch [OF rv] revoke_jti_up [OF rv] by (simp add: session_epoch_def)
  ultimately have "token_valid REFRESH dec t d' r' tok u"
    using pt(2) assms(3,7) j by (auto simp: token_valid_def d')
  then have "refresh_checks dec t d' r' (Some tok) = Inr (u, p, jti)"
    using assms(7) j by (simp add: refresh_checks_Inr)
  moreover have "presented_token (Some tok) None = Some tok" by (fact pt(1))
  ultimately show ?thesis
    using assms(4) True by (auto simp: refresh_def revoke_jti_def)
qed

text \<open>
  C23. Bumping a user's session epoch (suspend, revoke-sessions, credential reset) ends every session
  at once: any token of that user with an earlier \<open>iat\<close>, access or refresh, is refused with 401 at
  its gate at every later instant while Redis keeps the epoch, and the tokens of other users are
  not affected by the bump.
\<close>

theorem epoch_bump_ends_sessions:
  assumes "bump_session_epoch uid now r = Inr r'"
    and "dec t tok = Some p" and "pl_sub p = Some (str_uuid v)" and "iat_of p < now"
  shows "if v = uid
     then (\<exists>e. access_gate dec t d r' tok = Inl e \<and> http_status e = 401) \<and>
          (\<exists>e. refresh enc dec cfg None (Some tok) ip ja jr t d r' = (Inl e, d, r') \<and> http_status e = 401)
     else access_gate dec t d r' tok = access_gate dec t d r tok \<and>
          refresh_gate dec t d r' tok = refresh_gate dec t d r tok"
proof (cases "v = uid")
  case True
  then have "Option.bind (pl_sub p) uuid_parse = Some uid" "iat_of p < session_epoch uid r'"
    using assms epoch_after_bump [OF assms(1)] by simp_all
  then have "\<exists>e. access_gate dec t d r' tok = Inl e \<and> http_status e = 401"
    and "\<exists>e. refresh_gate dec t d r' tok = Inl e \<and> http_status e = 401"
    using assms(2) by (blast intro: acc.stale_epoch_refused ref.stale_epoch_refused)+
  with True show ?thesis
    using refresh_refused [of None "Some tok" tok] by (simp add: presented_token_def)
next
  case False
  have "r_deny r' = r_deny r" "r_up r' = r_up r"
    using assms(1) by (auto simp: bump_session_epoch_def split: if_splits)
  then have "is_revoked j t r' = is_revoked j t r" for j by (simp add: is_revoked_def)
  moreover have "get_by u_id v (t_users d) = Some u \<Longrightarrow> session_epoch (u_id u) r' = session_epoch (u_id u) r" for u
    using get_by_SomeD [of u_id v] epoch_bump_other [OF assms(1)] False by fastforce
  ultimately show ?thesis
    using assms(2,3) False
    by (auto simp: access_gate_def get_current_user_def refresh_gate_def refresh_checks_def split: option.splits)
qed

lemma logout_Inr:
  assumes "logout dec (Some tok) cookie now d r = (Inr c, d', r')"
  obtains u p jti ex r1 where "token_valid ACCESS dec now d r tok u" "dec now tok = Some p" "pl_jti p = Some jti"
    "pl_exp p = Some ex" "revoke_jti jti (ttl_seconds ex now) now r = Inr r1" "revoke_cookie dec now cookie r1 = Inr r'"
    "c = ClearRefresh" "d' = record_audit A_LOGOUT (Some (u_id u)) None None None None now d"
  using assms that
  by (fastforce simp: logout_def get_current_user_Inr split: sum.splits option.splits)

lemma revoked_entry:
  assumes "revoke_jti jti (ttl_seconds ex now) now r = Inr r'" and "floor now < ex"
  shows "r_deny r' jti = Some (now + of_int (ex - floor now)) \<and> r_up r'"
  using assms by (auto simp: revoke_jti_def ttl_seconds_def split: if_splits)

text \<open>
  Logging out ends the session on both sides: after a successful logout with a valid access
  token and the refresh cookie, the access token is refused by the bearer gate and the refresh
  token by the refresh endpoint, until the respective denylist entries run out.
\<close>

theorem logout_revokes_both:
  assumes laws: "jose_laws enc dec"
    and out: "logout dec (Some tok) (Some ck) now d r = (Inr c, d', r')"
    and a: "dec now tok = Some pa" "pl_exp pa = Some ea" "floor now < ea" "t < now + of_int (ea - floor now)"
    and b: "dec now ck = Some pb" "pl_exp pb = Some eb" "floor now < eb" "t < now + of_int (eb - floor now)"
      "ck \<noteq> []" "pl_jti pb = Some jb" "jb \<noteq> []" "pl_jti pa \<noteq> Some jb"
  shows "c = ClearRefresh \<and> (\<exists>e. access_gate dec t d2 r' tok = Inl e \<and> http_status e = 401) \<and>
     (\<exists>e. refresh enc dec cfg None (Some ck) ip k1 k2 t d2 r' = (Inl e, d2, r') \<and> http_status e = 401)"
proof -
  obtain ja r1 where ja: "pl_jti pa = Some ja" "revoke_jti ja (ttl_seconds ea now) now r = Inr r1"
    and ck: "revoke_cookie dec now (Some ck) r1 = Inr r'" and c: "c = ClearRefresh"
    using logout_Inr [OF out] a(1,2) by (metis option.inject)
  have rb: "revoke_jti jb (ttl_seconds eb now) now r1 = Inr r'"
    using ck b by (simp add: revoke_cookie_def)
  have "is_revoked ja t r1" using revoked_entry [OF ja(2) a(3)] a(4) by (simp add: is_revoked_def)
  then have ra: "is_revoked ja t r'" using revoke_jti_other [OF rb] ja(1) b(8) by fastforce
  have rb': "is_revoked jb t r'" using revoked_entry [OF rb b(3)] b(4) by (simp add: is_revoked_def)
  have "\<exists>e. access_gate dec t d2 r' tok = Inl e \<and> http_status e = 401"
  proof (cases "dec t tok")
    case (Some p')
    with jose_stable [OF laws a(1)] ja(1) ra show ?thesis by (blast intro: acc.revoked_refused)
  qed (rule acc.undecodable_refused)
  moreover have "\<exists>e. refresh_gate dec t d2 r' ck = Inl e \<and> http_status e = 401"
  proof (cases "dec t ck")
    case (Some p')
    with jose_stable [OF laws b(1)] b(6) rb' show ?thesis by (blast intro: ref.revoked_refused)
  qed (rule ref.undecodable_refused)
  ultimately show ?thesis
    using refresh_refused [of None "Some ck" ck] c by (simp add: presented_token_def)
qed

subsection \<open>Witnesses\<close>

definition demo_user :: user_row where
  "demo_user = \<lparr>u_id = 7, u_email = lit ''a@b.de'', u_hash = unary_hash (lit ''pw''), u_role = USER,
     u_dept = None, u_active = True\<rparr>"

definition demo_db :: db where
  "demo_db = empty_db\<lparr>t_users := [demo_user]\<rparr>"

definition demo_payload :: "pystr \<Rightarrow> nat \<Rightarrow> payload" where
  "demo_payload kind j = \<lparr>pl_sub = Some (str_uuid 7), pl_role = None, pl_dept = None, pl_type = Some kind,
     pl_jti = Some [j], pl_iat = Some 100, pl_exp = Some 200\<rparr>"

abbreviation toy_check :: "nat list \<Rightarrow> nat list \<Rightarrow> bool option" where
  "toy_check \<equiv> \<lambda>b h. Some (h = unary_hash b)"

lemma demo_payload_sel [simp]:
  "pl_sub (demo_payload k j) = Some (str_uuid 7)" "pl_type (demo_payload k j) = Some k"
  "pl_jti (demo_payload k j) = Some [j]" "pl_iat (demo_payload k j) = Some 100" "pl_exp (demo_payload k j) = Some 200"
  by (simp_all add: demo_payload_def)

lemma demo_user_sel [simp]: "u_id demo_user = 7" "u_active demo_user" "u_email demo_user = lit ''a@b.de''"
  by (simp_all add: demo_user_def)

lemma empty_redis_sel [simp]: "r_up empty_redis" "r_deny empty_redis j = None" "r_epoch empty_redis v = None"
  "r_cnt empty_redis k = None"
  by (simp_all add: empty_redis_def)

lemma revoke_empty: "revoke_jti j 100 100 empty_redis = Inr (empty_redis\<lparr>r_deny := [j \<mapsto> 200]\<rparr>)"
  by (simp add: revoke_jti_def empty_redis_def)

lemma demo_get: "get_by u_id 7 (t_users demo_db) = Some demo_user"
  by (simp add: get_by_def demo_db_def demo_user_def)

lemma num_dec_demo: "floor t \<le> 200 \<Longrightarrow> num_dec t (num_enc (demo_payload kind j)) = Some (demo_payload kind j)"
  by (rule jose_roundtrip [OF num_jose]) (simp add: demo_payload_def)

lemma demo_valid: "floor t \<le> 200 \<Longrightarrow> token_valid kind num_dec t demo_db empty_redis (num_enc (demo_payload kind j)) demo_user"
  by (rule token_validI [where p = "demo_payload kind j" and jti = "[j]" and uid = 7])
    (simp_all add: num_dec_demo jose_nonempty [OF num_jose] demo_get is_revoked_def empty_redis_def
      session_epoch_def iat_of_def)

lemma demo_refresh:
  "refresh num_enc num_dec default_auth (Some (num_enc (demo_payload REFRESH 5))) None None 1 2 100 demo_db empty_redis
   = (Inr (issue_pair num_enc default_auth demo_user 1 2 100),
      record_audit A_TOKEN_REFRESH (Some 7) None None None None 100 demo_db,
      empty_redis\<lparr>r_deny := [[5] \<mapsto> 200]\<rparr>)"
proof -
  have "refresh_checks num_dec 100 demo_db empty_redis (Some (num_enc (demo_payload REFRESH 5)))
      = Inr (demo_user, demo_payload REFRESH 5, [5])"
    by (simp add: refresh_checks_Inr demo_valid num_dec_demo)
  then show ?thesis
    by (simp add: refresh_def presented_token_def jose_nonempty [OF num_jose] ttl_seconds_def revoke_empty)
qed

lemma login_outcome_witness:
  "\<exists>row. snd (login num_enc toy_check default_auth (lit ''x@y.de'') (lit ''pw'') None 1 2 100 demo_db)
     = demo_db\<lparr>t_audit := t_audit demo_db @ [row]\<rparr>"
proof -
  have "distinct (map u_email (t_users demo_db))" by (simp add: demo_db_def)
  from login_outcome [OF this prod.collapse [symmetric]] show ?thesis by blast
qed

lemma issued_pair_gates_witness:
  "access_gate num_dec 110 demo_db empty_redis (tr_access (issue_pair num_enc default_auth demo_user 1 2 100)) = Inr demo_user
   \<and> refresh_gate num_dec 110 demo_db empty_redis (tr_refresh (issue_pair num_enc default_auth demo_user 1 2 100)) = Inr demo_user"
proof -
  have "get_by u_id (u_id demo_user) (t_users demo_db) = Some demo_user" "u_active demo_user"
    "session_epoch (u_id demo_user) empty_redis \<le> 100"
    "\<not> is_revoked (uuid_hex 1) 110 empty_redis" "\<not> is_revoked (uuid_hex 2) 110 empty_redis"
    by (simp_all add: demo_get demo_user_def demo_db_def get_by_def session_epoch_def is_revoked_def empty_redis_def)
  from issued_pair_gates [OF num_jose this refl, of default_auth] show ?thesis
    by (simp add: default_auth_def)
qed

lemma refresh_single_use_witness:
  "\<exists>e. refresh num_enc num_dec default_auth None (Some (num_enc (demo_payload REFRESH 5))) None 3 4 150
         demo_db (empty_redis\<lparr>r_deny := [[5] \<mapsto> 200]\<rparr>)
       = (Inl e, demo_db, empty_redis\<lparr>r_deny := [[5] \<mapsto> 200]\<rparr>) \<and> http_status e = 401"
proof (rule refresh_single_use [OF num_jose demo_refresh])
  show "num_dec 100 (num_enc (demo_payload REFRESH 5)) = Some (demo_payload REFRESH 5)"
    by (simp add: num_dec_demo)
  show "pl_exp (demo_payload REFRESH 5) = Some 200" by (simp add: demo_payload_def)
qed (simp_all add: presented_token_def jose_nonempty [OF num_jose] empty_redis_def)

lemma rotated_token_revives_witness:
  "\<exists>resp d2 r2. refresh num_enc num_dec default_auth (Some (num_enc (demo_payload REFRESH 5))) None None 3 4 (401 / 2)
      (record_audit A_TOKEN_REFRESH (Some 7) None None None None 100 demo_db)
      (empty_redis\<lparr>r_deny := [[5] \<mapsto> 200]\<rparr>) = (Inr resp, d2, r2)"
proof (rule rotated_token_revives [OF num_jose demo_refresh])
  show "num_dec 100 (num_enc (demo_payload REFRESH 5)) = Some (demo_payload REFRESH 5)"
    by (simp add: num_dec_demo)
  have "floor (401 / 2 :: rat) \<le> 200" by linarith
  then show "num_dec (401 / 2) (num_enc (demo_payload REFRESH 5)) = Some (demo_payload REFRESH 5)" "floor (401 / 2 :: rat) \<le> 200"
    by (simp_all add: num_dec_demo)
  show "pl_exp (demo_payload REFRESH 5) = Some 200" by (simp add: demo_payload_def)
qed (simp_all add: empty_redis_def)

lemma epoch_bump_ends_sessions_witness:
  "\<exists>e. access_gate num_dec 150 demo_db (empty_redis\<lparr>r_epoch := [7 \<mapsto> 120]\<rparr>) (num_enc (demo_payload ACCESS 5)) = Inl e
       \<and> http_status e = 401"
proof -
  have "bump_session_epoch 7 120 empty_redis = Inr (empty_redis\<lparr>r_epoch := [7 \<mapsto> 120]\<rparr>)"
    by (simp add: bump_session_epoch_def empty_redis_def)
  moreover have "num_dec 150 (num_enc (demo_payload ACCESS 5)) = Some (demo_payload ACCESS 5)"
    by (simp add: num_dec_demo)
  moreover have "pl_sub (demo_payload ACCESS 5) = Some (str_uuid 7)" "iat_of (demo_payload ACCESS 5) < 120"
    by (simp_all add: demo_payload_def iat_of_def)
  ultimately show ?thesis
    using epoch_bump_ends_sessions [of 7 120 empty_redis _ num_dec 150 _ "demo_payload ACCESS 5" 7] by fastforce
qed

lemma logout_revokes_both_witness:
  "\<exists>e. access_gate num_dec 150 demo_db (snd (snd (logout num_dec (Some (num_enc (demo_payload ACCESS 5)))
      (Some (num_enc (demo_payload REFRESH 6))) 100 demo_db empty_redis))) (num_enc (demo_payload ACCESS 5)) = Inl e
     \<and> http_status e = 401"
proof -
  have g: "get_current_user num_dec 100 demo_db empty_redis (Some (num_enc (demo_payload ACCESS 5))) = Inr demo_user"
    by (simp add: get_current_user_Inr demo_valid)
  have "\<exists>r'. logout num_dec (Some (num_enc (demo_payload ACCESS 5))) (Some (num_enc (demo_payload REFRESH 6))) 100
      demo_db empty_redis = (Inr ClearRefresh, record_audit A_LOGOUT (Some 7) None None None None 100 demo_db, r')"
    by (simp add: logout_def g num_dec_demo revoke_cookie_def jose_nonempty [OF num_jose] ttl_seconds_def revoke_empty)
      (simp add: revoke_jti_def)
  then obtain r' where out: "logout num_dec (Some (num_enc (demo_payload ACCESS 5))) (Some (num_enc (demo_payload REFRESH 6)))
      100 demo_db empty_redis = (Inr ClearRefresh, record_audit A_LOGOUT (Some 7) None None None None 100 demo_db, r')" by blast
  have "num_dec 100 (num_enc (demo_payload k j)) = Some (demo_payload k j)" for k j by (simp add: num_dec_demo)
  moreover have "pl_exp (demo_payload k j) = Some 200" "pl_jti (demo_payload k j) = Some [j]" for k j
    by (simp_all add: demo_payload_def)
  ultimately show ?thesis
    using logout_revokes_both [OF num_jose out, of "demo_payload ACCESS 5" 200 150 "demo_payload REFRESH 6" 200 "[6]"]
      jose_nonempty [OF num_jose] out by simp
qed

end
