(* ===== verification/Chat.thy ===== *)
theory Chat
  imports Graph Security
begin

text \<open>
  Chat sessions, \<open>app/api/chat.py\<close>: one turn (plain and streamed), the session endpoints, the citations
  a reopened conversation still shows, and feedback. World: the database, the saved graph state of
  every session (the checkpointer), and what the graph itself changes. Ownership is the interface
  \<open>owner_gate\<close>. Rows that are uncommitted when a handler raises are dropped.
\<close>

record chat_world =
  cw_db :: db
  cw_threads :: "uuid \<Rightarrow> gstate"
  cw_graph :: gworld

subsection \<open>Helpers\<close>

definition require_llm_backend :: "cfg_model \<Rightarrow> bool \<Rightarrow> unit http" where
  "require_llm_backend cfg up = (if up then Inr ()
     else Inl (HTTPException 503 (lit ''LLM backend ('' @ llm_backend cfg @ lit '') is unavailable '' @ [8212]
            @ lit '' please try again shortly'')))"

definition json_opt :: "pystr option \<Rightarrow> json" where
  "json_opt x = (case x of None \<Rightarrow> JNull | Some s \<Rightarrow> JStr s)"

text \<open>\<open>sha\<close>: the hexadecimal SHA-256 of the UTF-8 encoding.\<close>

definition generation_audit_detail :: "(pystr \<Rightarrow> pystr) \<Rightarrow> gstate \<Rightarrow> pystr \<Rightarrow> bool \<Rightarrow> (pystr \<times> json) list" where
  "generation_audit_detail sha s rid streamed =
     [(lit ''request_id'', JStr rid), (lit ''route'', json_opt (gs_route s)), (lit ''cache_hit'', JBool (gs_cache_hit s)),
      (lit ''insufficient'', JBool (gs_insufficient s)), (lit ''streamed'', JBool streamed), (lit ''query'', JStr (gs_query s)),
      (lit ''retrieved_document_ids'', JList (map JStr (sorted_list_of_set (set (filter (\<lambda>x. x \<noteq> []) (map k_doc (gs_chunks s))))))),
      (lit ''answer_sha256'', JStr (sha (gs_answer s)))]"

definition owned_session :: "uuid \<Rightarrow> user_row \<Rightarrow> db \<Rightarrow> session_row http" where
  "owned_session sid u d = (case get_by s_id sid (t_sessions d) of
       None \<Rightarrow> Inl (HTTPException 404 (lit ''Session not found''))
     | Some s \<Rightarrow> if s_user s \<noteq> u_id u then Inl (HTTPException 404 (lit ''Session not found'')) else Inr s)"

definition add_session :: "session_row \<Rightarrow> db \<Rightarrow> db" where
  "add_session s d = d\<lparr>t_sessions := add_row s (t_sessions d)\<rparr>"

definition add_message :: "uuid \<Rightarrow> uuid \<Rightarrow> message_role \<Rightarrow> pystr \<Rightarrow> citation list option \<Rightarrow> time \<Rightarrow> db \<Rightarrow> db" where
  "add_message mid sid r content cites now d = d\<lparr>t_messages := add_row \<lparr>m_id = mid, m_session = sid, m_role = r,
     m_content = content, m_citations = cites, m_created = now\<rparr> (t_messages d)\<rparr>"

subsection \<open>One turn\<close>

record chat_request_body =
  cr_message :: pystr
  cr_session :: "uuid option"

text \<open>The fresh values of a turn: ids of the session, the two messages and the request; two clock reads.\<close>

record chat_fresh =
  fr_session :: uuid
  fr_user_msg :: uuid
  fr_answer_msg :: uuid
  fr_request :: pystr
  fr_start :: time
  fr_end :: time

record turn_response =
  tu_session :: uuid
  tu_message :: uuid
  tu_answer :: pystr
  tu_citations :: "citation list"
  tu_route :: "pystr option"
  tu_cache_hit :: bool
  tu_insufficient :: bool

definition open_session :: "chat_request_body \<Rightarrow> user_row \<Rightarrow> chat_fresh \<Rightarrow> db \<Rightarrow> (session_row \<times> db) http" where
  "open_session body u f d = (case cr_session body of
       Some sid \<Rightarrow> (case owned_session sid u d of Inl er \<Rightarrow> Inl er | Inr s \<Rightarrow> Inr (s, d))
     | None \<Rightarrow> (let s = \<lparr>s_id = fr_session f, s_user = u_id u, s_title = Some (take 80 (cr_message body)), s_created = fr_start f\<rparr>
                in Inr (s, add_session s d)))"

text \<open>What both variants commit before the graph runs.\<close>

definition begin_turn ::
  "cfg_model \<Rightarrow> bool \<Rightarrow> chat_request_body \<Rightarrow> user_row \<Rightarrow> chat_fresh \<Rightarrow> db \<Rightarrow> (session_row \<times> uuid set \<times> db) http" where
  "begin_turn cfg up body u f d = (case require_llm_backend cfg up of Inl er \<Rightarrow> Inl er | Inr _ \<Rightarrow>
     (case open_session body u f d of Inl er \<Rightarrow> Inl er
      | Inr (s, d1) \<Rightarrow> Inr (s, accessible_collection_ids d1 u,
            add_message (fr_user_msg f) (s_id s) M_USER (cr_message body) None (fr_start f) d1)))"

definition run_turn :: "genv \<Rightarrow> uuid \<Rightarrow> uuid set \<Rightarrow> chat_request_body \<Rightarrow> chat_fresh \<Rightarrow> chat_world \<Rightarrow> turn option" where
  "run_turn e sid allowed body f cw =
     invoke e (turn_input (cw_threads cw sid) (cr_message body) (sorted_list_of_set allowed) (fr_request f)) (cw_graph cw)"

definition persist_answer ::
  "(pystr \<Rightarrow> pystr) \<Rightarrow> user_row \<Rightarrow> uuid \<Rightarrow> chat_fresh \<Rightarrow> gstate \<Rightarrow> bool \<Rightarrow> db \<Rightarrow> db" where
  "persist_answer sha u sid f s streamed d =
     record_audit A_GENERATION (Some (u_id u)) (Some (lit ''chat_session'')) (Some (str_uuid sid))
       (Some (generation_audit_detail sha s (fr_request f) streamed)) None (fr_end f)
       (add_message (fr_answer_msg f) sid M_ASSISTANT (gs_answer s) (if gs_citations s = [] then None else Some (gs_citations s))
          (fr_end f) d)"

definition turn_response_of :: "uuid \<Rightarrow> chat_fresh \<Rightarrow> gstate \<Rightarrow> turn_response" where
  "turn_response_of sid f s = \<lparr>tu_session = sid, tu_message = fr_answer_msg f, tu_answer = gs_answer s, tu_citations = gs_citations s,
     tu_route = gs_route s, tu_cache_hit = gs_cache_hit s, tu_insufficient = gs_insufficient s\<rparr>"

text \<open>\<open>timed_out\<close>: the wait for the graph gave up; its thread is not cancelled and runs to its end.\<close>

definition chat ::
  "(pystr \<Rightarrow> pystr) \<Rightarrow> cfg_model \<Rightarrow> genv \<Rightarrow> bool \<Rightarrow> bool \<Rightarrow> chat_request_body \<Rightarrow> user_row \<Rightarrow> chat_fresh \<Rightarrow> chat_world
     \<Rightarrow> turn_response http \<times> chat_world" where
  "chat sha cfg e up timed_out body u f cw =
     (case begin_turn cfg up body u f (cw_db cw) of Inl er \<Rightarrow> (Inl er, cw)
      | Inr (sess, allowed, d1) \<Rightarrow>
        (let sid = s_id sess; saved = (\<lambda>s w. cw\<lparr>cw_db := d1, cw_threads := (cw_threads cw)(sid := s), cw_graph := w\<rparr>) in
         case run_turn e sid allowed body f cw of
           None \<Rightarrow> (Inl Crash, cw\<lparr>cw_db := d1\<rparr>)
         | Some (Raised s w) \<Rightarrow> (Inl (if timed_out then HTTPException 504 (lit ''Request timed out'') else Crash), saved s w)
         | Some (Finished s w) \<Rightarrow>
             if timed_out then (Inl (HTTPException 504 (lit ''Request timed out'')), saved s w)
             else (Inr (turn_response_of sid f s), (saved s w)\<lparr>cw_db := persist_answer sha u sid f s False d1\<rparr>)))"

text \<open>The streamed variant: the events sent, in order. An exception is reported and then passed over.\<close>

datatype sse = Sse_token pystr | Sse_error | Sse_done turn_response

definition chat_stream ::
  "(pystr \<Rightarrow> pystr) \<Rightarrow> cfg_model \<Rightarrow> genv \<Rightarrow> bool \<Rightarrow> chat_request_body \<Rightarrow> user_row \<Rightarrow> chat_fresh \<Rightarrow> chat_world
     \<Rightarrow> sse list http \<times> chat_world" where
  "chat_stream sha cfg e up body u f cw =
     (case begin_turn cfg up body u f (cw_db cw) of Inl er \<Rightarrow> (Inl er, cw)
      | Inr (sess, allowed, d1) \<Rightarrow>
        (let sid = s_id sess;
             finish = (\<lambda>s w mid.
               (Inr (map Sse_token (drop (length (gw_streamed (cw_graph cw))) (gw_streamed w)) @ mid @ [Sse_done (turn_response_of sid f s)]),
                cw\<lparr>cw_db := persist_answer sha u sid f s True d1, cw_threads := (cw_threads cw)(sid := s), cw_graph := w\<rparr>)) in
         case run_turn e sid allowed body f cw of
           None \<Rightarrow> (Inl Crash, cw\<lparr>cw_db := d1\<rparr>)
         | Some (Raised s w) \<Rightarrow> finish s w [Sse_error]
         | Some (Finished s w) \<Rightarrow> finish s w []))"

subsection \<open>Session endpoints\<close>

definition create_session :: "pystr option \<Rightarrow> uuid \<Rightarrow> time \<Rightarrow> user_row \<Rightarrow> db \<Rightarrow> session_row \<times> db" where
  "create_session title sid now u d =
     (let s = \<lparr>s_id = sid, s_user = u_id u, s_title = title, s_created = now\<rparr> in (s, add_session s d))"

definition list_sessions :: "user_row \<Rightarrow> db \<Rightarrow> session_row list" where
  "list_sessions u d = sort_key (\<lambda>s. - s_created s) (filter (\<lambda>s. s_user s = u_id u) (t_sessions d))"

text \<open>The messages go with their session, the feedback with its message.\<close>

definition cascade_session :: "uuid \<Rightarrow> db \<Rightarrow> db" where
  "cascade_session sid d =
     (let gone = map m_id (filter (\<lambda>m. m_session m = sid) (t_messages d)) in
      d\<lparr>t_sessions := del_by s_id sid (t_sessions d),
        t_messages := filter (\<lambda>m. m_session m \<noteq> sid) (t_messages d),
        t_feedback := filter (\<lambda>f. f_message f \<notin> set gone) (t_feedback d)\<rparr>)"

definition delete_session :: "uuid \<Rightarrow> user_row \<Rightarrow> time \<Rightarrow> db \<Rightarrow> unit http \<times> db" where
  "delete_session sid u now d = (case owned_session sid u d of Inl er \<Rightarrow> (Inl er, d)
     | Inr s \<Rightarrow> (Inr (), record_audit A_CONVERSATION_DELETE (Some (u_id u)) (Some (lit ''chat_session'')) (Some (str_uuid sid))
                          None None now (cascade_session sid d)))"

definition cited_documents :: "msg_row list \<Rightarrow> pystr list" where
  "cited_documents ms = filter (\<lambda>x. x \<noteq> []) (List.map_filter ci_document
     (concat (map (\<lambda>m. case m_citations m of None \<Rightarrow> [] | Some cs \<Rightarrow> cs) ms)))"

text \<open>\<open>uuid.UUID\<close> of a malformed document id raises.\<close>

definition readable_document_ids :: "db \<Rightarrow> user_row \<Rightarrow> msg_row list \<Rightarrow> pystr set http" where
  "readable_document_ids d u ms =
     (let cited = cited_documents ms; allowed = accessible_collection_ids d u in
      if cited = [] then Inr {}
      else if allowed = {} then Inr {}
      else case those (map uuid_parse cited) of None \<Rightarrow> Inl Crash
        | Some ids \<Rightarrow> Inr (set (map (str_uuid \<circ> d_id) (filter (\<lambda>x. d_id x \<in> set ids \<and> d_coll x \<in> allowed) (t_documents d)))))"

definition revoked_citation :: "citation \<Rightarrow> citation" where
  "revoked_citation c = \<lparr>ci_marker = ci_marker c, ci_document = None, ci_chunk = None, ci_page = None, ci_type = None,
     ci_file = None, ci_section = None, ci_content = None, ci_image = None, ci_revoked = True\<rparr>"

definition visible_citation :: "pystr set \<Rightarrow> citation \<Rightarrow> citation" where
  "visible_citation readable c =
     (if (case ci_document c of None \<Rightarrow> False | Some x \<Rightarrow> x \<in> readable) then c else revoked_citation c)"

definition visible_citations :: "citation list option \<Rightarrow> pystr set \<Rightarrow> citation list option" where
  "visible_citations cites readable = map_option (map (visible_citation readable)) cites"

record message_out =
  mo_id :: uuid
  mo_role :: message_role
  mo_content :: pystr
  mo_created :: time
  mo_feedback :: "pystr option"
  mo_citations :: "citation list option"

record session_detail =
  sd_id :: uuid
  sd_title :: "pystr option"
  sd_created :: time
  sd_messages :: "message_out list"

definition get_session :: "uuid \<Rightarrow> user_row \<Rightarrow> db \<Rightarrow> session_detail http" where
  "get_session sid u d = (case owned_session sid u d of Inl er \<Rightarrow> Inl er
     | Inr s \<Rightarrow>
       (let ms = sort_key m_created (filter (\<lambda>m. m_session m = s_id s) (t_messages d));
            fb = map_of (rev (map (\<lambda>f. (f_message f, f_rating f))
                   (filter (\<lambda>f. f_user f = u_id u \<and> f_message f \<in> m_id ` set ms) (t_feedback d))))
        in case readable_document_ids d u ms of Inl er \<Rightarrow> Inl er
           | Inr readable \<Rightarrow> Inr \<lparr>sd_id = s_id s, sd_title = s_title s, sd_created = s_created s,
               sd_messages = map (\<lambda>m. \<lparr>mo_id = m_id m, mo_role = m_role m, mo_content = m_content m, mo_created = m_created m,
                 mo_feedback = fb (m_id m), mo_citations = visible_citations (m_citations m) readable\<rparr>) ms\<rparr>))"

definition message_feedback :: "uuid \<Rightarrow> pystr \<Rightarrow> pystr option \<Rightarrow> uuid \<Rightarrow> user_row \<Rightarrow> db \<Rightarrow> unit http \<times> db" where
  "message_feedback mid rating reason fid u d =
     (case get_by m_id mid (t_messages d) of None \<Rightarrow> (Inl (HTTPException 404 (lit ''Message not found'')), d)
      | Some msg \<Rightarrow>
        (case get_by s_id (m_session msg) (t_sessions d) of None \<Rightarrow> (Inl (HTTPException 404 (lit ''Message not found'')), d)
         | Some s \<Rightarrow>
           if s_user s \<noteq> u_id u then (Inl (HTTPException 404 (lit ''Message not found'')), d)
           else if m_role msg \<noteq> M_ASSISTANT then (Inl (HTTPException 400 (lit ''Feedback applies to assistant messages'')), d)
           else (case scalar_one_or_none (filter (\<lambda>f. f_message f = mid \<and> f_user f = u_id u) (t_feedback d)) of
               Inl er \<Rightarrow> (Inl er, d)
             | Inr (Some f) \<Rightarrow> (Inr (), d\<lparr>t_feedback := upd_by f_id (f_id f) (\<lambda>f. f\<lparr>f_rating := rating, f_reason := reason\<rparr>) (t_feedback d)\<rparr>)
             | Inr None \<Rightarrow> (Inr (), d\<lparr>t_feedback := add_row \<lparr>f_id = fid, f_message = mid, f_user = u_id u, f_rating = rating,
                   f_reason = reason\<rparr> (t_feedback d)\<rparr>))))"

subsection \<open>Ownership\<close>

text \<open>
  An endpoint addressing one object of one user: whoever is not the owner gets one fixed 404, whether
  the object exists or not, and changes nothing.
\<close>

locale owner_gate =
  fixes serve :: "'w \<Rightarrow> user_row \<Rightarrow> uuid \<Rightarrow> 'r http \<times> 'w" and owner :: "'w \<Rightarrow> uuid \<Rightarrow> uuid option" and denial :: pystr
  assumes refused: "owner w i \<noteq> Some (u_id u) \<Longrightarrow> serve w u i = (Inl (HTTPException 404 denial), w)"
begin

lemma indistinguishable:
  "owner w i \<noteq> Some (u_id u) \<Longrightarrow> owner w j \<noteq> Some (u_id u) \<Longrightarrow> serve w u i = serve w u j"
  by (simp add: refused)

lemma served_owner: "fst (serve w u i) = Inr r \<Longrightarrow> owner w i = Some (u_id u)"
  using refused [of w i u] by (cases "owner w i = Some (u_id u)") auto

lemma changed_owner: "snd (serve w u i) \<noteq> w \<Longrightarrow> owner w i = Some (u_id u)"
  using refused [of w i u] by (cases "owner w i = Some (u_id u)") auto

end

definition session_owner :: "db \<Rightarrow> uuid \<Rightarrow> uuid option" where
  "session_owner d sid = map_option s_user (get_by s_id sid (t_sessions d))"

definition message_owner :: "db \<Rightarrow> uuid \<Rightarrow> uuid option" where
  "message_owner d mid = Option.bind (get_by m_id mid (t_messages d)) (\<lambda>m. session_owner d (m_session m))"

lemma owned_session_iff: "owned_session sid u d = (if session_owner d sid = Some (u_id u) then Inr (the (get_by s_id sid (t_sessions d)))
    else Inl (HTTPException 404 (lit ''Session not found'')))"
  by (auto simp: owned_session_def session_owner_def split: option.splits)

interpretation reading: owner_gate "\<lambda>d u sid. (get_session sid u d, d)" session_owner "lit ''Session not found''"
  by unfold_locales (simp add: get_session_def owned_session_iff)

interpretation deleting: owner_gate "\<lambda>d u sid. delete_session sid u now d" session_owner "lit ''Session not found''" for now
  by unfold_locales (simp add: delete_session_def owned_session_iff)

interpretation rating: owner_gate "\<lambda>d u mid. message_feedback mid r reason fid u d" message_owner "lit ''Message not found''" for r reason fid
  by unfold_locales (auto simp: message_feedback_def message_owner_def session_owner_def split: option.splits)

interpretation talking: owner_gate
    "\<lambda>cw u sid. chat sha cfg e True t \<lparr>cr_message = msg, cr_session = Some sid\<rparr> u f cw" "\<lambda>cw. session_owner (cw_db cw)" "lit ''Session not found''"
  for sha cfg e t msg f
  by unfold_locales (simp add: chat_def begin_turn_def require_llm_backend_def open_session_def owned_session_iff)

interpretation streaming: owner_gate
    "\<lambda>cw u sid. chat_stream sha cfg e True \<lparr>cr_message = msg, cr_session = Some sid\<rparr> u f cw" "\<lambda>cw. session_owner (cw_db cw)" "lit ''Session not found''"
  for sha cfg e msg f
  by unfold_locales (simp add: chat_stream_def begin_turn_def require_llm_backend_def open_session_def owned_session_iff)

text \<open>
  C27. Conversations are private: on every endpoint that names a session or a message (read, delete,
  continue, stream, rate) a caller who does not own it is answered 404 exactly as if it did not exist,
  an administrator included, and nothing is changed.
\<close>

theorem conversations_private:
  assumes "session_owner (cw_db cw) sid \<noteq> Some (u_id u)" and "message_owner (cw_db cw) mid \<noteq> Some (u_id u)"
  shows "get_session sid u (cw_db cw) = Inl (HTTPException 404 (lit ''Session not found''))
    \<and> delete_session sid u now (cw_db cw) = (Inl (HTTPException 404 (lit ''Session not found'')), cw_db cw)
    \<and> chat sha cfg e True t \<lparr>cr_message = msg, cr_session = Some sid\<rparr> u f cw = (Inl (HTTPException 404 (lit ''Session not found'')), cw)
    \<and> chat_stream sha cfg e True \<lparr>cr_message = msg, cr_session = Some sid\<rparr> u f cw = (Inl (HTTPException 404 (lit ''Session not found'')), cw)
    \<and> message_feedback mid r reason fid u (cw_db cw) = (Inl (HTTPException 404 (lit ''Message not found'')), cw_db cw)"
  using reading.refused [OF assms(1)] deleting.refused [OF assms(1)] talking.refused [OF assms(1)] streaming.refused [OF assms(1)]
    rating.refused [OF assms(2)]
  by (simp only: prod.inject simp_thms)

lemma conversations_private_witness:
  "get_session 1 (demo_user\<lparr>u_role := ADMIN\<rparr>) (demo_db\<lparr>t_sessions := [\<lparr>s_id = 1, s_user = 8, s_title = None, s_created = 0\<rparr>]\<rparr>)
     = Inl (HTTPException 404 (lit ''Session not found''))"
proof -
  let ?d = "demo_db\<lparr>t_sessions := [\<lparr>s_id = 1, s_user = 8, s_title = None, s_created = 0\<rparr>]\<rparr>"
  let ?cw = "\<lparr>cw_db = ?d, cw_threads = (\<lambda>_. gstate0), cw_graph = demo_world\<rparr>"
  have "session_owner (cw_db ?cw) 1 \<noteq> Some (u_id (demo_user\<lparr>u_role := ADMIN\<rparr>))"
    by (simp add: session_owner_def get_by_def demo_user_def)
  moreover have "message_owner (cw_db ?cw) 1 \<noteq> Some (u_id (demo_user\<lparr>u_role := ADMIN\<rparr>))"
    by (simp add: message_owner_def get_by_def demo_db_def empty_db_def)
  ultimately show ?thesis using conversations_private [of ?cw 1 "demo_user\<lparr>u_role := ADMIN\<rparr>" 1] by simp
qed

subsection \<open>What a conversation still shows\<close>

lemma readable_ids:
  assumes "readable_document_ids d u ms = Inr R" and "x \<in> R"
  shows "\<exists>doc \<in> set (t_documents d). x = str_uuid (d_id doc) \<and> d_coll doc \<in> accessible_collection_ids d u"
  using assms by (auto simp: readable_document_ids_def Let_def split: if_splits option.splits)

lemma get_session_message:
  assumes "get_session sid u d = Inr r" and "m \<in> set (sd_messages r)"
  shows "\<exists>ms R. \<exists>m0 :: msg_row. readable_document_ids d u ms = Inr R \<and> mo_citations m = visible_citations (m_citations m0) R"
proof (cases "owned_session sid u d")
  case (Inr s)
  define ms where "ms = sort_key m_created (filter (\<lambda>m. m_session m = s_id s) (t_messages d))"
  show ?thesis
  proof (cases "readable_document_ids d u ms")
    case (Inr R)
    with assms \<open>owned_session sid u d = Inr s\<close> have "mo_citations m \<in> (\<lambda>m0. visible_citations (m_citations m0) R) ` set ms"
      by (auto simp: get_session_def Let_def simp flip: ms_def intro!: imageI)
    with Inr show ?thesis by blast
  qed (use assms Inr in \<open>simp add: get_session_def Let_def flip: ms_def\<close>)
qed (use assms in \<open>simp add: get_session_def\<close>)


definition demo_citation :: citation where
  "demo_citation = citation_of 1 demo_chunk"

definition history_db :: db where
  "history_db = demo_db\<lparr>t_sessions := [\<lparr>s_id = 1, s_user = 7, s_title = None, s_created = 0\<rparr>],
     t_messages := [\<lparr>m_id = 2, m_session = 1, m_role = M_ASSISTANT, m_content = [], m_citations = Some [(doc_citation (str_uuid 5))\<lparr>ci_content := Some (lit ''secret'')\<rparr>],
       m_created = 1\<rparr>]\<rparr>"

lemma history_db_session: "get_session 1 demo_user history_db = Inr \<lparr>sd_id = 1, sd_title = None, sd_created = 0,
    sd_messages = [\<lparr>mo_id = 2, mo_role = M_ASSISTANT, mo_content = [], mo_created = 1, mo_feedback = None,
      mo_citations = Some [revoked_citation (doc_citation (str_uuid 5))]\<rparr>]\<rparr>"
  by (simp add: get_session_def owned_session_def get_by_def history_db_def demo_user_def readable_document_ids_def
      accessible_collection_ids_def own_department_collections_def principals_def granted_def demo_db_def empty_db_def
      cited_documents_def List.map_filter_def doc_citation_def visible_citations_def visible_citation_def revoked_citation_def Let_def)


subsection \<open>The answer of a turn\<close>

lemma open_sessionD:
  assumes "open_session body u f d = Inr (s, d1)"
  shows "accessible_collection_ids d1 u = accessible_collection_ids d u"
proof -
  have "t_permissions d1 = t_permissions d" "t_collections d1 = t_collections d"
    using assms by (auto simp: open_session_def add_session_def Let_def split: option.splits sum.splits)
  then show ?thesis by (rule accessible_frame)
qed

lemma begin_turnD: "begin_turn cfg up body u f d = Inr (s, A, d1) \<Longrightarrow> A = accessible_collection_ids d u"
  by (auto simp: begin_turn_def dest: open_sessionD split: sum.splits)

lemma set_scope [simp]: "set (sorted_list_of_set (accessible_collection_ids d u)) = accessible_collection_ids d u"
  by simp


definition demo_fresh :: chat_fresh where
  "demo_fresh = \<lparr>fr_session = 1, fr_user_msg = 2, fr_answer_msg = 4, fr_request = [], fr_start = 0, fr_end = 1\<rparr>"

definition scoped_db :: db where
  "scoped_db = demo_db\<lparr>t_permissions := [\<lparr>p_id = 6, p_ptype = P_USER, p_pid = 7, p_rtype = R_COLLECTION, p_rid = 3, p_level = AL_READ\<rparr>]\<rparr>"

definition demo_chat :: chat_world where
  "demo_chat = \<lparr>cw_db = scoped_db, cw_threads = (\<lambda>_. gstate0), cw_graph = demo_world\<rparr>"

lemma demo_user_role: "u_role demo_user = USER" "u_role demo_user \<noteq> ADMIN"
  by (simp_all add: demo_user_def)

lemma demo_scope: "accessible_collection_ids scoped_db demo_user = {3}"
  by (auto simp: accessible_collection_ids_def own_department_collections_def principals_def granted_def scoped_db_def demo_db_def
      empty_db_def demo_user_def)

lemma demo_begin: "\<exists>d1. begin_turn default_model True \<lparr>cr_message = lit ''q'', cr_session = None\<rparr> demo_user demo_fresh scoped_db
    = Inr (\<lparr>s_id = 1, s_user = 7, s_title = Some (lit ''q''), s_created = 0\<rparr>, {3}, d1)"
proof -
  let ?s = "\<lparr>s_id = 1, s_user = 7, s_title = Some (lit ''q''), s_created = 0\<rparr>"
  have "accessible_collection_ids (add_session ?s scoped_db) demo_user = {3}"
    using demo_scope by (subst accessible_frame [of _ scoped_db]) (simp_all add: add_session_def)
  then show ?thesis
    by (simp add: begin_turn_def require_llm_backend_def open_session_def demo_fresh_def Let_def)
qed


subsection \<open>A stream that fails\<close>



subsection \<open>Feedback and deletion\<close>

definition feedback_unique :: "db \<Rightarrow> bool" where
  "feedback_unique d \<longleftrightarrow> distinct (map (\<lambda>f. (f_message f, f_user f)) (t_feedback d)) \<and> distinct (map f_id (t_feedback d))"

lemma feedback_filter:
  assumes "feedback_unique d"
  obtains "filter (\<lambda>f. f_message f = mid \<and> f_user f = uid) (t_feedback d) = []"
  | f where "f \<in> set (t_feedback d)" and "filter (\<lambda>f. f_message f = mid \<and> f_user f = uid) (t_feedback d) = [f]"
proof -
  have "distinct (map (\<lambda>f. (f_message f, f_user f)) (t_feedback d))" using assms by (simp add: feedback_unique_def)
  then show thesis
  proof (cases rule: filter_key_cases [where e = "(mid, uid)"])
    case absent
    with that(1) show ?thesis by simp
  next
    case (unique f)
    from that(2) [OF unique(1)] unique(3) show ?thesis by simp
  qed
qed

lemma upd_feedback_keys [simp]:
  "map (\<lambda>f. (f_message f, f_user f)) (upd_by f_id i (\<lambda>f. f\<lparr>f_rating := r, f_reason := rs\<rparr>) t) = map (\<lambda>f. (f_message f, f_user f)) t"
  by (induction t) (auto simp: upd_by_def)

text \<open>
  Rating is an upsert: whatever was there before, after a successful rating the message carries exactly one
  rating by this user, the one given, every other rating is untouched, and there is never a second row
  for the same message and user.
\<close>

theorem feedback_upsert:
  assumes "feedback_unique d" and "fid \<notin> f_id ` set (t_feedback d)"
    and "message_feedback mid r reason fid u d = (Inr (), d')"
  shows "feedback_unique d'
     \<and> map (\<lambda>f. (f_rating f, f_reason f)) (filter (\<lambda>f. f_message f = mid \<and> f_user f = u_id u) (t_feedback d')) = [(r, reason)]
     \<and> filter (\<lambda>f. \<not> (f_message f = mid \<and> f_user f = u_id u)) (t_feedback d')
       = filter (\<lambda>f. \<not> (f_message f = mid \<and> f_user f = u_id u)) (t_feedback d)"
proof (cases rule: feedback_filter [OF assms(1), of mid "u_id u"])
  case 1
  then have "t_feedback d' = t_feedback d @ [\<lparr>f_id = fid, f_message = mid, f_user = u_id u, f_rating = r, f_reason = reason\<rparr>]"
    using assms(3) by (auto simp: message_feedback_def scalar_one_or_none_def add_row_def split: option.splits if_splits)
  moreover from 1 have "(mid, u_id u) \<notin> (\<lambda>f. (f_message f, f_user f)) ` set (t_feedback d)"
    by (auto simp: filter_empty_conv)
  ultimately show ?thesis using assms(1,2) 1 by (simp add: feedback_unique_def)
next
  case (2 x)
  let ?h = "\<lambda>f. if f_id f = f_id x then f\<lparr>f_rating := r, f_reason := reason\<rparr> else f"
  have t: "t_feedback d' = map ?h (t_feedback d)"
    using assms(3) 2 by (auto simp: message_feedback_def scalar_one_or_none_def upd_by_def split: option.splits if_splits)
  have x: "f_message x = mid" "f_user x = u_id u"
    using arg_cong [OF 2(2), of set] by auto
  have "filter (\<lambda>f. f_message f = mid \<and> f_user f = u_id u) (map ?h (t_feedback d)) = map ?h [x]"
    unfolding filter_map 2(2) [symmetric] by (intro arg_cong [of _ _ "map ?h"] filter_cong) auto
  moreover have "filter (\<lambda>f. \<not> (f_message f = mid \<and> f_user f = u_id u)) (map ?h (t_feedback d))
      = map ?h (filter (\<lambda>f. \<not> (f_message f = mid \<and> f_user f = u_id u)) (t_feedback d))"
    unfolding filter_map by (intro arg_cong [of _ _ "map ?h"] filter_cong) auto
  moreover have "?h y = y" if "y \<in> set (t_feedback d)" "\<not> (f_message y = mid \<and> f_user y = u_id u)" for y
    using that x 2(1) assms(1) by (auto simp: feedback_unique_def distinct_map inj_on_def)
  then have "map ?h (filter (\<lambda>f. \<not> (f_message f = mid \<and> f_user f = u_id u)) (t_feedback d))
      = filter (\<lambda>f. \<not> (f_message f = mid \<and> f_user f = u_id u)) (t_feedback d)"
    by (intro map_idI) auto
  moreover have "feedback_unique d'"
  proof -
    have "map (\<lambda>f. (f_message f, f_user f)) (map ?h (t_feedback d)) = map (\<lambda>f. (f_message f, f_user f)) (t_feedback d)"
      "map f_id (map ?h (t_feedback d)) = map f_id (t_feedback d)" by simp_all
    with assms(1) show ?thesis unfolding t feedback_unique_def by metis
  qed
  ultimately show ?thesis unfolding t by simp
qed

lemma feedback_upsert_witness:
  "\<exists>d'. message_feedback 2 (lit ''up'') None 9 demo_user history_db = (Inr (), d')
     \<and> map (\<lambda>f. (f_rating f, f_reason f)) (filter (\<lambda>f. f_message f = 2 \<and> f_user f = u_id demo_user) (t_feedback d')) = [(lit ''up'', None)]"
proof -
  have "message_feedback 2 (lit ''up'') None 9 demo_user history_db = (Inr (), history_db\<lparr>t_feedback :=
      [\<lparr>f_id = 9, f_message = 2, f_user = u_id demo_user, f_rating = lit ''up'', f_reason = None\<rparr>]\<rparr>)"
    by (simp add: message_feedback_def history_db_def get_by_def demo_user_def demo_db_def empty_db_def scalar_one_or_none_def add_row_def)
  moreover have "feedback_unique history_db" "9 \<notin> f_id ` set (t_feedback history_db)"
    by (simp_all add: feedback_unique_def history_db_def demo_db_def empty_db_def)
  ultimately show ?thesis using feedback_upsert by blast
qed

text \<open>Deleting a conversation removes its messages and their ratings, and nothing of any other.\<close>

lemma delete_session_exact:
  assumes "delete_session sid u now d = (Inr (), d')"
  shows "session_owner d' sid = None" and "t_messages d' = filter (\<lambda>m. m_session m \<noteq> sid) (t_messages d)"
    and "s \<noteq> sid \<Longrightarrow> session_owner d' s = session_owner d s"
  using assms
  by (auto simp: sessions.get_del delete_session_def cascade_session_def session_owner_def Let_def split: sum.splits)

end
