(* ===== verification/Admin.thy ===== *)
theory Admin
  imports Security SemCache
begin

text \<open>
  The admin API, \<open>app/api/admin.py\<close>: departments, users, collections and grants, suspension, session
  revocation and credential reset, and the audit listing. World: database, Redis, semantic cache.
  Every call runs behind \<open>require_admin\<close>; \<open>admin_api\<close> is the router. Unique constraints and foreign keys
  of the schema raise where the database would; listings are in code point order.
\<close>

record admin_world =
  aw_db :: db
  aw_redis :: redis
  aw_cache :: sem_cache

definition with_db :: "admin_world \<Rightarrow> db \<Rightarrow> admin_world" where
  "with_db w d = w\<lparr>aw_db := d\<rparr>"

definition admin_audit :: "audit_action \<Rightarrow> user_row \<Rightarrow> pystr \<Rightarrow> uuid \<Rightarrow> (pystr \<times> json) list \<Rightarrow> time \<Rightarrow> db \<Rightarrow> db" where
  "admin_audit act admin rtype rid detail now =
     record_audit act (Some (u_id admin)) (Some rtype) (Some (str_uuid rid)) (Some detail) None now"

definition perm_key :: "perm_row \<Rightarrow> principal_type \<times> uuid \<times> resource_type \<times> uuid" where
  "perm_key p = (p_ptype p, p_pid p, p_rtype p, p_rid p)"

subsection \<open>Creation\<close>

definition known_department :: "uuid option \<Rightarrow> db \<Rightarrow> bool" where
  "known_department dept d \<longleftrightarrow> (case dept of None \<Rightarrow> True | Some i \<Rightarrow> get_by dp_id i (t_departments d) \<noteq> None)"

definition create_department :: "pystr \<Rightarrow> uuid \<Rightarrow> user_row \<Rightarrow> time \<Rightarrow> db \<Rightarrow> dept_row http \<times> db" where
  "create_department name i admin now d =
     (if name \<in> dp_name ` set (t_departments d) then (Inl (HTTPException 409 (lit ''Department already exists'')), d)
      else let row = \<lparr>dp_id = i, dp_name = name\<rparr> in
        (Inr row, admin_audit A_ADMIN_ACTION admin (lit ''department'') i
           [(lit ''op'', JStr (lit ''create_department'')), (lit ''name'', JStr name)] now
           (d\<lparr>t_departments := add_row row (t_departments d)\<rparr>)))"

record user_create =
  uc_email :: pystr
  uc_password :: pystr
  uc_role :: role
  uc_dept :: "uuid option"

definition create_user :: "(nat list \<Rightarrow> pystr) \<Rightarrow> user_create \<Rightarrow> uuid \<Rightarrow> user_row \<Rightarrow> time \<Rightarrow> db \<Rightarrow> user_row http \<times> db" where
  "create_user hashpw body i admin now d =
     (if \<not> known_department (uc_dept body) d then (Inl (HTTPException 400 (lit ''Unknown department_id'')), d)
      else case hash_password hashpw (uc_password body) of None \<Rightarrow> (Inl Crash, d)
        | Some h \<Rightarrow>
          if uc_email body \<in> u_email ` set (t_users d) then (Inl (HTTPException 409 (lit ''Email already registered'')), d)
          else let row = \<lparr>u_id = i, u_email = uc_email body, u_hash = h, u_role = uc_role body, u_dept = uc_dept body, u_active = True\<rparr> in
            (Inr row, admin_audit A_ADMIN_ACTION admin (lit ''user'') i
               [(lit ''op'', JStr (lit ''create_user'')), (lit ''email'', JStr (uc_email body)), (lit ''role'', JStr (role_value (uc_role body)))] now
               (d\<lparr>t_users := add_row row (t_users d)\<rparr>)))"

record collection_create =
  cc_name :: pystr
  cc_desc :: "pystr option"
  cc_dept :: "uuid option"

definition create_collection :: "collection_create \<Rightarrow> uuid \<Rightarrow> user_row \<Rightarrow> time \<Rightarrow> db \<Rightarrow> coll_row http \<times> db" where
  "create_collection body i admin now d =
     (if \<not> known_department (cc_dept body) d then (Inl (HTTPException 400 (lit ''Unknown department_id'')), d)
      else let row = \<lparr>co_id = i, co_name = cc_name body, co_desc = cc_desc body, co_dept = cc_dept body\<rparr> in
        (Inr row, admin_audit A_ADMIN_ACTION admin (lit ''collection'') i
           [(lit ''op'', JStr (lit ''create_collection'')), (lit ''name'', JStr (cc_name body))] now
           (d\<lparr>t_collections := add_row row (t_collections d)\<rparr>)))"

record permission_create =
  pc_ptype :: principal_type
  pc_pid :: uuid
  pc_rtype :: resource_type
  pc_rid :: uuid
  pc_level :: access_level

definition grant_permission :: "permission_create \<Rightarrow> uuid \<Rightarrow> user_row \<Rightarrow> time \<Rightarrow> db \<Rightarrow> perm_row http \<times> db" where
  "grant_permission body i admin now d =
     (let row = \<lparr>p_id = i, p_ptype = pc_ptype body, p_pid = pc_pid body, p_rtype = pc_rtype body, p_rid = pc_rid body, p_level = pc_level body\<rparr> in
      if perm_key row \<in> perm_key ` set (t_permissions d) then (Inl (HTTPException 409 (lit ''Permission already exists'')), d)
      else (Inr row, admin_audit A_PERMISSION_CHANGE admin (resource_type_value (pc_rtype body)) (pc_rid body)
           [(lit ''op'', JStr (lit ''grant'')), (lit ''principal_type'', JStr (principal_type_value (pc_ptype body))),
            (lit ''principal_id'', JStr (str_uuid (pc_pid body)))] now
           (d\<lparr>t_permissions := add_row row (t_permissions d)\<rparr>)))"

subsection \<open>Listings\<close>

text \<open>A negative limit makes the statement fail.\<close>

definition list_audit_logs :: "int \<Rightarrow> db \<Rightarrow> audit_row list http" where
  "list_audit_logs limit d = (let n = min limit 500 in
     if n < 0 then Inl Crash else Inr (take (nat n) (sort_key (\<lambda>a. - a_created a) (t_audit d))))"

definition list_users :: "db \<Rightarrow> user_row list" where
  "list_users d = sort_key u_email (t_users d)"

definition list_departments :: "db \<Rightarrow> dept_row list" where
  "list_departments d = sort_key dp_name (t_departments d)"

definition admin_list_collections :: "db \<Rightarrow> coll_row list" where
  "admin_list_collections d = sort_key co_name (t_collections d)"

definition list_permissions :: "db \<Rightarrow> perm_row list" where
  "list_permissions d = t_permissions d"

subsection \<open>User lifecycle\<close>

record user_update =
  uu_active :: "bool option"
  uu_role :: "role option"
  uu_dept :: "uuid option"

definition apply_update :: "user_update \<Rightarrow> user_row \<Rightarrow> user_row" where
  "apply_update body u =
     (let u1 = (case uu_role body of None \<Rightarrow> u | Some r \<Rightarrow> u\<lparr>u_role := r\<rparr>);
          u2 = (case uu_dept body of None \<Rightarrow> u1 | Some i \<Rightarrow> u1\<lparr>u_dept := Some i\<rparr>)
      in (case uu_active body of None \<Rightarrow> u2 | Some a \<Rightarrow> u2\<lparr>u_active := a\<rparr>))"

definition suspends :: "user_update \<Rightarrow> user_row \<Rightarrow> bool" where
  "suspends body u \<longleftrightarrow> u_active u \<and> uu_active body = Some False"

text \<open>An unknown department violates the foreign key at the commit, after the epoch was bumped.\<close>

definition update_user :: "uuid \<Rightarrow> user_update \<Rightarrow> user_row \<Rightarrow> time \<Rightarrow> admin_world \<Rightarrow> user_row http \<times> admin_world" where
  "update_user uid body admin now w =
     (case get_by u_id uid (t_users (aw_db w)) of None \<Rightarrow> (Inl (HTTPException 404 (lit ''User not found'')), w)
      | Some u \<Rightarrow>
        (case (if suspends body u then bump_session_epoch uid now (aw_redis w) else Inr (aw_redis w)) of
           Inl er \<Rightarrow> (Inl er, w)
         | Inr r \<Rightarrow>
           let d = (aw_db w)\<lparr>t_users := upd_by u_id uid (apply_update body) (t_users (aw_db w))\<rparr>;
               d' = admin_audit A_ADMIN_ACTION admin (lit ''user'') uid
                      [(lit ''op'', JStr (lit ''update_user'')), (lit ''suspended'', JBool (suspends body u))] now d
           in if \<not> known_department (uu_dept body) (aw_db w) then (Inl Crash, w\<lparr>aw_redis := r\<rparr>)
              else (Inr (apply_update body u), w\<lparr>aw_db := d', aw_redis := r\<rparr>)))"

definition revoke_sessions :: "uuid \<Rightarrow> user_row \<Rightarrow> time \<Rightarrow> admin_world \<Rightarrow> unit http \<times> admin_world" where
  "revoke_sessions uid admin now w =
     (case get_by u_id uid (t_users (aw_db w)) of None \<Rightarrow> (Inl (HTTPException 404 (lit ''User not found'')), w)
      | Some u \<Rightarrow> (case bump_session_epoch uid now (aw_redis w) of Inl er \<Rightarrow> (Inl er, w)
         | Inr r \<Rightarrow> (Inr (), w\<lparr>aw_redis := r, aw_db := admin_audit A_ADMIN_ACTION admin (lit ''user'') uid
                       [(lit ''op'', JStr (lit ''revoke_sessions''))] now (aw_db w)\<rparr>)))"

text \<open>\<open>temp\<close>: the fresh random password.\<close>

definition reset_credential ::
  "(nat list \<Rightarrow> pystr) \<Rightarrow> pystr \<Rightarrow> uuid \<Rightarrow> user_row \<Rightarrow> time \<Rightarrow> admin_world \<Rightarrow> (uuid \<times> pystr) http \<times> admin_world" where
  "reset_credential hashpw temp uid admin now w =
     (case get_by u_id uid (t_users (aw_db w)) of None \<Rightarrow> (Inl (HTTPException 404 (lit ''User not found'')), w)
      | Some u \<Rightarrow> (case hash_password hashpw temp of None \<Rightarrow> (Inl Crash, w)
         | Some h \<Rightarrow> (case bump_session_epoch uid now (aw_redis w) of Inl er \<Rightarrow> (Inl er, w)
            | Inr r \<Rightarrow> (Inr (uid, temp), w\<lparr>aw_redis := r, aw_db := admin_audit A_ADMIN_ACTION admin (lit ''user'') uid
                 [(lit ''op'', JStr (lit ''reset_credential''))] now
                 ((aw_db w)\<lparr>t_users := upd_by u_id uid (\<lambda>u. u\<lparr>u_hash := h\<rparr>) (t_users (aw_db w))\<rparr>)\<rparr>))))"

subsection \<open>Editing and revoking grants\<close>

definition invalidate_for_permission :: "perm_row \<Rightarrow> sem_cache \<Rightarrow> sem_cache" where
  "invalidate_for_permission p c = snd (if p_rtype p = R_COLLECTION then lifecycle_invalidate_collection (p_rid p) c
      else lifecycle_invalidate_document (p_rid p) c)"

definition edit_permission :: "uuid \<Rightarrow> access_level \<Rightarrow> user_row \<Rightarrow> time \<Rightarrow> admin_world \<Rightarrow> perm_row http \<times> admin_world" where
  "edit_permission pid level admin now w =
     (case get_by p_id pid (t_permissions (aw_db w)) of None \<Rightarrow> (Inl (HTTPException 404 (lit ''Permission not found'')), w)
      | Some p \<Rightarrow> (Inr (p\<lparr>p_level := level\<rparr>), w\<lparr>aw_cache := invalidate_for_permission p (aw_cache w),
           aw_db := admin_audit A_PERMISSION_CHANGE admin (resource_type_value (p_rtype p)) (p_rid p)
             [(lit ''op'', JStr (lit ''edit'')), (lit ''access_level'', JStr (access_level_value level))] now
             ((aw_db w)\<lparr>t_permissions := upd_by p_id pid (\<lambda>p. p\<lparr>p_level := level\<rparr>) (t_permissions (aw_db w))\<rparr>)\<rparr>))"

definition revoke_permission :: "uuid \<Rightarrow> user_row \<Rightarrow> time \<Rightarrow> admin_world \<Rightarrow> unit http \<times> admin_world" where
  "revoke_permission pid admin now w =
     (case get_by p_id pid (t_permissions (aw_db w)) of None \<Rightarrow> (Inl (HTTPException 404 (lit ''Permission not found'')), w)
      | Some p \<Rightarrow> (Inr (), w\<lparr>aw_cache := invalidate_for_permission p (aw_cache w),
           aw_db := (let d = admin_audit A_PERMISSION_CHANGE admin (resource_type_value (p_rtype p)) (p_rid p)
               [(lit ''op'', JStr (lit ''revoke''))] now (aw_db w)
             in d\<lparr>t_permissions := del_by p_id pid (t_permissions d)\<rparr>)\<rparr>))"

subsection \<open>The router\<close>

datatype admin_call = CreateDepartment pystr | CreateUser user_create | CreateCollection collection_create
  | GrantPermission permission_create | ListAuditLogs int | ListUsers | ListDepartments | ListCollections | ListPermissions
  | UpdateUser uuid user_update | RevokeSessions uuid | ResetCredential uuid | EditPermission uuid access_level | RevokePermission uuid

datatype admin_reply = RDepartment dept_row | RUser user_row | RCollection coll_row | RPermission perm_row
  | RAudit "audit_row list" | RUsers "user_row list" | RDepartments "dept_row list" | RCollections "coll_row list"
  | RPermissions "perm_row list" | RCredential "uuid \<times> pystr" | RNone

definition reply :: "('a \<Rightarrow> admin_reply) \<Rightarrow> 'a http \<times> 'w \<Rightarrow> admin_reply http \<times> 'w" where
  "reply f r = (case r of (Inl er, w) \<Rightarrow> (Inl er, w) | (Inr a, w) \<Rightarrow> (Inr (f a), w))"

definition on_db :: "admin_world \<Rightarrow> ('a http \<times> db) \<Rightarrow> 'a http \<times> admin_world" where
  "on_db w r = (fst r, with_db w (snd r))"

fun run_admin :: "(nat list \<Rightarrow> pystr) \<Rightarrow> uuid \<Rightarrow> pystr \<Rightarrow> time \<Rightarrow> user_row \<Rightarrow> admin_call \<Rightarrow> admin_world \<Rightarrow> admin_reply http \<times> admin_world" where
  "run_admin hashpw i temp now a (CreateDepartment n) w = reply RDepartment (on_db w (create_department n i a now (aw_db w)))"
| "run_admin hashpw i temp now a (CreateUser b) w = reply RUser (on_db w (create_user hashpw b i a now (aw_db w)))"
| "run_admin hashpw i temp now a (CreateCollection b) w = reply RCollection (on_db w (create_collection b i a now (aw_db w)))"
| "run_admin hashpw i temp now a (GrantPermission b) w = reply RPermission (on_db w (grant_permission b i a now (aw_db w)))"
| "run_admin hashpw i temp now a (ListAuditLogs n) w = reply RAudit (list_audit_logs n (aw_db w), w)"
| "run_admin hashpw i temp now a ListUsers w = (Inr (RUsers (list_users (aw_db w))), w)"
| "run_admin hashpw i temp now a ListDepartments w = (Inr (RDepartments (list_departments (aw_db w))), w)"
| "run_admin hashpw i temp now a ListCollections w = (Inr (RCollections (admin_list_collections (aw_db w))), w)"
| "run_admin hashpw i temp now a ListPermissions w = (Inr (RPermissions (list_permissions (aw_db w))), w)"
| "run_admin hashpw i temp now a (UpdateUser u b) w = reply RUser (update_user u b a now w)"
| "run_admin hashpw i temp now a (RevokeSessions u) w = reply (\<lambda>_. RNone) (revoke_sessions u a now w)"
| "run_admin hashpw i temp now a (ResetCredential u) w = reply RCredential (reset_credential hashpw temp u a now w)"
| "run_admin hashpw i temp now a (EditPermission p l) w = reply RPermission (edit_permission p l a now w)"
| "run_admin hashpw i temp now a (RevokePermission p) w = reply (\<lambda>_. RNone) (revoke_permission p a now w)"

text \<open>The dependency of the router: the bearer token decides the caller, the caller's role admits.\<close>

definition admin_api ::
  "(time \<Rightarrow> pystr \<Rightarrow> payload option) \<Rightarrow> (nat list \<Rightarrow> pystr) \<Rightarrow> uuid \<Rightarrow> pystr \<Rightarrow> time \<Rightarrow> pystr option \<Rightarrow> admin_call \<Rightarrow> admin_world
     \<Rightarrow> admin_reply http \<times> admin_world" where
  "admin_api dec hashpw i temp now creds call w =
     (case get_current_user dec now (aw_db w) (aw_redis w) creds of Inl er \<Rightarrow> (Inl er, w)
      | Inr u \<Rightarrow> (case require_admin u of Inl er \<Rightarrow> (Inl er, w) | Inr a \<Rightarrow> run_admin hashpw i temp now a call w))"

subsection \<open>The gate of the router\<close>

lemma reply_simps [simp]: "reply f (Inl er, w) = (Inl er, w)" "reply f (Inr a, w) = (Inr (f a), w)"
  by (simp_all add: reply_def)

lemma snd_reply [simp]: "snd (reply f x) = snd x"
  by (auto simp: reply_def split: prod.splits sum.splits)

lemma reply_Inl: "reply f x = (Inl er, w) \<longleftrightarrow> x = (Inl er, w)"
  by (cases x; cases "fst x") (auto simp: reply_def)

lemma with_db_same [simp]: "with_db w (aw_db w) = w" "aw_db (with_db w d) = d" "aw_cache (with_db w d) = aw_cache w"
  by (simp_all add: with_db_def)

lemmas creation_defs = create_department_def create_user_def create_collection_def grant_permission_def
lemmas lifecycle_defs = update_user_def revoke_sessions_def reset_credential_def edit_permission_def revoke_permission_def

lemma failed_call_db: "run_admin hashpw i temp now a call w = (Inl er, w') \<Longrightarrow> aw_db w' = aw_db w \<and> aw_cache w' = aw_cache w"
  by (cases call)
    (auto simp: reply_Inl on_db_def creation_defs lifecycle_defs Let_def split: if_splits option.splits sum.splits)

text \<open>
  Only administrators reach the admin API: a call whose token is not that of an active user with the
  admin role is answered 401 or 403 and changes nothing; and a call that fails for any reason leaves
  database and cache as they were.
\<close>

theorem admin_calls_gated:
  assumes "admin_api dec hashpw i temp now creds call w = (res, w')"
  shows "((\<forall>u. get_current_user dec now (aw_db w) (aw_redis w) creds = Inr u \<longrightarrow> u_role u \<noteq> ADMIN)
          \<longrightarrow> w' = w \<and> (\<exists>er. res = Inl er \<and> http_status er \<in> {401, 403}))
       \<and> ((\<exists>er. res = Inl er) \<longrightarrow> aw_db w' = aw_db w \<and> aw_cache w' = aw_cache w)"
  using assms
  by (auto simp: admin_api_def require_admin_def credentials_exc_def split: sum.splits if_splits
      dest: failed_call_db get_current_user_Inl)

definition demo_admin_world :: admin_world where
  "demo_admin_world = \<lparr>aw_db = demo_db, aw_redis = empty_redis, aw_cache = demo_cache\<rparr>"

lemma admin_calls_gated_witness:
  "\<exists>er. admin_api num_dec unary_hash 1 [] 150 (Some (num_enc (demo_payload ACCESS 1))) ListUsers demo_admin_world = (Inl er, demo_admin_world)
     \<and> http_status er \<in> {401, 403}"
proof -
  have "u_role u \<noteq> ADMIN" if "get_current_user num_dec 150 demo_db empty_redis (Some (num_enc (demo_payload ACCESS 1))) = Inr u" for u
    using that by (auto simp: get_current_user_Inr token_valid_def num_dec_demo get_by_def demo_db_def demo_user_def split: if_splits)
  then show ?thesis
    using admin_calls_gated [of num_dec unary_hash 1 "[]" 150 "Some (num_enc (demo_payload ACCESS 1))" ListUsers demo_admin_world]
    by (cases "admin_api num_dec unary_hash 1 [] 150 (Some (num_enc (demo_payload ACCESS 1))) ListUsers demo_admin_world")
      (auto simp: demo_admin_world_def)
qed

subsection \<open>Integrity of the tables\<close>

definition integrity :: "db \<Rightarrow> bool" where
  "integrity d \<longleftrightarrow> distinct (map u_id (t_users d)) \<and> distinct (map u_email (t_users d))
     \<and> distinct (map dp_id (t_departments d)) \<and> distinct (map dp_name (t_departments d))
     \<and> distinct (map co_id (t_collections d)) \<and> distinct (map p_id (t_permissions d)) \<and> distinct (map perm_key (t_permissions d))
     \<and> (\<forall>u \<in> set (t_users d). known_department (u_dept u) d) \<and> (\<forall>c \<in> set (t_collections d). known_department (co_dept c) d)"

definition fresh_id :: "uuid \<Rightarrow> db \<Rightarrow> bool" where
  "fresh_id i d \<longleftrightarrow> i \<notin> u_id ` set (t_users d) \<and> i \<notin> dp_id ` set (t_departments d) \<and> i \<notin> co_id ` set (t_collections d)
     \<and> i \<notin> p_id ` set (t_permissions d)"

lemma known_department_iff: "known_department dept d \<longleftrightarrow> (\<forall>i. dept = Some i \<longrightarrow> i \<in> dp_id ` set (t_departments d))"
  by (auto simp: known_department_def get_by_None split: option.splits)

lemma admin_audit_frame [simp]:
  "t_users (admin_audit a u rt ri de now d) = t_users d" "t_departments (admin_audit a u rt ri de now d) = t_departments d"
  "t_collections (admin_audit a u rt ri de now d) = t_collections d" "t_permissions (admin_audit a u rt ri de now d) = t_permissions d"
  by (simp_all add: admin_audit_def)

lemma apply_update_key [simp]: "u_id (apply_update b u) = u_id u" "u_email (apply_update b u) = u_email u" "u_hash (apply_update b u) = u_hash u"
  by (auto simp: apply_update_def Let_def split: option.splits)

lemma apply_update_dept: "u_dept (apply_update b u) = (case uu_dept b of None \<Rightarrow> u_dept u | Some i \<Rightarrow> Some i)"
  by (auto simp: apply_update_def Let_def split: option.splits)

lemma apply_update_active: "u_active (apply_update b u) = (case uu_active b of None \<Rightarrow> u_active u | Some a \<Rightarrow> a)"
  by (auto simp: apply_update_def Let_def split: option.splits)

lemma integrity_users:
  assumes "integrity d" and "map u_id us = map u_id (t_users d)" and "map u_email us = map u_email (t_users d)"
    and "\<forall>u \<in> set us. known_department (u_dept u) d"
  shows "integrity (d\<lparr>t_users := us\<rparr>)"
  using assms by (simp add: integrity_def known_department_iff)

lemma integrity_permissions:
  assumes "integrity d" and "distinct (map p_id ps)" and "distinct (map perm_key ps)"
  shows "integrity (d\<lparr>t_permissions := ps\<rparr>)"
  using assms by (simp add: integrity_def known_department_iff)

lemma integrity_audit [simp]: "integrity (admin_audit a u rt ri de now d) = integrity d"
  by (simp add: integrity_def known_department_iff)

lemma map_upd_same: "(\<And>r. g (f r) = g r) \<Longrightarrow> map g (upd_by key k f t) = map g t"
  by (induction t) (auto simp: upd_by_def)

lemma integrity_update:
  assumes "integrity d" and "known_department (uu_dept b) d"
  shows "integrity (d\<lparr>t_users := upd_by u_id i (apply_update b) (t_users d)\<rparr>)"
proof (rule integrity_users [OF assms(1)])
  show "\<forall>u \<in> set (upd_by u_id i (apply_update b) (t_users d)). known_department (u_dept u) d"
    using assms by (auto simp: set_upd_by apply_update_dept integrity_def split: option.splits)
qed (simp_all add: map_upd_same)

lemma integrity_creation:
  assumes "integrity d" and "fresh_id i d"
  shows "integrity (snd (create_department n i a now d))"
    and "integrity (snd (create_user hashpw ub i a now d))"
    and "integrity (snd (create_collection cb i a now d))"
    and "integrity (snd (grant_permission pb i a now d))"
  using assms
  by (auto simp: creation_defs integrity_def fresh_id_def known_department_iff add_row_def Let_def image_iff
      split: if_splits option.splits)

lemma integrity_lifecycle:
  assumes "integrity (aw_db w)"
  shows "integrity (aw_db (snd (update_user uid b a now w)))"
    and "integrity (aw_db (snd (revoke_sessions uid a now w)))"
    and "integrity (aw_db (snd (reset_credential hashpw temp uid a now w)))"
    and "integrity (aw_db (snd (edit_permission pid l a now w)))"
    and "integrity (aw_db (snd (revoke_permission pid a now w)))"
proof -
  show "integrity (aw_db (snd (update_user uid b a now w)))"
    using assms by (auto simp: update_user_def Let_def integrity_update split: option.splits sum.splits if_splits)
  show "integrity (aw_db (snd (revoke_sessions uid a now w)))"
    using assms by (auto simp: revoke_sessions_def split: option.splits sum.splits)
  have "integrity ((aw_db w)\<lparr>t_users := upd_by u_id uid (u_hash_update (\<lambda>_. h)) (t_users (aw_db w))\<rparr>)" for h
    by (rule integrity_users [OF assms]) (use assms in \<open>auto simp: map_upd_same set_upd_by integrity_def\<close>)
  then show "integrity (aw_db (snd (reset_credential hashpw temp uid a now w)))"
    using assms by (auto simp: reset_credential_def split: option.splits sum.splits)
  have "integrity ((aw_db w)\<lparr>t_permissions := upd_by p_id pid (p_level_update (\<lambda>_. l)) (t_permissions (aw_db w))\<rparr>)"
    by (rule integrity_permissions [OF assms]) (use assms in \<open>simp_all add: map_upd_same perm_key_def integrity_def\<close>)
  then show "integrity (aw_db (snd (edit_permission pid l a now w)))"
    using assms by (auto simp: edit_permission_def split: option.splits)
  have del: "integrity (d\<lparr>t_permissions := del_by p_id pid (t_permissions d0)\<rparr>)" if "integrity d" "t_permissions d0 = t_permissions d" for d d0
    using that by (intro integrity_permissions) (auto simp: integrity_def intro: distinct_del_by)
  show "integrity (aw_db (snd (revoke_permission pid a now w)))"
    using assms by (auto simp: revoke_permission_def Let_def intro!: del split: option.splits)
qed

text \<open>
  C29. Every admin call keeps the tables sound: ids, e-mail addresses, department names and grants stay
  unique, and every department a user or collection names exists, given that the ids the server
  draws are fresh.
\<close>

theorem admin_keeps_integrity:
  assumes "integrity (aw_db w)" and "fresh_id i (aw_db w)" and "admin_api dec hashpw i temp now creds call w = (res, w')"
  shows "integrity (aw_db w')"
proof -
  have "integrity (aw_db (snd (run_admin hashpw i temp now a call w)))" for a
    by (cases call) (simp_all add: on_db_def integrity_creation [OF assms(1,2)] integrity_lifecycle [OF assms(1)] assms(1))
  then have "integrity (aw_db w')" if "run_admin hashpw i temp now a call w = (res, w')" for a
    using that by (metis snd_conv)
  with assms(1,3) show ?thesis by (auto simp: admin_api_def split: sum.splits)
qed

definition admin_user :: user_row where
  "admin_user = demo_user\<lparr>u_role := ADMIN\<rparr>"

definition admin_demo :: admin_world where
  "admin_demo = \<lparr>aw_db = demo_db\<lparr>t_users := [admin_user]\<rparr>, aw_redis = empty_redis, aw_cache = demo_cache\<rparr>"

lemma admin_demo_user: "get_current_user num_dec 150 (aw_db admin_demo) (aw_redis admin_demo) (Some (num_enc (demo_payload ACCESS 1))) = Inr admin_user"
proof -
  have "get_by u_id 7 (t_users (aw_db admin_demo)) = Some admin_user"
    by (simp add: admin_demo_def get_by_def admin_user_def demo_user_def)
  moreover have "num_enc (demo_payload ACCESS 1) \<noteq> []"
    by (rule jose_nonempty [OF num_jose])
  ultimately show ?thesis
    unfolding get_current_user_Inr
    by (intro token_validI [where p = "demo_payload ACCESS 1" and jti = "[1]" and uid = 7])
      (simp_all add: num_dec_demo admin_demo_def admin_user_def iat_of_def is_revoked_def session_epoch_def)
qed

lemma admin_keeps_integrity_witness:
  "\<exists>r w'. admin_api num_dec unary_hash 1 [] 150 (Some (num_enc (demo_payload ACCESS 1))) (CreateDepartment (lit ''IT'')) admin_demo = (Inr r, w')
     \<and> integrity (aw_db w') \<and> map dp_name (t_departments (aw_db w')) = [lit ''IT'']"
proof -
  obtain d1 where "create_department (lit ''IT'') 1 admin_user 150 (aw_db admin_demo) = (Inr \<lparr>dp_id = 1, dp_name = lit ''IT''\<rparr>, d1)"
    "map dp_name (t_departments d1) = [lit ''IT'']"
    by (simp add: create_department_def admin_demo_def demo_db_def empty_db_def add_row_def Let_def)
  moreover have "require_admin admin_user = Inr admin_user" by (simp add: require_admin_def admin_user_def)
  ultimately obtain w' where r: "admin_api num_dec unary_hash 1 [] 150 (Some (num_enc (demo_payload ACCESS 1))) (CreateDepartment (lit ''IT'')) admin_demo
      = (Inr (RDepartment \<lparr>dp_id = 1, dp_name = lit ''IT''\<rparr>), w')" "map dp_name (t_departments (aw_db w')) = [lit ''IT'']"
    using admin_demo_user by (simp add: admin_api_def on_db_def)
  have "integrity (aw_db admin_demo)" "fresh_id 1 (aw_db admin_demo)"
    by (simp_all add: integrity_def fresh_id_def admin_demo_def admin_user_def demo_user_def demo_db_def empty_db_def known_department_iff)
  from admin_keeps_integrity [OF this r(1)] r show ?thesis by (intro exI conjI)
qed

subsection \<open>Revocation\<close>


definition grant_demo :: perm_row where
  "grant_demo = \<lparr>p_id = 9, p_ptype = P_USER, p_pid = 7, p_rtype = R_COLLECTION, p_rid = 3, p_level = AL_READ\<rparr>"


text \<open>
  Suspending a user locks the account at once: from then on no access token and no refresh token
  naming the user is accepted, whatever its age, and the role and other users are as they were.
\<close>

theorem suspension_locks_out:
  assumes "integrity (aw_db w)" and "update_user uid body admin now w = (Inr u', w')" and "uu_active body = Some False"
    and "dec t tok = Some pl" and "pl_sub pl = Some (str_uuid uid)"
  shows "(\<exists>er. access_gate dec t (aw_db w') (aw_redis w') tok = Inl er \<and> http_status er = 401)
     \<and> (\<exists>er. refresh_gate dec t (aw_db w') (aw_redis w') tok = Inl er \<and> http_status er = 401)
     \<and> (\<forall>v. v \<noteq> uid \<longrightarrow> get_by u_id v (t_users (aw_db w')) = get_by u_id v (t_users (aw_db w)))"
proof -
  obtain u where u: "get_by u_id uid (t_users (aw_db w)) = Some u"
    using assms(2) by (auto simp: update_user_def split: option.splits)
  have users: "t_users (aw_db w') = upd_by u_id uid (apply_update body) (t_users (aw_db w))"
    using assms(2) u by (auto simp: update_user_def Let_def split: sum.splits if_splits)
  have got: "get_by u_id v (t_users (aw_db w')) = (if v = uid then Some (apply_update body u) else get_by u_id v (t_users (aw_db w)))" for v
    unfolding users using users.get_upd [of "apply_update body"] u by simp
  have off: "\<And>v. get_by u_id uid (t_users (aw_db w')) = Some v \<Longrightarrow> \<not> u_active v"
    using got [of uid] assms(3) by (auto simp: apply_update_active)
  have sub: "Option.bind (pl_sub pl) uuid_parse = Some uid" using assms(5) by simp
  have "\<exists>er. access_gate dec t (aw_db w') (aw_redis w') tok = Inl er \<and> http_status er = 401"
    by (rule acc.inactive_refused [where p = pl and uid = uid]) (use assms(4) sub off in auto)
  moreover have "\<exists>er. refresh_gate dec t (aw_db w') (aw_redis w') tok = Inl er \<and> http_status er = 401"
    by (rule ref.inactive_refused [where p = pl and uid = uid]) (use assms(4) sub off in auto)
  ultimately show ?thesis using got by simp
qed

lemma suspension_locks_out_witness:
  "\<exists>u' w'. update_user 7 \<lparr>uu_active = Some False, uu_role = None, uu_dept = None\<rparr> admin_user 150 demo_admin_world = (Inr u', w')
     \<and> (\<exists>er. access_gate num_dec 150 (aw_db w') (aw_redis w') (num_enc (demo_payload ACCESS 1)) = Inl er \<and> http_status er = 401)"
proof -
  let ?b = "\<lparr>uu_active = Some False, uu_role = None, uu_dept = None\<rparr>"
  have "\<exists>u' w'. update_user 7 ?b admin_user 150 demo_admin_world = (Inr u', w')"
    by (simp add: update_user_def demo_admin_world_def get_by_def demo_db_def demo_user_def known_department_def bump_session_epoch_def empty_redis_def Let_def)
  then obtain u' w' where r: "update_user 7 ?b admin_user 150 demo_admin_world = (Inr u', w')" by blast
  have "integrity (aw_db demo_admin_world)"
    by (simp add: integrity_def demo_admin_world_def demo_user_def demo_db_def empty_db_def known_department_iff)
  moreover have "num_dec 150 (num_enc (demo_payload ACCESS 1)) = Some (demo_payload ACCESS 1)" "pl_sub (demo_payload ACCESS 1) = Some (str_uuid 7)"
    by (simp_all add: num_dec_demo)
  ultimately show ?thesis
    using suspension_locks_out [OF _ r, of num_dec 150 "num_enc (demo_payload ACCESS 1)" "demo_payload ACCESS 1"] r by auto
qed

end
