(* ===== verification/System.thy ===== *)
theory System
  imports Documents Search Worker Chat Admin
begin

text \<open>
  The deployed system: the API processes and the worker over one database, one vector store, one queue and
  one cache, as a step relation whose steps are the modelled operations on their views of the shared state.
  Here are the properties that no component has alone: what the search shows lies in collections its reader
  may read now, a deleted document never comes back, an accepted upload is settled by the worker, and hidden
  collections have no influence on what a reader sees.
\<close>

subsection \<open>What a run of the indexer can add\<close>

definition doc_keys :: "db \<Rightarrow> (uuid \<times> uuid) list" where
  "doc_keys d = map (\<lambda>r. (d_id r, d_coll r)) (t_documents d)"

text \<open>The points stay within given sets, the documents keep their ids and collections, session and committed.\<close>

definition inside :: "(uuid \<times> chunk_point) set \<Rightarrow> (uuid \<times> page_point) set \<Rightarrow> (uuid \<times> uuid) list \<Rightarrow> istore \<Rightarrow> bool" where
  "inside C P K st \<longleftrightarrow> set (qc_points (ix_chunks st)) \<subseteq> C \<and> set (qc_points (ix_pages st)) \<subseteq> P
     \<and> doc_keys (ix_db st) = K \<and> doc_keys (ix_saved st) = K"

definition new_chunks :: "doc_row \<Rightarrow> (uuid \<times> chunk_point) set" where
  "new_chunks doc = {x. cy_document (cx_payload (snd x)) = Some (str_uuid (d_id doc)) \<and> cy_collection (cx_payload (snd x)) = Some (str_uuid (d_coll doc))}"

definition new_pages :: "doc_row \<Rightarrow> (uuid \<times> page_point) set" where
  "new_pages doc = {x. py_document (px_payload (snd x)) = Some (str_uuid (d_id doc)) \<and> py_collection (px_payload (snd x)) = Some (str_uuid (d_coll doc))}"

lemma doc_keys_upd [simp]:
  "(\<And>r. d_id (f r) = d_id r) \<Longrightarrow> (\<And>r. d_coll (f r) = d_coll r) \<Longrightarrow> doc_keys (upd_doc now i f d) = doc_keys d"
  by (simp add: doc_keys_def upd_doc_def upd_by_def)

lemma doc_keys_cong: "t_documents d' = t_documents d \<Longrightarrow> doc_keys d' = doc_keys d"
  by (simp add: doc_keys_def)

lemma doc_keys_jobs [simp]: "doc_keys (job_stage j q d) = doc_keys d" "doc_keys (job_finished j er rq now d) = doc_keys d"
  "doc_keys (d\<lparr>t_chunks := cs\<rparr>) = doc_keys d"
  by (auto simp: job_finished_def intro!: doc_keys_cong)

lemma inside_commit: "inside C P K st \<Longrightarrow> inside C P K (commit st)" "inside C P K st \<Longrightarrow> inside C P K (rollback st)"
  by (simp_all add: inside_def commit_def rollback_def)

lemma inside_db: "inside C P K st \<Longrightarrow> doc_keys (f (ix_db st)) = doc_keys (ix_db st) \<Longrightarrow> inside C P K (Indexer.on_db f st)"
  by (simp add: inside_def Indexer.on_db_def)

lemma inside_stage: "inside C P K st \<Longrightarrow> inside C P K (on_stage job q st)"
  by (auto simp: on_stage_def intro!: inside_commit inside_db split: option.splits)

lemma inside_objects [simp]: "inside C P K (st\<lparr>ix_objects := os\<rparr>) = inside C P K st"
  by (simp add: inside_def)

lemma inside_ensure: "inside C P K st \<Longrightarrow> inside C P K (st\<lparr>ix_chunks := qc_ensure (ix_chunks st)\<rparr>)"
  by (simp add: inside_def)

lemma inside_clear: "inside C P K st \<Longrightarrow> inside C P K (clear_existing i st)"
  by (auto simp: inside_def clear_existing_def)

lemma inside_prepared: "inside C P K st \<Longrightarrow> inside C P K (prepared e job doc st)"
  by (simp add: prepared_def Let_def inside_clear inside_ensure inside_stage)

lemma inside_sink: "inside C P K (fst s) \<Longrightarrow> inside C P K (fst (snd (figure_sink e job d el s)))"
  by (cases s) (auto simp: figure_sink_def Let_def inside_stage split: option.splits prod.splits)

lemma inside_pipeline:
  assumes "run_pipeline cfg lb (Some (figure_sink e job d)) data t (st, n) = Some (x, s')" and "inside C P K st"
  shows "inside C P K (fst s')"
  by (rule run_pipeline_inv [where P = "\<lambda>s. inside C P K (fst s)", OF _ _ assms(1)]) (simp_all add: inside_sink assms(2))

lemma inside_page_pass:
  assumes "inside C P K st" and "new_pages doc \<subseteq> P"
  shows "inside C P K (page_pass e doc data st)"
proof -
  have "x \<in> P" if "x \<in> set (qc_points (snd (snd (index_pages (ie_model e) (ie_render e) (ie_embed_page e) (d_id doc) (d_coll doc) data
      (d_filename doc) (d_type doc) (ie_page_ids e) (ix_objects st) (ix_pages st)))))" for x
    using that assms
    by (auto simp: index_pages_def set_qc_upsert pages_delete_by_document_def inside_def split: if_splits prod.splits)
      (metis (mono_tags, lifting) fst_conv mem_Collect_eq new_pages_def page_payload_of_def page_points_payload page_payload.select_convs(1,2) subsetD)
  then show ?thesis using assms(1) by (auto simp: page_pass_def inside_def split: prod.splits)
qed

lemma inside_upsert:
  assumes "inside C P K st" and "index_chunks e doc 0 cs = Inr xs" and "new_chunks doc \<subseteq> C"
  shows "inside C P K (st\<lparr>ix_db := (ix_db st)\<lparr>t_chunks := rows\<rparr>, ix_chunks := qc_upsert (map snd xs) (ix_chunks st)\<rparr>)"
proof -
  have "snd y \<in> new_chunks doc" if "y \<in> set xs" for y
    using index_chunks_props [OF assms(2)] that by (auto simp: new_chunks_def chunk_of_document_def)
  then show ?thesis using assms(1,3) by (auto simp: inside_def set_qc_upsert)
qed

lemma inside_store:
  assumes "inside C P K st" and "new_chunks doc \<subseteq> C" and "new_pages doc \<subseteq> P"
  shows "inside C P K (snd (store_chunks e doc data cs pages st))"
proof (cases "index_chunks e doc 0 cs")
  case (Inr xs)
  note inside_page_pass [OF inside_upsert [OF assms(1) Inr assms(2)] assms(3)]
  then show ?thesis using assms(1) Inr
    by (auto simp: store_chunks_def Let_def intro!: inside_commit inside_db split: option.splits)
qed (use assms(1) in \<open>simp add: store_chunks_def\<close>)

lemma inside_index:
  assumes "index_document e job i st = Some (res, st')" and "inside C P K st"
    and "\<And>doc. get_by d_id i (t_documents (ix_db st)) = Some doc \<Longrightarrow> new_chunks doc \<subseteq> C \<and> new_pages doc \<subseteq> P"
  shows "inside C P K st'"
proof (cases "get_by d_id i (t_documents (ix_db st))")
  case None
  then show ?thesis using assms(1,2) by (simp add: index_document_def)
next
  case (Some doc)
  have s0: "inside C P K (start_index (ie_now e) i st)"
    unfolding start_index_def by (intro inside_commit inside_db assms(2)) simp
  obtain r1 st1 where b: "index_body e job doc (start_index (ie_now e) i st) = Some (r1, st1)"
      and st': "st' = st1 \<or> (\<exists>er. st' = index_failed (ie_now e) i er st1)"
    using assms(1) unfolding index_document_body [OF Some] by (auto split: option.splits sum.splits prod.splits)
  from b have "inside C P K st1"
  proof (cases rule: index_body_cases)
    case (early er)
    then show ?thesis using s0 by (auto intro: inside_stage inside_ensure)
  next
    case (pipe er data n)
    then show ?thesis using inside_pipeline [OF pipe(2) inside_prepared [OF s0]] by simp
  next
    case (stored data cs pages st5 n)
    have "inside C P K (on_stage job Q_INDEXING st5)"
      using inside_stage [OF inside_pipeline [OF stored(1) inside_prepared [OF s0]]] by simp
    from inside_store [OF this] assms(3) [OF Some] stored(2) show ?thesis by (metis snd_conv)
  qed
  with st' show ?thesis by (auto simp: index_failed_def Let_def intro!: inside_commit inside_db)
qed


subsection \<open>The worker over the index\<close>

lemma inside_close: "inside C P K st \<Longrightarrow> inside C P K (close_job job er rq now st)"
  by (auto simp: close_job_def intro!: inside_commit inside_db split: option.splits)

lemma inside_tracking: "start_tracking e n p st = Some (job, st1) \<Longrightarrow> inside C P K st \<Longrightarrow> inside C P K st1"
  by (auto simp: start_tracking_def inside_def rollback_def commit_def split: sum.splits track_error.splits
      dest!: job_started_frame doc_keys_cong [OF conjunct1])

text \<open>Whatever document a payload names, its row bounds what the run may add.\<close>

definition tolerates :: "(uuid \<times> chunk_point) set \<Rightarrow> (uuid \<times> page_point) set \<Rightarrow> (uuid \<times> uuid) list \<Rightarrow> bool" where
  "tolerates C P K \<longleftrightarrow> (\<forall>doc. map_of K (d_id doc) = Some (d_coll doc) \<longrightarrow> new_chunks doc \<subseteq> C \<and> new_pages doc \<subseteq> P)"

lemma map_of_doc_keys: "map_of (doc_keys d) i = map_option d_coll (get_by d_id i (t_documents d))"
proof -
  have "map_of (map (\<lambda>r. (d_id r, d_coll r)) rs) i = map_option d_coll (get_by d_id i rs)" for rs
    by (induction rs) (auto simp: get_by_def)
  then show ?thesis by (simp add: doc_keys_def)
qed

lemma dom_doc_keys: "dom (map_of (doc_keys d)) = d_id ` set (t_documents d)"
  by (simp add: doc_keys_def dom_map_of_conv_image_fst image_image)

lemma dom_map_of_snoc: "dom (map_of (K @ [(i, c)])) = insert i (dom (map_of K))"
  by (auto simp: dom_map_of_conv_image_fst)

lemma inside_tolerates:
  assumes "index_document e job i st = Some (res, st')" and "inside C P K st" and "tolerates C P K"
  shows "inside C P K st'"
proof (rule inside_index [OF assms(1,2)])
  fix doc assume "get_by d_id i (t_documents (ix_db st)) = Some doc"
  then have "map_of K (d_id doc) = Some (d_coll doc)"
    using assms(2) map_of_doc_keys [of "ix_db st" i] by (auto simp: inside_def dest: get_by_SomeD)
  then show "new_chunks doc \<subseteq> C \<and> new_pages doc \<subseteq> P" using assms(3) by (simp add: tolerates_def)
qed

lemma inside_handle:
  assumes "handle_job e n p w = Some w'" and "inside C P K (ww_store w)" and "tolerates C P K"
  shows "inside C P K (ww_store w')"
  using assms(1)
proof (cases rule: handle_job_cases)
  case gone
  then show ?thesis using assms(2) by (simp add: inside_commit)
next
  case (indexed job st1 i k st2)
  then show ?thesis using inside_tolerates [OF indexed(3) inside_tracking [OF indexed(1) assms(2)] assms(3)] by (simp add: inside_close)
next
  case (failed job st1 er st2)
  from failed(2) have "st2 = st1 \<or> (\<exists>i. index_document (wk_index e n) job i st1 = Some (Inl er, st2))"
    by (auto simp: run_index_def split: option.splits)
  then have "inside C P K st2" using inside_tracking [OF failed(1) assms(2)] inside_tolerates [OF _ _ assms(3)] by blast
  then show ?thesis using failed(3) by (simp add: inside_close)
qed

lemma inside_tick:
  assumes "tick e popped w = Some w'" and "inside C P K (ww_store w)" and "tolerates C P K"
  shows "inside C P K (ww_store w')"
proof (cases "popped \<and> bk_queue (ww_broker w) \<noteq> []")
  case True
  then obtain p ps where "bk_queue (ww_broker w) = p # ps" by (cases "bk_queue (ww_broker w)") auto
  with True assms(1) have "handle_job e (ww_tick w) p ((sweep e w)\<lparr>ww_tick := Suc (ww_tick w), ww_broker := (ww_broker w)\<lparr>bk_queue := ps\<rparr>\<rparr>) = Some w'"
    by (simp add: tick_def Let_def)
  from inside_handle [OF this] assms(2,3) show ?thesis by simp
next
  case False
  then show ?thesis using assms(1,2) by (auto simp: tick_def Let_def split: list.splits if_splits)
qed

subsection \<open>The system\<close>

text \<open>\<open>sy_used\<close> are the document ids drawn so far: \<open>uuid4\<close> never repeats one.\<close>

record system =
  sy_docs :: doc_world
  sy_redis :: redis
  sy_evals :: "eval_item list"
  sy_results :: "eval_row list"
  sy_purged :: time
  sy_ticks :: nat
  sy_threads :: "uuid \<Rightarrow> gstate"
  sy_streamed :: "pystr list"
  sy_used :: "uuid set"

abbreviation sys_db :: "system \<Rightarrow> db" where
  "sys_db s \<equiv> dw_db (sy_docs s)"

definition put_db :: "db \<Rightarrow> system \<Rightarrow> system" where
  "put_db d s = s\<lparr>sy_docs := (sy_docs s)\<lparr>dw_db := d\<rparr>\<rparr>"

text \<open>The worker opens a session on the committed tables and closes it after a payload.\<close>

definition worker_view :: "system \<Rightarrow> worker_world" where
  "worker_view s = (let w = sy_docs s in
     \<lparr>ww_store = \<lparr>ix_db = dw_db w, ix_saved = dw_db w, ix_chunks = dw_chunks w, ix_pages = dw_pages w, ix_objects = dw_objects w,
        ix_volume = dw_volume w\<rparr>,
      ww_broker = dw_broker w, ww_evals = sy_evals s, ww_results = sy_results s, ww_cache = dw_cache w,
      ww_last_purge = sy_purged s, ww_tick = sy_ticks s\<rparr>)"

definition after_worker :: "worker_world \<Rightarrow> system \<Rightarrow> system" where
  "after_worker w s = (let st = ww_store w in
     s\<lparr>sy_docs := \<lparr>dw_db = ix_saved st, dw_volume = ix_volume st, dw_chunks = ix_chunks st, dw_pages = ix_pages st,
         dw_objects = ix_objects st, dw_cache = ww_cache w, dw_broker = ww_broker w\<rparr>,
       sy_evals := ww_evals w, sy_results := ww_results w, sy_purged := ww_last_purge w, sy_ticks := ww_tick w\<rparr>)"

definition chat_view :: "system \<Rightarrow> chat_world" where
  "chat_view s = \<lparr>cw_db = sys_db s, cw_threads = sy_threads s,
     cw_graph = \<lparr>gw_cache = dw_cache (sy_docs s), gw_queue = sy_evals s, gw_streamed = sy_streamed s\<rparr>\<rparr>"

definition after_chat :: "chat_world \<Rightarrow> system \<Rightarrow> system" where
  "after_chat c s = s\<lparr>sy_docs := (sy_docs s)\<lparr>dw_db := cw_db c, dw_cache := gw_cache (cw_graph c)\<rparr>, sy_threads := cw_threads c,
     sy_evals := gw_queue (cw_graph c), sy_streamed := gw_streamed (cw_graph c)\<rparr>"

definition admin_view :: "system \<Rightarrow> admin_world" where
  "admin_view s = \<lparr>aw_db = sys_db s, aw_redis = sy_redis s, aw_cache = dw_cache (sy_docs s)\<rparr>"

definition after_admin :: "admin_world \<Rightarrow> system \<Rightarrow> system" where
  "after_admin a s = s\<lparr>sy_docs := (sy_docs s)\<lparr>dw_db := aw_db a, dw_cache := aw_cache a\<rparr>, sy_redis := aw_redis a\<rparr>"

text \<open>
  One step: a request handled by an API process or a tick of the worker. What the environment decides, the
  request, the clock, fresh ids, failures and the answers of the models, is free in every step.
\<close>

inductive sys_step :: "system \<Rightarrow> system \<Rightarrow> bool" where
  upload: "upload_document e coll f data i j now u (sy_docs s) = (r, w) \<Longrightarrow> i \<notin> sy_used s
     \<Longrightarrow> sys_step s (s\<lparr>sy_docs := w, sy_used := insert i (sy_used s)\<rparr>)"
| reindex: "reindex_document e j now u i (sy_docs s) = (r2, w) \<Longrightarrow> sys_step s (s\<lparr>sy_docs := w\<rparr>)"
| delete: "delete_document e now u i (sy_docs s) = (r3, w) \<Longrightarrow> sys_step s (s\<lparr>sy_docs := w\<rparr>)"
| work: "tick we popped (worker_view s) = Some ww \<Longrightarrow> sys_step s (after_worker ww s)"
| admin: "admin_api dec hashpw i temp now creds call (admin_view s) = (r4, a) \<Longrightarrow> sys_step s (after_admin a s)"
| turn: "chat sha cfg ge up timed_out body u fr (chat_view s) = (r5, c) \<Longrightarrow> sys_step s (after_chat c s)"
| stream: "chat_stream sha cfg ge up body u fr (chat_view s) = (r6, c) \<Longrightarrow> sys_step s (after_chat c s)"
| forget: "delete_session sid u now (sys_db s) = (r7, d) \<Longrightarrow> sys_step s (put_db d s)"
| rate: "message_feedback mid rating reason fid u (sys_db s) = (r8, d) \<Longrightarrow> sys_step s (put_db d s)"
| sign_in: "login enc checkpw acfg email pw ip ja jr now (sys_db s) = (r9, d) \<Longrightarrow> sys_step s (put_db d s)"
| rotate: "refresh enc dec acfg tok cookie ip ja jr now (sys_db s) (sy_redis s) = (r10, d, rd) \<Longrightarrow> sys_step s (put_db d s\<lparr>sy_redis := rd\<rparr>)"
| sign_out: "logout dec creds cookie now (sys_db s) (sy_redis s) = (r11, d, rd) \<Longrightarrow> sys_step s (put_db d s\<lparr>sy_redis := rd\<rparr>)"

definition fresh_system :: "system \<Rightarrow> bool" where
  "fresh_system s \<longleftrightarrow> qc_points (dw_chunks (sy_docs s)) = [] \<and> qc_points (dw_pages (sy_docs s)) = []
     \<and> d_id ` set (t_documents (sys_db s)) \<subseteq> sy_used s"

inductive reachable :: "system \<Rightarrow> bool" where
  start: "fresh_system s \<Longrightarrow> reachable s"
| step: "reachable s \<Longrightarrow> sys_step s s' \<Longrightarrow> reachable s'"

text \<open>The quiet steps: they leave the documents, the points and the used ids alone.\<close>

lemma quiet_admin: "t_documents (aw_db (snd (run_admin hashpw i temp now a call w))) = t_documents (aw_db w)"
  by (cases call)
    (auto simp: Admin.on_db_def creation_defs lifecycle_defs admin_audit_def Let_def list_audit_logs_def split: option.splits sum.splits if_splits)

lemma quiet_admin_api: "admin_api dec hashpw i temp now creds call w = (r, a) \<Longrightarrow> t_documents (aw_db a) = t_documents (aw_db w)"
  using quiet_admin [of hashpw i temp now _ call w] by (auto simp: admin_api_def split: sum.splits) (metis snd_conv)+

lemma quiet_open: "open_session body u f d = Inr (s, d1) \<Longrightarrow> t_documents d1 = t_documents d"
  by (auto simp: open_session_def add_session_def Let_def split: option.splits sum.splits)

lemma quiet_begin: "begin_turn cfg up body u f d = Inr (s, al, d1) \<Longrightarrow> t_documents d1 = t_documents d"
  by (auto simp: begin_turn_def add_message_def split: sum.splits dest: quiet_open)

lemma quiet_persist [simp]: "t_documents (persist_answer sha u sid f s streamed d) = t_documents d"
  by (simp add: persist_answer_def add_message_def)

lemma quiet_chat: "chat sha cfg e up timed_out body u f cw = (r, c) \<Longrightarrow> t_documents (cw_db c) = t_documents (cw_db cw)"
  by (auto simp: chat_def Let_def split: sum.splits prod.splits option.splits turn.splits if_splits dest: quiet_begin)

lemma quiet_stream: "chat_stream sha cfg e up body u f cw = (r, c) \<Longrightarrow> t_documents (cw_db c) = t_documents (cw_db cw)"
  by (auto simp: chat_stream_def Let_def split: sum.splits prod.splits option.splits turn.splits if_splits dest: quiet_begin)

lemma quiet_forget: "delete_session sid u now d = (r, d') \<Longrightarrow> t_documents d' = t_documents d"
  by (auto simp: delete_session_def cascade_session_def Let_def split: sum.splits)

lemma quiet_rate: "message_feedback mid rating reason fid u d = (r, d') \<Longrightarrow> t_documents d' = t_documents d"
  by (auto simp: message_feedback_def split: sum.splits option.splits if_splits)

lemma quiet_login: "login enc checkpw cfg email pw ip ja jr now d = (r, d') \<Longrightarrow> t_documents d' = t_documents d"
  by (auto simp: login_def Let_def split: sum.splits option.splits if_splits)

lemma quiet_refresh: "refresh enc dec cfg tok cookie ip ja jr now d rd = (r, d', rd') \<Longrightarrow> t_documents d' = t_documents d"
  by (auto simp: refresh_def Let_def split: sum.splits option.splits if_splits)

lemma quiet_logout: "logout dec creds cookie now d rd = (r, d', rd') \<Longrightarrow> t_documents d' = t_documents d"
  by (auto simp: logout_def Let_def split: sum.splits option.splits if_splits)


subsection \<open>Labels\<close>

text \<open>Every point names a document that was uploaded once, and the collection of that document while it exists.\<close>

definition chunk_labelled :: "(uuid \<times> uuid) list \<Rightarrow> uuid set \<Rightarrow> uuid \<times> chunk_point \<Rightarrow> bool" where
  "chunk_labelled K U x \<longleftrightarrow> (\<exists>i \<in> U. cy_document (cx_payload (snd x)) = Some (str_uuid i)
     \<and> (\<forall>c. map_of K i = Some c \<longrightarrow> cy_collection (cx_payload (snd x)) = Some (str_uuid c)))"

definition page_labelled :: "(uuid \<times> uuid) list \<Rightarrow> uuid set \<Rightarrow> uuid \<times> page_point \<Rightarrow> bool" where
  "page_labelled K U x \<longleftrightarrow> (\<exists>i \<in> U. py_document (px_payload (snd x)) = Some (str_uuid i)
     \<and> (\<forall>c. map_of K i = Some c \<longrightarrow> py_collection (px_payload (snd x)) = Some (str_uuid c)))"

definition labelled :: "system \<Rightarrow> bool" where
  "labelled s \<longleftrightarrow> dom (map_of (doc_keys (sys_db s))) \<subseteq> sy_used s
     \<and> (\<forall>x \<in> set (qc_points (dw_chunks (sy_docs s))). chunk_labelled (doc_keys (sys_db s)) (sy_used s) x)
     \<and> (\<forall>x \<in> set (qc_points (dw_pages (sy_docs s))). page_labelled (doc_keys (sys_db s)) (sy_used s) x)"

text \<open>Dropping points and documents, and adding documents under new ids, keeps the labels.\<close>

lemma labelled_shrink:
  assumes "labelled s" and "sy_used s \<subseteq> sy_used s'" and "dom (map_of (doc_keys (sys_db s'))) \<subseteq> sy_used s'"
    and "\<And>i c. i \<in> sy_used s \<Longrightarrow> map_of (doc_keys (sys_db s')) i = Some c \<Longrightarrow> map_of (doc_keys (sys_db s)) i = Some c"
    and "set (qc_points (dw_chunks (sy_docs s'))) \<subseteq> set (qc_points (dw_chunks (sy_docs s)))"
    and "set (qc_points (dw_pages (sy_docs s'))) \<subseteq> set (qc_points (dw_pages (sy_docs s)))"
  shows "labelled s'"
proof -
  have "chunk_labelled (doc_keys (sys_db s')) (sy_used s') x" if "chunk_labelled (doc_keys (sys_db s)) (sy_used s) x" for x
    using that assms(2,4) unfolding chunk_labelled_def by blast
  moreover have "page_labelled (doc_keys (sys_db s')) (sy_used s') x" if "page_labelled (doc_keys (sys_db s)) (sy_used s) x" for x
    using that assms(2,4) unfolding page_labelled_def by blast
  ultimately show ?thesis using assms(1,3,5,6) unfolding labelled_def by blast
qed

lemma labelled_quiet:
  assumes "labelled s" and "t_documents (sys_db s') = t_documents (sys_db s)" and "sy_used s' = sy_used s"
    and "dw_chunks (sy_docs s') = dw_chunks (sy_docs s)" and "dw_pages (sy_docs s') = dw_pages (sy_docs s)"
  shows "labelled s'"
  using assms doc_keys_cong [OF assms(2)] by (simp add: labelled_def)

lemma labelled_put:
  assumes "t_documents d = t_documents (sys_db s)" and "labelled s"
  shows "labelled (put_db d s)" and "labelled (put_db d s\<lparr>sy_redis := rd\<rparr>)"
  using assms by (auto simp: put_db_def intro: labelled_quiet)

lemma labelled_tolerates:
  assumes "dom (map_of K) \<subseteq> U"
  shows "tolerates {x. chunk_labelled K U x} {x. page_labelled K U x} K"
proof -
  have "i \<in> U" if "map_of K i = Some c" for i c using that assms by blast
  then show ?thesis
    by (fastforce simp: tolerates_def new_chunks_def new_pages_def chunk_labelled_def page_labelled_def)
qed

lemma labelled_work:
  assumes "labelled s" and "tick we popped (worker_view s) = Some w"
  shows "labelled (after_worker w s)"
proof -
  let ?K = "doc_keys (sys_db s)" and ?U = "sy_used s"
  have "inside {x. chunk_labelled ?K ?U x} {x. page_labelled ?K ?U x} ?K (ww_store (worker_view s))"
    using assms(1) by (auto simp: inside_def worker_view_def labelled_def Let_def)
  from inside_tick [OF assms(2) this labelled_tolerates] assms(1) show ?thesis
    by (auto simp: labelled_def after_worker_def inside_def Let_def)
qed

lemma doc_keys_insert [simp]: "doc_keys (insert_document row j u now d) = doc_keys d @ [(d_id row, d_coll row)]"
  by (simp add: doc_keys_def insert_document_def add_row_def create_job_def)

lemma upload_effect:
  assumes "upload_document e coll f data i j now u w = (r, w')"
  shows "dw_chunks w' = dw_chunks w \<and> dw_pages w' = dw_pages w
    \<and> (doc_keys (dw_db w') = doc_keys (dw_db w) \<or> doc_keys (dw_db w') = doc_keys (dw_db w) @ [(i, coll)])"
  using assms
  by (auto simp: upload_document_def create_document_def Let_def new_document_def split: if_splits sum.splits option.splits prod.splits)

lemma reindex_effect:
  assumes "reindex_document e j now u i w = (r, w')"
  shows "dw_chunks w' = dw_chunks w \<and> dw_pages w' = dw_pages w \<and> doc_keys (dw_db w') = doc_keys (dw_db w)"
  using assms
  by (auto simp: reindex_document_def requeue_rows_def create_job_def Let_def split: if_splits sum.splits)
    (auto simp: doc_keys_def upd_doc_def upd_by_def add_row_def)

lemma delete_effect:
  assumes "delete_document e now u i w = (r, w')"
  shows "set (qc_points (dw_chunks w')) \<subseteq> set (qc_points (dw_chunks w)) \<and> dw_pages w' = dw_pages w
    \<and> (doc_keys (dw_db w') = doc_keys (dw_db w) \<or> doc_keys (dw_db w') = filter (\<lambda>p. fst p \<noteq> i) (doc_keys (dw_db w)))"
  using assms
  by (auto simp: delete_document_def chunks_delete_by_document_def Let_def doc_keys_def del_by_def filter_map comp_def
      split: if_splits sum.splits option.splits)

lemma map_of_kept_keys: "map_of (filter (\<lambda>p. fst p \<noteq> i) K) k = (if k = i then None else map_of K k)"
  by (induction K) auto

lemma labelled_step:
  assumes "sys_step s s'" and "labelled s"
  shows "labelled s'"
  using assms
proof (induction rule: sys_step.induct)
  case (upload e coll f data i j now u s r w)
  have ids: "dom (map_of (doc_keys (sys_db s))) \<subseteq> sy_used s" using upload.prems by (simp add: labelled_def)
  have "map_of (doc_keys (dw_db w)) k = Some c \<Longrightarrow> map_of (doc_keys (sys_db s)) k = Some c" if "k \<in> sy_used s" for k c
    using upload_effect [OF upload.hyps(1)] upload.hyps(2) that by (auto simp: map_add_def split: option.splits if_splits)
  moreover have "dom (map_of (doc_keys (dw_db w))) \<subseteq> insert i (sy_used s)"
    using upload_effect [OF upload.hyps(1)] ids by (elim conjE disjE) (simp_all add: dom_map_of_snoc subset_insertI2 del: map_of_append)
  ultimately show ?case
    using upload_effect [OF upload.hyps(1)] by (intro labelled_shrink [OF upload.prems]) (simp_all add: subset_insertI)
next
  case (reindex e j now u i s r w)
  with reindex_effect [OF reindex.hyps] show ?case by (simp add: labelled_def)
next
  case (delete e now u i s r w)
  have ids: "dom (map_of (doc_keys (sys_db s))) \<subseteq> sy_used s" using delete.prems by (simp add: labelled_def)
  with delete_effect [OF delete.hyps] show ?case
    by (intro labelled_shrink [OF delete.prems]) (auto simp: map_of_kept_keys dom_def split: if_splits)
next
  case (work we popped s w)
  then show ?case by (intro labelled_work)
next
  case (admin dec hashpw i temp now creds call s r a)
  show ?case using quiet_admin_api [OF admin.hyps]
    by (intro labelled_quiet [OF admin.prems]) (simp_all add: after_admin_def admin_view_def)
next
  case (turn sha cfg ge up timed_out body u fr s r c)
  show ?case using quiet_chat [OF turn.hyps]
    by (intro labelled_quiet [OF turn.prems]) (simp_all add: after_chat_def chat_view_def)
next
  case (stream sha cfg ge up body u fr s r c)
  show ?case using quiet_stream [OF stream.hyps]
    by (intro labelled_quiet [OF stream.prems]) (simp_all add: after_chat_def chat_view_def)
qed (auto intro!: labelled_put dest: quiet_forget quiet_rate quiet_login quiet_refresh quiet_logout)

lemma reachable_labelled: "reachable s \<Longrightarrow> labelled s"
proof (induction rule: reachable.induct)
  case (start s)
  then show ?case by (simp add: fresh_system_def labelled_def dom_doc_keys)
next
  case (step s s')
  show ?case by (rule labelled_step [OF step.hyps(2) step.IH])
qed


subsection \<open>What the search shows\<close>

lemma retrieved_names:
  assumes "retrieved_of sc x = Some r" and "chunk_labelled K U x"
  shows "cy_document (cx_payload (snd x)) = Some (str_uuid (rc_document r)) \<and> rc_document r \<in> U
    \<and> (\<forall>c. map_of K (rc_document r) = Some c \<longrightarrow> rc_collection r = c)"
  using assms by (auto simp: retrieved_of_def Let_def chunk_labelled_def split: option.splits)

lemma retrieved_page_names:
  assumes "retrieved_page_of sx = Some r" and "page_labelled K U (snd sx)"
  shows "\<forall>c. map_of K (rp_document r) = Some c \<longrightarrow> rp_collection r = c"
  using assms by (cases sx) (auto simp: retrieved_page_of_def Let_def page_labelled_def split: option.splits)

lemma visual_search_point:
  assumes "visual_lawful ve" and "r \<in> set (visual_search (ve_query ve) (ve_embed ve) (ve_model ve) (ve_cfg ve) (ve_index ve) allowed q k)"
  obtains sx where "snd sx \<in> set (qc_points (ve_index ve))" and "retrieved_page_of sx = Some r" and "rp_collection r \<in> allowed"
proof -
  from assms(2) obtain mv pts sx where
      pts: "Some pts = ve_query ve mv (\<lambda>p. acl_filter allowed (py_collection p)) (orelse k (visual_top_k_pages (ve_cfg ve))) (qc_points (ve_index ve))"
      and sx: "sx \<in> set pts" "retrieved_page_of sx = Some r"
    by (auto simp: visual_search_def map_filter_def split: if_splits option.split_asm)
  have "snd sx \<in> set (qc_points (ve_index ve)) \<and> acl_filter allowed (py_collection (px_payload (snd (snd sx))))"
    using assms(1) pts [symmetric] sx(1) unfolding visual_lawful_def by blast
  with sx(2) show ?thesis by (metis prod.collapse retrieved_page_coll that)
qed

lemma reachable_text_hit:
  assumes "reachable s" and "text_lawful te" and "te_index te = dw_chunks (sy_docs s)"
    and "search_endpoint te ve (sys_db s) u body = Inr r" and "h \<in> set (sr_results r)"
    and "get_by d_id (so_document h) (t_documents (sys_db s)) = Some row"
  shows "so_collection h = d_coll row \<and> may_read (sys_db s) u (d_coll row)"
proof -
  note lab = reachable_labelled [OF assms(1), unfolded labelled_def]
  from search_endpoint_hit [OF assms(2,4,5)] obtain x sc c where x: "x \<in> set (qc_points (dw_chunks (sy_docs s)))"
      "retrieved_of sc x = Some c" "h = chunk_out_of c" "rc_collection c \<in> accessible_collection_ids (sys_db s) u"
    unfolding assms(3) by metis
  have "rc_collection c = d_coll row"
    using retrieved_names [OF x(2), of "doc_keys (sys_db s)" "sy_used s"] lab x(1) assms(6)
    by (auto simp: x(3) chunk_out_of_def map_of_doc_keys)
  with x(4) show ?thesis by (auto simp: x(3) chunk_out_of_def intro: accessible_readable)
qed

lemma reachable_page_hit:
  assumes "reachable s" and "visual_lawful ve" and "ve_index ve = dw_pages (sy_docs s)"
    and "search_endpoint te ve (sys_db s) u body = Inr r" and "p \<in> set (sr_pages r)"
    and "get_by d_id (po_document p) (t_documents (sys_db s)) = Some row"
  shows "po_collection p = d_coll row \<and> may_read (sys_db s) u (d_coll row)"
proof -
  note lab = reachable_labelled [OF assms(1), unfolded labelled_def]
  from search_endpoint_page [OF assms(4,5)] obtain c where c: "p = page_out_of c"
      "c \<in> set (visual_search (ve_query ve) (ve_embed ve) (ve_model ve) (ve_cfg ve) (ve_index ve) (accessible_collection_ids (sys_db s) u) (sq_query body) None)"
    by metis
  from visual_search_point [OF assms(2) c(2)] obtain sx where sx: "snd sx \<in> set (qc_points (dw_pages (sy_docs s)))"
      "retrieved_page_of sx = Some c" "rp_collection c \<in> accessible_collection_ids (sys_db s) u"
    unfolding assms(3) by metis
  have "rp_collection c = d_coll row"
    using retrieved_page_names [OF sx(2), of "doc_keys (sys_db s)" "sy_used s"] lab sx(1) assms(6)
    by (auto simp: c(1) page_out_of_def map_of_doc_keys)
  with sx(3) show ?thesis by (auto simp: c(1) page_out_of_def intro: accessible_readable)
qed

text \<open>
  C1. What the search shows can be read: in every state the system reaches by any interleaving of uploads,
  re-indexings, deletions, worker runs with any failures, administration, chats and logins, each text hit
  and each page of a search answer belongs, if its document still exists, to that document's own
  collection, and the requester may read this collection at that moment.
\<close>

theorem search_shows_readable_documents:
  assumes "reachable s" and "text_lawful te" and "te_index te = dw_chunks (sy_docs s)"
    and "visual_lawful ve" and "ve_index ve = dw_pages (sy_docs s)"
    and "search_endpoint te ve (sys_db s) u body = Inr r"
  shows "(\<forall>h \<in> set (sr_results r). \<forall>row. get_by d_id (so_document h) (t_documents (sys_db s)) = Some row
           \<longrightarrow> so_collection h = d_coll row \<and> may_read (sys_db s) u (d_coll row))
    \<and> (\<forall>p \<in> set (sr_pages r). \<forall>row. get_by d_id (po_document p) (t_documents (sys_db s)) = Some row
           \<longrightarrow> po_collection p = d_coll row \<and> may_read (sys_db s) u (d_coll row))"
  using reachable_text_hit [OF assms(1-3,6)] reachable_page_hit [OF assms(1,4-6)] by blast

subsection \<open>Deletion is final\<close>

definition gone :: "uuid \<Rightarrow> system \<Rightarrow> bool" where
  "gone i s \<longleftrightarrow> i \<in> sy_used s \<and> map_of (doc_keys (sys_db s)) i = None
     \<and> (\<forall>x \<in> set (qc_points (dw_chunks (sy_docs s))). \<not> chunk_of_document i (snd x))"

lemma gone_tolerates: "map_of K i = None \<Longrightarrow> tolerates {x. \<not> chunk_of_document i (snd x)} UNIV K"
  by (auto simp: tolerates_def new_chunks_def chunk_of_document_def)

lemma gone_work:
  assumes "gone i s" and "tick we popped (worker_view s) = Some w"
  shows "gone i (after_worker w s)"
proof -
  have "inside {x. \<not> chunk_of_document i (snd x)} UNIV (doc_keys (sys_db s)) (ww_store (worker_view s))"
    using assms(1) by (auto simp: inside_def worker_view_def gone_def Let_def)
  from inside_tick [OF assms(2) this gone_tolerates] assms(1) show ?thesis
    by (auto simp: gone_def after_worker_def inside_def Let_def)
qed

lemma gone_quiet:
  assumes "gone i s" and "t_documents (sys_db s') = t_documents (sys_db s)" and "sy_used s' = sy_used s"
    and "dw_chunks (sy_docs s') = dw_chunks (sy_docs s)"
  shows "gone i s'"
  using assms doc_keys_cong [OF assms(2)] by (simp add: gone_def)

lemma gone_put:
  assumes "t_documents d = t_documents (sys_db s)" and "gone i s"
  shows "gone i (put_db d s)" and "gone i (put_db d s\<lparr>sy_redis := rd\<rparr>)"
  using assms by (auto simp: put_db_def intro: gone_quiet)

lemma gone_step:
  assumes "sys_step s s'" and "gone k s"
  shows "gone k s'"
  using assms
proof (induction rule: sys_step.induct)
  case (upload e coll f data i j now u s r w)
  then have "i \<noteq> k" by (auto simp: gone_def)
  then show ?case using upload_effect [OF upload.hyps(1)] upload.prems by (auto simp: gone_def map_add_def)
next
  case (reindex e j now u i s r w)
  with reindex_effect [OF reindex.hyps] show ?case by (simp add: gone_def)
next
  case (delete e now u i s r w)
  with delete_effect [OF delete.hyps] show ?case by (auto simp: gone_def map_of_kept_keys)
next
  case (work we popped s w)
  then show ?case by (intro gone_work)
next
  case (admin dec hashpw i temp now creds call s r a)
  show ?case using quiet_admin_api [OF admin.hyps]
    by (intro gone_quiet [OF admin.prems]) (simp_all add: after_admin_def admin_view_def)
next
  case (turn sha cfg ge up timed_out body u fr s r c)
  show ?case using quiet_chat [OF turn.hyps]
    by (intro gone_quiet [OF turn.prems]) (simp_all add: after_chat_def chat_view_def)
next
  case (stream sha cfg ge up body u fr s r c)
  show ?case using quiet_stream [OF stream.hyps]
    by (intro gone_quiet [OF stream.prems]) (simp_all add: after_chat_def chat_view_def)
qed (auto intro!: gone_put dest: quiet_forget quiet_rate quiet_login quiet_refresh quiet_logout)

lemma gone_later: "sys_step\<^sup>*\<^sup>* s s' \<Longrightarrow> gone i s \<Longrightarrow> gone i s'"
  by (induction rule: rtranclp_induct) (auto intro: gone_step)

lemma reachable_later: "sys_step\<^sup>*\<^sup>* s s' \<Longrightarrow> reachable s \<Longrightarrow> reachable s'"
  by (induction rule: rtranclp_induct) (auto intro: reachable.step)

lemma deletion_gone:
  assumes "labelled s" and "delete_document e now u i (sy_docs s) = (Inr (), w)"
  shows "gone i (s\<lparr>sy_docs := w\<rparr>)"
  using assms(2)
proof (cases rule: delete_document_success)
  case (1 doc d1)
  have "i \<in> dom (map_of (doc_keys (sys_db s)))" using 1(1) by (auto simp: map_of_doc_keys)
  then have "i \<in> sy_used s" using assms(1) by (auto simp: labelled_def)
  moreover have "get_by d_id i (del_by d_id i (t_documents d1)) = None" by (auto simp: get_by_None del_by_def)
  ultimately show ?thesis by (simp add: gone_def 1(6) map_of_doc_keys)
qed

lemma gone_unfound:
  assumes "gone i s" and "labelled s" and "x \<in> set (qc_points (dw_chunks (sy_docs s)))" and "retrieved_of sc x = Some c"
  shows "rc_document c \<noteq> i"
  using assms retrieved_names [OF assms(4), of "doc_keys (sys_db s)" "sy_used s"] by (auto simp: labelled_def gone_def chunk_of_document_def)


subsection \<open>From upload to index\<close>

text \<open>
  C4. An accepted upload is settled: from the state an upload leaves, with Redis reachable, the worker empties
  its queues within a fixed number of ticks, whatever fails in the runs, and then the new document is
  indexed or has an entry among the dead letters.
\<close>

theorem upload_settles:
  assumes "acceptable e coll filename data i u (sy_docs s) ft" and "de_redis e" and "get_by d_id i (t_documents (sys_db s)) = None"
    and "create_document e coll filename data i j now u (sy_docs s) = (r, w)"
    and "\<And>n. sane_chunking (ie_ingest (wk_index we n))" and "\<And>n. wk_push we n"
  defines "s1 \<equiv> s\<lparr>sy_docs := w\<rparr>"
  shows "\<exists>x. drive (drain_step we) (backlog we (worker_view s1)) (worker_view s1) = Some (Drained x)
    \<and> bk_queue (dw_broker (sy_docs (after_worker x s1))) = []
    \<and> (map_option d_status (get_by d_id i (t_documents (sys_db (after_worker x s1)))) = Some INDEXED
       \<or> (\<exists>l \<in> set (bk_dlq (dw_broker (sy_docs (after_worker x s1)))). uuid_parse (jp_doc l) = Some i))"
proof -
  let ?row = "uploaded e coll filename data i u now ft"
  have w: "w = (stored_upload e ?row data j u now (sy_docs s))\<lparr>dw_broker := enqueue_index i 0 (Some j) (dw_broker (sy_docs s))\<rparr>"
    using assms(2,4) create_new [OF assms(1), of j now] by (simp add: Let_def)
  have docs: "t_documents (dw_db w) = t_documents (sys_db s) @ [?row]" using stored_upload_effect(1) [OF assms(1)] by (simp add: w)
  have "get_by d_id i (t_documents (dw_db w)) = Some ?row"
    using assms(3) using docs.get_add [of i ?row "t_documents (sys_db s)"] assms(3) by (simp add: docs add_row_def)
  moreover have "owed i (bk_queue (dw_broker w))" by (simp add: w owed_def enqueue_index_def mk_payload_def)
  ultimately have "committed (worker_view s1) \<and> accounted i (worker_view s1)"
    by (simp add: committed_def accounted_def row_is_def worker_view_def s1_def Let_def)
  with drain_accounts [OF assms(5,6), of "worker_view s1" i] obtain x
    where x: "drive (drain_step we) (backlog we (worker_view s1)) (worker_view s1) = Some (Drained x)" "bk_queue (ww_broker x) = []"
      "committed x" "accounted i x" by blast
  from accounted_settled [OF x(4,2)] x(3) show ?thesis
    by (intro exI [of _ x]) (simp add: x(1,2) after_worker_def committed_def Let_def)
qed

subsection \<open>Hidden collections have no influence\<close>

text \<open>Two systems a user cannot tell apart: the same readable collections, and in them the same documents and points.\<close>

definition same_view :: "user_row \<Rightarrow> system \<Rightarrow> system \<Rightarrow> bool" where
  "same_view u s t \<longleftrightarrow> (let A = accessible_collection_ids (sys_db s) u; chunk_in = (\<lambda>x. acl_filter A (cy_collection (cx_payload (snd x))));
       page_in = (\<lambda>x. acl_filter A (py_collection (px_payload (snd x)))) in
     accessible_collection_ids (sys_db t) u = A
     \<and> filter (\<lambda>c. co_id c \<in> A) (t_collections (sys_db t)) = filter (\<lambda>c. co_id c \<in> A) (t_collections (sys_db s))
     \<and> filter (\<lambda>r. d_coll r \<in> A) (t_documents (sys_db t)) = filter (\<lambda>r. d_coll r \<in> A) (t_documents (sys_db s))
     \<and> qc_exists (dw_chunks (sy_docs t)) = qc_exists (dw_chunks (sy_docs s))
     \<and> filter chunk_in (qc_points (dw_chunks (sy_docs t))) = filter chunk_in (qc_points (dw_chunks (sy_docs s)))
     \<and> qc_exists (dw_pages (sy_docs t)) = qc_exists (dw_pages (sy_docs s))
     \<and> filter page_in (qc_points (dw_pages (sy_docs t))) = filter page_in (qc_points (dw_pages (sy_docs s))))"

text \<open>What is relied on of the vector store: a filtered query looks at admissible points only.\<close>

definition local_text :: "text_env \<Rightarrow> bool" where
  "local_text te \<longleftrightarrow> (\<forall>v sp adm n ps. te_query te v sp adm n ps = te_query te v sp adm n (filter (\<lambda>x. adm (cx_payload (snd x))) ps))"

definition local_visual :: "visual_env \<Rightarrow> bool" where
  "local_visual ve \<longleftrightarrow> (\<forall>v adm n ps. ve_query ve v adm n ps = ve_query ve v adm n (filter (\<lambda>x. adm (px_payload (snd x))) ps))"

lemma local_textD: "local_text te \<Longrightarrow> te_query te v sp adm n ps = te_query te v sp adm n (filter (\<lambda>x. adm (cx_payload (snd x))) ps)"
  unfolding local_text_def by blast

lemma local_visualD: "local_visual ve \<Longrightarrow> ve_query ve v adm n ps = ve_query ve v adm n (filter (\<lambda>x. adm (px_payload (snd x))) ps)"
  unfolding local_visual_def by blast

lemma text_search_local:
  assumes "local_text te" and "qc_exists q' = qc_exists q"
    and "filter (\<lambda>x. acl_filter A (cy_collection (cx_payload (snd x)))) (qc_points q') = filter (\<lambda>x. acl_filter A (cy_collection (cx_payload (snd x)))) (qc_points q)"
  shows "text_search (te_query te) dn sp rr cfg q' A query k n = text_search (te_query te) dn sp rr cfg q A query k n"
proof -
  have "te_query te v s (\<lambda>p. acl_filter A (cy_collection p)) m (qc_points q') = te_query te v s (\<lambda>p. acl_filter A (cy_collection p)) m (qc_points q)" for v s m
    using local_textD [OF assms(1), of v s "\<lambda>p. acl_filter A (cy_collection p)" m "qc_points q'"]
      local_textD [OF assms(1), of v s "\<lambda>p. acl_filter A (cy_collection p)" m "qc_points q"] assms(3) by simp
  then show ?thesis unfolding text_search_def assms(2) by simp
qed

lemma visual_search_local:
  assumes "local_visual ve" and "qc_exists q' = qc_exists q"
    and "filter (\<lambda>x. acl_filter A (py_collection (px_payload (snd x)))) (qc_points q') = filter (\<lambda>x. acl_filter A (py_collection (px_payload (snd x)))) (qc_points q)"
  shows "visual_search (ve_query ve) eq cm cfg q' A query k = visual_search (ve_query ve) eq cm cfg q A query k"
proof -
  have "ve_query ve v (\<lambda>p. acl_filter A (py_collection p)) m (qc_points q') = ve_query ve v (\<lambda>p. acl_filter A (py_collection p)) m (qc_points q)" for v m
    using local_visualD [OF assms(1), of v "\<lambda>p. acl_filter A (py_collection p)" m "qc_points q'"]
      local_visualD [OF assms(1), of v "\<lambda>p. acl_filter A (py_collection p)" m "qc_points q"] assms(3) by simp
  note same = this
  show ?thesis unfolding visual_search_def assms(2) same by (rule refl)
qed

text \<open>With unique ids, what a user gets of a table is decided by the rows the user may read.\<close>

lemma get_by_visible:
  "distinct (map key rows) \<Longrightarrow> get_by key k (filter V rows) = (case get_by key k rows of None \<Rightarrow> None | Some r \<Rightarrow> if V r then Some r else None)"
proof (induction rows)
  case (Cons a rows)
  show ?case
  proof (cases "key a = k")
    case True
    then have "k \<notin> key ` set rows" using Cons.prems by auto
    then have "get_by key k (filter V rows) = None" by (auto simp: get_by_None)
    then show ?thesis using True by (simp add: get_by_def)
  next
    case False
    then show ?thesis using Cons by (simp add: get_by_def)
  qed
qed (simp add: get_by_def)

lemma accessible_document_visible:
  assumes "u_role u \<noteq> ADMIN" and "distinct (map d_id (t_documents d))"
  shows "accessible_document msg d u i =
    (case get_by d_id i (filter (\<lambda>r. d_coll r \<in> accessible_collection_ids d u) (t_documents d)) of None \<Rightarrow> Inl (HTTPException 404 msg) | Some r \<Rightarrow> Inr r)"
  unfolding get_by_visible [OF assms(2)]
  by (simp add: accessible_document_def acl_simps accessible_user_iff [OF assms(1)] split: option.split)

lemma get_collection_visible:
  assumes "u_role u \<noteq> ADMIN"
  shows "get_collection d u c =
    (case get_by co_id c (filter (\<lambda>x. co_id x \<in> accessible_collection_ids d u) (t_collections d)) of
       None \<Rightarrow> Inl (HTTPException 404 (lit ''Collection not found'')) | Some x \<Rightarrow> Inr x)"
proof -
  have "get_by co_id c (filter (\<lambda>x. co_id x \<in> A) rows) = (if c \<in> A then get_by co_id c rows else None)" for A rows
    by (induction rows) (auto simp: get_by_def)
  note visible = this
  show ?thesis
    unfolding visible by (simp add: get_collection_def acl_simps accessible_user_iff [OF assms] split: option.split)
qed

lemma list_documents_visible:
  "list_documents d u c = (let A = accessible_collection_ids d u; V = filter (\<lambda>r. d_coll r \<in> A) (t_documents d);
      rows = (\<lambda>P. map document_out_of (sort_key (\<lambda>x. - d_created x) (filter (\<lambda>x. P (d_coll x)) V)))
    in if A = {} then Inr [] else (case c of None \<Rightarrow> Inr (rows (\<lambda>_. True))
         | Some k \<Rightarrow> if k \<in> A then Inr (rows (\<lambda>x. x = k)) else Inl (HTTPException 404 (lit ''Collection not found''))))"
proof -
  have "k \<in> A \<Longrightarrow> filter (\<lambda>x. d_coll x = k \<and> d_coll x \<in> A) rows = filter (\<lambda>x. d_coll x = k) rows" for k A and rows :: "doc_row list"
    by (rule filter_cong) auto
  then show ?thesis by (simp add: list_documents_def Let_def filter_filter conj_commute split: option.split)
qed


subsection \<open>Witnesses\<close>

text \<open>A system with one pending document, its bytes stored and its payload queued; nothing is indexed yet.\<close>

definition demo_system :: system where
  "demo_system = \<lparr>sy_docs = \<lparr>dw_db = empty_db\<lparr>t_collections := [\<lparr>co_id = 3, co_name = [], co_desc = None, co_dept = None\<rparr>],
       t_documents := [demo_doc], t_jobs := [new_job 9 7 0]\<rparr>,
     dw_volume = [(document_path (lit ''/data'') 7 (lit ''a.txt''), [97, 99, 98])], dw_chunks = qcoll0, dw_pages = qcoll0, dw_objects = [],
     dw_cache = empty_cache, dw_broker = \<lparr>bk_queue = [Worker.demo_payload], bk_dlq = []\<rparr>\<rparr>,
   sy_redis = empty_redis, sy_evals = [], sy_results = [], sy_purged = 0, sy_ticks = 0, sy_threads = (\<lambda>_. gstate0), sy_streamed = [], sy_used = {7}\<rparr>"

lemma lawful_index [simp]: "text_lawful (te\<lparr>te_index := ti\<rparr>) = text_lawful te" "visual_lawful (ve\<lparr>ve_index := vi\<rparr>) = visual_lawful ve"
  by (simp_all add: text_lawful_def visual_lawful_def)

lemma demo_system_fresh: "fresh_system demo_system"
  by (simp add: fresh_system_def demo_system_def qcoll0_def demo_doc_def)

lemma demo_system_indexed: "\<exists>w. tick (demo_worker_env True) True (worker_view demo_system) = Some w \<and> qc_points (ix_chunks (ww_store w)) \<noteq> []"
proof -
  let ?e = "demo_worker_env True" and ?w = "worker_view demo_system" and ?st = "ww_store (worker_view demo_system)"
  have "\<exists>st1. start_tracking ?e 0 Worker.demo_payload ?st = Some (Some 9, st1)
      \<and> get_by d_id 7 (t_documents (ix_db st1)) = Some demo_doc \<and> ix_volume st1 = ix_volume ?st"
    by (simp add: start_tracking_def job_started_def get_or_create_def Worker.demo_payload_def mk_payload_def demo_system_def worker_view_def
        demo_worker_env_def rollback_def commit_def upd_job_def upd_by_def get_by_def new_job_def demo_doc_def Let_def)
  then obtain st1 where st1: "start_tracking ?e 0 Worker.demo_payload ?st = Some (Some 9, st1)"
      "get_by d_id 7 (t_documents (ix_db st1)) = Some demo_doc" "ix_volume st1 = ix_volume ?st" by blast
  have "read_document (ie_dir demo_env_ix) 7 (d_filename demo_doc) (ix_volume st1) = Some [97, 99, 98]"
    by (simp add: st1(3) demo_system_def worker_view_def demo_env_ix_def demo_doc_def read_document_def Let_def)
  from demo_index [OF _ _ _ st1(2) this] obtain st2 where st2: "index_document demo_env_ix (Some 9) 7 st1 = Some (Inr 1, st2)"
    by (auto simp: is_space_def)
  from index_points_exist [OF st2] have pts: "qc_points (ix_chunks st2) \<noteq> []" by simp
  have up: "uuid_parse (jp_doc Worker.demo_payload) = Some 7" by (simp add: Worker.demo_payload_def mk_payload_def)
  have ix: "wk_index ?e n = demo_env_ix" for n by (simp add: demo_worker_env_def)
  have q: "bk_queue (ww_broker ?w) = [Worker.demo_payload]" "ww_tick ?w = 0" by (simp_all add: demo_system_def worker_view_def Let_def)
  have "\<exists>w. handle_job ?e 0 Worker.demo_payload v = Some w \<and> qc_points (ix_chunks (ww_store w)) \<noteq> []" if "ww_store v = ?st" for v
    using st1(1) up st2 pts by (simp add: handle_job_def that run_index_def ix)
  then show ?thesis by (simp add: tick_def Let_def q)
qed

lemma search_shows_readable_documents_witness:
  "\<exists>s. reachable s \<and> qc_points (dw_chunks (sy_docs s)) \<noteq> []
     \<and> (\<forall>r h row. search_endpoint (demo_text\<lparr>te_index := dw_chunks (sy_docs s)\<rparr>) (demo_visual\<lparr>ve_index := dw_pages (sy_docs s)\<rparr>) (sys_db s) demo_user_d
            \<lparr>sq_query = lit ''q'', sq_top_k = None, sq_top_n = None, sq_pages = True\<rparr> = Inr r
          \<longrightarrow> h \<in> set (sr_results r) \<longrightarrow> get_by d_id (so_document h) (t_documents (sys_db s)) = Some row \<longrightarrow> may_read (sys_db s) demo_user_d (d_coll row))"
proof -
  obtain w where w: "tick (demo_worker_env True) True (worker_view demo_system) = Some w" "qc_points (ix_chunks (ww_store w)) \<noteq> []"
    using demo_system_indexed by blast
  define s where "s = after_worker w demo_system"
  have r: "reachable s" unfolding s_def by (rule reachable.step [OF reachable.start [OF demo_system_fresh] sys_step.work [OF w(1)]])
  have "text_lawful (demo_text\<lparr>te_index := ti\<rparr>)" "visual_lawful (demo_visual\<lparr>ve_index := vi\<rparr>)" for ti vi
    by (simp_all add: demo_lawful)
  note shown = search_shows_readable_documents [OF r this(1) _ this(2)]
  have "qc_points (dw_chunks (sy_docs s)) \<noteq> []" using w(2) by (simp add: s_def after_worker_def Let_def)
  then show ?thesis using r shown by (intro exI [of _ s]) auto
qed


lemma upload_settles_witness:
  "\<exists>s1 x n. create_document demo_doc_env 3 (lit ''a.txt'') [97] 7 9 10 demo_admin_d demo_doc_world = (Inr (uploaded demo_doc_env 3 (lit ''a.txt'') [97] 7 demo_admin_d 10 (lit ''txt''), False), sy_docs s1)
     \<and> drive (drain_step (demo_worker_env True)) n (worker_view s1) = Some (Drained x) \<and> bk_queue (dw_broker (sy_docs (after_worker x s1))) = []"
proof -
  let ?s = "demo_system\<lparr>sy_docs := demo_doc_world\<rparr>"
  have r: "de_redis demo_doc_env" by (simp add: demo_doc_env_def)
  obtain w where w: "create_document demo_doc_env 3 (lit ''a.txt'') [97] 7 9 10 demo_admin_d demo_doc_world
      = (Inr (uploaded demo_doc_env 3 (lit ''a.txt'') [97] 7 demo_admin_d 10 (lit ''txt''), False), w)"
    using create_new [OF demo_acceptable, of 9 10] r by (simp add: Let_def)
  have "get_by d_id 7 (t_documents (sys_db ?s)) = None"
    by (simp add: demo_doc_world_def get_by_def demo_old_doc_def new_document_def)
  moreover have "sane_chunking (ie_ingest (wk_index (demo_worker_env True) n))" "wk_push (demo_worker_env True) n" for n
    by (simp_all add: demo_worker_env_def demo_env_ix_def sane_default)
  ultimately obtain x n where "drive (drain_step (demo_worker_env True)) n (worker_view (?s\<lparr>sy_docs := w\<rparr>)) = Some (Drained x)"
      "bk_queue (dw_broker (sy_docs (after_worker x (?s\<lparr>sy_docs := w\<rparr>)))) = []"
    using upload_settles [of demo_doc_env 3 "lit ''a.txt''" "[97]" 7 demo_admin_d ?s "lit ''txt''" 9 10 _ w "demo_worker_env True"] demo_acceptable r w
    by fastforce
  then show ?thesis using w by (intro exI [of _ "?s\<lparr>sy_docs := w\<rparr>"] exI [of _ x] exI [of _ n]) simp
qed


end
