(* ===== verification/Redteam.thy ===== *)
theory Redteam
  imports System
begin

text \<open>
  The access-control red team \<open>src/scripts/redteam_acl.py\<close> run against the modelled system: two tenants are
  provisioned through the administration endpoints, and one tries to reach the other's document on every path.
  Requests go to the model's own endpoints; a reply that is no JSON ends the script (\<open>None\<close>).
\<close>

subsection \<open>Provisioning\<close>

record tenant =
  tn_dept :: dept_row
  tn_coll :: coll_row
  tn_user :: user_row

text \<open>
  Department, collection, user and grant, each with a fresh id; the script reads \<open>id\<close> from the first three replies
  and raises when the grant is refused.
\<close>

definition provision ::
  "(nat list \<Rightarrow> pystr) \<Rightarrow> pystr \<Rightarrow> pystr \<Rightarrow> pystr \<Rightarrow> uuid \<Rightarrow> uuid \<Rightarrow> uuid \<Rightarrow> uuid \<Rightarrow> user_row \<Rightarrow> time \<Rightarrow> db \<Rightarrow> (tenant \<times> db) option" where
  "provision hashpw dept_name coll_name email di ci ui gi admin now d =
     (case create_department dept_name di admin now d of (Inl _, _) \<Rightarrow> None
      | (Inr dept, d1) \<Rightarrow>
        (case create_collection \<lparr>cc_name = coll_name, cc_desc = None, cc_dept = Some (dp_id dept)\<rparr> ci admin now d1 of (Inl _, _) \<Rightarrow> None
         | (Inr coll, d2) \<Rightarrow>
           (case create_user hashpw \<lparr>uc_email = email, uc_password = lit ''redteam-pass-123'', uc_role = USER, uc_dept = Some (dp_id dept)\<rparr> ui admin now d2 of
              (Inl _, _) \<Rightarrow> None
            | (Inr user, d3) \<Rightarrow>
              (case grant_permission \<lparr>pc_ptype = P_USER, pc_pid = u_id user, pc_rtype = R_COLLECTION, pc_rid = co_id coll, pc_level = AL_READ\<rparr>
                      gi admin now d3 of
                 (Inl _, _) \<Rightarrow> None
               | (Inr _, d4) \<Rightarrow> Some (\<lparr>tn_dept = dept, tn_coll = coll, tn_user = user\<rparr>, d4)))))"

subsection \<open>Probes\<close>

record probe =
  pb_path :: pystr
  pb_denied :: bool

definition is_404 :: "'a http \<Rightarrow> bool" where
  "is_404 r = (case r of Inl (HTTPException c _) \<Rightarrow> c = 404 | _ \<Rightarrow> False)"

definition search_probes :: "text_env \<Rightarrow> visual_env \<Rightarrow> db \<Rightarrow> user_row \<Rightarrow> uuid \<Rightarrow> probe list option" where
  "search_probes te ve d u b =
     (let probes = (\<lambda>texts pages. [\<lparr>pb_path = lit ''text_search'', pb_denied = (b \<notin> set texts)\<rparr>,
                                    \<lparr>pb_path = lit ''visual_pages'', pb_denied = (b \<notin> set pages)\<rparr>])
      in case search_endpoint te ve d u \<lparr>sq_query = lit ''Tabelle Werte Zeile Spalte'', sq_top_k = Some 10, sq_top_n = None, sq_pages = True\<rparr> of
           Inl Crash \<Rightarrow> None
         | Inl (HTTPException _ _) \<Rightarrow> Some (probes [] [])
         | Inr r \<Rightarrow> Some (probes (map so_document (sr_results r)) (map po_document (sr_pages r))))"

definition object_probes :: "cfg_model \<Rightarrow> objects \<Rightarrow> db \<Rightarrow> user_row \<Rightarrow> uuid \<Rightarrow> probe list" where
  "object_probes cfg os d u b =
     [\<lparr>pb_path = lit ''media_page'', pb_denied = is_404 (page_image cfg os 1 d u b)\<rparr>,
      \<lparr>pb_path = lit ''media_figure'', pb_denied = is_404 (figure_image cfg os (lit ''figure-0'') d u b)\<rparr>,
      \<lparr>pb_path = lit ''direct_document'', pb_denied = is_404 (get_document d u b)\<rparr>,
      \<lparr>pb_path = lit ''ingest_status'', pb_denied = is_404 (ingest_status d u b)\<rparr>]"

definition list_probe :: "db \<Rightarrow> user_row \<Rightarrow> uuid \<Rightarrow> probe option" where
  "list_probe d u b = (case list_documents d u None of Inl _ \<Rightarrow> None
     | Inr xs \<Rightarrow> Some \<lparr>pb_path = lit ''document_list'', pb_denied = (b \<notin> set (map do_id xs))\<rparr>)"

text \<open>The two chat probes look at the attacker's turns; the metadata answer must not name the sample file.\<close>

definition cache_probe :: "turn_response http \<Rightarrow> uuid \<Rightarrow> probe option" where
  "cache_probe r b = (case r of Inl Crash \<Rightarrow> None
     | Inl (HTTPException _ _) \<Rightarrow> Some \<lparr>pb_path = lit ''semantic_cache'', pb_denied = True\<rparr>
     | Inr t \<Rightarrow> Some \<lparr>pb_path = lit ''semantic_cache'', pb_denied = (\<not> tu_cache_hit t \<and> Some (str_uuid b) \<notin> set (map ci_document (tu_citations t)))\<rparr>)"

definition metadata_probe :: "turn_response http \<Rightarrow> probe option" where
  "metadata_probe r = (case r of Inl Crash \<Rightarrow> None
     | Inl (HTTPException _ _) \<Rightarrow> Some \<lparr>pb_path = lit ''metadata_lookup'', pb_denied = True\<rparr>
     | Inr t \<Rightarrow> Some \<lparr>pb_path = lit ''metadata_lookup'', pb_denied = (\<not> py_in (lit ''table.pdf'') (lower (tu_answer t)))\<rparr>)"

text \<open>The run: \<open>turns\<close> holds the attacker's two turns, \<open>None\<close> with \<open>--skip-chat\<close>.\<close>

definition red_team :: "text_env \<Rightarrow> visual_env \<Rightarrow> cfg_model \<Rightarrow> objects \<Rightarrow> db \<Rightarrow> user_row \<Rightarrow> uuid
    \<Rightarrow> (turn_response http \<times> turn_response http) option \<Rightarrow> probe list option" where
  "red_team te ve cfg os d u b turns =
     (case (search_probes te ve d u b, list_probe d u b) of
        (Some ps, Some l) \<Rightarrow>
          (let done_http = ps @ object_probes cfg os d u b @ [l] in
           case turns of None \<Rightarrow> Some done_http
           | Some (ra, rm) \<Rightarrow> (case (cache_probe ra b, metadata_probe rm) of
                (Some c, Some m) \<Rightarrow> Some (done_http @ [c, m]) | _ \<Rightarrow> None))
      | _ \<Rightarrow> None)"

definition leaks :: "probe list \<Rightarrow> probe list" where
  "leaks ps = filter (\<lambda>p. \<not> pb_denied p) ps"

definition exit_code :: "probe list \<Rightarrow> nat" where
  "exit_code ps = (if leaks ps \<noteq> [] then 1 else 0)"

subsection \<open>The tenants are isolated\<close>

lemma provision_effect:
  assumes "provision hashpw dn cn email di ci ui gi admin now d = Some (t, d')"
  shows "co_id (tn_coll t) = ci" and "u_id (tn_user t) = ui" and "u_role (tn_user t) = USER" and "u_dept (tn_user t) = Some di"
    and "t_collections d' = t_collections d @ [\<lparr>co_id = ci, co_name = cn, co_desc = None, co_dept = Some di\<rparr>]"
    and "t_permissions d' = t_permissions d @ [\<lparr>p_id = gi, p_ptype = P_USER, p_pid = ui, p_rtype = R_COLLECTION, p_rid = ci, p_level = AL_READ\<rparr>]"
proof -
  obtain dept d1 where 1: "create_department dn di admin now d = (Inr dept, d1)"
    using assms by (auto simp: provision_def split: prod.splits sum.splits)
  obtain coll d2 where 2: "create_collection \<lparr>cc_name = cn, cc_desc = None, cc_dept = Some (dp_id dept)\<rparr> ci admin now d1 = (Inr coll, d2)"
    using assms 1 by (auto simp: provision_def split: prod.splits sum.splits)
  obtain user d3 where 3: "create_user hashpw \<lparr>uc_email = email, uc_password = lit ''redteam-pass-123'', uc_role = USER, uc_dept = Some (dp_id dept)\<rparr> ui admin now d2 = (Inr user, d3)"
    using assms 1 2 by (auto simp: provision_def split: prod.splits sum.splits)
  obtain p d4 where 4: "grant_permission \<lparr>pc_ptype = P_USER, pc_pid = u_id user, pc_rtype = R_COLLECTION, pc_rid = co_id coll, pc_level = AL_READ\<rparr> gi admin now d3 = (Inr p, d4)"
    using assms 1 2 3 by (auto simp: provision_def split: prod.splits sum.splits)
  have t: "t = \<lparr>tn_dept = dept, tn_coll = coll, tn_user = user\<rparr>" "d' = d4" using assms 1 2 3 4 by (simp_all add: provision_def)
  have d1: "dp_id dept = di" "t_collections d1 = t_collections d" "t_permissions d1 = t_permissions d"
    using 1 by (auto simp: create_department_def Let_def split: if_splits)
  have d2: "coll = \<lparr>co_id = ci, co_name = cn, co_desc = None, co_dept = Some di\<rparr>" "t_collections d2 = t_collections d @ [coll]" "t_permissions d2 = t_permissions d"
    using 2 d1 by (auto simp: create_collection_def Let_def add_row_def split: if_splits)
  have d3: "u_id user = ui" "u_role user = USER" "u_dept user = Some di" "t_collections d3 = t_collections d2" "t_permissions d3 = t_permissions d"
    using 3 d1 d2 by (auto simp: create_user_def Let_def split: if_splits option.splits)
  have d4: "t_collections d4 = t_collections d3"
      "t_permissions d4 = t_permissions d3 @ [\<lparr>p_id = gi, p_ptype = P_USER, p_pid = u_id user, p_rtype = R_COLLECTION, p_rid = co_id coll, p_level = AL_READ\<rparr>]"
    using 4 by (auto simp: grant_permission_def Let_def add_row_def split: if_splits)
  show "co_id (tn_coll t) = ci" "u_id (tn_user t) = ui" "u_role (tn_user t) = USER" "u_dept (tn_user t) = Some di"
    "t_collections d' = t_collections d @ [\<lparr>co_id = ci, co_name = cn, co_desc = None, co_dept = Some di\<rparr>]"
    "t_permissions d' = t_permissions d @ [\<lparr>p_id = gi, p_ptype = P_USER, p_pid = ui, p_rtype = R_COLLECTION, p_rid = ci, p_level = AL_READ\<rparr>]"
    using d2 d3 d4 by (simp_all add: t)
qed

definition fresh_ids :: "uuid list \<Rightarrow> db \<Rightarrow> bool" where
  "fresh_ids is' d \<longleftrightarrow> distinct is' \<and> (\<forall>p \<in> set (t_permissions d). p_pid p \<notin> set is' \<and> p_rid p \<notin> set is')
     \<and> (\<forall>c \<in> set (t_collections d). co_id c \<notin> set is' \<and> (\<forall>k \<in> set is'. co_dept c \<noteq> Some k))"

text \<open>
  Provisioning isolates: after two tenants have been set up through the administration endpoints with ids never used
  before, each tenant's user may read exactly the tenant's own collection.
\<close>

theorem tenants_isolated:
  assumes "provision hashpw dna cna ema da ca ua ga admin now d = Some (a, d1)" and "provision hashpw dnb cnb emb db cb ub gb admin now d1 = Some (b, d2)"
    and "fresh_ids [da, ca, ua, db, cb, ub] d"
  shows "(may_read d2 (tn_user a) c \<longleftrightarrow> c = co_id (tn_coll a)) \<and> (may_read d2 (tn_user b) c \<longleftrightarrow> c = co_id (tn_coll b))
    \<and> co_id (tn_coll a) \<noteq> co_id (tn_coll b)"
proof -
  note a = provision_effect [OF assms(1)] and b = provision_effect [OF assms(2)]
  have ids: "distinct [da, ca, ua, db, cb, ub]" using assms(3) by (simp add: fresh_ids_def)
  have perms: "p_pid p \<notin> {da, ua, db, ub}" if "p \<in> set (t_permissions d)" for p using assms(3) that by (auto simp: fresh_ids_def)
  have colls: "co_dept x \<noteq> Some da \<and> co_dept x \<noteq> Some db" if "x \<in> set (t_collections d)" for x using assms(3) that by (auto simp: fresh_ids_def)
  define pa pb where "pa = \<lparr>p_id = ga, p_ptype = P_USER, p_pid = ua, p_rtype = R_COLLECTION, p_rid = ca, p_level = AL_READ\<rparr>"
    and "pb = \<lparr>p_id = gb, p_ptype = P_USER, p_pid = ub, p_rtype = R_COLLECTION, p_rid = cb, p_level = AL_READ\<rparr>"
  define ka kb where "ka = \<lparr>co_id = ca, co_name = cna, co_desc = None, co_dept = Some da\<rparr>"
    and "kb = \<lparr>co_id = cb, co_name = cnb, co_desc = None, co_dept = Some db\<rparr>"
  have set_perms: "set (t_permissions d2) = set (t_permissions d) \<union> {pa, pb}" and set_colls: "set (t_collections d2) = set (t_collections d) \<union> {ka, kb}"
    using a(5,6) b(5,6) by (auto simp: pa_def pb_def ka_def kb_def)
  have "c = c'" if "may_read d2 v c" "u_role v = USER" "(u_id v, u_dept v, c') \<in> {(ua, Some da, ca), (ub, Some db, cb)}" for v c'
    using that(1)
  proof cases
    case (department co dp)
    then show ?thesis using that(3) colls [of co] ids by (auto simp: set_colls ka_def kb_def)
  next
    case (user_grant p)
    then show ?thesis using that(3) perms [of p] ids by (auto simp: set_perms pa_def pb_def)
  next
    case (department_grant p)
    then show ?thesis using that(3) perms [of p] ids by (auto simp: set_perms pa_def pb_def)
  qed (simp add: that(2))
  from this [of "tn_user a" ca] this [of "tn_user b" cb] have only: "may_read d2 (tn_user a) c \<Longrightarrow> c = ca" "may_read d2 (tn_user b) c \<Longrightarrow> c = cb"
    by (simp_all add: a(2-4) b(2-4))
  have "may_read d2 (tn_user a) ca"
    by (rule may_read.user_grant [of pa]) (use a in \<open>simp_all add: set_perms pa_def\<close>)
  moreover have "may_read d2 (tn_user b) cb"
    by (rule may_read.user_grant [of pb]) (use b in \<open>simp_all add: set_perms pb_def\<close>)
  ultimately have "may_read d2 (tn_user a) c \<longleftrightarrow> c = ca" "may_read d2 (tn_user b) c \<longleftrightarrow> c = cb" using only by metis+
  then show ?thesis using ids by (simp add: a(1) b(1))
qed

subsection \<open>The search always answers\<close>

lemma those_Some: "\<forall>x \<in> set xs. x \<noteq> None \<Longrightarrow> those xs \<noteq> None"
  by (induction xs) auto

text \<open>On labelled points every hit the store returns can be read back, so a search with the default counts or more never raises.\<close>

lemma text_search_answers:
  assumes "text_lawful te" and "\<forall>x \<in> set (qc_points (te_index te)). chunk_labelled K U x" and "0 \<le> count_or k (retrieval_top_k (te_cfg te))"
  shows "text_search (te_query te) (te_dense te) (te_sparse te) (te_rerank te) (te_cfg te) (te_index te) allowed q k n \<noteq> None"
proof -
  let ?pts = "te_query te (te_dense te q) (te_sparse te q) (\<lambda>p. acl_filter allowed (cy_collection p)) (nat (count_or k (retrieval_top_k (te_cfg te)))) (qc_points (te_index te))"
  let ?sc = "te_rerank te q (map (\<lambda>x. cy_content (cx_payload (snd x))) ?pts)"
  have good: "retrieved_of sc x \<noteq> None" if "x \<in> set ?pts" for sc x
  proof -
    have x: "x \<in> set (qc_points (te_index te))" "acl_filter allowed (cy_collection (cx_payload (snd x)))"
      using assms(1) that hybrid_lawsD unfolding text_lawful_def by blast+
    obtain i where "cy_document (cx_payload (snd x)) = Some (str_uuid i)" using assms(2) x(1) unfolding chunk_labelled_def by blast
    moreover obtain c where "cy_collection (cx_payload (snd x)) = Some (str_uuid c)" using x(2) by (auto simp: acl_filter_def split: option.splits)
    ultimately show ?thesis by (simp add: retrieved_of_def Let_def)
  qed
  have "retrieved_of (?sc ! i) (?pts ! i) \<noteq> None" if "i \<in> set (py_take m (gate_order ?sc))" for i m
  proof -
    have "i < length ?sc" using in_set_py_take [OF that] set_gate_order [of ?sc] by auto
    moreover have "length ?sc = length ?pts" using assms(1) by (simp add: text_lawful_def)
    ultimately show ?thesis by (intro good) simp
  qed
  then have "those (map (\<lambda>i. retrieved_of (?sc ! i) (?pts ! i)) (py_take m (gate_order ?sc))) \<noteq> None" for m
    by (intro those_Some) auto
  then show ?thesis using assms(3) by (simp add: text_search_def Let_def)
qed

text \<open>
  C36. The red team finds nothing: in every reachable state of the system, a run by a user who may not read the collection of the
  attacked document goes through and exits with 0, each of its seven probes denied; the two chat probes
  are left out.
\<close>

theorem red_team_finds_nothing:
  assumes "reachable s" and "text_lawful te" and "te_index te = dw_chunks (sy_docs s)" and "visual_lawful ve" and "ve_index ve = dw_pages (sy_docs s)"
    and "get_by d_id b (t_documents (sys_db s)) = Some row" and "\<not> may_read (sys_db s) u (d_coll row)"
    and "distinct (map d_id (t_documents (sys_db s)))"
  shows "\<exists>ps. red_team te ve cfg (dw_objects (sy_docs s)) (sys_db s) u b None = Some ps \<and> length ps = 7 \<and> leaks ps = [] \<and> exit_code ps = 0"
proof -
  let ?d = "sys_db s" and ?body = "\<lparr>sq_query = lit ''Tabelle Werte Zeile Spalte'', sq_top_k = Some 10, sq_top_n = None, sq_pages = True\<rparr>"
  note lab = reachable_labelled [OF assms(1), unfolded labelled_def]
  have "text_search (te_query te) (te_dense te) (te_sparse te) (te_rerank te) (te_cfg te) (te_index te) (accessible_collection_ids ?d u) (sq_query ?body) (Some 10) None \<noteq> None"
    by (rule text_search_answers [OF assms(2)]) (use lab in \<open>auto simp: assms(3) count_or_def\<close>)
  then obtain r where r: "search_endpoint te ve ?d u ?body = Inr r"
    by (auto simp: search_endpoint_def Let_def lit_def)
  have no: "\<not> may_read ?d u (d_coll row)" by (rule assms(7))
  have "so_document h \<noteq> b" if "h \<in> set (sr_results r)" for h
    using reachable_text_hit [OF assms(1-3) r that] assms(6) no by blast
  moreover have "po_document p \<noteq> b" if "p \<in> set (sr_pages r)" for p
    using reachable_page_hit [OF assms(1,4,5) r that] assms(6) no by blast
  ultimately have sp: "\<exists>ps. search_probes te ve ?d u b = Some ps \<and> length ps = 2 \<and> leaks ps = []"
    using r by (auto simp: search_probes_def leaks_def)
  have gone: "accessible_document m ?d u b = Inl (HTTPException 404 m)" for m
    using assms(6) no by (simp add: accessible_document_def acl_simps)
  then have op: "leaks (object_probes cfg os ?d u b) = [] \<and> length (object_probes cfg os ?d u b) = 4" for os
    by (simp add: leaks_def object_probes_def is_404_def page_image_def figure_image_def get_document_def ingest_status_def)
  have "x = row" if "x \<in> set (t_documents ?d)" "d_id x = b" for x
    using distinct_get_by [OF assms(8) that(1)] that(2) assms(6) by simp
  moreover have "d_coll row \<notin> accessible_collection_ids ?d u" using no by (auto intro: accessible_readable)
  ultimately have "\<exists>l. list_probe ?d u b = Some l \<and> pb_denied l"
    by (auto simp: list_probe_def list_documents_def document_out_of_def Let_def)
  then obtain l where l: "list_probe ?d u b = Some l" "pb_denied l" by blast
  obtain ps where ps: "search_probes te ve ?d u b = Some ps" "length ps = 2" "leaks ps = []" using sp by blast
  let ?ps = "ps @ object_probes cfg (dw_objects (sy_docs s)) ?d u b @ [l]"
  have "red_team te ve cfg (dw_objects (sy_docs s)) ?d u b None = Some ?ps" by (simp add: red_team_def l ps)
  moreover have "length ?ps = 7" "leaks ?ps = []" using ps(2,3) l(2) op by (simp_all add: leaks_def)
  ultimately show ?thesis by (intro exI [of _ ?ps]) (simp add: exit_code_def)
qed

text \<open>
  The figure probe is empty, though: the pipeline names figures \<open>p<page>-<number>\<close>, so no write of it ever creates the
  \<open>figure-0\<close> the probe asks for, and the media endpoint answers 404 for it to everyone, whatever the access checks do.
\<close>

lemma figure_probe_never_stored:
  "map_of (snd (put_figure cfg d (figure_id page n) png os)) (minio_bucket_figures cfg, figure_key b (lit ''figure-0''))
     = map_of os (minio_bucket_figures cfg, figure_key b (lit ''figure-0''))"
proof -
  have "figure_key d (figure_id page n) \<noteq> figure_key b (lit ''figure-0'')"
    by (simp add: figure_key_def figure_id_def lit_Cons append_eq_append_conv)
  then show ?thesis by (simp add: put_figure_def map_of_put)
qed

lemma figure_probe_blind:
  assumes "minio_bucket_figures cfg \<noteq> []" and "47 \<notin> set (minio_bucket_figures cfg)"
    and "map_of os (minio_bucket_figures cfg, figure_key b (lit ''figure-0'')) = None"
  shows "is_404 (figure_image cfg os (lit ''figure-0'') d u b)"
proof -
  have "parse_uri (to_uri (minio_bucket_figures cfg) (figure_key b (lit ''figure-0''))) = Some (minio_bucket_figures cfg, figure_key b (lit ''figure-0''))"
    using parse_to_uri [OF assms(1,2)] by (simp add: figure_key_def)
  then show ?thesis
    by (cases rule: accessible_document_cases [of "lit ''Not found''" d u b])
      (simp_all add: is_404_def figure_image_def png_response_def get_object_def assms(3))
qed

subsection \<open>Witnesses\<close>

lemma provision_succeeds:
  assumes "dn \<notin> dp_name ` set (t_departments d)" and "email \<notin> u_email ` set (t_users d)" and "hash_password hashpw (lit ''redteam-pass-123'') = Some h"
    and "get_by dp_id di (t_departments d) = None" and "\<forall>p \<in> set (t_permissions d). p_pid p \<noteq> ui"
  shows "\<exists>t d'. provision hashpw dn cn email di ci ui gi admin now d = Some (t, d')
     \<and> t_departments d' = t_departments d @ [tn_dept t] \<and> dp_name (tn_dept t) = dn \<and> dp_id (tn_dept t) = di
     \<and> t_users d' = t_users d @ [tn_user t] \<and> u_email (tn_user t) = email"
proof -
  have find: "List.find (\<lambda>x. dp_id x = di) (t_departments d @ [\<lparr>dp_id = di, dp_name = dn\<rparr>]) = Some \<lparr>dp_id = di, dp_name = dn\<rparr>"
    using assms(4) by (simp add: get_by_def find_append)
  then show ?thesis using assms
    by (force simp: provision_def create_department_def create_collection_def create_user_def grant_permission_def known_department_def
        get_by_def add_row_def Let_def perm_key_def)
qed

lemma tenants_isolated_witness:
  "\<exists>a d1 b d2. provision unary_hash (lit ''A'') (lit ''a'') (lit ''a@x'') 1 2 3 4 demo_admin_d 0 empty_db = Some (a, d1)
     \<and> provision unary_hash (lit ''B'') (lit ''b'') (lit ''b@x'') 5 6 7 8 demo_admin_d 0 d1 = Some (b, d2)
     \<and> may_read d2 (tn_user a) 2 \<and> \<not> may_read d2 (tn_user a) 6"
proof -
  have h: "\<exists>h. hash_password unary_hash (lit ''redteam-pass-123'') = Some h"
    by (simp add: hash_password_def to_bcrypt_bytes_def lit_Cons utf8_cp_def)
  obtain a d1 where a: "provision unary_hash (lit ''A'') (lit ''a'') (lit ''a@x'') 1 2 3 4 demo_admin_d 0 empty_db = Some (a, d1)"
      and d1: "t_departments d1 = [tn_dept a]" "dp_name (tn_dept a) = lit ''A''" "dp_id (tn_dept a) = 1" "t_users d1 = [tn_user a]" "u_email (tn_user a) = lit ''a@x''"
    using h provision_succeeds [of "lit ''A''" empty_db "lit ''a@x''" unary_hash _ 1 3] by (fastforce simp: empty_db_def get_by_def)
  obtain b d2 where b: "provision unary_hash (lit ''B'') (lit ''b'') (lit ''b@x'') 5 6 7 8 demo_admin_d 0 d1 = Some (b, d2)"
    using h provision_succeeds [of "lit ''B''" d1 "lit ''b@x''" unary_hash _ 5 7] provision_effect(6) [OF a] d1
    by (fastforce simp: get_by_def lit_Cons empty_db_def)
  have "fresh_ids [1, 2, 3, 5, 6, 7] empty_db" by (simp add: fresh_ids_def empty_db_def)
  from tenants_isolated [OF a b this] provision_effect(1) [OF a] provision_effect(1) [OF b] a b show ?thesis by (metis)
qed

lemma red_team_finds_nothing_witness:
  "\<exists>ps. red_team (demo_text\<lparr>te_index := dw_chunks (sy_docs demo_system)\<rparr>) (demo_visual\<lparr>ve_index := dw_pages (sy_docs demo_system)\<rparr>) default_model
      (dw_objects (sy_docs demo_system)) (sys_db demo_system) demo_user_d 7 None = Some ps \<and> length ps = 7 \<and> exit_code ps = 0"
proof -
  have role: "u_role demo_user_d \<noteq> ADMIN" by (simp add: demo_user_d_def)
  have "\<not> may_read (sys_db demo_system) demo_user_d (d_coll demo_doc)"
    by (simp add: may_read_simps role) (auto simp: demo_system_def demo_user_d_def demo_admin_d_def empty_db_def)
  moreover have "get_by d_id 7 (t_documents (sys_db demo_system)) = Some demo_doc" "distinct (map d_id (t_documents (sys_db demo_system)))"
    by (simp_all add: demo_system_def get_by_def demo_doc_def)
  moreover have "text_lawful (demo_text\<lparr>te_index := ti\<rparr>)" "visual_lawful (demo_visual\<lparr>ve_index := vi\<rparr>)" for ti vi
    by (simp_all add: demo_lawful)
  ultimately show ?thesis
    using red_team_finds_nothing [OF reachable.start [OF demo_system_fresh], of "demo_text\<lparr>te_index := dw_chunks (sy_docs demo_system)\<rparr>"
        "demo_visual\<lparr>ve_index := dw_pages (sy_docs demo_system)\<rparr>" 7 demo_doc demo_user_d default_model] by auto
qed

end
