(* ===== verification/Upload.thy ===== *)
theory Upload
  imports Documents "HOL-Library.List_Lexorder"
begin

text \<open>
  The bulk uploader \<open>src/scripts/upload_folder.py\<close>: choice of the files, choice of the collection, the upload
  loop with its optional wait and the exit code. The deployment is a record of functions on a world \<open>'w\<close>;
  \<open>model_site\<close> puts the modelled endpoints there, as a logged-in user meets them.
\<close>

subsection \<open>Files\<close>

text \<open>\<open>Path(name).suffix\<close>: from the last dot on, unless that opens or ends the name.\<close>

definition path_suffix :: "pystr \<Rightarrow> pystr" where
  "path_suffix name = (let ext = rev (takeWhile (\<lambda>c. c \<noteq> 46) (rev name))
     in if ext = [] \<or> length name \<le> Suc (length ext) then [] else 46 # ext)"

definition SUFFIXES :: "pystr set" where
  "SUFFIXES = {lit ''.pdf'', lit ''.docx'', lit ''.pptx'', lit ''.xlsx'', lit ''.csv'', lit ''.txt'', lit ''.md''}"

text \<open>The regular files below a folder, as the parts of their relative paths with their bytes.\<close>

definition selected_files :: "bool \<Rightarrow> (pystr list \<times> bytes) list \<Rightarrow> (pystr \<times> bytes) list" where
  "selected_files recursive entries =
     map (\<lambda>(p, d). (last p, d))
       (sort_key fst (filter (\<lambda>(p, d). (recursive \<or> length p = 1) \<and> lower (path_suffix (last p)) \<in> SUFFIXES) entries))"

subsection \<open>The deployment\<close>

text \<open>A reply with a success code, one with an error code (its body is a JSON object without the fields
  the script reads), or anything that raises where the script catches nothing.\<close>

datatype 'a answer = Answer 'a | Refused nat | Broken

record 'w site =
  si_login :: "'w \<Rightarrow> unit answer \<times> 'w"
  si_collections :: "'w \<Rightarrow> (pystr \<times> pystr) list answer \<times> 'w"
  si_post :: "pystr \<Rightarrow> pystr \<Rightarrow> bytes \<Rightarrow> 'w \<Rightarrow> (pystr \<times> bool) answer \<times> 'w"
  si_status :: "pystr \<Rightarrow> 'w \<Rightarrow> pystr option answer \<times> 'w"
  si_sleep :: "rat \<Rightarrow> 'w \<Rightarrow> 'w"
  si_now :: "'w \<Rightarrow> rat"

text \<open>\<open>Message\<close>: \<open>sys.exit\<close> with a text (exit code 1). \<open>Traceback\<close>: an exception leaves the script.\<close>

datatype folder_exit = Exit nat | Message | Traceback

definition resolve_collection :: "'w site \<Rightarrow> pystr option \<Rightarrow> 'w \<Rightarrow> (folder_exit + pystr) \<times> 'w" where
  "resolve_collection e wanted w =
     (case si_collections e w of
        (Answer [], w1) \<Rightarrow> (Inl Message, w1)
      | (Answer (c # cs), w1) \<Rightarrow>
          ((case wanted of None \<Rightarrow> Inr (fst c) | Some x \<Rightarrow>
             if x = [] then Inr (fst c)
             else (case List.find (\<lambda>(i, n). x = i \<or> x = n) (c # cs) of None \<Rightarrow> Inl Message | Some (i, _) \<Rightarrow> Inr i)), w1)
      | (_, w1) \<Rightarrow> (Inl Traceback, w1))"

subsection \<open>The wait\<close>

definition terminal :: "pystr option \<Rightarrow> bool" where
  "terminal st \<longleftrightarrow> st \<in> {Some (lit ''indexed''), Some (lit ''failed'')}"

text \<open>\<open>Inl\<close>: an exception; a refused status request has no status and is asked again.\<close>

partial_function (option) wait_until :: "'w site \<Rightarrow> pystr \<Rightarrow> rat \<Rightarrow> 'w \<Rightarrow> ((unit + pystr) \<times> 'w) option" where
  "wait_until e i deadline w =
     (if \<not> si_now e w < deadline then Some (Inr (lit ''timeout''), w)
      else case si_status e i w of
        (Broken, w1) \<Rightarrow> Some (Inl (), w1)
      | (Answer (Some st), w1) \<Rightarrow> if terminal (Some st) then Some (Inr st, w1) else wait_until e i deadline (si_sleep e 3 w1)
      | (Answer None, w1) \<Rightarrow> wait_until e i deadline (si_sleep e 3 w1)
      | (Refused c, w1) \<Rightarrow> wait_until e i deadline (si_sleep e 3 w1))"

definition wait_indexed :: "'w site \<Rightarrow> pystr \<Rightarrow> rat \<Rightarrow> 'w \<Rightarrow> ((unit + pystr) \<times> 'w) option" where
  "wait_indexed e i timeout w = wait_until e i (si_now e w + timeout) w"

subsection \<open>The loop\<close>

record tally =
  ta_uploaded :: "(pystr \<times> pystr option) list"
  ta_duplicate :: nat
  ta_failed :: nat

definition no_tally :: tally where
  "no_tally = \<lparr>ta_uploaded = [], ta_duplicate = 0, ta_failed = 0\<rparr>"

text \<open>The inner \<open>None\<close>: an exception. The outer one: a wait that does not end.\<close>

fun upload_files :: "'w site \<Rightarrow> rat option \<Rightarrow> pystr \<Rightarrow> (pystr \<times> bytes) list \<Rightarrow> tally \<Rightarrow> 'w \<Rightarrow> (tally option \<times> 'w) option" where
  "upload_files e wait cid [] t w = Some (Some t, w)"
| "upload_files e wait cid ((name, data) # fs) t w =
     (case si_post e cid name data w of
        (Broken, w1) \<Rightarrow> Some (None, w1)
      | (Refused c, w1) \<Rightarrow> upload_files e wait cid fs (t\<lparr>ta_failed := Suc (ta_failed t)\<rparr>) w1
      | (Answer (i, True), w1) \<Rightarrow> upload_files e wait cid fs (t\<lparr>ta_duplicate := Suc (ta_duplicate t)\<rparr>) w1
      | (Answer (i, False), w1) \<Rightarrow>
          (case wait of None \<Rightarrow> upload_files e wait cid fs (t\<lparr>ta_uploaded := ta_uploaded t @ [(i, None)]\<rparr>) w1
           | Some secs \<Rightarrow> (case wait_indexed e i secs w1 of
                None \<Rightarrow> None
              | Some (Inl _, w2) \<Rightarrow> Some (None, w2)
              | Some (Inr st, w2) \<Rightarrow> upload_files e wait cid fs (t\<lparr>ta_uploaded := ta_uploaded t @ [(i, Some st)]\<rparr>) w2)))"

definition folder_code :: "tally \<Rightarrow> nat" where
  "folder_code t = (if ta_failed t = 0 then 0 else 1)"

text \<open>\<open>files\<close> is \<open>None\<close> when the argument is no folder.\<close>

definition upload_folder :: "'w site \<Rightarrow> bool \<Rightarrow> pystr option \<Rightarrow> rat option \<Rightarrow> (pystr list \<times> bytes) list option \<Rightarrow> 'w
    \<Rightarrow> (folder_exit \<times> 'w) option" where
  "upload_folder e recursive wanted wait files w =
     (case files of None \<Rightarrow> Some (Message, w)
      | Some entries \<Rightarrow>
          let fs = selected_files recursive entries in
          if fs = [] then Some (Message, w)
          else (case si_login e w of
              (Answer _, w1) \<Rightarrow>
                (case resolve_collection e wanted w1 of
                   (Inl x, w2) \<Rightarrow> Some (x, w2)
                 | (Inr cid, w2) \<Rightarrow>
                     (case upload_files e wait cid fs no_tally w2 of
                        None \<Rightarrow> None
                      | Some (None, w3) \<Rightarrow> Some (Traceback, w3)
                      | Some (Some t, w3) \<Rightarrow> Some (Exit (folder_code t), w3)))
            | (_, w1) \<Rightarrow> Some (Traceback, w1)))"

subsection \<open>Termination\<close>

definition ticking :: "'w site \<Rightarrow> bool" where
  "ticking e \<longleftrightarrow> (\<forall>w x. si_now e w + max 0 x \<le> si_now e (si_sleep e x w)) \<and> (\<forall>i w. si_now e w \<le> si_now e (snd (si_status e i w)))"

lemma wait_until_returns:
  assumes "ticking e"
  shows "\<exists>r w'. wait_until e i deadline w = Some (r, w')"
proof (induction "nat \<lceil>deadline - si_now e w\<rceil>" arbitrary: w rule: less_induct)
  case less
  show ?case
  proof (cases "si_now e w < deadline")
    case True
    obtain a w1 where a: "si_status e i w = (a, w1)" by fastforce
    have "si_now e w \<le> si_now e w1" using assms a unfolding ticking_def by (metis snd_conv)
    moreover have "si_now e w1 + 3 \<le> si_now e (si_sleep e 3 w1)" using assms unfolding ticking_def by (metis max.absorb2 zero_le_numeral)
    ultimately have "nat \<lceil>deadline - si_now e (si_sleep e 3 w1)\<rceil> < nat \<lceil>deadline - si_now e w\<rceil>" using True by linarith
    from less [OF this] show ?thesis
      by (subst wait_until.simps) (auto simp: True a split: answer.split option.split)
  qed (subst wait_until.simps, simp)
qed

text \<open>Every run ends, whatever the deployment answers, and with one of the three exits.\<close>

lemma upload_files_returns:
  assumes "ticking e"
  shows "\<exists>r w'. upload_files e wait cid fs t w = Some (r, w')"
proof (induction fs arbitrary: t w)
  case (Cons f fs)
  obtain name data where f: "f = (name, data)" by fastforce
  obtain a w1 where a: "si_post e cid name data w = (a, w1)" by fastforce
  show ?case
  proof (cases a)
    case (Answer x)
    obtain i d where x: "x = (i, d)" by fastforce
    obtain r w2 where "wait_indexed e i (the wait) w1 = Some (r, w2)"
      using wait_until_returns [OF assms] unfolding wait_indexed_def by blast
    with Cons.IH show ?thesis by (cases d; cases wait) (auto simp: f a Answer x split: sum.split)
  qed (use Cons.IH in \<open>simp_all add: f a\<close>)
qed simp

theorem upload_folder_returns:
  assumes "ticking e"
  shows "\<exists>x w'. upload_folder e recursive wanted wait files w = Some (x, w')"
proof -
  have "\<exists>r w'. upload_files e wait cid fs t v = Some (r, w')" for cid fs t v by (rule upload_files_returns [OF assms])
  then show ?thesis
    by (auto simp: upload_folder_def Let_def split: option.split prod.split answer.split sum.split) (metis option.distinct(1))
qed

subsection \<open>Against the modelled endpoints\<close>

text \<open>
  The endpoints as the logged-in user \<open>u\<close> meets them. The world carries the number of the next request,
  which indexes the fresh ids and the clock; \<open>pass\<close> is what the rest of the system does during a sleep.
\<close>

definition post_document :: "doc_env \<Rightarrow> (nat \<Rightarrow> uuid) \<Rightarrow> (nat \<Rightarrow> uuid) \<Rightarrow> (nat \<Rightarrow> time) \<Rightarrow> user_row \<Rightarrow> pystr \<Rightarrow> pystr \<Rightarrow> bytes
    \<Rightarrow> doc_world \<times> nat \<Rightarrow> (pystr \<times> bool) answer \<times> doc_world \<times> nat" where
  "post_document e ids jids now u cid name data = (\<lambda>(w, n).
     (case uuid_parse cid of None \<Rightarrow> (Refused 422, w, Suc n)
      | Some coll \<Rightarrow> (case upload_document e coll (Some name) data (ids n) (jids n) (now n) u w of
            (Inl er, w1) \<Rightarrow> (Refused (http_status er), w1, Suc n)
          | (Inr (x, dup), w1) \<Rightarrow> (Answer (str_uuid (do_id x), dup), w1, Suc n))))"

definition model_site :: "doc_env \<Rightarrow> (nat \<Rightarrow> uuid) \<Rightarrow> (nat \<Rightarrow> uuid) \<Rightarrow> (nat \<Rightarrow> time) \<Rightarrow> (rat \<Rightarrow> doc_world \<times> nat \<Rightarrow> doc_world \<times> nat)
    \<Rightarrow> user_row \<Rightarrow> (doc_world \<times> nat) site" where
  "model_site e ids jids now pass u = \<lparr>
     si_login = (\<lambda>w. (Answer (), w)),
     si_collections = (\<lambda>(w, n). (Answer (map (\<lambda>c. (str_uuid (co_id c), co_name c)) (list_collections (dw_db w) u)), w, n)),
     si_post = post_document e ids jids now u,
     si_status = (\<lambda>i (w, n). (case uuid_parse i of None \<Rightarrow> Refused 422 | Some x \<Rightarrow>
         (case ingest_status (dw_db w) u x of Inl er \<Rightarrow> Refused (http_status er)
          | Inr j \<Rightarrow> Answer (map_option (\<lambda>r. ingest_status_value (j_status r)) j)), w, n)),
     si_sleep = pass,
     si_now = (\<lambda>(w, n). now n)\<rparr>"

text \<open>The collection has these bytes once, and a file of that name would be accepted for them.\<close>

definition present :: "doc_env \<Rightarrow> uuid \<Rightarrow> user_row \<Rightarrow> db \<Rightarrow> pystr \<times> bytes \<Rightarrow> bool" where
  "present e coll u d f \<longleftrightarrow> snd f \<noteq> [] \<and> may_read d u coll
     \<and> (\<exists>ft. detect (safe_filename (case fst f of [] \<Rightarrow> lit ''upload.bin'' | c # cs \<Rightarrow> c # cs)) (snd f) = Inr ft)
     \<and> length (same_content d coll (de_sha e (snd f))) = 1"

lemma post_present:
  assumes "present e coll u (dw_db w) (name, data)"
  shows "\<exists>i. post_document e ids jids now u (str_uuid coll) name data (w, n) = (Answer (i, True), w, Suc n)"
proof -
  let ?name = "case name of [] \<Rightarrow> lit ''upload.bin'' | c # cs \<Rightarrow> c # cs"
  obtain ft where ft: "detect (safe_filename ?name) data = Inr ft" using assms by (auto simp: present_def)
  obtain row where row: "same_content (dw_db w) coll (de_sha e data) = [row]" using assms by (auto simp: present_def length_Suc_conv)
  have "create_document e coll ?name data (ids n) (jids n) (now n) u w = (Inr (row, True), w)"
    using assms by (intro create_duplicate [OF _ ft row]) (simp add: present_def)
  then show ?thesis using assms by (simp add: post_document_def upload_document_def present_def)
qed

lemma create_success:
  assumes "create_document e coll name data i j now u w = (Inr (row, dup), w1)"
  shows "may_read (dw_db w) u coll" and "\<exists>ft. detect (safe_filename name) data = Inr ft"
    and "if dup then w1 = w \<and> length (same_content (dw_db w) coll (de_sha e data)) = 1
         else t_documents (dw_db w1) = t_documents (dw_db w) @ [row] \<and> d_id row = i \<and> d_coll row = coll \<and> d_hash row = de_sha e data
           \<and> same_content (dw_db w) coll (de_sha e data) = [] \<and> (\<forall>v c. may_read (dw_db w1) v c = may_read (dw_db w) v c)
           \<and> bk_queue (dw_broker w1) = bk_queue (dw_broker w) @ [mk_payload (str_uuid i) 0 (Some (str_uuid j))]"
  using assms
  by (auto simp: create_document_def Let_def acl_simps content_hash_def new_document_def scalar_one_or_none_def add_row_def enqueue_index_def
      split: if_splits sum.splits option.splits prod.splits list.splits)

text \<open>An accepted upload makes its file present, and nothing that was present stops being so.\<close>

lemma post_accepted:
  assumes "post_document e ids jids now u (str_uuid coll) name data (w, n) = (Answer (i, dup), w1, m)"
  shows "present e coll u (dw_db w1) (name, data)" and "present e coll u (dw_db w) f \<Longrightarrow> present e coll u (dw_db w1) f" and "m = Suc n"
    and "bk_queue (dw_broker w1) = bk_queue (dw_broker w) @ (if dup then [] else [mk_payload i 0 (Some (str_uuid (jids n)))])"
proof -
  let ?name = "case name of [] \<Rightarrow> lit ''upload.bin'' | c # cs \<Rightarrow> c # cs"
  obtain row where c: "create_document e coll ?name data (ids n) (jids n) (now n) u w = (Inr (row, dup), w1)" and "data \<noteq> []" "m = Suc n"
    and i: "i = str_uuid (d_id row)"
    using assms by (auto simp: post_document_def upload_document_def document_out_of_def split: if_splits sum.splits prod.splits)
  note ok = create_success [OF c]
  have grown: "same_content (dw_db w1) coll h = same_content (dw_db w) coll h @ (if dup \<or> h \<noteq> de_sha e data then [] else [row])" for h
    using ok(3) by (auto simp: same_content_def split: if_splits)
  then show "present e coll u (dw_db w1) (name, data)" using ok \<open>data \<noteq> []\<close> by (auto simp: present_def split: if_splits)
  show "present e coll u (dw_db w1) f" if "present e coll u (dw_db w) f"
  proof -
    have "\<not> dup \<longrightarrow> de_sha e (snd f) \<noteq> de_sha e data" using that ok(3) by (auto simp: present_def)
    then show ?thesis using that ok(3) grown [of "de_sha e (snd f)"] by (auto simp: present_def split: if_splits)
  qed
  show "m = Suc n" by fact
  show "bk_queue (dw_broker w1) = bk_queue (dw_broker w) @ (if dup then [] else [mk_payload i 0 (Some (str_uuid (jids n)))])"
    using ok(3) i by (auto split: if_splits)
qed

lemma upload_present:
  assumes "\<forall>f \<in> set fs. present e coll u (dw_db w) f"
  shows "upload_files (model_site e ids jids now pass u) wait (str_uuid coll) fs t (w, n)
    = Some (Some (t\<lparr>ta_duplicate := ta_duplicate t + length fs\<rparr>), w, n + length fs)"
  using assms
proof (induction fs arbitrary: t n)
  case (Cons f fs)
  obtain name data where f: "f = (name, data)" by fastforce
  obtain i where "post_document e ids jids now u (str_uuid coll) name data (w, n) = (Answer (i, True), w, Suc n)"
    using post_present [of e coll u w name data ids jids now n] Cons.prems f by (metis list.set_intros(1))
  then show ?case using Cons by (simp add: f model_site_def)
qed simp

lemma upload_clean_run:
  assumes "upload_files (model_site e ids jids now pass u) None (str_uuid coll) fs t (w, n) = Some (Some t', w', n')"
    and "ta_failed t' = ta_failed t"
  shows "(\<forall>f \<in> set fs. present e coll u (dw_db w') f) \<and> (\<forall>f. present e coll u (dw_db w) f \<longrightarrow> present e coll u (dw_db w') f)
    \<and> length (ta_uploaded t') + ta_duplicate t' = length (ta_uploaded t) + ta_duplicate t + length fs
    \<and> (\<exists>js. ta_uploaded t' = ta_uploaded t @ map (\<lambda>(i, j). (i, None)) js
         \<and> bk_queue (dw_broker w') = bk_queue (dw_broker w) @ map (\<lambda>(i, j). mk_payload i 0 (Some j)) js)"
  using assms
proof (induction fs arbitrary: t w n)
  case Nil
  then show ?case by auto
next
  case (Cons f fs)
  obtain name data where f: "f = (name, data)" by fastforce
  obtain a w1 m where a: "post_document e ids jids now u (str_uuid coll) name data (w, n) = (a, w1, m)" by (metis prod_cases3)
  have mono: "ta_failed s \<le> ta_failed s'" if "upload_files (model_site e ids jids now pass u) None (str_uuid coll) gs s v = Some (Some s', v')" for gs s s' v v'
    using that
  proof (induction gs arbitrary: s v)
    case (Cons g gs)
    then show ?case by (cases g) (force split: answer.splits prod.splits bool.splits)
  qed simp
  show ?case
  proof (cases a)
    case (Answer x)
    obtain i dup where x: "x = (i, dup)" by fastforce
    note p = post_accepted [OF a [unfolded Answer x]]
    show ?thesis
    proof (cases dup)
      case True
      then have "upload_files (model_site e ids jids now pass u) None (str_uuid coll) fs (t\<lparr>ta_duplicate := Suc (ta_duplicate t)\<rparr>) (w1, m)
          = Some (Some t', w', n')"
        using Cons.prems(1) a by (simp add: f Answer x model_site_def)
      from Cons.IH [OF this] Cons.prems(2) p True show ?thesis by (auto simp: f)
    next
      case False
      then have "upload_files (model_site e ids jids now pass u) None (str_uuid coll) fs (t\<lparr>ta_uploaded := ta_uploaded t @ [(i, None)]\<rparr>) (w1, m)
          = Some (Some t', w', n')"
        using Cons.prems(1) a by (simp add: f Answer x model_site_def)
      from Cons.IH [OF this] Cons.prems(2) p False obtain js where
          "ta_uploaded t' = ta_uploaded t @ (i, None) # map (\<lambda>(i, j). (i, None)) js"
          "bk_queue (dw_broker w') = bk_queue (dw_broker w) @ mk_payload i 0 (Some (str_uuid (jids n))) # map (\<lambda>(i, j). mk_payload i 0 (Some j)) js"
        by auto
      then have "\<exists>js. ta_uploaded t' = ta_uploaded t @ map (\<lambda>(i, j). (i, None)) js
         \<and> bk_queue (dw_broker w') = bk_queue (dw_broker w) @ map (\<lambda>(i, j). mk_payload i 0 (Some j)) js"
        by (intro exI [of _ "(i, str_uuid (jids n)) # js"]) simp
      with \<open>upload_files _ _ _ fs _ _ = _\<close> Cons.IH Cons.prems(2) p False show ?thesis by (auto simp: f)
    qed
  next
    case (Refused c)
    then have "ta_failed (t\<lparr>ta_failed := Suc (ta_failed t)\<rparr>) \<le> ta_failed t'"
      using Cons.prems(1) a by (intro mono) (simp add: f model_site_def)
    then show ?thesis using Cons.prems(2) by simp
  qed (use Cons.prems(1) a in \<open>simp add: f model_site_def\<close>)
qed

text \<open>
  C38. Uploading a folder twice is uploading it once. A run in which no file failed counts each file as uploaded
  or as a duplicate and enqueues exactly one job per uploaded document, in order; run again, whatever ids
  and clock it meets, it counts every file as a duplicate, changes nothing, and exits with 0.
\<close>

theorem bulk_upload_idempotent:
  assumes "upload_files (model_site e ids jids now pass u) None (str_uuid coll) files no_tally (w, n) = Some (Some t, w', n')"
    and "ta_failed t = 0"
  shows "length (ta_uploaded t) + ta_duplicate t = length files
    \<and> (\<exists>js. ta_uploaded t = map (\<lambda>(i, j). (i, None)) js
         \<and> bk_queue (dw_broker w') = bk_queue (dw_broker w) @ map (\<lambda>(i, j). mk_payload i 0 (Some j)) js)
    \<and> upload_files (model_site e ids2 jids2 now2 pass2 u) wait (str_uuid coll) files no_tally (w', m)
        = Some (Some (no_tally\<lparr>ta_duplicate := length files\<rparr>), w', m + length files)
    \<and> folder_code (no_tally\<lparr>ta_duplicate := length files\<rparr>) = 0"
proof -
  have "ta_failed t = ta_failed no_tally" using assms(2) by (simp add: no_tally_def)
  note run = upload_clean_run [OF assms(1) this]
  have "upload_files (model_site e ids2 jids2 now2 pass2 u) wait (str_uuid coll) files no_tally (w', m)
      = Some (Some (no_tally\<lparr>ta_duplicate := length files\<rparr>), w', m + length files)"
    using upload_present [of files e coll u w' ids2 jids2 now2 pass2 wait no_tally m] run by (simp add: no_tally_def)
  with run show ?thesis by (auto simp: no_tally_def folder_code_def)
qed

text \<open>
  The script reports success for a document that is never indexed. With Redis unreachable a new file counts
  as failed and the script exits with 1; run again with Redis back, it counts the file as already ingested
  and exits with 0, and the queue is still empty of it.
\<close>

theorem bulk_upload_retry_lost:
  assumes "acceptable e coll name data (ids n) u w ft" and "\<not> de_redis e" and "data \<noteq> []" and "name \<noteq> []"
  shows "\<exists>w'. upload_files (model_site e ids jids now pass u) None (str_uuid coll) [(name, data)] no_tally (w, n)
        = Some (Some (no_tally\<lparr>ta_failed := 1\<rparr>), w', Suc n)
    \<and> upload_files (model_site (e\<lparr>de_redis := True\<rparr>) ids jids now pass u) None (str_uuid coll) [(name, data)] no_tally (w', Suc n)
        = Some (Some (no_tally\<lparr>ta_duplicate := 1\<rparr>), w', Suc (Suc n))
    \<and> folder_code (no_tally\<lparr>ta_failed := 1\<rparr>) = 1 \<and> folder_code (no_tally\<lparr>ta_duplicate := 1\<rparr>) = 0 \<and> dw_broker w' = dw_broker w"
proof -
  obtain row w' where 1: "create_document e coll name data (ids n) (jids n) (now n) u w = (Inl Crash, w')" and "dw_broker w' = dw_broker w"
      and 2: "create_document (e\<lparr>de_redis := True\<rparr>) coll name data (ids (Suc n)) (jids (Suc n)) (now (Suc n)) u w' = (Inr (row, True), w')"
    using upload_lost_without_redis [OF assms(1,2)] by blast
  obtain c cs where "name = c # cs" using assms(4) by (cases name) auto
  with 1 2 assms(3) \<open>dw_broker w' = dw_broker w\<close> show ?thesis
    by (intro exI [of _ w']) (simp add: model_site_def post_document_def upload_document_def no_tally_def folder_code_def)
qed

lemma bulk_upload_idempotent_witness:
  "\<exists>w'. upload_files (model_site demo_doc_env (\<lambda>_. 7) (\<lambda>_. 9) (\<lambda>_. 10) (\<lambda>_. id) demo_admin_d) None (str_uuid 3) [(lit ''a.txt'', [97])] no_tally (w', 5)
    = Some (Some (no_tally\<lparr>ta_duplicate := 1\<rparr>), w', 6)"
proof -
  have redis: "de_redis demo_doc_env" by (simp add: demo_doc_env_def)
  obtain row w1 where c: "create_document demo_doc_env 3 (lit ''a.txt'') [97] 7 9 10 demo_admin_d demo_doc_world = (Inr (row, False), w1)"
    using create_new [OF demo_acceptable, of 9 10] redis by (simp add: Let_def)
  have "upload_files (model_site demo_doc_env (\<lambda>_. 7) (\<lambda>_. 9) (\<lambda>_. 10) (\<lambda>_. id) demo_admin_d) None (str_uuid 3) [(lit ''a.txt'', [97])] no_tally (demo_doc_world, 0)
      = Some (Some (no_tally\<lparr>ta_uploaded := [(str_uuid (d_id row), None)]\<rparr>), w1, 1)"
    using c by (simp add: model_site_def post_document_def upload_document_def no_tally_def document_out_of_def lit_def)
  from bulk_upload_idempotent [OF this, where m = 5 and wait = None and ?ids2.0 = "\<lambda>_. 7" and ?jids2.0 = "\<lambda>_. 9" and ?now2.0 = "\<lambda>_. 10" and ?pass2.0 = "\<lambda>_. id"]
  show ?thesis by (auto simp: no_tally_def)
qed

lemma bulk_upload_retry_lost_witness:
  "\<exists>w'. upload_files (model_site demo_doc_env (\<lambda>_. 7) (\<lambda>_. 9) (\<lambda>_. 10) (\<lambda>_. id) demo_admin_d) None (str_uuid 3) [(lit ''a.txt'', [97])] no_tally (w', Suc 0)
    = Some (Some (no_tally\<lparr>ta_duplicate := 1\<rparr>), w', Suc (Suc 0))"
proof -
  let ?e = "demo_doc_env\<lparr>de_redis := False\<rparr>"
  have "acceptable ?e 3 (lit ''a.txt'') [97] ((\<lambda>_. 7) 0) demo_admin_d demo_doc_world (lit ''txt'')"
    using demo_acceptable by (simp add: acceptable_def)
  moreover have "?e\<lparr>de_redis := True\<rparr> = demo_doc_env" by (simp add: demo_doc_env_def)
  ultimately show ?thesis
    using bulk_upload_retry_lost [of ?e 3 "lit ''a.txt''" "[97]" "\<lambda>_. 7" 0 demo_admin_d demo_doc_world "lit ''txt''" "\<lambda>_. 9" "\<lambda>_. 10" "\<lambda>_. id"]
    by (auto simp: lit_Cons)
qed

end
