(* ===== verification/Gaps.thy ===== *)
theory Gaps
  imports Assemble "HOL-Library.Product_Lexorder"
begin

text \<open>
  The knowledge-gap report of the administrators, \<open>app/services/knowledge_gaps.py\<close>: answers are paired
  with the question before them, classified, grouped by the normalised question and ranked. Rates are
  exact rationals, rounded half to even as Python's \<open>round\<close>.
\<close>

datatype gap_kind = No_evidence | Declined | Negative_feedback

definition KIND_ORDER :: "gap_kind list" where
  "KIND_ORDER = [No_evidence, Declined, Negative_feedback]"

definition DECLINE_MARKERS :: "pystr list" where
  "DECLINE_MARKERS = [lit ''enth'' @ [228] @ lit ''lt keine'', lit ''enth'' @ [228] @ lit ''lt keinen'', lit ''enthalten keine'',
     lit ''enth'' @ [228] @ lit ''lt nicht'', lit ''keine angaben'', lit ''keine information'', lit ''keinen hinweis'', lit ''keine hinweise'',
     lit ''nicht enthalten'', lit ''nicht beantworten'', lit ''nicht beantwortet'', lit ''liegen keine'', lit ''keine daten'',
     lit ''keine relevanten'', lit ''keine spezifische'', lit ''keine konkrete'', lit ''nicht direkt in den'', lit ''nicht direkt aus den'',
     lit ''kann nicht direkt'', lit ''nicht abgeleitet'', lit ''nicht nachvollzie'', lit ''es fehlt ein'', lit ''es fehlen'',
     lit ''keine antwort'', lit ''keine genauen'', lit ''kann ich keine'', lit ''steht nicht in'', lit ''nicht in den gegebenen'',
     lit ''nicht in den genannten'', lit ''nicht im angegebenen'', lit ''nicht im gegebenen'', lit ''nicht im kontext'',
     lit ''nicht erw'' @ [228] @ lit ''hnt'', lit ''nicht direkt belegt'', lit ''beantwortbar'', lit ''beziehen sich nicht auf'',
     lit ''bezieht sich nicht auf'', lit ''does not contain'', lit ''do not contain'', lit ''doesn'' @ [39] @ lit ''t contain'',
     lit ''don'' @ [39] @ lit ''t contain'', lit ''no information'', lit ''no specific information'', lit ''cannot be answered'',
     lit ''can'' @ [39] @ lit ''t be answered'', lit ''not mention'', lit ''no answer can be'', lit ''no relevant'', lit ''not provided in'',
     lit ''does not specify'', lit ''do not specify'', lit ''not specified in'', lit ''there is no mention'', lit ''there is no specific'',
     lit ''not available in the'', lit ''not in the provided'']"
definition HEAD_CHARS :: nat where "HEAD_CHARS = 240"
definition MAX_MESSAGES :: nat where "MAX_MESSAGES = 20000"
definition SAMPLE_CHARS :: nat where "SAMPLE_CHARS = 400"
definition MAX_REASONS :: nat where "MAX_REASONS = 5"

definition classify_answer :: "pystr \<Rightarrow> gap_kind option" where
  "classify_answer answer =
     (let text = strip answer in
      if text = [] \<or> text = INSUFFICIENT_ANSWER then Some No_evidence
      else if list_ex (\<lambda>m. py_in m (lower (take HEAD_CHARS text))) DECLINE_MARKERS then Some Declined
      else None)"

text \<open>The characters of the final \<open>strip\<close>: blank, punctuation and straight and German quotes.\<close>

definition question_punct :: "nat \<Rightarrow> bool" where
  "question_punct c \<longleftrightarrow> c \<in> set (lit '' ?!.,;:'' @ [34, 39, 8222, 8220, 8221])"

definition normalize_question :: "pystr \<Rightarrow> pystr" where
  "normalize_question q = strip_by question_punct (join [32] (split_ws (lower q)))"

subsection \<open>Pairing\<close>

record asked =
  qa_question :: pystr
  qa_id :: uuid
  qa_answer :: pystr
  qa_at :: time
  qa_user :: uuid

definition role_order :: "message_role \<Rightarrow> nat" where
  "role_order r = (if r = M_USER then 0 else 1)"

definition recent_messages :: "db \<Rightarrow> time \<Rightarrow> (msg_row \<times> uuid) list" where
  "recent_messages d since =
     take MAX_MESSAGES (sort_key (\<lambda>(m, u). (m_session m, m_created m, role_order (m_role m)))
       (List.map_filter (\<lambda>m. map_option (\<lambda>s. (m, s_user s)) (get_by s_id (m_session m) (t_sessions d)))
         (filter (\<lambda>m. since \<le> m_created m) (t_messages d))))"

fun pair_up :: "(uuid \<Rightarrow> pystr option) \<Rightarrow> (msg_row \<times> uuid) list \<Rightarrow> asked list" where
  "pair_up last_question [] = []"
| "pair_up last_question ((m, u) # rows) =
     (if m_role m = M_USER then pair_up (last_question(m_session m \<mapsto> m_content m)) rows
      else if m_role m = M_ASSISTANT then
        (case last_question (m_session m) of
           None \<Rightarrow> pair_up last_question rows
         | Some q \<Rightarrow> \<lparr>qa_question = q, qa_id = m_id m, qa_answer = m_content m, qa_at = m_created m, qa_user = u\<rparr>
             # pair_up (last_question(m_session m := None)) rows)
      else pair_up last_question rows)"

text \<open>The stripped reasons of the thumbs-down on an answer, \<open>None\<close> without one.\<close>

definition downs :: "db \<Rightarrow> uuid \<Rightarrow> pystr list option" where
  "downs d i = (let fb = filter (\<lambda>f. f_message f = i \<and> f_rating f = lit ''down'') (t_feedback d) in
     if fb = [] then None
     else Some (filter (\<lambda>r. r \<noteq> []) (map (\<lambda>f. case f_reason f of None \<Rightarrow> [] | Some r \<Rightarrow> strip r) fb)))"

subsection \<open>Grouping\<close>

record gap_group =
  gg_question :: pystr
  gg_last :: time
  gg_sample :: pystr
  gg_count :: nat
  gg_users :: "uuid list"
  gg_kinds :: "gap_kind set"
  gg_reasons :: "pystr list"

definition kinds_of :: "db \<Rightarrow> asked \<Rightarrow> gap_kind set" where
  "kinds_of d a = (case classify_answer (qa_answer a) of None \<Rightarrow> {} | Some k \<Rightarrow> {k})
     \<union> (if downs d (qa_id a) = None then {} else {Negative_feedback})"

fun add_reasons :: "pystr list \<Rightarrow> pystr list \<Rightarrow> pystr list" where
  "add_reasons rs [] = rs"
| "add_reasons rs (r # new) = add_reasons (if r \<notin> set rs \<and> length rs < MAX_REASONS then rs @ [r] else rs) new"

definition gap_entry :: "db \<Rightarrow> asked \<Rightarrow> gap_group \<Rightarrow> gap_group" where
  "gap_entry d a g =
     (let g1 = (if gg_last g \<le> qa_at a then g\<lparr>gg_question := qa_question a, gg_last := qa_at a, gg_sample := qa_answer a\<rparr> else g)
      in g1\<lparr>gg_count := Suc (gg_count g), gg_users := List.insert (qa_user a) (gg_users g), gg_kinds := gg_kinds g \<union> kinds_of d a,
           gg_reasons := add_reasons (gg_reasons g) (case downs d (qa_id a) of None \<Rightarrow> [] | Some rs \<Rightarrow> rs)\<rparr>)"

definition new_group :: "asked \<Rightarrow> gap_group" where
  "new_group a = \<lparr>gg_question = qa_question a, gg_last = qa_at a, gg_sample = qa_answer a, gg_count = 0, gg_users = [],
     gg_kinds = {}, gg_reasons = []\<rparr>"

text \<open>A dictionary keeps the order of first insertion.\<close>

fun add_to_group :: "db \<Rightarrow> asked \<Rightarrow> (pystr \<times> gap_group) list \<Rightarrow> (pystr \<times> gap_group) list" where
  "add_to_group d a [] = [(normalize_question (qa_question a), gap_entry d a (new_group a))]"
| "add_to_group d a ((k, g) # gs) =
     (if k = normalize_question (qa_question a) then (k, gap_entry d a g) # gs else (k, g) # add_to_group d a gs)"

definition gap_pairs :: "db \<Rightarrow> asked list \<Rightarrow> asked list" where
  "gap_pairs d pairs = filter (\<lambda>a. kinds_of d a \<noteq> {}) pairs"

definition gap_groups :: "db \<Rightarrow> asked list \<Rightarrow> (pystr \<times> gap_group) list" where
  "gap_groups d pairs = fold (add_to_group d) (gap_pairs d pairs) []"

subsection \<open>The report\<close>

definition round_half_even :: "rat \<Rightarrow> int" where
  "round_half_even x = (let n = floor x; r = x - of_int n in
     if r < 1 / 2 then n else if 1 / 2 < r then n + 1 else if even n then n else n + 1)"

definition round_to :: "nat \<Rightarrow> rat \<Rightarrow> rat" where
  "round_to k x = of_int (round_half_even (x * 10 ^ k)) / 10 ^ k"

record gap_item =
  gi_question :: pystr
  gi_count :: nat
  gi_users :: nat
  gi_last :: time
  gi_kinds :: "gap_kind list"
  gi_sample :: pystr
  gi_reasons :: "pystr list"

record gap_report =
  gr_window :: nat
  gr_total :: nat
  gr_gaps :: nat
  gr_rate :: rat
  gr_negative :: nat
  gr_items :: "gap_item list"

definition gap_item_of :: "gap_group \<Rightarrow> gap_item" where
  "gap_item_of g = \<lparr>gi_question = gg_question g, gi_count = gg_count g, gi_users = length (gg_users g), gi_last = gg_last g,
     gi_kinds = filter (\<lambda>k. k \<in> gg_kinds g) KIND_ORDER, gi_sample = take SAMPLE_CHARS (gg_sample g), gi_reasons = gg_reasons g\<rparr>"

text \<open>The answered questions since a time.\<close>

definition asked_since :: "db \<Rightarrow> time \<Rightarrow> asked list" where
  "asked_since d since = pair_up (\<lambda>_. None) (recent_messages d since)"

definition build_report :: "db \<Rightarrow> nat \<Rightarrow> nat \<Rightarrow> time \<Rightarrow> gap_report" where
  "build_report d days limit now =
     (let pairs = asked_since d (now - of_nat days * 86400);
          items = sort_key (\<lambda>g. (- int (gg_count g), - gg_last g)) (map snd (gap_groups d pairs));
          total = length pairs; gaps = length (gap_pairs d pairs)
      in \<lparr>gr_window = days, gr_total = total, gr_gaps = gaps,
          gr_rate = (if total = 0 then 0 else round_to 4 (of_nat gaps / of_nat total)),
          gr_negative = length (filter (\<lambda>a. downs d (qa_id a) \<noteq> None) pairs),
          gr_items = map gap_item_of (take limit items)\<rparr>)"

text \<open>The admin endpoint: 1 to 365 days, at most 200 items.\<close>

definition knowledge_gaps :: "db \<Rightarrow> int \<Rightarrow> time \<Rightarrow> gap_report http" where
  "knowledge_gaps d days now = (if 1 \<le> days \<and> days \<le> 365 then Inr (build_report d (nat days) 200 now)
     else Inl (HTTPException 422 (lit ''days'')))"

subsection \<open>Groups partition the gap questions\<close>

abbreviation question_key :: "asked \<Rightarrow> pystr" where
  "question_key a \<equiv> normalize_question (qa_question a)"

definition sound_group :: "gap_group \<Rightarrow> bool" where
  "sound_group g \<longleftrightarrow> distinct (gg_users g) \<and> gg_kinds g \<noteq> {} \<and> length (gg_reasons g) \<le> MAX_REASONS"

lemma length_add_reasons: "length rs \<le> MAX_REASONS \<Longrightarrow> length (add_reasons rs new) \<le> MAX_REASONS"
  by (induction new arbitrary: rs) simp_all

text \<open>What the groups are after any list of gap questions; the questions of one group are its \<open>like\<close>.\<close>

abbreviation like :: "pystr \<Rightarrow> asked list \<Rightarrow> asked list" where
  "like k as \<equiv> filter (\<lambda>a. question_key a = k) as"

definition group_of :: "pystr \<Rightarrow> asked list \<Rightarrow> gap_group \<Rightarrow> bool" where
  "group_of k as g \<longleftrightarrow> sound_group g \<and> normalize_question (gg_question g) = k \<and> gg_count g = length as
     \<and> set (gg_users g) = qa_user ` set as"

definition groups_of :: "asked list \<Rightarrow> (pystr \<times> gap_group) list \<Rightarrow> bool" where
  "groups_of as gs \<longleftrightarrow> distinct (map fst gs) \<and> set (map fst gs) = question_key ` set as
     \<and> (\<forall>(k, g) \<in> set gs. group_of k (like k as) g)"

lemma group_of_entry:
  assumes "kinds_of d a \<noteq> {}" and "group_of (question_key a) as g"
  shows "group_of (question_key a) (as @ [a]) (gap_entry d a g)"
  using assms length_add_reasons by (auto simp: group_of_def sound_group_def gap_entry_def Let_def)

lemma group_of_new:
  assumes "kinds_of d a \<noteq> {}"
  shows "group_of (question_key a) [a] (gap_entry d a (new_group a))"
  using assms length_add_reasons [of "[]"] by (auto simp: group_of_def sound_group_def gap_entry_def new_group_def Let_def)

lemma keys_add: "map fst (add_to_group d a gs) = map fst gs @ (if question_key a \<in> set (map fst gs) then [] else [question_key a])"
proof (induction gs)
  case (Cons x gs)
  then show ?case by (cases x) simp
qed simp

lemma set_add: "distinct (map fst gs) \<Longrightarrow> (k, g) \<in> set (add_to_group d a gs) \<Longrightarrow>
    (k \<noteq> question_key a \<and> (k, g) \<in> set gs)
    \<or> (k = question_key a \<and> ((\<exists>h. (k, h) \<in> set gs \<and> g = gap_entry d a h) \<or> (k \<notin> fst ` set gs \<and> g = gap_entry d a (new_group a))))"
proof (induction gs)
  case (Cons x gs)
  obtain k' g' where x: "x = (k', g')" by (cases x)
  show ?case
  proof (cases "k' = question_key a")
    case True
    then consider "(k, g) = (k', gap_entry d a g')" | "(k, g) \<in> set gs" using Cons.prems(2) x by auto
    then show ?thesis
    proof cases
      case 2
      then have "k \<noteq> k'" using Cons.prems(1) x by (auto intro: rev_image_eqI)
      with 2 True show ?thesis by simp
    qed (use x True in auto)
  next
    case False
    then consider "(k, g) = (k', g')" | "(k, g) \<in> set (add_to_group d a gs)" using Cons.prems(2) x by auto
    then show ?thesis
    proof cases
      case 2
      from Cons.IH [OF _ 2] Cons.prems(1) False x show ?thesis by auto
    qed (use x False in auto)
  qed
qed simp

lemma groups_of_add:
  assumes "groups_of as gs" and "kinds_of d a \<noteq> {}"
  shows "groups_of (as @ [a]) (add_to_group d a gs)"
proof -
  have d: "distinct (map fst gs)" and ks: "fst ` set gs = question_key ` set as"
    and each: "\<And>k g. (k, g) \<in> set gs \<Longrightarrow> group_of k (like k as) g"
    using assms(1) by (auto simp: groups_of_def)
  have "group_of k (like k (as @ [a])) g" if "(k, g) \<in> set (add_to_group d a gs)" for k g
    using set_add [OF d that]
  proof (elim disjE exE conjE)
    fix h assume h: "k = question_key a" "(k, h) \<in> set gs" "g = gap_entry d a h"
    then show ?thesis using group_of_entry [OF assms(2) each [OF h(2), unfolded h(1)]] by simp
  next
    assume h: "k = question_key a" "k \<notin> fst ` set gs" "g = gap_entry d a (new_group a)"
    then have "\<forall>b \<in> set as. question_key b \<noteq> k" unfolding ks by blast
    then have "like k as = []" by (simp add: filter_empty_conv)
    then show ?thesis using group_of_new [OF assms(2)] h by simp
  qed (use each in simp)
  moreover have "distinct (map fst (add_to_group d a gs))" using d by (simp add: keys_add)
  moreover have "set (map fst (add_to_group d a gs)) = question_key ` set (as @ [a])" unfolding keys_add using ks by auto
  ultimately show ?thesis by (auto simp: groups_of_def)
qed

lemma gap_groups_of: "groups_of (gap_pairs d pairs) (gap_groups d pairs)"
proof -
  have "groups_of (done' @ as) (fold (add_to_group d) as gs)" if "groups_of done' gs" "\<forall>a \<in> set as. kinds_of d a \<noteq> {}" for done' as gs
    using that
  proof (induction as arbitrary: done' gs)
    case (Cons a as)
    from Cons.IH [OF groups_of_add [OF Cons.prems(1)]] Cons.prems(2) show ?case by simp
  qed simp
  note run = this [of "[]" "[]", unfolded append_Nil]
  have "groups_of [] []" by (simp add: groups_of_def)
  moreover have "\<forall>a \<in> set (gap_pairs d pairs). kinds_of d a \<noteq> {}" by (simp add: gap_pairs_def)
  ultimately show ?thesis unfolding gap_groups_def by (rule run)
qed

lemma round_half_even_mono: "x \<le> of_int n \<Longrightarrow> round_half_even x \<le> n" "of_int n \<le> x \<Longrightarrow> n \<le> round_half_even x"
proof -
  assume "x \<le> of_int n"
  then consider "x = of_int n" | "floor x < n" by linarith
  then show "round_half_even x \<le> n" by cases (auto simp: round_half_even_def Let_def)
next
  assume "of_int n \<le> x"
  then have "n \<le> floor x" by (simp add: le_floor_iff)
  then show "n \<le> round_half_even x" by (auto simp: round_half_even_def Let_def)
qed

lemma round_to_unit: "0 \<le> x \<Longrightarrow> x \<le> 1 \<Longrightarrow> 0 \<le> round_to k x \<and> round_to k x \<le> 1"
proof -
  assume x: "0 \<le> x" "x \<le> 1"
  have "x * 10 ^ k \<le> of_int (10 ^ k)" "of_int 0 \<le> x * 10 ^ k" using x by (simp_all add: mult_left_le_one_le)
  then have "round_half_even (x * 10 ^ k) \<le> 10 ^ k" "0 \<le> round_half_even (x * 10 ^ k)" by (auto intro: round_half_even_mono)
  then have "(of_int (round_half_even (x * 10 ^ k)) :: rat) \<le> of_int (10 ^ k)" "(of_int 0 :: rat) \<le> of_int (round_half_even (x * 10 ^ k))"
    by (simp_all only: of_int_le_iff)
  then show ?thesis by (simp add: round_to_def)
qed

lemma report_fields:
  "gr_total (build_report d days limit now) = length (asked_since d (now - of_nat days * 86400))"
  "gr_gaps (build_report d days limit now) = length (gap_pairs d (asked_since d (now - of_nat days * 86400)))"
  "gr_items (build_report d days limit now) = map gap_item_of (take limit
     (sort_key (\<lambda>g. (- int (gg_count g), - gg_last g)) (map snd (gap_groups d (asked_since d (now - of_nat days * 86400))))))"
  by (simp_all add: build_report_def Let_def)

lemma report_rate: "0 \<le> gr_rate (build_report d days limit now) \<and> gr_rate (build_report d days limit now) \<le> 1"
proof -
  have "0 \<le> round_to 4 (of_nat (length (gap_pairs d as)) / of_nat (length as))
      \<and> round_to 4 (of_nat (length (gap_pairs d as)) / of_nat (length as)) \<le> 1" for as
    by (rule round_to_unit) (auto simp: gap_pairs_def divide_le_eq_1)
  then show ?thesis by (simp add: build_report_def Let_def)
qed

lemma items_ranked: "sorted_wrt (\<lambda>i j. gi_count j \<le> gi_count i) (map gap_item_of (take n (sort_key (\<lambda>g. (- int (gg_count g), - gg_last g)) gs)))"
proof -
  have "sorted (map (\<lambda>g. (- int (gg_count g), - gg_last g)) (sort_key (\<lambda>g. (- int (gg_count g), - gg_last g)) gs))" by simp
  then have "sorted_wrt (\<lambda>g h. gg_count h \<le> gg_count g) (sort_key (\<lambda>g. (- int (gg_count g), - gg_last g)) gs)"
    unfolding sorted_map by (rule sorted_wrt_mono_rel [rotated]) (auto simp: less_eq_prod_def)
  then show ?thesis by (simp add: sorted_wrt_map gap_item_of_def sorted_wrt_take)
qed

lemma item_of_group:
  assumes "group_of k as g" and "i = gap_item_of g"
  shows "normalize_question (gi_question i) = k \<and> gi_count i = length as \<and> gi_users i = card (qa_user ` set as) \<and> gi_kinds i \<noteq> []
     \<and> length (gi_reasons i) \<le> 5 \<and> length (gi_sample i) \<le> 400"
proof -
  have g: "distinct (gg_users g)" "gg_kinds g \<noteq> {}" "set (gg_users g) = qa_user ` set as"
    using assms(1) by (simp_all add: group_of_def sound_group_def)
  have "\<exists>x. x \<in> gg_kinds g \<and> x \<in> set KIND_ORDER" using g(2) gap_kind.exhaust by (auto simp: KIND_ORDER_def)
  moreover have "card (qa_user ` set as) = length (gg_users g)" using distinct_card [OF g(1)] g(3) by simp
  ultimately show ?thesis
    using assms by (auto simp: gap_item_of_def group_of_def sound_group_def MAX_REASONS_def SAMPLE_CHARS_def filter_empty_conv)
qed

lemma distinct_group_questions: "groups_of as gs \<Longrightarrow> distinct (map (\<lambda>g. normalize_question (gg_question g)) (map snd gs))"
proof -
  assume a: "groups_of as gs"
  then have "map (\<lambda>g. normalize_question (gg_question g)) (map snd gs) = map fst gs"
    by (auto simp: groups_of_def group_of_def split_beta)
  then show ?thesis using a by (simp only: groups_of_def)
qed

lemma distinct_sort_key: "distinct (map f (sort_key h xs)) \<longleftrightarrow> distinct (map f xs)"
proof -
  have "mset (map f (sort_key h xs)) = mset (map f xs)" by simp
  then show ?thesis by (rule mset_eq_imp_distinct_iff)
qed

text \<open>
  C32. The report accounts for every gap question exactly once: no two items ask the same question up to case,
  blanks and closing punctuation; each item counts exactly the gap questions of the window that do, and their
  different askers, has a kind, at most five reasons and a sample of at most 400 characters; no gap question
  is missing unless the limit is used up; the items are ranked by count, and the rate lies between 0 and 1.
\<close>

theorem gap_report_accounts:
  assumes "r = build_report d days limit now" and "gaps = gap_pairs d (asked_since d (now - of_nat days * 86400))"
  shows "distinct (map (\<lambda>i. normalize_question (gi_question i)) (gr_items r))
    \<and> (\<forall>i \<in> set (gr_items r). gi_count i = length (like (normalize_question (gi_question i)) gaps)
         \<and> gi_users i = card (qa_user ` set (like (normalize_question (gi_question i)) gaps))
         \<and> gi_kinds i \<noteq> [] \<and> length (gi_reasons i) \<le> 5 \<and> length (gi_sample i) \<le> 400)
    \<and> (\<forall>a \<in> set gaps. length (gr_items r) < limit \<longrightarrow> (\<exists>i \<in> set (gr_items r). normalize_question (gi_question i) = question_key a))
    \<and> length (gr_items r) \<le> limit \<and> sorted_wrt (\<lambda>i j. gi_count j \<le> gi_count i) (gr_items r)
    \<and> gr_gaps r = length gaps \<and> 0 \<le> gr_rate r \<and> gr_rate r \<le> 1"
proof -
  let ?groups = "gap_groups d (asked_since d (now - of_nat days * 86400))"
  let ?sorted = "sort_key (\<lambda>g. (- int (gg_count g), - gg_last g)) (map snd ?groups)"
  have gs: "groups_of gaps ?groups" unfolding assms(2) by (rule gap_groups_of)
  have items: "gr_items r = map gap_item_of (take limit ?sorted)" and n: "gr_gaps r = length gaps"
    unfolding assms by (simp_all add: report_fields)
  have each: "\<exists>k. group_of k (like k gaps) g" if "g \<in> set ?sorted" for g
    using that gs by (fastforce simp: groups_of_def)
  have "distinct (map (\<lambda>g. normalize_question (gg_question g)) ?sorted)"
    unfolding distinct_sort_key by (rule distinct_group_questions [OF gs])
  then have "distinct (map (\<lambda>i. normalize_question (gi_question i)) (gr_items r))"
    unfolding items by (simp add: gap_item_of_def comp_def take_map [symmetric])
  moreover have "gi_count i = length (like (normalize_question (gi_question i)) gaps)
      \<and> gi_users i = card (qa_user ` set (like (normalize_question (gi_question i)) gaps))
      \<and> gi_kinds i \<noteq> [] \<and> length (gi_reasons i) \<le> 5 \<and> length (gi_sample i) \<le> 400" if i: "i \<in> set (gr_items r)" for i
  proof -
    obtain g where g: "g \<in> set (take limit ?sorted)" "i = gap_item_of g" using i unfolding items set_map by blast
    obtain k where "group_of k (like k gaps) g" using each [OF in_set_takeD [OF g(1)]] by blast
    from item_of_group [OF this g(2)] show ?thesis by simp
  qed
  moreover have "\<exists>i \<in> set (gr_items r). normalize_question (gi_question i) = question_key a"
    if a: "a \<in> set gaps" and lim: "length (gr_items r) < limit" for a
  proof -
    have "question_key a \<in> fst ` set ?groups" using gs a by (auto simp: groups_of_def)
    then obtain g where g: "(question_key a, g) \<in> set ?groups" by auto
    have "take limit ?sorted = ?sorted" using lim by (simp add: items)
    then have "set (gr_items r) = gap_item_of ` snd ` set ?groups" by (simp add: items)
    moreover have "gap_item_of g \<in> gap_item_of ` snd ` set ?groups" by (rule imageI, rule image_eqI [OF _ g]) simp
    ultimately have "gap_item_of g \<in> set (gr_items r)" by simp
    moreover have "normalize_question (gi_question (gap_item_of g)) = question_key a"
      using gs g by (auto simp: groups_of_def group_of_def gap_item_of_def)
    ultimately show ?thesis by blast
  qed
  moreover have "length (gr_items r) \<le> limit" by (simp add: items)
  moreover have "sorted_wrt (\<lambda>i j. gi_count j \<le> gi_count i) (gr_items r)" unfolding items by (rule items_ranked)
  ultimately show ?thesis using n report_rate unfolding assms(1) by blast
qed

definition demo_gaps_db :: db where
  "demo_gaps_db = empty_db\<lparr>t_sessions := [\<lparr>s_id = 1, s_user = 7, s_title = None, s_created = 5\<rparr>],
     t_messages := [\<lparr>m_id = 2, m_session = 1, m_role = M_USER, m_content = [65, 63], m_citations = None, m_created = 10\<rparr>,
       \<lparr>m_id = 3, m_session = 1, m_role = M_ASSISTANT, m_content = [], m_citations = None, m_created = 20\<rparr>]\<rparr>"

definition demo_asked :: asked where
  "demo_asked = \<lparr>qa_question = [65, 63], qa_id = 3, qa_answer = [], qa_at = 20, qa_user = 7\<rparr>"

lemma demo_gap_pairs: "gap_pairs demo_gaps_db (asked_since demo_gaps_db (100 - of_nat 30 * 86400)) = [demo_asked]"
proof -
  have "asked_since demo_gaps_db (100 - of_nat 30 * 86400) = [demo_asked]"
    by (simp add: asked_since_def recent_messages_def demo_gaps_db_def empty_db_def get_by_def MAX_MESSAGES_def map_filter_simps
        role_order_def less_eq_prod_def demo_asked_def)
  then show ?thesis
    by (simp add: gap_pairs_def kinds_of_def demo_asked_def classify_answer_def strip_def strip_by_def lstrip_by_def rstrip_by_def)
qed

lemma gap_report_accounts_witness:
  "\<exists>i \<in> set (gr_items (build_report demo_gaps_db 30 200 100)). gi_count i = 1 \<and> gi_users i = 1"
proof -
  note all = gap_report_accounts [OF refl refl, of demo_gaps_db 30 200 100, unfolded demo_gap_pairs]
  have "gap_groups demo_gaps_db (asked_since demo_gaps_db (100 - of_nat 30 * 86400)) = add_to_group demo_gaps_db demo_asked []"
    by (simp only: gap_groups_def demo_gap_pairs fold_simps)
  then have "length (gr_items (build_report demo_gaps_db 30 200 100)) < 200" by (simp add: report_fields)
  with all obtain i where i: "i \<in> set (gr_items (build_report demo_gaps_db 30 200 100))"
      and q: "normalize_question (gi_question i) = question_key demo_asked" by (metis list.set_intros(1))
  have "gi_count i = length (like (question_key demo_asked) [demo_asked])"
      "gi_users i = card (qa_user ` set (like (question_key demo_asked) [demo_asked]))" using all i unfolding q [symmetric] by blast+
  then show ?thesis using i by auto
qed

end
