(* ===== verification/Lines.thy ===== *)
theory Lines
  imports Prelude
begin

text \<open>
  \<open>str.splitlines\<close>: the lines of a text, without their ends; a carriage return and a newline count as one end,
  and a final end opens no further line.
\<close>

definition line_break :: "nat \<Rightarrow> bool" where
  "line_break c \<longleftrightarrow> c \<in> {10, 11, 12, 13, 28, 29, 30, 133, 8232, 8233}"

fun splitlines_from :: "pystr \<Rightarrow> pystr \<Rightarrow> pystr list" where
  "splitlines_from acc [] = (if acc = [] then [] else [rev acc])"
| "splitlines_from acc (c # s) =
     (if line_break c then rev acc # splitlines_from [] (if c = 13 \<and> prefix [10] s then drop 1 s else s)
      else splitlines_from (c # acc) s)"

definition splitlines :: "pystr \<Rightarrow> pystr list" where
  "splitlines s = splitlines_from [] s"

lemma splitlines_no_break: "l \<in> set (splitlines_from acc s) \<Longrightarrow> \<forall>c \<in> set acc. \<not> line_break c \<Longrightarrow> c \<in> set l \<Longrightarrow> \<not> line_break c"
proof (induction acc s rule: splitlines_from.induct)
  case (2 acc c' s)
  then show ?case by (cases "line_break c'") auto
qed (auto split: if_splits)

lemma hd_splitlines: "s \<noteq> [] \<Longrightarrow> acc = [] \<longrightarrow> \<not> line_break (hd s)
    \<Longrightarrow> splitlines_from acc s \<noteq> [] \<and> hd (splitlines_from acc s) = rev acc @ takeWhile (\<lambda>c. \<not> line_break c) s"
proof (induction s arbitrary: acc)
  case (Cons c s)
  then show ?case
  proof (cases "line_break c")
    case False
    then show ?thesis using Cons.IH [of "c # acc"] by (cases "s = []") simp_all
  qed simp
qed simp

end
