(* ===== verification/EvalRun.thy ===== *)
theory EvalRun
  imports Eval Gaps Lines
begin

text \<open>
  The golden-set runner \<open>src/eval/run_eval.py\<close>: loading and selecting the cases, the scoring of one case, the
  HTTP client with its retries, the judge, the corpus upload with its waiting loop, the run over the cases
  and the report. The deployment under test is a record of functions on a world \<open>'w\<close>; JSON parsing of a
  golden line is the parameter \<open>loads\<close>. The digits of a judge's reply are the ASCII ones.
\<close>

subsection \<open>Golden set\<close>

record target =
  tg_file :: pystr
  tg_pages :: "int list"

record eval_case =
  ec_id :: pystr
  ec_lang :: pystr
  ec_modality :: pystr
  ec_query :: pystr
  ec_expected :: pystr
  ec_contains :: "pystr list"
  ec_citation :: bool
  ec_insufficient :: bool
  ec_targets :: "target list"

definition load_golden :: "(pystr \<Rightarrow> eval_case option) \<Rightarrow> pystr \<Rightarrow> eval_case list option" where
  "load_golden loads content = those (map loads (filter (\<lambda>l. l \<noteq> [] \<and> \<not> prefix [35] l) (map strip (splitlines content))))"

definition filter_subset :: "eval_case list \<Rightarrow> pystr \<Rightarrow> eval_case list" where
  "filter_subset cases sel =
     (if sel = lit ''all'' then cases
      else if sel = lit ''text'' then filter (\<lambda>c. ec_modality c = lit ''text'') cases
      else if sel = lit ''visual'' then filter (\<lambda>c. ec_modality c \<noteq> lit ''text'') cases
      else filter (\<lambda>c. ec_modality c = sel) cases)"

subsection \<open>Scores\<close>

definition INSUFFICIENT_MARKERS :: "pystr list" where
  "INSUFFICIENT_MARKERS = [lit ''insufficient evidence'', lit ''nicht gen'' @ [252] @ lit ''gend belege'',
     lit ''keine ausreichenden informationen'']"

definition is_insufficient :: "pystr \<Rightarrow> bool \<Rightarrow> bool" where
  "is_insufficient answer flag = (let low = lower (strip answer) in
     flag \<or> low = [] \<or> list_ex (\<lambda>m. py_in m low) INSUFFICIENT_MARKERS)"

definition contains_pass :: "pystr \<Rightarrow> pystr list \<Rightarrow> bool" where
  "contains_pass answer expected = list_all (\<lambda>s. py_in (lower s) (lower answer)) expected"

record hit =
  ht_document :: pystr
  ht_page :: "int option"

definition hit_at_k :: "pystr list \<Rightarrow> pystr set \<Rightarrow> nat \<Rightarrow> bool" where
  "hit_at_k ids targets k = list_ex (\<lambda>d. d \<in> targets) (take k ids)"

definition page_hit_at_k :: "hit list \<Rightarrow> target list \<Rightarrow> (pystr \<Rightarrow> pystr option) \<Rightarrow> nat \<Rightarrow> bool" where
  "page_hit_at_k results targets doc_by_file k =
     list_ex (\<lambda>r. list_ex (\<lambda>t. case doc_by_file (tg_file t) of None \<Rightarrow> False
         | Some d \<Rightarrow> ht_document r = d \<and> (tg_pages t = [] \<or> (case ht_page r of None \<Rightarrow> False | Some p \<Rightarrow> p \<in> set (tg_pages t)))) targets)
       (take k results)"

definition citation_ok :: "pystr list \<Rightarrow> pystr set \<Rightarrow> bool" where
  "citation_ok cites targets = list_ex (\<lambda>c. c \<in> targets) cites"

subsection \<open>HTTP client\<close>

datatype call = Get_documents | Get_collections | Post_upload pystr pystr | Post_search pystr nat bool | Post_chat pystr

record turn_payload =
  tp_answer :: pystr
  tp_citations :: "pystr list"
  tp_insufficient :: bool
  tp_route :: "pystr option"
  tp_cache_hit :: bool

record remote_doc =
  rm_id :: pystr
  rm_collection :: pystr
  rm_filename :: pystr
  rm_status :: pystr

datatype body = Documents_body "remote_doc list" | Collections_body "(pystr \<times> pystr) list" | Uploaded_body bool pystr
  | Search_body "hit list" "hit list" | Chat_body turn_payload | Token_body | Other_body

text \<open>An HTTP exchange: the client's timeout, any other transport error, or a reply.\<close>

datatype reply = Timed_out | Transport_error | Reply nat body

text \<open>\<open>Aborted\<close>: an exception the run does not catch.\<close>

datatype failure = Case_timeout | Status_error nat | Aborted

record 'w remote =
  re_send :: "call \<Rightarrow> 'w \<Rightarrow> reply \<times> 'w"
  re_login :: "'w \<Rightarrow> reply \<times> 'w"
  re_sleep :: "rat \<Rightarrow> 'w \<Rightarrow> 'w"
  re_now :: "'w \<Rightarrow> rat"

definition RETRY_STATUS :: "nat set" where
  "RETRY_STATUS = {429, 502, 503}"

definition MAX_RETRIES :: nat where
  "MAX_RETRIES = 6"

definition success :: "nat \<Rightarrow> bool" where
  "success st \<longleftrightarrow> 200 \<le> st \<and> st < 300"

text \<open>A timeout while logging in is not the one \<open>request\<close> turns into a case result.\<close>

definition login_again :: "'w remote \<Rightarrow> 'w \<Rightarrow> (failure + unit) \<times> 'w" where
  "login_again e w = (case re_login e w of
       (Timed_out, w1) \<Rightarrow> (Inl Aborted, w1)
     | (Transport_error, w1) \<Rightarrow> (Inl Aborted, w1)
     | (Reply st b, w1) \<Rightarrow> (if \<not> success st then (Inl (Status_error st), w1)
         else if b = Token_body then (Inr (), w1) else (Inl Aborted, w1)))"

text \<open>\<open>n\<close> attempts are left; \<open>st\<close> is the last status, raised when none is left.\<close>

fun request_loop :: "'w remote \<Rightarrow> call \<Rightarrow> nat \<Rightarrow> nat \<Rightarrow> 'w \<Rightarrow> (failure + body) \<times> 'w" where
  "request_loop e c st 0 w = (Inl (Status_error st), w)"
| "request_loop e c st (Suc n) w =
     (case re_send e c w of
        (Timed_out, w1) \<Rightarrow> (Inl Case_timeout, w1)
      | (Transport_error, w1) \<Rightarrow> (Inl Aborted, w1)
      | (Reply s b, w1) \<Rightarrow>
          (if s = 401 then (case login_again e w1 of (Inl er, w2) \<Rightarrow> (Inl er, w2) | (Inr _, w2) \<Rightarrow> request_loop e c s n w2)
           else if s = 504 then (Inl Case_timeout, w1)
           else if s \<in> RETRY_STATUS then
             request_loop e c s n (re_sleep e (min (2 * of_nat (MAX_RETRIES - n)) 15) w1)
           else if \<not> success s then (Inl (Status_error s), w1)
           else (Inr b, w1)))"

definition request :: "'w remote \<Rightarrow> call \<Rightarrow> 'w \<Rightarrow> (failure + body) \<times> 'w" where
  "request e c w = request_loop e c 0 MAX_RETRIES w"

definition remote_documents :: "'w remote \<Rightarrow> 'w \<Rightarrow> (failure + remote_doc list) \<times> 'w" where
  "remote_documents e w = (case request e Get_documents w of
       (Inl er, w1) \<Rightarrow> (Inl er, w1)
     | (Inr (Documents_body ds), w1) \<Rightarrow> (Inr ds, w1)
     | (Inr _, w1) \<Rightarrow> (Inl Aborted, w1))"

subsection \<open>Judge\<close>

text \<open>\<open>chat\<close> gives the judge's reply, or \<open>None\<close> when anything raised.\<close>

definition judge_prompt :: "pystr \<Rightarrow> pystr \<Rightarrow> pystr \<Rightarrow> pystr" where
  "judge_prompt question reference answer = lit ''QUESTION: '' @ question @ [10, 10] @ lit ''REFERENCE: '' @ reference @ [10, 10]
     @ lit ''ANSWER: '' @ answer"

definition judge_score :: "pystr \<Rightarrow> rat" where
  "judge_score reply_text = (let digits = filter is_digit reply_text in
     if digits = [] then 1 / 2 else max 0 (min 1 (of_nat (decimal (take 2 digits)) / 10)))"

definition correctness :: "(pystr \<Rightarrow> pystr option) \<Rightarrow> pystr \<Rightarrow> pystr \<Rightarrow> pystr \<Rightarrow> rat" where
  "correctness chat question reference answer =
     (case chat (judge_prompt question reference answer) of None \<Rightarrow> 1 / 2 | Some reply_text \<Rightarrow> judge_score reply_text)"

subsection \<open>Corpus upload\<close>

datatype 'a outcome = Crashed failure | Exited | Finished 'a

definition find_collection :: "pystr \<Rightarrow> (pystr \<times> pystr) list \<Rightarrow> pystr option" where
  "find_collection wanted colls = map_option fst (List.find (\<lambda>(i, n). n = wanted \<or> i = wanted) colls)"

fun upload_all :: "'w remote \<Rightarrow> pystr \<Rightarrow> pystr list \<Rightarrow> 'w \<Rightarrow> failure option \<times> 'w" where
  "upload_all e cid [] w = (None, w)"
| "upload_all e cid (f # fs) w = (case request e (Post_upload cid f) w of
       (Inl er, w1) \<Rightarrow> (Some er, w1)
     | (Inr (Uploaded_body dup st), w1) \<Rightarrow> upload_all e cid fs w1
     | (Inr _, w1) \<Rightarrow> (Some Aborted, w1))"

definition settled_status :: "pystr \<Rightarrow> bool" where
  "settled_status s \<longleftrightarrow> s \<in> {lit ''INDEXED'', lit ''FAILED'', lit ''indexed'', lit ''failed''}"

definition pending_docs :: "pystr \<Rightarrow> remote_doc list \<Rightarrow> remote_doc list" where
  "pending_docs cid ds = filter (\<lambda>d. rm_collection d = cid \<and> \<not> settled_status (rm_status d)) ds"

partial_function (option) wait_loop :: "'w remote \<Rightarrow> pystr \<Rightarrow> rat \<Rightarrow> 'w \<Rightarrow> (unit outcome \<times> 'w) option" where
  "wait_loop e cid deadline w =
     (if \<not> re_now e w < deadline then Some (Exited, w)
      else case remote_documents e w of
        (Inl er, w1) \<Rightarrow> Some (Crashed er, w1)
      | (Inr ds, w1) \<Rightarrow> if pending_docs cid ds = [] then Some (Finished (), w1)
          else wait_loop e cid deadline (re_sleep e 5 w1))"

definition ensure_corpus :: "'w remote \<Rightarrow> pystr list \<Rightarrow> pystr \<Rightarrow> rat \<Rightarrow> 'w \<Rightarrow> (unit outcome \<times> 'w) option" where
  "ensure_corpus e files wanted wait_s w =
     (case request e Get_collections w of
        (Inl er, w1) \<Rightarrow> Some (Crashed er, w1)
      | (Inr (Collections_body colls), w1) \<Rightarrow>
          (case find_collection wanted colls of None \<Rightarrow> Some (Exited, w1)
           | Some cid \<Rightarrow> (case upload_all e cid files w1 of
                (Some er, w2) \<Rightarrow> Some (Crashed er, w2)
              | (None, w2) \<Rightarrow> wait_loop e cid (re_now e w2 + wait_s) w2))
      | (Inr _, w1) \<Rightarrow> Some (Crashed Aborted, w1))"

subsection \<open>Rows\<close>

record run_row =
  rr_id :: pystr
  rr_lang :: pystr
  rr_modality :: pystr
  rr_hit1 :: "bool option"
  rr_hit3 :: "bool option"
  rr_hit5 :: "bool option"
  rr_page5 :: "bool option"
  rr_visual5 :: "bool option"
  rr_error :: "failure option"
  rr_insufficient :: "bool option"
  rr_contains :: "bool option"
  rr_cited :: "bool option"
  rr_cite_ok :: "bool option"
  rr_route :: "pystr option"
  rr_cache_hit :: "bool option"
  rr_answer :: pystr
  rr_passed :: "bool option"
  rr_judge :: "rat option"

record eval_args =
  ea_base_url :: pystr
  ea_subset :: pystr
  ea_limit :: int
  ea_report :: pystr
  ea_upload :: "(pystr list \<times> pystr) option"
  ea_wait_s :: rat
  ea_no_judge :: bool
  ea_retrieval_only :: bool
  ea_judge_model :: pystr

definition case_passed :: "eval_case \<Rightarrow> bool \<Rightarrow> bool \<Rightarrow> bool \<Rightarrow> bool" where
  "case_passed c insuff contains cited =
     (if ec_insufficient c then insuff
      else if insuff then False
      else if \<not> contains then False
      else if ec_citation c \<and> \<not> cited then False
      else True)"

definition base_row :: "eval_case \<Rightarrow> run_row" where
  "base_row c = \<lparr>rr_id = ec_id c, rr_lang = ec_lang c, rr_modality = ec_modality c, rr_hit1 = None, rr_hit3 = None, rr_hit5 = None,
     rr_page5 = None, rr_visual5 = None, rr_error = None, rr_insufficient = None, rr_contains = None, rr_cited = None,
     rr_cite_ok = None, rr_route = None, rr_cache_hit = None, rr_answer = [], rr_passed = None, rr_judge = None\<rparr>"

definition visual_case :: "eval_case \<Rightarrow> bool" where
  "visual_case c \<longleftrightarrow> ec_modality c \<in> {lit ''chart'', lit ''diagram'', lit ''scanned'', lit ''table''}"

definition target_docs :: "(pystr \<Rightarrow> pystr option) \<Rightarrow> eval_case \<Rightarrow> pystr set" where
  "target_docs doc_by_file c = {d. \<exists>t \<in> set (ec_targets c). doc_by_file (tg_file t) = Some d}"

text \<open>The retrieval half of a case: nothing is asked when it has no targets.\<close>

definition score_retrieval :: "'w remote \<Rightarrow> (pystr \<Rightarrow> pystr option) \<Rightarrow> eval_case \<Rightarrow> 'w \<Rightarrow> (failure + run_row) \<times> 'w" where
  "score_retrieval e doc_by_file c w =
     (if ec_targets c = [] then (Inr (base_row c), w)
      else case request e (Post_search (ec_query c) 5 (visual_case c)) w of
        (Inl er, w1) \<Rightarrow> (Inl er, w1)
      | (Inr (Search_body results pages), w1) \<Rightarrow>
          let ids = map ht_document results; docs = target_docs doc_by_file c in
          (Inr ((base_row c)\<lparr>rr_hit1 := Some (hit_at_k ids docs 1), rr_hit3 := Some (hit_at_k ids docs 3), rr_hit5 := Some (hit_at_k ids docs 5),
             rr_page5 := Some (page_hit_at_k results (ec_targets c) doc_by_file 5),
             rr_visual5 := (if visual_case c then Some (page_hit_at_k pages (ec_targets c) doc_by_file 5) else None)\<rparr>), w1)
      | (Inr _, w1) \<Rightarrow> (Inl Aborted, w1))"

definition score_answer :: "(pystr \<Rightarrow> pystr option) option \<Rightarrow> (pystr \<Rightarrow> pystr option) \<Rightarrow> eval_case \<Rightarrow> turn_payload \<Rightarrow> run_row \<Rightarrow> run_row" where
  "score_answer judge doc_by_file c turn row =
     (let insuff = is_insufficient (tp_answer turn) (tp_insufficient turn);
          contains = contains_pass (tp_answer turn) (ec_contains c); cited = (tp_citations turn \<noteq> [])
      in row\<lparr>rr_insufficient := Some insuff, rr_contains := Some contains, rr_cited := Some cited,
          rr_cite_ok := (if ec_targets c \<noteq> [] then Some (citation_ok (tp_citations turn) (target_docs doc_by_file c)) else None),
          rr_route := tp_route turn, rr_cache_hit := Some (tp_cache_hit turn), rr_answer := take 400 (tp_answer turn),
          rr_passed := Some (case_passed c insuff contains cited),
          rr_judge := (case judge of None \<Rightarrow> None
             | Some chat \<Rightarrow> if ec_insufficient c then None else Some (correctness chat (ec_query c) (ec_expected c) (tp_answer turn)))\<rparr>)"

text \<open>What a timed-out or refused exchange makes of the row built so far.\<close>

definition failed_row :: "failure \<Rightarrow> run_row \<Rightarrow> run_row" where
  "failed_row er row = row\<lparr>rr_insufficient := Some False, rr_contains := Some False, rr_cited := Some False, rr_cite_ok := None,
     rr_route := None, rr_cache_hit := Some False, rr_answer := [], rr_passed := Some False, rr_error := Some er\<rparr>"

text \<open>\<open>None\<close>: an exception that ends the run.\<close>

definition run_case :: "'w remote \<Rightarrow> eval_args \<Rightarrow> (pystr \<Rightarrow> pystr option) option \<Rightarrow> (pystr \<Rightarrow> pystr option) \<Rightarrow> eval_case \<Rightarrow> 'w
    \<Rightarrow> run_row option \<times> 'w" where
  "run_case e args judge doc_by_file c w =
     (case score_retrieval e doc_by_file c w of
        (Inl er, w1) \<Rightarrow> (if er = Aborted then None else Some (failed_row er (base_row c)), w1)
      | (Inr row, w1) \<Rightarrow>
          if ea_retrieval_only args then (Some row, w1)
          else (case request e (Post_chat (ec_query c)) w1 of
              (Inl er, w2) \<Rightarrow> (if er = Aborted then None else Some (failed_row er row), w2)
            | (Inr (Chat_body turn), w2) \<Rightarrow> (Some (score_answer judge doc_by_file c turn row), w2)
            | (Inr _, w2) \<Rightarrow> (None, w2)))"

fun run_cases :: "'w remote \<Rightarrow> eval_args \<Rightarrow> (pystr \<Rightarrow> pystr option) option \<Rightarrow> (pystr \<Rightarrow> pystr option) \<Rightarrow> eval_case list \<Rightarrow> 'w
    \<Rightarrow> run_row list option \<times> 'w" where
  "run_cases e args judge doc_by_file [] w = (Some [], w)"
| "run_cases e args judge doc_by_file (c # cs) w =
     (case run_case e args judge doc_by_file c w of
        (None, w1) \<Rightarrow> (None, w1)
      | (Some row, w1) \<Rightarrow> (case run_cases e args judge doc_by_file cs w1 of
            (None, w2) \<Rightarrow> (None, w2)
          | (Some rows, w2) \<Rightarrow> (Some (row # rows), w2)))"

definition selected_cases :: "eval_args \<Rightarrow> eval_case list \<Rightarrow> eval_case list" where
  "selected_cases args cases = (let cs = filter_subset cases (ea_subset args) in
     if ea_limit args = 0 then cs else take (nat (if ea_limit args < 0 then int (length cs) + ea_limit args else ea_limit args)) cs)"

text \<open>A file name that several documents carry stands for the last of them.\<close>

definition doc_index :: "remote_doc list \<Rightarrow> pystr \<Rightarrow> pystr option" where
  "doc_index ds = map_of (rev (map (\<lambda>d. (rm_filename d, rm_id d)) ds))"

definition score_cases :: "'w remote \<Rightarrow> eval_args \<Rightarrow> (pystr \<Rightarrow> pystr option) \<Rightarrow> eval_case list \<Rightarrow> 'w \<Rightarrow> run_row list outcome \<times> 'w" where
  "score_cases e args chat cs w =
     (case remote_documents e w of (Inl er, w1) \<Rightarrow> (Crashed er, w1)
      | (Inr ds, w1) \<Rightarrow>
         if list_ex (\<lambda>c. list_ex (\<lambda>t. doc_index ds (tg_file t) = None) (ec_targets c)) cs then (Exited, w1)
         else (case run_cases e args (if ea_no_judge args \<or> ea_retrieval_only args then None else Some chat) (doc_index ds) cs w1 of
             (None, w2) \<Rightarrow> (Crashed Aborted, w2)
           | (Some rows, w2) \<Rightarrow> (Finished rows, w2)))"

definition prepare_corpus :: "'w remote \<Rightarrow> eval_args \<Rightarrow> 'w \<Rightarrow> (unit outcome \<times> 'w) option" where
  "prepare_corpus e args w = (case ea_upload args of None \<Rightarrow> Some (Finished (), w)
     | Some (files, wanted) \<Rightarrow> ensure_corpus e files wanted (ea_wait_s args) w)"

definition run_golden_set :: "'w remote \<Rightarrow> eval_args \<Rightarrow> (pystr \<Rightarrow> pystr option) \<Rightarrow> eval_case list \<Rightarrow> 'w \<Rightarrow> (run_row list outcome \<times> 'w) option" where
  "run_golden_set e args chat cases w =
     (case login_again e w of (Inl er, w1) \<Rightarrow> Some (Crashed er, w1)
      | (Inr _, w1) \<Rightarrow>
        (case prepare_corpus e args w1 of
           None \<Rightarrow> None
         | Some (r, w2) \<Rightarrow> (case r of Crashed er \<Rightarrow> Some (Crashed er, w2) | Exited \<Rightarrow> Some (Exited, w2)
             | Finished _ \<Rightarrow> Some (score_cases e args chat (selected_cases args cases) w2))))"

subsection \<open>Aggregation\<close>

definition rate :: "bool option list \<Rightarrow> rat" where
  "rate vals = (let vs = List.map_filter (\<lambda>v. v) vals in if vs = [] then 0 else of_nat (length (filter (\<lambda>v. v) vs)) / of_nat (length vs))"

definition mean_rate :: "rat option list \<Rightarrow> rat" where
  "mean_rate vals = (let vs = List.map_filter (\<lambda>v. v) vals in if vs = [] then 0 else sum_list vs / of_nat (length vs))"

fun put_group :: "pystr \<Rightarrow> 'r \<Rightarrow> (pystr \<times> 'r list) list \<Rightarrow> (pystr \<times> 'r list) list" where
  "put_group k r [] = [(k, [r])]"
| "put_group k r ((k', rs) # gs) = (if k' = k then (k', rs @ [r]) # gs else (k', rs) # put_group k r gs)"

definition group_rows :: "('r \<Rightarrow> pystr) \<Rightarrow> 'r list \<Rightarrow> (pystr \<times> 'r list) list" where
  "group_rows field rows = fold (\<lambda>r gs. put_group (field r) r gs) rows []"

subsection \<open>Report\<close>

text \<open>\<open>f"{x:.1f}"\<close> on exact numbers; the scores are never negative.\<close>

definition fixed1 :: "rat \<Rightarrow> pystr" where
  "fixed1 x = (let n = nat (round_half_even (10 * x)) in nat_str (n div 10) @ [46] @ nat_str (n mod 10))"

definition pct :: "rat \<Rightarrow> pystr" where
  "pct v = fixed1 (100 * v) @ [37]"

definition mark :: "bool option \<Rightarrow> pystr" where
  "mark v = (case v of None \<Rightarrow> [8212] | Some b \<Rightarrow> if b then [10003] else [10007])"

definition cells :: "pystr list \<Rightarrow> pystr" where
  "cells xs = lit ''| '' @ join (lit '' | '') xs @ lit '' |''"

definition judge_off :: "eval_args \<Rightarrow> bool" where
  "judge_off args \<longleftrightarrow> ea_no_judge args \<or> ea_retrieval_only args"

definition aggregate_lines :: "eval_args \<Rightarrow> run_row list \<Rightarrow> pystr list" where
  "aggregate_lines args rows =
     [lit ''## Aggregate'', [], lit ''| metric | overall |'', lit ''|---|---|'',
      cells [lit ''pass rate'', pct (rate (map rr_passed rows))],
      cells [lit ''retrieval hit@1'', pct (rate (map rr_hit1 rows))],
      cells [lit ''retrieval hit@3'', pct (rate (map rr_hit3 rows))],
      cells [lit ''retrieval hit@5'', pct (rate (map rr_hit5 rows))],
      cells [lit ''page hit@5'', pct (rate (map rr_page5 rows))],
      cells [lit ''visual (ColQwen2) hit@5'', pct (rate (map rr_visual5 rows))],
      cells [lit ''citation present'', pct (rate (map rr_cited rows))],
      cells [lit ''citation '' @ [8594] @ lit '' correct doc'', pct (rate (map rr_cite_ok rows))],
      cells [lit ''timeouts/errors'', nat_str (length (filter (\<lambda>r. rr_error r \<noteq> None) rows))]]
     @ (if judge_off args then [] else [cells [lit ''judge correctness'', pct (mean_rate (map rr_judge rows))]])"

definition modality_lines :: "eval_args \<Rightarrow> run_row list \<Rightarrow> pystr list" where
  "modality_lines args rows =
     [[], lit ''## By modality'', [], lit ''| modality | n | pass | hit@5 | judge |'', lit ''|---|---|---|---|---|'']
     @ map (\<lambda>(m, rs). cells [m, nat_str (length rs), pct (rate (map rr_passed rs)), pct (rate (map rr_hit5 rs)),
              if judge_off args then [8212] else pct (mean_rate (map rr_judge rs))])
         (sort_key fst (group_rows rr_modality rows))"

definition language_lines :: "run_row list \<Rightarrow> pystr list" where
  "language_lines rows =
     [[], lit ''## By language'', [], lit ''| lang | n | pass | hit@5 |'', lit ''|---|---|---|---|'']
     @ map (\<lambda>(l, rs). cells [l, nat_str (length rs), pct (rate (map rr_passed rs)), pct (rate (map rr_hit5 rs))])
         (sort_key fst (group_rows rr_lang rows))"

definition case_lines :: "run_row list \<Rightarrow> pystr list" where
  "case_lines rows =
     [[], lit ''## Per-case results'', [], lit ''| id | modality | pass | hit@5 | page@5 | cites ok | route |'', lit ''|---|---|---|---|---|---|---|'']
     @ map (\<lambda>r. cells [rr_id r, rr_modality r, mark (rr_passed r), mark (rr_hit5 r), mark (rr_page5 r), mark (rr_cite_ok r),
              (case rr_route r of None \<Rightarrow> [8212] | Some x \<Rightarrow> if x = [] then [8212] else x)]) rows"

definition render_report :: "eval_args \<Rightarrow> run_row list \<Rightarrow> pystr \<Rightarrow> rat \<Rightarrow> nat \<Rightarrow> pystr" where
  "render_report args rows date elapsed n = join [10]
     ([lit ''# Eval report: '' @ ea_report args, [],
       lit ''- Date: '' @ date @ lit ''  '' @ [183] @ lit ''  Cases: '' @ nat_str n @ lit ''  '' @ [183] @ lit ''  Subset: '' @ ea_subset args
         @ lit ''  '' @ [183] @ lit ''  Duration: '' @ fixed1 (elapsed / 60) @ lit '' min'',
       lit ''- Backend: `'' @ ea_base_url args @ lit ''`  '' @ [183] @ lit ''  Judge: '' @ (if judge_off args then lit ''off'' else ea_judge_model args), []]
      @ (if ea_retrieval_only args
         then [lit ''> **Retrieval-only run:** answer metrics (pass rate, citations, judge)'',
               lit ''> were NOT measured '' @ [8212] @ lit '' only the hit@k rows are meaningful.'', []]
         else [])
      @ aggregate_lines args rows @ modality_lines args rows @ language_lines rows @ case_lines rows @ [[]])"

subsection \<open>The client ends\<close>

text \<open>Meters on the world: the exchanges sent and the time slept.\<close>

definition metered :: "'w remote \<Rightarrow> ('w \<Rightarrow> nat) \<Rightarrow> ('w \<Rightarrow> rat) \<Rightarrow> bool" where
  "metered e sends slept \<longleftrightarrow> (\<forall>c w. sends (snd (re_send e c w)) = Suc (sends w) \<and> slept (snd (re_send e c w)) = slept w)
     \<and> (\<forall>w. sends (snd (re_login e w)) = sends w \<and> slept (snd (re_login e w)) = slept w)
     \<and> (\<forall>t w. sends (re_sleep e t w) = sends w \<and> slept (re_sleep e t w) = slept w + t)"

lemma login_world: "snd (login_again e w) = snd (re_login e w)"
  by (simp add: login_again_def split: prod.split reply.split)

lemma loop_metered:
  assumes "metered e sends slept"
  shows "sends (snd (request_loop e c st n w)) \<le> sends w + n
    \<and> slept (snd (request_loop e c st n w)) \<le> slept w + (\<Sum>k<n. 2 * of_nat (MAX_RETRIES - k))"
proof (induction n arbitrary: st w)
  case (Suc n)
  let ?B = "(\<Sum>k<n. 2 * of_nat (MAX_RETRIES - k)) :: rat" and ?t = "min (2 * of_nat (MAX_RETRIES - n)) 15 :: rat"
  have B: "0 \<le> ?B" by (simp add: sum_nonneg)
  obtain rp w1 where sent: "re_send e c w = (rp, w1)" by fastforce
  have w1: "sends w1 = Suc (sends w)" "slept w1 = slept w" using assms sent unfolding metered_def by (metis snd_conv)+
  show ?case
  proof (cases rp)
    case (Reply s b)
    obtain x w2 where l: "login_again e w1 = (x, w2)" by fastforce
    then have "w2 = snd (re_login e w1)" using login_world [of e w1] by simp
    then have w2: "sends w2 = Suc (sends w)" "slept w2 = slept w" using assms w1 unfolding metered_def by simp_all
    have w3: "sends (re_sleep e ?t w1) = Suc (sends w)" "slept (re_sleep e ?t w1) = slept w + ?t"
      using assms w1 unfolding metered_def by simp_all
    have t: "?t \<le> 2 * of_nat (MAX_RETRIES - n)" by simp
    consider "s = 401" | "s = 504" | "s \<in> RETRY_STATUS" "s \<noteq> 401" "s \<noteq> 504" | "s \<notin> RETRY_STATUS" "s \<noteq> 401" "s \<noteq> 504" by blast
    then show ?thesis
    proof cases
      case 1
      have "sends w2 \<le> sends w + Suc n" "slept w2 \<le> slept w + (\<Sum>k<Suc n. 2 * of_nat (MAX_RETRIES - k))" using w2 B by simp_all
      with 1 Suc.IH [of s w2] w2 show ?thesis by (cases x) (simp_all add: sent Reply l)
    next
      case 3
      have "slept (snd (request_loop e c s n (re_sleep e ?t w1))) \<le> slept w + ?t + ?B" using Suc.IH [of s "re_sleep e ?t w1"] w3 by simp
      also have "\<dots> \<le> slept w + (\<Sum>k<Suc n. 2 * of_nat (MAX_RETRIES - k))" by simp
      finally show ?thesis using 3 Suc.IH [of s "re_sleep e ?t w1"] w3(1) by (simp add: sent Reply)
    qed (use w1 B in \<open>simp_all add: sent Reply\<close>)
  qed (use w1 B in \<open>simp_all add: sent\<close>)
qed simp

lemma loop_reply: "request_loop e c st n w = (Inr b, w') \<Longrightarrow> \<exists>w1 s. re_send e c w1 = (Reply s b, w') \<and> success s"
proof (induction n arbitrary: st w)
  case (Suc n)
  obtain rp w1 where sent: "re_send e c w = (rp, w1)" by fastforce
  with Suc.prems obtain s b' where rp: "rp = Reply s b'" by (cases rp) simp_all
  show ?case
  proof (cases "s = 401 \<or> s \<in> RETRY_STATUS")
    case True
    then show ?thesis using Suc.prems Suc.IH
      by (auto simp: sent rp RETRY_STATUS_def split: prod.splits sum.splits if_splits)
  next
    case False
    then have "b' = b" "w1 = w'" "success s" using Suc.prems by (auto simp: sent rp split: if_splits)
    then show ?thesis using sent rp by blast
  qed
qed simp

text \<open>
  A request of the runner ends after at most six exchanges and 42 seconds of waiting, and returns a body
  only from a successful reply.
\<close>

theorem request_bounded:
  assumes "metered e sends slept" and "request e c w = (r, w')"
  shows "sends w' \<le> sends w + 6 \<and> slept w' \<le> slept w + 42
    \<and> (\<forall>b. r = Inr b \<longrightarrow> (\<exists>w1 s. re_send e c w1 = (Reply s b, w') \<and> success s))"
proof -
  have "(\<Sum>k<MAX_RETRIES. 2 * rat_of_nat (MAX_RETRIES - k)) = 42" by (simp add: MAX_RETRIES_def eval_nat_numeral)
  with loop_metered [OF assms(1), of c 0 MAX_RETRIES w] loop_reply [of e c 0 MAX_RETRIES w] assms(2)
  show ?thesis by (auto simp: request_def MAX_RETRIES_def)
qed

subsection \<open>The wait ends\<close>

text \<open>What is relied on of the clock: it never runs backwards and a sleep lasts as long as it says.\<close>

definition clocked :: "'w remote \<Rightarrow> bool" where
  "clocked e \<longleftrightarrow> (\<forall>c w. re_now e w \<le> re_now e (snd (re_send e c w))) \<and> (\<forall>w. re_now e w \<le> re_now e (snd (re_login e w)))
     \<and> (\<forall>t w. 0 \<le> t \<longrightarrow> re_now e w + t \<le> re_now e (re_sleep e t w))"

lemma loop_clock: "clocked e \<Longrightarrow> re_now e w \<le> re_now e (snd (request_loop e c st n w))"
proof (induction n arbitrary: st w)
  case (Suc n)
  obtain rp w1 where sent: "re_send e c w = (rp, w1)" by fastforce
  have w1: "re_now e w \<le> re_now e w1" using Suc.prems sent unfolding clocked_def by (metis snd_conv)
  show ?case
  proof (cases rp)
    case (Reply s b)
    obtain x w2 where l: "login_again e w1 = (x, w2)" by fastforce
    then have "w2 = snd (re_login e w1)" using login_world [of e w1] by simp
    then have w2: "re_now e w \<le> re_now e w2" using Suc.prems w1 unfolding clocked_def by (metis order_trans)
    let ?t = "min (2 * of_nat (MAX_RETRIES - n)) 15 :: rat"
    let ?w3 = "re_sleep e ?t w1"
    have t: "0 \<le> ?t" by simp
    then have "re_now e w1 + ?t \<le> re_now e ?w3" using Suc.prems unfolding clocked_def by blast
    with t w1 have w3: "re_now e w \<le> re_now e ?w3" by linarith
    show ?thesis
      using order_trans [OF w2 Suc.IH [OF Suc.prems, of w2 s]] order_trans [OF w3 Suc.IH [OF Suc.prems, of ?w3 s]] w1 w2
      by (cases x) (auto simp: sent Reply l)
  qed (use w1 in \<open>simp_all add: sent\<close>)
qed simp

lemma documents_clock: "clocked e \<Longrightarrow> remote_documents e w = (r, w') \<Longrightarrow> re_now e w \<le> re_now e w'"
  using loop_clock [of e w Get_documents 0 MAX_RETRIES]
  by (auto simp: remote_documents_def request_def split: prod.splits sum.splits body.splits)

text \<open>
  Waiting for the corpus ends: whatever the deployment answers, the loop leaves, and when it reports the corpus as indexed,
  no document of the collection was pending in the listing it had just received.
\<close>

theorem wait_returns:
  assumes "clocked e"
  shows "\<exists>r w'. wait_loop e cid deadline w = Some (r, w')
    \<and> (r = Finished () \<longrightarrow> (\<exists>ds w1. remote_documents e w1 = (Inr ds, w') \<and> pending_docs cid ds = []))"
proof (induction "nat \<lceil>deadline - re_now e w\<rceil>" arbitrary: w rule: less_induct)
  case less
  show ?case
  proof (cases "re_now e w < deadline")
    case True
    obtain r w1 where r: "remote_documents e w = (r, w1)" by fastforce
    show ?thesis
    proof (cases "\<exists>ds. r = Inr ds \<and> pending_docs cid ds \<noteq> []")
      case False
      then show ?thesis using r by (subst wait_loop.simps) (auto simp: True split: sum.split)
    next
      case busy: True
      have "re_now e w \<le> re_now e w1" by (rule documents_clock [OF assms r])
      moreover have "re_now e w1 + 5 \<le> re_now e (re_sleep e 5 w1)" using assms unfolding clocked_def by simp
      ultimately have "nat \<lceil>deadline - re_now e (re_sleep e 5 w1)\<rceil> < nat \<lceil>deadline - re_now e w\<rceil>" using True by linarith
      from less [OF this] busy show ?thesis by (subst wait_loop.simps) (auto simp: r True, blast+)
    qed
  next
    case False
    then show ?thesis by (subst wait_loop.simps) simp
  qed
qed

subsection \<open>The rows of a run\<close>

lemma hit_at_k_mono: "hit_at_k ids ts j \<Longrightarrow> j \<le> k \<Longrightarrow> hit_at_k ids ts k"
  by (auto simp: hit_at_k_def list_ex_iff dest!: set_take_subset_set_take [THEN subsetD])

lemma page_hit_is_hit: "page_hit_at_k results (ec_targets c) idx k \<Longrightarrow> hit_at_k (map ht_document results) (target_docs idx c) k"
  by (fastforce simp: page_hit_at_k_def hit_at_k_def list_ex_iff target_docs_def take_map split: option.splits)

text \<open>What every row keeps: its case's name, nested hits, and a pass that the case's expectations justify.\<close>

definition hits_nested :: "run_row \<Rightarrow> bool" where
  "hits_nested r \<longleftrightarrow> (rr_hit1 r = None \<and> rr_hit3 r = None \<and> rr_hit5 r = None \<and> rr_page5 r = None)
     \<or> (\<exists>h1 h3 h5 p. rr_hit1 r = Some h1 \<and> rr_hit3 r = Some h3 \<and> rr_hit5 r = Some h5 \<and> rr_page5 r = Some p
          \<and> (h1 \<longrightarrow> h3) \<and> (h3 \<longrightarrow> h5) \<and> (p \<longrightarrow> h5))"

definition sound_row :: "eval_case \<Rightarrow> run_row \<Rightarrow> bool" where
  "sound_row c r \<longleftrightarrow> rr_id r = ec_id c \<and> rr_modality r = ec_modality c \<and> rr_lang r = ec_lang c \<and> hits_nested r
     \<and> (rr_error r \<noteq> None \<longrightarrow> rr_passed r = Some False)
     \<and> (rr_passed r = Some True \<longrightarrow> (if ec_insufficient c then rr_insufficient r = Some True
          else rr_insufficient r = Some False \<and> rr_contains r = Some True \<and> (ec_citation c \<longrightarrow> rr_cited r = Some True)))"

lemma sound_base: "sound_row c (base_row c)"
  by (simp add: sound_row_def base_row_def hits_nested_def)

lemma sound_failed: "hits_nested row \<Longrightarrow> rr_id row = ec_id c \<Longrightarrow> rr_modality row = ec_modality c \<Longrightarrow> rr_lang row = ec_lang c \<Longrightarrow> sound_row c (failed_row er row)"
  by (simp add: sound_row_def failed_row_def hits_nested_def)

lemma retrieval_row:
  assumes "score_retrieval e idx c w = (Inr row, w')"
  shows "hits_nested row \<and> rr_id row = ec_id c \<and> rr_modality row = ec_modality c \<and> rr_lang row = ec_lang c \<and> rr_error row = None \<and> rr_passed row = None"
proof -
  consider "row = base_row c" | results pages where "row = (base_row c)\<lparr>rr_hit1 := Some (hit_at_k (map ht_document results) (target_docs idx c) 1),
       rr_hit3 := Some (hit_at_k (map ht_document results) (target_docs idx c) 3), rr_hit5 := Some (hit_at_k (map ht_document results) (target_docs idx c) 5),
       rr_page5 := Some (page_hit_at_k results (ec_targets c) idx 5), rr_visual5 := (if visual_case c then Some (page_hit_at_k pages (ec_targets c) idx 5) else None)\<rparr>"
    using assms by (fastforce simp: score_retrieval_def Let_def split: if_splits prod.splits sum.splits body.splits)
  then show ?thesis
  proof cases
    case 2
    show ?thesis unfolding 2 using page_hit_is_hit [of results c idx 5]
      by (auto simp: base_row_def hits_nested_def intro: hit_at_k_mono)
  qed (simp add: base_row_def hits_nested_def)
qed

lemma answer_row:
  assumes "hits_nested row" and "rr_id row = ec_id c" and "rr_modality row = ec_modality c" and "rr_lang row = ec_lang c" and "rr_error row = None"
  shows "sound_row c (score_answer judge idx c turn row)"
  using assms by (simp add: sound_row_def score_answer_def hits_nested_def case_passed_def Let_def)

lemma case_row:
  assumes "run_case e args judge idx c w = (Some row, w')"
  shows "sound_row c row"
proof -
  obtain x w1 where ret: "score_retrieval e idx c w = (x, w1)" by fastforce
  show ?thesis
  proof (cases x)
    case (Inl er)
    then have "row = failed_row er (base_row c)" using assms ret by (auto simp: run_case_def split: if_splits)
    moreover have "sound_row c (failed_row er (base_row c))"
      by (intro sound_failed) (simp_all add: base_row_def hits_nested_def)
    ultimately show ?thesis by simp
  next
    case (Inr row0)
    note row0 = retrieval_row [OF ret [unfolded Inr]]
    then have "sound_row c row0" by (simp add: sound_row_def)
    then show ?thesis
      using assms ret Inr row0
      by (auto simp: run_case_def split: if_splits prod.splits sum.splits body.splits intro: sound_failed answer_row)
  qed
qed

lemma cases_rows: "run_cases e args judge idx cs w = (Some rows, w') \<Longrightarrow> list_all2 sound_row cs rows"
  by (induction cs arbitrary: w rows) (auto split: prod.splits option.splits dest: case_row)

lemma list_all2_rows: "list_all2 sound_row cs rows \<Longrightarrow> map rr_id rows = map ec_id cs \<and> (\<forall>r \<in> set rows. hits_nested r)"
  by (induction rule: list_all2_induct) (auto simp: sound_row_def)

text \<open>Rates are monotone in rows that answer together.\<close>

lemma rate_mono:
  assumes "\<forall>r \<in> set rows. (f r = None \<and> g r = None) \<or> (\<exists>a b. f r = Some a \<and> g r = Some b \<and> (a \<longrightarrow> b))"
  shows "rate (map f rows) \<le> rate (map g rows)"
proof -
  let ?vs = "\<lambda>h. List.map_filter (\<lambda>v. v) (map h rows)"
  have "length (?vs f) = length (?vs g) \<and> length (filter (\<lambda>v. v) (?vs f)) \<le> length (filter (\<lambda>v. v) (?vs g))"
    using assms by (induction rows) (auto simp: map_filter_simps)
  then show ?thesis by (auto simp: rate_def Let_def divide_right_mono)
qed

lemma rate_range: "0 \<le> rate vals \<and> rate vals \<le> 1"
proof -
  have "length (filter (\<lambda>v. v) xs) \<le> length xs" for xs :: "bool list" by simp
  then show ?thesis by (auto simp: rate_def Let_def divide_le_eq)
qed

text \<open>Groups: every field value once, with exactly its rows in their order.\<close>

lemma put_group_keys: "map fst (put_group k r gs) = (if k \<in> fst ` set gs then map fst gs else map fst gs @ [k])"
  by (induction gs) (auto, force)

lemma put_group_map: "map_of (put_group k r gs) = (map_of gs)(k \<mapsto> (case map_of gs k of None \<Rightarrow> [r] | Some rs \<Rightarrow> rs @ [r]))"
  by (induction gs) auto

lemma group_rows_snoc: "group_rows f (rows @ [r]) = put_group (f r) r (group_rows f rows)"
  by (simp add: group_rows_def)

lemma group_rows_map: "map_of (group_rows f rows) k = (let rs = filter (\<lambda>r. f r = k) rows in if rs = [] then None else Some rs)"
proof (induction rows rule: rev_induct)
  case (snoc r rows)
  then show ?case by (auto simp: group_rows_snoc put_group_map Let_def)
qed (simp add: group_rows_def)

lemma group_rows_distinct: "distinct (map fst (group_rows f rows))"
proof (induction rows rule: rev_induct)
  case (snoc r rows)
  then show ?case by (auto simp: group_rows_snoc put_group_keys)
qed (simp add: group_rows_def)

lemma group_rows_keys: "fst ` set (group_rows f rows) = f ` set rows"
proof (induction rows rule: rev_induct)
  case (snoc r rows)
  have "fst ` set (put_group (f r) r (group_rows f rows)) = set (map fst (put_group (f r) r (group_rows f rows)))" by simp
  also have "\<dots> = insert (f r) (fst ` set (group_rows f rows))" unfolding put_group_keys by auto
  finally show ?case using snoc by (simp add: group_rows_snoc)
qed (simp add: group_rows_def)

lemma group_rows_iff: "(k, rs) \<in> set (group_rows f rows) \<longleftrightarrow> rs = filter (\<lambda>r. f r = k) rows \<and> rs \<noteq> []"
proof -
  have "(k, rs) \<in> set (group_rows f rows) \<longleftrightarrow> map_of (group_rows f rows) k = Some rs"
    using group_rows_distinct [of f rows] by (simp add: map_of_eq_Some_iff)
  then show ?thesis by (auto simp: group_rows_map Let_def)
qed

lemma score_cases_rows: "score_cases e args chat cs w = (Finished rows, w') \<Longrightarrow> list_all2 sound_row cs rows"
  by (auto simp: score_cases_def split: prod.splits sum.splits option.splits if_splits dest: cases_rows)

lemma golden_rows:
  assumes "run_golden_set e args chat cases w = Some (Finished rows, w')"
  shows "list_all2 sound_row (selected_cases args cases) rows"
proof -
  obtain x w1 where l: "login_again e w = (x, w1)" by fastforce
  with assms have x: "x = Inr ()" by (cases x) (simp_all add: run_golden_set_def)
  with assms l obtain r w2 where p: "prepare_corpus e args w1 = Some (r, w2)"
    by (cases "prepare_corpus e args w1") (auto simp: run_golden_set_def)
  with assms l x have "score_cases e args chat (selected_cases args cases) w2 = (Finished rows, w')"
    by (cases r) (simp_all add: run_golden_set_def)
  then show ?thesis by (rule score_cases_rows)
qed

text \<open>
  C40. The report says what was measured: a finished run has exactly one row per selected case, in order; every
  row's verdict is justified by its case and an errored case has failed; hit@1, hit@3 and hit@5 grow, the page
  rate never exceeds hit@5, every rate lies in 0..1; and the modality table splits the rows: every modality
  of a row once, with exactly its rows.
\<close>

theorem golden_report_consistent:
  assumes "run_golden_set e args chat cases w = Some (Finished rows, w')"
  shows "map rr_id rows = map ec_id (selected_cases args cases) \<and> list_all2 sound_row (selected_cases args cases) rows
    \<and> rate (map rr_hit1 rows) \<le> rate (map rr_hit3 rows) \<and> rate (map rr_hit3 rows) \<le> rate (map rr_hit5 rows)
    \<and> rate (map rr_page5 rows) \<le> rate (map rr_hit5 rows) \<and> 0 \<le> rate (map rr_passed rows) \<and> rate (map rr_hit5 rows) \<le> 1
    \<and> distinct (map fst (group_rows rr_modality rows)) \<and> fst ` set (group_rows rr_modality rows) = rr_modality ` set rows
    \<and> (\<forall>(m, rs) \<in> set (group_rows rr_modality rows). rs = filter (\<lambda>r. rr_modality r = m) rows)"
proof -
  note rows = golden_rows [OF assms]
  have nested: "\<forall>r \<in> set rows. hits_nested r" using list_all2_rows [OF rows] by blast
  have "rate (map rr_hit1 rows) \<le> rate (map rr_hit3 rows)" "rate (map rr_hit3 rows) \<le> rate (map rr_hit5 rows)"
      "rate (map rr_page5 rows) \<le> rate (map rr_hit5 rows)"
    by (rule rate_mono; use nested in \<open>auto simp: hits_nested_def dest!: bspec\<close>)+
  moreover have "\<forall>(m, rs) \<in> set (group_rows rr_modality rows). rs = filter (\<lambda>r. rr_modality r = m) rows"
    by (auto simp: group_rows_iff)
  ultimately show ?thesis
    using rows list_all2_rows [OF rows] rate_range [of "map rr_passed rows"] rate_range [of "map rr_hit5 rows"]
    by (intro conjI group_rows_distinct group_rows_keys) simp_all
qed

text \<open>
  A judge that answers out of ten is taken to give full marks: the first two digits of ``3/10'' are 31.
\<close>

lemma judge_out_of_ten:
  assumes "1 \<le> n" and "n \<le> 9"
  shows "judge_score (nat_str n @ lit ''/10'') = 1" and "judge_score (nat_str n) = of_nat n / 10"
proof -
  have ns: "nat_str n = [48 + n]" using assms by (subst nat_str.simps) simp
  have d: "is_digit (48 + n)" using assms by (simp add: is_digit_def)
  have full: "1 \<le> (of_nat (n * 10 + 1) / 10 :: rat)" using assms by simp
  show "judge_score (nat_str n @ lit ''/10'') = 1"
    using d full by (simp add: ns judge_score_def lit_Cons decimal_def) (simp add: is_digit_def)
  show "judge_score (nat_str n) = of_nat n / 10"
    using d assms by (simp add: ns judge_score_def decimal_def)
qed

text \<open>A transport failure, unlike a timeout, is no case result: it ends the run.\<close>

lemma transport_error_aborts:
  assumes "re_send e (Post_chat (ec_query c)) w = (Transport_error, w1)" and "ec_targets c = []" and "\<not> ea_retrieval_only args"
  shows "run_cases e args judge idx (c # cs) w = (None, w1)"
  using assms by (simp add: run_case_def score_retrieval_def request_def MAX_RETRIES_def eval_nat_numeral)

subsection \<open>Witnesses\<close>

text \<open>A deployment that is over its quota at first: the world counts exchanges and seconds.\<close>

definition demo_remote :: "(nat \<times> rat) remote" where
  "demo_remote = \<lparr>re_send = (\<lambda>c (n, t). (if n = 0 then Reply 429 Other_body
        else (case c of Get_documents \<Rightarrow> Reply 200 (Documents_body [\<lparr>rm_id = [55], rm_collection = [51], rm_filename = [97], rm_status = lit ''indexed''\<rparr>])
              | Post_search q k p \<Rightarrow> Reply 200 (Search_body [\<lparr>ht_document = [55], ht_page = None\<rparr>] [])
              | Post_chat q \<Rightarrow> Reply 200 (Chat_body \<lparr>tp_answer = [], tp_citations = [], tp_insufficient = True, tp_route = None, tp_cache_hit = False\<rparr>)
              | _ \<Rightarrow> Reply 404 Other_body), (Suc n, t))),
     re_login = (\<lambda>w. (Reply 200 Token_body, w)), re_sleep = (\<lambda>s (n, t). (n, t + s)), re_now = snd\<rparr>"

lemma demo_metered: "metered demo_remote fst snd"
  by (simp add: metered_def demo_remote_def split_beta)

lemma demo_clocked: "clocked demo_remote"
  by (simp add: clocked_def demo_remote_def split_beta)

definition demo_remote_doc :: remote_doc where
  "demo_remote_doc = \<lparr>rm_id = [55], rm_collection = [51], rm_filename = [97], rm_status = lit ''indexed''\<rparr>"

lemma demo_request: "request demo_remote Get_documents (0, 0) = (Inr (Documents_body [demo_remote_doc]), (2, 2))"
  by (simp add: request_def MAX_RETRIES_def eval_nat_numeral demo_remote_def RETRY_STATUS_def success_def demo_remote_doc_def)

lemma request_bounded_witness: "fst (snd (request demo_remote Get_documents (0, 0))) \<le> 6 \<and> snd (snd (request demo_remote Get_documents (0, 0))) \<le> 42"
  using request_bounded [OF demo_metered demo_request] by (simp add: demo_request)

lemma wait_returns_witness: "\<exists>r w'. wait_loop demo_remote [51] 60 (0, 0) = Some (r, w')"
  using wait_returns [OF demo_clocked] by blast

definition demo_eval_case :: eval_case where
  "demo_eval_case = \<lparr>ec_id = [49], ec_lang = lit ''de'', ec_modality = lit ''text'', ec_query = [113], ec_expected = [], ec_contains = [],
     ec_citation = False, ec_insufficient = True, ec_targets = [\<lparr>tg_file = [97], tg_pages = []\<rparr>]\<rparr>"

definition demo_eval_args :: eval_args where
  "demo_eval_args = \<lparr>ea_base_url = [], ea_subset = lit ''all'', ea_limit = 0, ea_report = [], ea_upload = None, ea_wait_s = 0, ea_no_judge = True,
     ea_retrieval_only = False, ea_judge_model = []\<rparr>"

lemma demo_golden: "\<exists>rows w'. run_golden_set demo_remote demo_eval_args chat [demo_eval_case] (0, 0) = Some (Finished rows, w')"
proof -
  have login: "login_again demo_remote w = (Inr (), w)" for w by (simp add: login_again_def demo_remote_def success_def)
  have docs: "remote_documents demo_remote (0, 0) = (Inr [demo_remote_doc], (2, 2))" by (simp add: remote_documents_def demo_request)
  have search: "request demo_remote (Post_search q k p) (2, 2) = (Inr (Search_body [\<lparr>ht_document = [55], ht_page = None\<rparr>] []), (3, 2))" for q k p
    by (simp add: request_def MAX_RETRIES_def eval_nat_numeral demo_remote_def RETRY_STATUS_def success_def)
  have chat: "request demo_remote (Post_chat q) (3, 2)
      = (Inr (Chat_body \<lparr>tp_answer = [], tp_citations = [], tp_insufficient = True, tp_route = None, tp_cache_hit = False\<rparr>), (4, 2))" for q
    by (simp add: request_def MAX_RETRIES_def eval_nat_numeral demo_remote_def RETRY_STATUS_def success_def)
  have cs: "selected_cases demo_eval_args [demo_eval_case] = [demo_eval_case]" by (simp add: selected_cases_def demo_eval_args_def filter_subset_def)
  have idx: "doc_index [demo_remote_doc] [97] = Some [55]" by (simp add: doc_index_def demo_remote_doc_def)
  have "\<exists>row. run_case demo_remote demo_eval_args judge (doc_index [demo_remote_doc]) demo_eval_case (2, 2) = (Some row, (4, 2))" for judge
    by (simp add: run_case_def score_retrieval_def search chat demo_eval_case_def demo_eval_args_def Let_def)
  then obtain row where "run_case demo_remote demo_eval_args None (doc_index [demo_remote_doc]) demo_eval_case (2, 2) = (Some row, (4, 2))" by blast
  then have "score_cases demo_remote demo_eval_args chat [demo_eval_case] (0, 0) = (Finished [row], (4, 2))"
    by (simp add: score_cases_def docs) (simp add: demo_eval_case_def demo_eval_args_def idx)
  moreover have "prepare_corpus demo_remote demo_eval_args w = Some (Finished (), w)" for w by (simp add: prepare_corpus_def demo_eval_args_def)
  ultimately show ?thesis by (simp add: run_golden_set_def login cs)
qed

lemma golden_report_consistent_witness:
  "\<exists>rows w'. run_golden_set demo_remote demo_eval_args (\<lambda>_. None) [demo_eval_case] (0, 0) = Some (Finished rows, w') \<and> map rr_id rows = [[49]]"
proof -
  obtain rows w' where r: "run_golden_set demo_remote demo_eval_args (\<lambda>_. None) [demo_eval_case] (0, 0) = Some (Finished rows, w')"
    using demo_golden by blast
  have "selected_cases demo_eval_args [demo_eval_case] = [demo_eval_case]" by (simp add: selected_cases_def demo_eval_args_def filter_subset_def)
  with golden_report_consistent [OF r] r show ?thesis by (simp add: demo_eval_case_def)
qed

end
