(* ===== verification/Recaption.thy ===== *)
theory Recaption
  imports Indexer Lines
begin

text \<open>
  The backfill \<open>src/scripts/recaption_visual_chunks.py\<close>: the first line of the text chunk before a table or
  figure is put in front of that chunk's content, in the database and in the vector index. The rows are
  committed once at the end; the points are written one by one. The embedder and the success of a write
  are parameters; the order in which the database lists the documents is an argument.
\<close>

record recap_env =
  rp_dense :: "pystr \<Rightarrow> vec option"
  rp_sparse :: "pystr \<Rightarrow> (nat list \<times> rat list) option"
  rp_writes :: "uuid \<Rightarrow> bool"

definition CAPTION_MAX :: nat where
  "CAPTION_MAX = 160"

definition caption_from :: "pystr option \<Rightarrow> pystr option" where
  "caption_from t = (case t of None \<Rightarrow> None
     | Some s \<Rightarrow> if s = [] \<or> strip s = [] then None
         else let line = strip (hd (splitlines (strip s))) in if line \<noteq> [] \<and> length line \<le> CAPTION_MAX then Some line else None)"

text \<open>The enumeration is stored by its names; \<open>str(t).upper().endswith("TEXT")\<close>.\<close>

definition text_type :: "chunk_type \<Rightarrow> bool" where
  "text_type t \<longleftrightarrow> t = CT_TEXT"

record recap =
  ra_rows :: "chunk_row list"
  ra_points :: "chunk_point qcoll"
  ra_updated :: nat
  ra_skipped :: nat

definition recaption_payload :: "chunk_row \<Rightarrow> pystr \<Rightarrow> chunk_payload" where
  "recaption_payload r new = \<lparr>cy_document = Some (str_uuid (ch_doc r)), cy_collection = Some (str_uuid (ch_coll r)), cy_chunk = str_uuid (ch_id r),
     cy_type = chunk_type_value (ch_type r), cy_page = ch_page r, cy_section = ch_section r, cy_file = ch_filename r,
     cy_filetype = ch_filetype r, cy_content = new, cy_image = None\<rparr>"

definition recaptioned :: "pystr option \<Rightarrow> chunk_row \<Rightarrow> pystr option" where
  "recaptioned last_text r = (case caption_from last_text of None \<Rightarrow> None
     | Some capt \<Rightarrow> if ch_norm r \<noteq> [] \<and> py_in capt (ch_norm r) then None
         else Some (if ch_norm r \<noteq> [] then capt @ [10, 10] @ ch_norm r else capt))"

text \<open>One chunk to update: the row, then the embeddings, then the point. \<open>False\<close>: something raised.\<close>

definition recaption_chunk :: "recap_env \<Rightarrow> chunk_row \<Rightarrow> pystr \<Rightarrow> recap \<Rightarrow> bool \<times> recap" where
  "recaption_chunk e r new s =
     (let s1 = s\<lparr>ra_rows := upd_by ch_id (ch_id r) (\<lambda>x. x\<lparr>ch_norm := new\<rparr>) (ra_rows s)\<rparr> in
      case rp_dense e new of None \<Rightarrow> (False, s1)
      | Some dense \<Rightarrow> (case rp_sparse e new of None \<Rightarrow> (False, s1)
         | Some sparse \<Rightarrow> if \<not> rp_writes e (ch_id r) then (False, s1)
             else (True, s1\<lparr>ra_points := qc_upsert [make_point (ch_id r) dense sparse (recaption_payload r new)] (ra_points s),
                            ra_updated := Suc (ra_updated s)\<rparr>)))"

fun recaption_rows :: "recap_env \<Rightarrow> pystr option \<Rightarrow> chunk_row list \<Rightarrow> recap \<Rightarrow> bool \<times> recap" where
  "recaption_rows e last_text [] s = (True, s)"
| "recaption_rows e last_text (r # rs) s =
     (if text_type (ch_type r) then recaption_rows e (Some (ch_norm r)) rs s
      else case recaptioned last_text r of
        None \<Rightarrow> recaption_rows e None rs (s\<lparr>ra_skipped := Suc (ra_skipped s)\<rparr>)
      | Some new \<Rightarrow> (case recaption_chunk e r new s of (False, s') \<Rightarrow> (False, s')
          | (True, s') \<Rightarrow> recaption_rows e None rs s'))"

definition rows_of_document :: "uuid \<Rightarrow> chunk_row list \<Rightarrow> chunk_row list" where
  "rows_of_document d rows = sort_key ch_index (filter (\<lambda>r. ch_doc r = d) rows)"

fun recaption_documents :: "recap_env \<Rightarrow> uuid list \<Rightarrow> recap \<Rightarrow> bool \<times> recap" where
  "recaption_documents e [] s = (True, s)"
| "recaption_documents e (d # ds) s =
     (case recaption_rows e None (rows_of_document d (ra_rows s)) s of (False, s') \<Rightarrow> (False, s')
      | (True, s') \<Rightarrow> recaption_documents e ds s')"

text \<open>A raise ends the script before the commit: the rows stay, the points written so far do too.\<close>

definition recaption :: "recap_env \<Rightarrow> uuid list \<Rightarrow> chunk_row list \<Rightarrow> chunk_point qcoll \<Rightarrow> bool \<times> recap" where
  "recaption e ds rows q =
     (case recaption_documents e ds \<lparr>ra_rows = rows, ra_points = q, ra_updated = 0, ra_skipped = 0\<rparr> of
        (True, s) \<Rightarrow> (True, s)
      | (False, s) \<Rightarrow> (False, s\<lparr>ra_rows := rows\<rparr>))"

subsection \<open>What a run changes\<close>

text \<open>The updates of one document, as a list.\<close>

fun planned :: "pystr option \<Rightarrow> chunk_row list \<Rightarrow> (chunk_row \<times> pystr) list" where
  "planned last_text [] = []"
| "planned last_text (r # rs) = (if text_type (ch_type r) then planned (Some (ch_norm r)) rs
     else (case recaptioned last_text r of None \<Rightarrow> planned None rs | Some new \<Rightarrow> (r, new) # planned None rs))"

definition set_content :: "chunk_row \<times> pystr \<Rightarrow> chunk_row list \<Rightarrow> chunk_row list" where
  "set_content p rows = upd_by ch_id (ch_id (fst p)) (\<lambda>x. x\<lparr>ch_norm := snd p\<rparr>) rows"

lemma planned_rows: "p \<in> set (planned l rs) \<Longrightarrow> fst p \<in> set rs \<and> \<not> text_type (ch_type (fst p))"
  by (induction l rs rule: planned.induct) (auto split: if_splits option.splits)

lemma chunk_success:
  assumes "recaption_chunk e r new s = (True, s')"
  shows "ra_rows s' = set_content (r, new) (ra_rows s) \<and> ra_updated s' = Suc (ra_updated s)
    \<and> (\<exists>dense sparse. ra_points s' = qc_upsert [make_point (ch_id r) dense sparse (recaption_payload r new)] (ra_points s))"
proof -
  obtain dense where d: "rp_dense e new = Some dense" using assms by (auto simp: recaption_chunk_def Let_def split: option.splits)
  moreover obtain sparse where "rp_sparse e new = Some sparse" using assms d by (auto simp: recaption_chunk_def Let_def split: option.splits)
  ultimately show ?thesis using assms
    by (intro conjI exI [of _ dense] exI [of _ sparse]) (auto simp: recaption_chunk_def set_content_def Let_def split: if_splits)
qed

lemma rows_success:
  "recaption_rows e l rs s = (True, s') \<Longrightarrow> ra_rows s' = fold set_content (planned l rs) (ra_rows s)
     \<and> ra_updated s' = ra_updated s + length (planned l rs) \<and> (planned l rs = [] \<longrightarrow> ra_points s' = ra_points s)"
proof (induction e l rs s rule: recaption_rows.induct)
  case (2 e l r rs s)
  show ?case
  proof (cases "text_type (ch_type r)")
    case True
    with 2 show ?thesis by simp
  next
    case False
    show ?thesis
    proof (cases "recaptioned l r")
      case None
      with 2 False show ?thesis by simp
    next
      case (Some new)
      obtain b s1 where c: "recaption_chunk e r new s = (b, s1)" by fastforce
      with 2(4) False Some have b: "b" "recaption_rows e None rs s1 = (True, s')" by (auto split: bool.splits)
      note 2(3) [OF False Some c [unfolded eqTrueI [OF b(1)], symmetric] refl b(2)]
      then show ?thesis using chunk_success [of e r new s s1] b(1) c False Some by simp
    qed
  qed
qed simp

text \<open>What the rows of a document are after its updates.\<close>

fun captioned :: "pystr option \<Rightarrow> chunk_row list \<Rightarrow> chunk_row list" where
  "captioned last_text [] = []"
| "captioned last_text (r # rs) = (if text_type (ch_type r) then r # captioned (Some (ch_norm r)) rs
     else (case recaptioned last_text r of None \<Rightarrow> r | Some new \<Rightarrow> r\<lparr>ch_norm := new\<rparr>) # captioned None rs)"

lemma caption_present: "py_in c (c @ s)"
proof (cases "c @ s")
  case (Cons a t)
  then have "prefix c (a # t)" by (metis prefixI)
  then show ?thesis by (simp add: Cons)
qed simp

lemma caption_from_ne: "caption_from l = Some c \<Longrightarrow> c \<noteq> []"
  by (auto simp: caption_from_def Let_def split: option.splits if_splits)

lemma recaptioned_again: "recaptioned l r = Some new \<Longrightarrow> recaptioned l (r\<lparr>ch_norm := new\<rparr>) = None"
  using caption_present [of _ "[]"]
  by (auto simp: recaptioned_def caption_present split: option.splits if_splits dest: caption_from_ne)

lemma planned_captioned: "planned l (captioned l rs) = []"
  by (induction l rs rule: captioned.induct) (auto simp: recaptioned_again split: option.splits)

lemma set_content_other: "ch_id (fst p) \<notin> ch_id ` set rows \<Longrightarrow> set_content p rows = rows"
  unfolding set_content_def upd_by_def by (rule map_idI) (metis image_eqI)

lemma fold_set_content_other: "\<forall>p \<in> set ps. ch_id (fst p) \<notin> ch_id ` set rows \<Longrightarrow> fold set_content ps rows = rows"
  by (induction ps) (auto simp: set_content_other)

lemma set_content_Cons: "set_content p (r # rows) = (if ch_id r = ch_id (fst p) then r\<lparr>ch_norm := snd p\<rparr> else r) # set_content p rows"
  by (simp add: set_content_def upd_by_def)

lemma fold_set_content_Cons: "\<forall>p \<in> set ps. ch_id (fst p) \<noteq> ch_id r \<Longrightarrow> fold set_content ps (r # rows) = r # fold set_content ps rows"
  by (induction ps arbitrary: rows) (auto simp: set_content_Cons)

lemma planned_ids: "p \<in> set (planned l rs) \<Longrightarrow> ch_id (fst p) \<in> ch_id ` set rs"
  using planned_rows by blast

lemma fold_planned: "distinct (map ch_id rs) \<Longrightarrow> fold set_content (planned l rs) rs = captioned l rs"
proof (induction l rs rule: captioned.induct)
  case (2 l r rs)
  have apart: "\<forall>p \<in> set (planned l' rs). ch_id (fst p) \<noteq> ch_id r" for l'
    using "2.prems" planned_ids [of _ l' rs] by fastforce
  have "set_content (r, new) rs = rs" for new using "2.prems" by (intro set_content_other) simp
  with 2 apart show ?case
    by (auto simp: fold_set_content_Cons set_content_Cons split: option.splits)
qed simp

text \<open>Updates of one document leave the selection of the others alone and commute with its own.\<close>

lemma filter_set_content: "filter (\<lambda>r. ch_doc r = d) (set_content p rows) = set_content p (filter (\<lambda>r. ch_doc r = d) rows)"
  by (induction rows) (auto simp: set_content_Cons set_content_def upd_by_def)

lemma insort_set_content: "insort_key ch_index (if ch_id r = ch_id (fst p) then r\<lparr>ch_norm := snd p\<rparr> else r) (set_content p rows) = set_content p (insort_key ch_index r rows)"
  by (induction rows) (auto simp: set_content_def upd_by_def)

lemma sort_set_content: "sort_key ch_index (set_content p rows) = set_content p (sort_key ch_index rows)"
proof (induction rows)
  case (Cons r rows)
  then show ?case using insort_set_content [of r p "sort_key ch_index rows"] by (simp add: set_content_Cons)
qed (simp add: set_content_def upd_by_def)

lemma rows_set_content: "rows_of_document d (fold set_content ps rows) = fold set_content ps (rows_of_document d rows)"
  by (induction ps arbitrary: rows) (simp_all add: rows_of_document_def filter_set_content sort_set_content)

lemma map_ids_set_content [simp]: "map ch_id (set_content p rows) = map ch_id rows" "map ch_doc (set_content p rows) = map ch_doc rows"
  by (simp_all add: set_content_def upd_by_def)

lemma map_ids_fold [simp]: "map ch_id (fold set_content ps rows) = map ch_id rows" "map ch_doc (fold set_content ps rows) = map ch_doc rows"
  by (induction ps arbitrary: rows) simp_all

lemma set_rows_of_document: "set (rows_of_document d rows) = {r \<in> set rows. ch_doc r = d}"
  by (simp add: rows_of_document_def)

lemma distinct_rows_of_document: "distinct (map ch_id rows) \<Longrightarrow> distinct (map ch_id (rows_of_document d rows))"
  by (simp add: rows_of_document_def distinct_map inj_on_def)

text \<open>A document is settled when nothing of it is planned any more.\<close>

abbreviation settled :: "uuid \<Rightarrow> chunk_row list \<Rightarrow> bool" where
  "settled d rows \<equiv> planned None (rows_of_document d rows) = []"

lemma document_success:
  assumes "distinct (map ch_id (ra_rows s))" and "recaption_rows e None (rows_of_document d (ra_rows s)) s = (True, s')"
  shows "settled d (ra_rows s')" and "d' \<noteq> d \<Longrightarrow> rows_of_document d' (ra_rows s') = rows_of_document d' (ra_rows s)"
    and "map ch_id (ra_rows s') = map ch_id (ra_rows s)"
proof -
  let ?rs = "rows_of_document d (ra_rows s)"
  have s': "ra_rows s' = fold set_content (planned None ?rs) (ra_rows s)" using rows_success [OF assms(2)] by simp
  have own: "rows_of_document d (ra_rows s') = captioned None ?rs"
    unfolding s' rows_set_content by (rule fold_planned [OF distinct_rows_of_document [OF assms(1)]])
  show "settled d (ra_rows s')" unfolding own by (rule planned_captioned)
  show "map ch_id (ra_rows s') = map ch_id (ra_rows s)" by (simp add: s')
  assume other: "d' \<noteq> d"
  have inj: "inj_on ch_id (set (ra_rows s))" using assms(1) by (simp add: distinct_map)
  have "ch_id (fst p) \<notin> ch_id ` set (rows_of_document d' (ra_rows s))" if "p \<in> set (planned None ?rs)" for p
  proof
    assume "ch_id (fst p) \<in> ch_id ` set (rows_of_document d' (ra_rows s))"
    then obtain r where "r \<in> set (ra_rows s)" "ch_doc r = d'" "ch_id r = ch_id (fst p)" by (auto simp: set_rows_of_document)
    moreover have "fst p \<in> set (ra_rows s)" "ch_doc (fst p) = d" using planned_rows [OF that] by (auto simp: set_rows_of_document)
    ultimately show False using inj other by (auto dest: inj_onD)
  qed
  then show "rows_of_document d' (ra_rows s') = rows_of_document d' (ra_rows s)"
    unfolding s' rows_set_content by (intro fold_set_content_other) blast
qed

lemma documents_success:
  "recaption_documents e ds s = (True, s') \<Longrightarrow> distinct (map ch_id (ra_rows s))
     \<Longrightarrow> map ch_id (ra_rows s') = map ch_id (ra_rows s) \<and> (\<forall>d. d \<in> set ds \<or> settled d (ra_rows s) \<longrightarrow> settled d (ra_rows s'))"
proof (induction e ds s rule: recaption_documents.induct)
  case (2 e d ds s)
  obtain s1 where r: "recaption_rows e None (rows_of_document d (ra_rows s)) s = (True, s1)" and go: "recaption_documents e ds s1 = (True, s')"
    using 2(2) by (auto split: prod.splits bool.splits)
  note one = document_success [OF 2(3) r]
  have "map ch_id (ra_rows s') = map ch_id (ra_rows s1) \<and> (\<forall>d. d \<in> set ds \<or> settled d (ra_rows s1) \<longrightarrow> settled d (ra_rows s'))"
    using 2(1) [OF r [symmetric] refl go] one(3) 2(3) by simp
  then show ?case using one by (metis set_ConsD)
qed simp

lemma rows_settled: "planned l rs = [] \<Longrightarrow> \<exists>n. recaption_rows e l rs s = (True, s\<lparr>ra_skipped := n\<rparr>)"
proof (induction e l rs s rule: recaption_rows.induct)
  case (1 e l s)
  show ?case by (rule exI [of _ "ra_skipped s"]) simp
next
  case (2 e l r rs s)
  then show ?case by (fastforce split: if_splits option.splits)
qed

lemma documents_settled: "\<forall>d \<in> set ds. settled d (ra_rows s) \<Longrightarrow> \<exists>n. recaption_documents e ds s = (True, s\<lparr>ra_skipped := n\<rparr>)"
proof (induction ds arbitrary: s)
  case Nil
  show ?case by (rule exI [of _ "ra_skipped s"]) simp
next
  case (Cons d ds)
  obtain n where "recaption_rows e None (rows_of_document d (ra_rows s)) s = (True, s\<lparr>ra_skipped := n\<rparr>)" using rows_settled Cons.prems by (metis list.set_intros(1))
  with Cons.IH [of "s\<lparr>ra_skipped := n\<rparr>"] Cons.prems show ?case by simp
qed

text \<open>
  The backfill is idempotent, as its header says: after a run that came to its end, a second one, over the
  same documents in any order and with any embedder, finishes, changes no row and no point and updates nothing.
\<close>

theorem recaption_idempotent:
  assumes "recaption e ds rows q = (True, s)" and "distinct (map ch_id rows)" and "set ds' \<subseteq> set ds"
  shows "\<exists>n. recaption e' ds' (ra_rows s) (ra_points s) = (True, \<lparr>ra_rows = ra_rows s, ra_points = ra_points s, ra_updated = 0, ra_skipped = n\<rparr>)"
proof -
  have "recaption_documents e ds \<lparr>ra_rows = rows, ra_points = q, ra_updated = 0, ra_skipped = 0\<rparr> = (True, s)"
    using assms(1) by (auto simp: recaption_def split: prod.splits bool.splits)
  from documents_success [OF this] assms(2,3) have "\<forall>d \<in> set ds'. settled d (ra_rows s)" by auto
  then obtain n where "recaption_documents e' ds' \<lparr>ra_rows = ra_rows s, ra_points = ra_points s, ra_updated = 0, ra_skipped = 0\<rparr>
      = (True, \<lparr>ra_rows = ra_rows s, ra_points = ra_points s, ra_updated = 0, ra_skipped = n\<rparr>)"
    using documents_settled [of ds' "\<lparr>ra_rows = ra_rows s, ra_points = ra_points s, ra_updated = 0, ra_skipped = 0\<rparr>" e'] by auto
  then show ?thesis by (simp add: recaption_def)
qed

subsection \<open>What becomes of the points\<close>

interpretation chunk_table: keyed_table ch_id "get_by ch_id" add_row "upd_by ch_id" "del_by ch_id"
  by (rule keyed_table_rows)

lemma get_set_content: "get_by ch_id k (set_content p rows) = (if k = ch_id (fst p) then map_option (\<lambda>x. x\<lparr>ch_norm := snd p\<rparr>) (get_by ch_id k rows) else get_by ch_id k rows)"
  unfolding set_content_def by (subst chunk_table.get_upd) simp_all

text \<open>A row of the table under the id of \<open>r\<close>, of the same document and collection.\<close>

definition same_owner :: "chunk_row list \<Rightarrow> uuid \<Rightarrow> chunk_payload \<Rightarrow> bool" where
  "same_owner rows k p \<longleftrightarrow> (\<exists>r. get_by ch_id k rows = Some r \<and> cy_document p = Some (str_uuid (ch_doc r)) \<and> cy_collection p = Some (str_uuid (ch_coll r)))"

lemma same_owner_set_content [simp]: "same_owner (set_content p rows) k y = same_owner rows k y"
  by (auto simp: same_owner_def get_set_content split: if_splits)

lemma same_owner_fold [simp]: "same_owner (fold set_content ps rows) k y = same_owner rows k y"
  by (induction ps arbitrary: rows) simp_all

text \<open>From one state to a later one: a point is untouched together with its row, or rewritten without its picture.\<close>

definition rewritten :: "recap \<Rightarrow> recap \<Rightarrow> bool" where
  "rewritten s s' \<longleftrightarrow> (\<forall>k y. same_owner (ra_rows s') k y = same_owner (ra_rows s) k y)
     \<and> (\<forall>x \<in> set (qc_points (ra_points s')).
          x \<in> set (qc_points (ra_points s)) \<and> get_by ch_id (fst x) (ra_rows s') = get_by ch_id (fst x) (ra_rows s)
        \<or> same_owner (ra_rows s) (fst x) (cx_payload (snd x)) \<and> cy_image (cx_payload (snd x)) = None)"

lemma rewritten_refl: "ra_rows s' = ra_rows s \<Longrightarrow> ra_points s' = ra_points s \<Longrightarrow> rewritten s s'"
  by (simp add: rewritten_def)

lemma rewritten_trans: "rewritten s s1 \<Longrightarrow> rewritten s1 s2 \<Longrightarrow> rewritten s s2"
  unfolding rewritten_def by metis

lemma chunk_rewrites:
  assumes "recaption_chunk e r new s = (True, s')" and "same_owner (ra_rows s) (ch_id r) (recaption_payload r new)"
  shows "rewritten s s'"
proof -
  obtain dense sparse where s': "ra_rows s' = set_content (r, new) (ra_rows s)"
      "ra_points s' = qc_upsert [make_point (ch_id r) dense sparse (recaption_payload r new)] (ra_points s)"
    using chunk_success [OF assms(1)] by blast
  then show ?thesis using assms(2)
    by (auto simp: rewritten_def qc_upsert_def make_point_def get_set_content recaption_payload_def)
qed

lemma rows_rewrites:
  "recaption_rows e l rs s = (True, s') \<Longrightarrow> \<forall>r \<in> set rs. \<forall>new. same_owner (ra_rows s) (ch_id r) (recaption_payload r new) \<Longrightarrow> rewritten s s'"
proof (induction e l rs s rule: recaption_rows.induct)
  case (2 e l r rs s)
  show ?case
  proof (cases "text_type (ch_type r)")
    case True
    with 2 show ?thesis by simp
  next
    case False
    show ?thesis
    proof (cases "recaptioned l r")
      case None
      have "rewritten (s\<lparr>ra_skipped := Suc (ra_skipped s)\<rparr>) s'" by (rule 2(2)) (use 2 False None in simp_all)
      then show ?thesis by (rule rewritten_trans [OF rewritten_refl, rotated -1]) simp_all
    next
      case (Some new)
      obtain b s1 where c: "recaption_chunk e r new s = (b, s1)" by fastforce
      with 2(4) False Some have b: "b" "recaption_rows e None rs s1 = (True, s')" by (auto split: bool.splits)
      then have c': "recaption_chunk e r new s = (True, s1)" using c by simp
      have one: "rewritten s s1" by (rule chunk_rewrites [OF c']) (use 2(5) in simp)
      have "rewritten s1 s'"
        using 2(3) [OF False Some c' [symmetric] refl b(2)] 2(5) one by (simp add: rewritten_def)
      with one show ?thesis by (rule rewritten_trans)
    qed
  qed
qed (simp add: rewritten_refl)

lemma documents_rewrite:
  "recaption_documents e ds s = (True, s') \<Longrightarrow> distinct (map ch_id (ra_rows s)) \<Longrightarrow> rewritten s s'"
proof (induction e ds s rule: recaption_documents.induct)
  case (2 e d ds s)
  obtain s1 where r: "recaption_rows e None (rows_of_document d (ra_rows s)) s = (True, s1)" and go: "recaption_documents e ds s1 = (True, s')"
    using 2(2) by (auto split: prod.splits bool.splits)
  have "same_owner (ra_rows s) (ch_id r) (recaption_payload r new)" if "r \<in> set (rows_of_document d (ra_rows s))" for r new
  proof -
    have "r \<in> set (ra_rows s)" using that by (simp add: set_rows_of_document)
    then have "get_by ch_id (ch_id r) (ra_rows s) = Some r" using distinct_get_by [OF 2(3)] by blast
    then show ?thesis by (simp add: same_owner_def recaption_payload_def)
  qed
  then have "rewritten s s1" by (intro rows_rewrites [OF r]) blast
  moreover have "rewritten s1 s'"
    using 2(1) [OF r [symmetric] refl go] document_success(3) [OF 2(3) r] 2(3) by simp
  ultimately show ?case by (rule rewritten_trans)
qed (simp add: rewritten_refl)

text \<open>
  C39. The backfill keeps every point in its document and collection, but a point it rewritten loses the
  address of its picture: after a finished run each point either is an old one whose row is unchanged, or names
  the document and the collection of its row and has no picture any more.
\<close>

theorem recaption_drops_images:
  assumes "recaption e ds rows q = (True, s)" and "distinct (map ch_id rows)" and "x \<in> set (qc_points (ra_points s))"
  shows "x \<in> set (qc_points q) \<and> get_by ch_id (fst x) (ra_rows s) = get_by ch_id (fst x) rows
    \<or> (\<exists>r. get_by ch_id (fst x) rows = Some r \<and> cy_document (cx_payload (snd x)) = Some (str_uuid (ch_doc r))
        \<and> cy_collection (cx_payload (snd x)) = Some (str_uuid (ch_coll r)) \<and> cy_image (cx_payload (snd x)) = None)"
proof -
  have "recaption_documents e ds \<lparr>ra_rows = rows, ra_points = q, ra_updated = 0, ra_skipped = 0\<rparr> = (True, s)"
    using assms(1) by (auto simp: recaption_def split: prod.splits bool.splits)
  from documents_rewrite [OF this] assms(2) have "rewritten \<lparr>ra_rows = rows, ra_points = q, ra_updated = 0, ra_skipped = 0\<rparr> s" by simp
  with assms(3) show ?thesis unfolding rewritten_def same_owner_def recap.select_convs by metis
qed

text \<open>A run that raises leaves the table as it was; what it wrote to the index stays.\<close>

lemma failed_recaption_rows: "recaption e ds rows q = (False, s) \<Longrightarrow> ra_rows s = rows"
  by (auto simp: recaption_def split: prod.splits bool.splits)

subsection \<open>Witnesses\<close>

definition demo_recap_env :: recap_env where
  "demo_recap_env = \<lparr>rp_dense = (\<lambda>_. Some [1]), rp_sparse = (\<lambda>_. Some ([], [])), rp_writes = (\<lambda>_. True)\<rparr>"

definition demo_chunk :: "uuid \<Rightarrow> nat \<Rightarrow> chunk_type \<Rightarrow> pystr \<Rightarrow> chunk_row" where
  "demo_chunk i k t content = \<lparr>ch_id = i, ch_doc = 7, ch_coll = 3, ch_filename = [], ch_filetype = [], ch_page = None, ch_section = None,
     ch_type = t, ch_index = k, ch_raw = [], ch_norm = content, ch_meta = [], ch_hash = []\<rparr>"

definition demo_rows :: "chunk_row list" where
  "demo_rows = [demo_chunk 1 0 CT_TEXT [65], demo_chunk 2 1 CT_IMAGE [66]]"

definition demo_recaptioned :: recap where
  "demo_recaptioned = \<lparr>ra_rows = [demo_chunk 1 0 CT_TEXT [65], demo_chunk 2 1 CT_IMAGE [65, 10, 10, 66]],
     ra_points = \<lparr>qc_exists = True, qc_points = [make_point 2 [1] ([], []) (recaption_payload (demo_chunk 2 1 CT_IMAGE [66]) [65, 10, 10, 66])]\<rparr>,
     ra_updated = 1, ra_skipped = 0\<rparr>"

lemma demo_recaption:
  "recaption demo_recap_env [7] demo_rows \<lparr>qc_exists = True, qc_points = [make_point 2 [1] ([], []) ((recaption_payload (demo_chunk 2 1 CT_IMAGE [66]) [66])\<lparr>cy_image := Some [117]\<rparr>)]\<rparr>
     = (True, demo_recaptioned)"
proof -
  have "caption_from (Some [65]) = Some [65]"
    by (simp add: caption_from_def splitlines_def line_break_def CAPTION_MAX_def strip_def strip_by_def lstrip_by_def rstrip_by_def is_space_def)
  then have "recaptioned (Some [65]) (demo_chunk 2 1 CT_IMAGE [66]) = Some [65, 10, 10, 66]"
    by (simp add: recaptioned_def demo_chunk_def prefix_def)
  moreover have "rows_of_document 7 demo_rows = demo_rows"
    by (simp add: rows_of_document_def demo_rows_def demo_chunk_def)
  ultimately show ?thesis
    by (simp add: recaption_def) (simp add: demo_rows_def text_type_def demo_chunk_def recaption_chunk_def demo_recap_env_def upd_by_def
        qc_upsert_def make_point_def demo_recaptioned_def Let_def)
qed

lemma recaption_idempotent_witness:
  "\<exists>n. recaption demo_recap_env [7] (ra_rows demo_recaptioned) (ra_points demo_recaptioned)
     = (True, demo_recaptioned\<lparr>ra_updated := 0, ra_skipped := n\<rparr>)"
proof -
  have "distinct (map ch_id demo_rows)" by (simp add: demo_rows_def demo_chunk_def)
  from recaption_idempotent [OF demo_recaption this, of "[7]" demo_recap_env] show ?thesis by (simp add: demo_recaptioned_def)
qed

lemma recaption_drops_images_witness:
  "\<exists>x. x \<in> set (qc_points (ra_points demo_recaptioned)) \<and> fst x = 2 \<and> cy_image (cx_payload (snd x)) = None"
proof -
  let ?x = "make_point 2 [1] ([], []) (recaption_payload (demo_chunk 2 1 CT_IMAGE [66]) [65, 10, 10, 66])"
  have x: "?x \<in> set (qc_points (ra_points demo_recaptioned))" by (simp add: demo_recaptioned_def)
  have "distinct (map ch_id demo_rows)" by (simp add: demo_rows_def demo_chunk_def)
  from recaption_drops_images [OF demo_recaption this x] have "cy_image (cx_payload (snd ?x)) = None"
    by (auto simp: make_point_def recaption_payload_def demo_recaptioned_def get_by_def demo_rows_def demo_chunk_def)
  then show ?thesis using x by (intro exI [of _ ?x]) (simp add: make_point_def)
qed

end
