(* ===== verification/Base64.thy ===== *)
theory Base64
  imports Prelude
begin

text \<open>
  \<open>base64.b64encode\<close> and \<open>base64.b64decode(s, validate=True)\<close> of the standard library, which carry images
  between the backend and the model services. A byte is a number below 256; \<open>None\<close> is any exception of the
  decoder, which in this mode takes whole groups of four symbols and padding at the very end only.
\<close>

definition sym64 :: "nat \<Rightarrow> nat" where
  "sym64 n = (if n < 26 then 65 + n else if n < 52 then 71 + n else if n < 62 then n - 4 else if n = 62 then 43 else 47)"

definition val64 :: "nat \<Rightarrow> nat option" where
  "val64 c =
     (if 65 \<le> c \<and> c \<le> 90 then Some (c - 65)
      else if 97 \<le> c \<and> c \<le> 122 then Some (c - 71)
      else if 48 \<le> c \<and> c \<le> 57 then Some (c + 4)
      else if c = 43 then Some 62
      else if c = 47 then Some 63
      else None)"

fun b64encode :: "nat list \<Rightarrow> pystr" where
  "b64encode [] = []"
| "b64encode [a] = [sym64 (a div 4), sym64 (a mod 4 * 16), 61, 61]"
| "b64encode [a, b] = [sym64 (a div 4), sym64 (a mod 4 * 16 + b div 16), sym64 (b mod 16 * 4), 61]"
| "b64encode (a # b # c # s) =
     [sym64 (a div 4), sym64 (a mod 4 * 16 + b div 16), sym64 (b mod 16 * 4 + c div 64), sym64 (c mod 64)] @ b64encode s"

definition quad_bytes :: "nat \<Rightarrow> nat \<Rightarrow> nat \<Rightarrow> nat \<Rightarrow> nat list" where
  "quad_bytes p q r t = [p * 4 + q div 16, q mod 16 * 16 + r div 4, r mod 4 * 64 + t]"

fun b64decode :: "pystr \<Rightarrow> nat list option" where
  "b64decode [] = Some []"
| "b64decode (a # b # c # d # s) =
     (case (val64 a, val64 b) of
        (Some p, Some q) \<Rightarrow>
          (if d = 61 then
             if s \<noteq> [] then None
             else if c = 61 then Some (take 1 (quad_bytes p q 0 0))
             else map_option (\<lambda>r. take 2 (quad_bytes p q r 0)) (val64 c)
           else (case (val64 c, val64 d) of
               (Some r, Some t) \<Rightarrow> map_option ((@) (quad_bytes p q r t)) (b64decode s)
             | _ \<Rightarrow> None))
      | _ \<Rightarrow> None)"
| "b64decode _ = None"

lemma val_sym64 [simp]: "n < 64 \<Longrightarrow> val64 (sym64 n) = Some n"
  by (auto simp: val64_def sym64_def)

lemma sym64_not_pad [simp]: "n < 64 \<Longrightarrow> sym64 n \<noteq> 61" "n < 64 \<Longrightarrow> 61 \<noteq> sym64 n"
  by (auto simp: sym64_def)

lemma sextets:
  assumes "a < 256" "b < 256" "c < (256 :: nat)"
  shows "a div 4 < 64" "a mod 4 * 16 + b div 16 < 64" "b mod 16 * 4 + c div 64 < 64" "c mod 64 < 64"
proof -
  have "a mod 4 < 4" "b div 16 < 16" "b mod 16 < 16" "c div 64 < 4" using assms by simp_all
  then show "a mod 4 * 16 + b div 16 < 64" "b mod 16 * 4 + c div 64 < 64" by linarith+
qed (use assms in simp_all)

lemma quad_bytes_encode:
  assumes "a < 256" "b < 256" "c < 256"
  shows "quad_bytes (a div 4) (a mod 4 * 16 + b div 16) (b mod 16 * 4 + c div 64) (c mod 64) = [a, b, c]"
proof -
  have "b div 16 < 16" "c div 64 < 4" using assms by simp_all
  then have "(a mod 4 * 16 + b div 16) div 16 = a mod 4" "(a mod 4 * 16 + b div 16) mod 16 = b div 16"
    "(b mod 16 * 4 + c div 64) div 4 = b mod 16" "(b mod 16 * 4 + c div 64) mod 4 = c div 64" by simp_all
  then show ?thesis by (simp add: quad_bytes_def)
qed

text \<open>What is encoded is decoded again, byte for byte, and only nothing is encoded as nothing.\<close>

lemma b64_roundtrip: "(\<And>x. x \<in> set s \<Longrightarrow> x < 256) \<Longrightarrow> b64decode (b64encode s) = Some s"
proof (induction s rule: b64encode.induct)
  case (2 a)
  then show ?case using sextets [of a 0 0] quad_bytes_encode [of a 0 0] by (simp add: quad_bytes_def)
next
  case (3 a b)
  then show ?case using sextets [of a b 0] quad_bytes_encode [of a b 0] by (simp add: quad_bytes_def)
next
  case (4 a b c s)
  then show ?case using sextets [of a b c] quad_bytes_encode [of a b c] by simp
qed simp

lemma b64encode_empty [simp]: "b64encode s = [] \<longleftrightarrow> s = []"
  by (cases s rule: b64encode.cases) simp_all

lemma b64encode_length: "length (b64encode s) = 4 * ((length s + 2) div 3)"
proof (induction s rule: b64encode.induct)
  case (4 a b c s)
  moreover have "(length (a # b # c # s) + 2) div 3 = Suc ((length s + 2) div 3)" by simp
  ultimately show ?case by simp
qed simp_all

text \<open>The decoder accepts whole groups only.\<close>

lemma b64decode_length: "b64decode t \<noteq> None \<Longrightarrow> length t mod 4 = 0"
proof (induction t rule: b64decode.induct)
  case (2 a b c d t)
  have "length t mod 4 = 0"
    using 2 by (cases "t = []") (auto split: option.splits if_splits)
  moreover have "length (a # b # c # d # t) = length t + 4" by simp
  ultimately show ?case by (simp only: mod_add_self2)
qed auto

end
