(* ===== verification/Sampling.thy ===== *)
theory Sampling
  imports Pipeline Files Base64 "HOL-Library.List_Lexorder" "HOL-Library.Multiset"
begin

text \<open>
  The ingestion sample \<open>src/eval/ingest_sample.py\<close>: pages drawn at random from a corpus folder, each with its
  image and the elements the parser extracted from it, as an HTML report for human review. The two shuffles
  of the random generator, Docling and the page renderer are parameters; the style sheet of the report's
  template is left out.
\<close>

subsection \<open>HTML\<close>

text \<open>\<open>html.escape\<close>: the ampersand is replaced first, so the five replacements act on each character alone.\<close>

definition escape_char :: "nat \<Rightarrow> pystr" where
  "escape_char c =
     (if c = 38 then lit ''&amp;'' else if c = 60 then lit ''&lt;'' else if c = 62 then lit ''&gt;''
      else if c = 34 then lit ''&quot;'' else if c = 39 then lit ''&#x27;'' else [c])"

definition escape :: "pystr \<Rightarrow> pystr" where
  "escape s = concat (map escape_char s)"

definition cell_row :: "pystr \<Rightarrow> pystr list \<Rightarrow> pystr" where
  "cell_row tag cells = lit ''<tr>'' @ concat (map (\<lambda>c. lit ''<'' @ tag @ lit ''>'' @ escape c @ lit ''</'' @ tag @ lit ''>'') cells) @ lit ''</tr>''"

definition chunk_html :: "element \<Rightarrow> pystr" where
  "chunk_html el =
     (let kind = chunk_type_value (el_kind el) in
      case (if el_kind el = CT_TABLE then mt_rows (el_meta el) else None) of
        Some (r # rs) \<Rightarrow>
          lit ''<div class='' @ [34] @ lit ''chunk table'' @ [34] @ lit ''><span class='' @ [34] @ lit ''tag'' @ [34] @ lit ''>'' @ kind
            @ lit ''</span><table>'' @ (case mt_header (el_meta el) of Some (h # hs) \<Rightarrow> cell_row (lit ''th'') (h # hs) | _ \<Rightarrow> [])
            @ concat (map (cell_row (lit ''td'')) (r # rs)) @ lit ''</table></div>''
      | _ \<Rightarrow>
          lit ''<div class='' @ [34] @ lit ''chunk '' @ kind @ [34] @ lit ''><span class='' @ [34] @ lit ''tag'' @ [34] @ lit ''>'' @ kind
            @ lit ''</span><pre>'' @ escape (if el_content el = [] then lit ''(empty)'' else el_content el) @ lit ''</pre></div>'')"

definition png_data_uri :: "bytes \<Rightarrow> pystr" where
  "png_data_uri png = lit ''data:image/png;base64,'' @ b64encode png"

subsection \<open>The sample\<close>

datatype sampled = Parse_failed pystr pystr | Sampled_page pystr int "bytes option" "element list"

definition section_html :: "sampled \<Rightarrow> pystr" where
  "section_html s =
     (case s of
        Parse_failed name er \<Rightarrow> lit ''<h2>'' @ escape name @ lit '' '' @ [8212] @ lit '' PARSE FAILED: '' @ escape er @ lit ''</h2>''
      | Sampled_page name page img els \<Rightarrow>
          lit ''<section><h2>'' @ escape name @ lit '' '' @ [183] @ lit '' Seite '' @ int_str page @ lit ''</h2><div class='' @ [34] @ lit ''cols''
            @ [34] @ lit ''><div class='' @ [34] @ lit ''img'' @ [34] @ lit ''>''
            @ (case img of Some png \<Rightarrow> lit ''<img src='' @ [34] @ png_data_uri png @ [34] @ lit ''/>''
                | None \<Rightarrow> lit ''<div class='' @ [34] @ lit ''noimg'' @ [34] @ lit ''>no render</div>'')
            @ lit ''</div><div class='' @ [34] @ lit ''extracted'' @ [34] @ lit ''>'' @ concat (map chunk_html els) @ lit ''</div></div></section>'')"

definition page_key :: "element \<Rightarrow> int" where
  "page_key el = (case el_page el of None \<Rightarrow> 0 | Some p \<Rightarrow> p)"

definition page_elements :: "element list \<Rightarrow> int \<Rightarrow> element list" where
  "page_elements els p = filter (\<lambda>el. page_key el = p) els"

text \<open>\<open>sp_render\<close>: the numbered page images, \<open>None\<close> when opening the PDF raises. The page shuffle depends on the file.\<close>

record sampler =
  sp_docling :: "bytes \<Rightarrow> pystr \<Rightarrow> pystr \<times> pystr list + docling_item list"
  sp_render :: "bytes \<Rightarrow> (int \<times> bytes) list option"
  sp_files :: "(pystr \<times> bytes) list \<Rightarrow> (pystr \<times> bytes) list"
  sp_pages :: "pystr \<Rightarrow> int list \<Rightarrow> int list"

text \<open>\<open>budget\<close>: how many pages are still wanted; the result has how many are wanted afterwards.\<close>

definition sample_pages :: "pystr \<Rightarrow> element list \<Rightarrow> (int \<times> bytes) list \<Rightarrow> int list \<Rightarrow> nat \<Rightarrow> sampled list \<times> nat" where
  "sample_pages name els renders pages budget =
     (map (\<lambda>p. Sampled_page name p (map_of (rev renders) p) (page_elements els p)) (take budget pages), budget - length pages)"

text \<open>\<open>None\<close>: an exception leaves the function; the type detection and the renderer are not guarded.\<close>

fun sample_files :: "sampler \<Rightarrow> (pystr \<times> bytes) list \<Rightarrow> nat \<Rightarrow> sampled list option" where
  "sample_files e [] budget = Some []"
| "sample_files e ((name, data) # fs) budget =
     (if budget = 0 then Some []
      else (case detect name data of
          Inl er \<Rightarrow> None
        | Inr ft \<Rightarrow>
            if ft \<notin> DOCLING_TYPES then sample_files e fs budget
            else (case parse_docling (sp_docling e data ft) of
                Inl er \<Rightarrow> map_option ((#) (Parse_failed name er)) (sample_files e fs budget)
              | Inr els \<Rightarrow>
                  (case (if ft = lit ''pdf'' then sp_render e data else Some []) of
                     None \<Rightarrow> None
                   | Some renders \<Rightarrow>
                       (case sample_pages name els renders (sp_pages e name (sorted_list_of_set (page_key ` set els))) budget of
                          (secs, budget1) \<Rightarrow> map_option ((@) secs) (sample_files e fs budget1))))))"

definition sample_corpus :: "sampler \<Rightarrow> (pystr \<times> bytes) list \<Rightarrow> int \<Rightarrow> sampled list option" where
  "sample_corpus e files n = sample_files e (sp_files e (sort_key fst files)) (nat n)"

text \<open>The number the report's heading names, and its body.\<close>

definition sample_report :: "sampler \<Rightarrow> (pystr \<times> bytes) list \<Rightarrow> int \<Rightarrow> (nat \<times> pystr) option" where
  "sample_report e files n = map_option (\<lambda>secs. (length secs, join [10] (map section_html secs))) (sample_corpus e files n)"

subsection \<open>What the report shows\<close>

lemma entities:
  "lit ''&amp;'' = [38, 97, 109, 112, 59]" "lit ''&lt;'' = [38, 108, 116, 59]" "lit ''&gt;'' = [38, 103, 116, 59]"
  "lit ''&quot;'' = [38, 113, 117, 111, 116, 59]" "lit ''&#x27;'' = [38, 35, 120, 50, 55, 59]"
  by (simp_all add: lit_def)

lemma escape_char_safe: "c \<in> set (escape_char d) \<Longrightarrow> c \<notin> {34, 39, 60, 62}"
  by (auto simp: escape_char_def entities split: if_splits)

text \<open>Nothing the documents say can open a tag, a quote or an attribute of the report, and no two texts look alike in it.\<close>

lemma escape_safe: "c \<in> set (escape s) \<Longrightarrow> c \<notin> {34, 39, 60, 62}"
  by (auto simp: escape_def dest: escape_char_safe)

lemma escape_Cons [simp]: "escape [] = []" "escape (c # s) = escape_char c @ escape s"
  by (simp_all add: escape_def)

lemma escape_char_nonempty: "escape_char c \<noteq> []"
  by (simp add: escape_char_def lit_def)

lemma escape_char_prefix: "escape_char c @ s = escape_char d @ t \<Longrightarrow> c = d"
  by (simp add: escape_char_def entities split: if_splits)

lemma escape_inj: "escape s = escape t \<Longrightarrow> s = t"
proof (induction s arbitrary: t)
  case Nil
  then show ?case by (cases t) (simp_all add: escape_char_nonempty)
next
  case (Cons c s)
  show ?case
  proof (cases t)
    case (Cons d u)
    have "c = d" using \<open>escape (c # s) = escape t\<close> Cons by (auto intro: escape_char_prefix)
    then show ?thesis using Cons.IH [of u] \<open>escape (c # s) = escape t\<close> Cons by (simp)
  qed (use \<open>escape (c # s) = escape t\<close> in \<open>simp add: escape_char_nonempty\<close>)
qed

subsection \<open>What is drawn\<close>

definition sampled_key :: "sampled \<Rightarrow> (pystr \<times> int) option" where
  "sampled_key s = (case s of Parse_failed name er \<Rightarrow> None | Sampled_page name p img els \<Rightarrow> Some (name, p))"

definition drawn :: "sampled list \<Rightarrow> (pystr \<times> int) list" where
  "drawn secs = List.map_filter sampled_key secs"

lemma drawn_simps [simp]:
  "drawn [] = []" "drawn (xs @ ys) = drawn xs @ drawn ys" "drawn (Parse_failed name er # xs) = drawn xs"
  "drawn (map (\<lambda>p. Sampled_page name p (f p) (g p)) ps) = map (Pair name) ps"
proof -
  show "drawn (map (\<lambda>p. Sampled_page name p (f p) (g p)) ps) = map (Pair name) ps"
    by (induction ps) (simp_all add: drawn_def List.map_filter_simps sampled_key_def)
qed (simp_all add: drawn_def List.map_filter_simps List.map_filter_def sampled_key_def)

text \<open>The elements the parser gives for a file of a type it takes.\<close>

definition extracts :: "sampler \<Rightarrow> pystr \<Rightarrow> bytes \<Rightarrow> element list \<Rightarrow> bool" where
  "extracts e name data els \<longleftrightarrow> (\<exists>ft. detect name data = Inr ft \<and> ft \<in> DOCLING_TYPES \<and> parse_docling (sp_docling e data ft) = Inr els)"

definition shuffling :: "sampler \<Rightarrow> bool" where
  "shuffling e \<longleftrightarrow> (\<forall>xs. mset (sp_files e xs) = mset xs) \<and> (\<forall>name ps. mset (sp_pages e name ps) = mset ps)"

lemma sample_files_0 [simp]: "sample_files e fs 0 = Some []"
  by (cases fs) auto

text \<open>The files that add nothing but perhaps the note of a failure, and the ones that are drawn from.\<close>

lemma sample_files_Cons:
  assumes "sample_files e ((name, data) # fs) b = Some secs" and "shuffling e"
  obtains (stop) "b = 0" "secs = []"
  | (skip) pre rest where "secs = pre @ rest" "drawn pre = []" "\<forall>n p i els. Sampled_page n p i els \<notin> set pre"
      "sample_files e fs b = Some rest" "\<And>els. \<not> extracts e name data els"
  | (draw) els renders pages rest where "extracts e name data els" "mset pages = mset (sorted_list_of_set (page_key ` set els))"
      "secs = map (\<lambda>p. Sampled_page name p (map_of (rev renders) p) (page_elements els p)) (take b pages) @ rest"
      "sample_files e fs (b - length pages) = Some rest" "\<And>els'. extracts e name data els' \<Longrightarrow> els' = els"
proof (cases "b = 0")
  case True
  then show ?thesis using assms(1) stop by simp
next
  case False
  obtain ft where ft: "detect name data = Inr ft" using assms(1) False by (auto split: sum.splits)
  show ?thesis
  proof (cases "ft \<in> DOCLING_TYPES")
    case skipped: False
    then show ?thesis using assms(1) False ft by (intro skip [of "[]" secs]) (auto simp: extracts_def)
  next
    case True
    show ?thesis
    proof (cases "parse_docling (sp_docling e data ft)")
      case (Inl er)
      then obtain rest where "sample_files e fs b = Some rest" "secs = Parse_failed name er # rest" using assms(1) False ft True by auto
      then show ?thesis using Inl ft by (intro skip [of "[Parse_failed name er]" rest]) (auto simp: extracts_def)
    next
      case (Inr els)
      let ?pages = "sp_pages e name (sorted_list_of_set (page_key ` set els))"
      obtain renders where "(if ft = lit ''pdf'' then sp_render e data else Some []) = Some renders"
        using assms(1) False ft True Inr by (auto split: option.splits if_splits)
      then obtain rest where "secs = map (\<lambda>p. Sampled_page name p (map_of (rev renders) p) (page_elements els p)) (take b ?pages) @ rest"
          "sample_files e fs (b - length ?pages) = Some rest"
        using assms(1) False ft True Inr by (auto simp: sample_pages_def)
      then show ?thesis using assms(2) ft True Inr by (intro draw [of els ?pages renders rest]) (auto simp: extracts_def shuffling_def)
    qed
  qed
qed

lemma sample_files_props:
  assumes "sample_files e fs b = Some secs" and "shuffling e" and "distinct (map fst fs)"
  shows "length (drawn secs) \<le> b \<and> distinct (drawn secs) \<and> fst ` set (drawn secs) \<subseteq> fst ` set fs
    \<and> (\<forall>name p i es. Sampled_page name p i es \<in> set secs \<longrightarrow> es \<noteq> [] \<and> (\<exists>data els. (name, data) \<in> set fs \<and> extracts e name data els \<and> es = page_elements els p))
    \<and> (length (drawn secs) < b \<longrightarrow> (\<forall>(name, data) \<in> set fs. \<forall>els. extracts e name data els \<longrightarrow> (\<forall>el \<in> set els. (name, page_key el) \<in> set (drawn secs))))"
  using assms(1,3)
proof (induction fs arbitrary: b secs)
  case (Cons f fs)
  obtain name data where f: "f = (name, data)" by fastforce
  from Cons.prems(1) [unfolded f] assms(2) show ?case
  proof (cases rule: sample_files_Cons)
    case (skip pre rest)
    have "distinct (map fst fs)" using Cons.prems(2) by simp
    note ih = Cons.IH [OF skip(4) this]
    have drawn: "drawn secs = drawn rest" using skip(1,2) by simp
    have "es \<noteq> [] \<and> (\<exists>d els. (m, d) \<in> set (f # fs) \<and> extracts e m d els \<and> es = page_elements els p)"
      if "Sampled_page m p i es \<in> set secs" for m p i es
    proof -
      have "Sampled_page m p i es \<in> set rest" using that skip(1,3) by auto
      with ih have "es \<noteq> [] \<and> (\<exists>d els. (m, d) \<in> set fs \<and> extracts e m d els \<and> es = page_elements els p)" by blast
      then show ?thesis by auto
    qed
    moreover have "\<forall>(m, d) \<in> set (f # fs). \<forall>els. extracts e m d els \<longrightarrow> (\<forall>el \<in> set els. (m, page_key el) \<in> set (drawn secs))"
      if "length (drawn secs) < b"
      using that ih skip(5) unfolding drawn f by auto
    moreover have "length (drawn secs) \<le> b \<and> distinct (drawn secs) \<and> fst ` set (drawn secs) \<subseteq> fst ` set (f # fs)"
      using ih unfolding drawn by auto
    ultimately show ?thesis by blast
  next
    case (draw els renders pages rest)
    have pages: "distinct pages" "set pages = page_key ` set els"
      using draw(2) by (metis distinct_sorted_list_of_set mset_eq_imp_distinct_iff, metis List.finite_set finite_imageI mset_eq_setD set_sorted_list_of_set)
    note ih = Cons.IH [OF draw(4)]
    have fresh: "name \<notin> fst ` set (drawn rest)" using ih Cons.prems(2) by (auto simp: f)
    have drawn: "drawn secs = map (Pair name) (take b pages) @ drawn rest" unfolding draw(3) by simp
    have ok: "distinct (map fst fs)" using Cons.prems(2) by simp
    have all: "take b pages = pages" if "length (drawn secs) < b" using that drawn by (cases "length pages < b") auto
    have shown: "page_elements els p \<noteq> []" if "p \<in> set (take b pages)" for p
      using in_set_takeD [OF that] pages(2) by (auto simp: page_elements_def filter_empty_conv)
    have "length (drawn rest) \<le> b - length pages" using ih ok by blast
    then have "length (drawn secs) \<le> b" by (auto simp: drawn min_def)
    moreover have "distinct (drawn secs)"
    proof -
      have "(name, x) \<notin> set (drawn rest)" for x using fresh by force
      moreover have "distinct (drawn rest)" using ih ok by blast
      ultimately show ?thesis using pages(1) by (auto simp: drawn distinct_map inj_on_def)
    qed
    moreover have "fst ` set (drawn secs) \<subseteq> fst ` set (f # fs)" using ih ok by (auto simp: drawn f)
    moreover have "es \<noteq> [] \<and> (\<exists>d els. (n, d) \<in> set (f # fs) \<and> extracts e n d els \<and> es = page_elements els p)"
      if sec: "Sampled_page n p i es \<in> set secs" for n p i es
    proof -
      consider "n = name" "es = page_elements els p" "p \<in> set (take b pages)" | "Sampled_page n p i es \<in> set rest"
        using sec unfolding draw(3) by auto
      then show ?thesis
      proof cases
        case 2
        with ih ok have "es \<noteq> [] \<and> (\<exists>d els. (n, d) \<in> set fs \<and> extracts e n d els \<and> es = page_elements els p)" by blast
        then show ?thesis by auto
      qed (use draw(1) shown f in auto)
    qed
    moreover have "\<forall>(n, d) \<in> set (f # fs). \<forall>els. extracts e n d els \<longrightarrow> (\<forall>el \<in> set els. (n, page_key el) \<in> set (drawn secs))"
      if "length (drawn secs) < b"
      using that ih ok all [OF that] draw(5) pages(2) by (auto simp: f drawn)
    ultimately show ?thesis by blast
  qed simp
qed simp

text \<open>
  The sample is what its report says it is: at most the wanted number of pages, none twice, each with exactly
  the elements the parser extracted for that page of that file, at least one; and when there are fewer than
  wanted, every page with content of every readable file is there.
\<close>

theorem sample_faithful:
  assumes "sample_corpus e files n = Some secs" and "shuffling e" and "distinct (map fst files)"
  shows "length (drawn secs) \<le> nat n \<and> distinct (drawn secs)
    \<and> (\<forall>name p i es. Sampled_page name p i es \<in> set secs \<longrightarrow> es \<noteq> [] \<and> (\<exists>data els. (name, data) \<in> set files \<and> extracts e name data els \<and> es = page_elements els p))
    \<and> (length (drawn secs) < nat n \<longrightarrow> (\<forall>(name, data) \<in> set files. \<forall>els. extracts e name data els \<longrightarrow> (\<forall>el \<in> set els. (name, page_key el) \<in> set (drawn secs))))"
proof -
  have m: "mset (sp_files e (sort_key fst files)) = mset files" using assms(2) by (simp add: shuffling_def)
  then have "set (sp_files e (sort_key fst files)) = set files" by (metis mset_eq_setD)
  moreover have "distinct (map fst (sp_files e (sort_key fst files)))"
    using assms(3) m by (metis mset_eq_imp_distinct_iff mset_map)
  ultimately show ?thesis using sample_files_props [OF assms(1) [unfolded sample_corpus_def] assms(2)] by simp
qed

lemma shuffling_single: "shuffling e \<Longrightarrow> sp_files e [x] = [x]"
proof -
  assume "shuffling e"
  then have "mset (sp_files e [x]) = mset [x]" by (simp add: shuffling_def)
  then have "length (sp_files e [x]) = 1" "set (sp_files e [x]) = {x}"
    by (metis mset_eq_length length_Cons list.size(3) One_nat_def, metis mset_eq_setD list.set list.simps(15))
  then show ?thesis by (auto simp: length_Suc_conv)
qed

text \<open>A file of a type the detection does not know ends the whole run, although other types are to be skipped.\<close>

lemma unknown_file_aborts: "detect name data = Inl er \<Longrightarrow> shuffling e \<Longrightarrow> 0 < n \<Longrightarrow> sample_corpus e [(name, data)] n = None"
proof -
  assume "detect name data = Inl er" "0 < n" "shuffling e"
  moreover from this have "sp_files e [(name, data)] = [(name, data)]" by (simp add: shuffling_single)
  ultimately show ?thesis by (simp add: sample_corpus_def)
qed

text \<open>The number of pages in the heading counts the files that could not be parsed as well.\<close>

lemma heading_counts_failures:
  assumes "detect name data = Inr ft" and "ft \<in> DOCLING_TYPES" and "sp_docling e data ft = Inl x" and "shuffling e" and "0 < n"
  shows "\<exists>body secs. sample_corpus e [(name, data)] n = Some secs \<and> drawn secs = [] \<and> sample_report e [(name, data)] n = Some (1, body)"
proof -
  have "sp_files e [(name, data)] = [(name, data)]" using assms(4) by (rule shuffling_single)
  moreover obtain er where "parse_docling (Inl x) = Inl er" by (cases x) (auto simp: parse_docling_def)
  ultimately show ?thesis using assms by (simp add: sample_report_def sample_corpus_def drawn_def List.map_filter_simps sampled_key_def)
qed

definition demo_sampler :: sampler where
  "demo_sampler = \<lparr>sp_docling = (\<lambda>_ _. Inr [Text_item (Some (Some 1, None)) (Some [120])]), sp_render = (\<lambda>_. Some []), sp_files = id,
     sp_pages = (\<lambda>_. id)\<rparr>"

lemma sample_faithful_witness:
  "\<exists>secs. sample_corpus demo_sampler [(lit ''a.pdf'', [37, 80, 68, 70])] 3 = Some secs \<and> length (drawn secs) \<le> 3 \<and> (lit ''a.pdf'', 1) \<in> set (drawn secs)"
proof -
  have d: "detect (lit ''a.pdf'') [37, 80, 68, 70] = Inr (lit ''pdf'')" "lit ''pdf'' \<in> DOCLING_TYPES" by (simp_all add: detect_def DOCLING_TYPES_def)
  define el where "el = \<lparr>el_kind = CT_TEXT, el_content = [120], el_page = Some 1, el_section = None, el_bbox = None, el_meta = meta0\<rparr>"
  have els: "parse_docling (sp_docling demo_sampler b t) = Inr [el]" for b t
    by (simp add: parse_docling_def demo_sampler_def el_def stripped_def strip_def strip_by_id is_space_def prov_page_def prov_box_def)
  have fields: "sp_render demo_sampler b = Some []" "sp_files demo_sampler xs = xs" "sp_pages demo_sampler m ps = ps" for b xs m ps
    by (simp_all add: demo_sampler_def)
  have secs: "sample_corpus demo_sampler [(lit ''a.pdf'', [37, 80, 68, 70])] 3 = Some [Sampled_page (lit ''a.pdf'') 1 None [el]]" (is "_ = Some ?secs")
    by (simp add: sample_corpus_def d els fields sample_pages_def) (simp add: el_def page_key_def page_elements_def)
  have x: "extracts demo_sampler (lit ''a.pdf'') [37, 80, 68, 70] [el]" using d els by (simp add: extracts_def)
  have "shuffling demo_sampler" by (simp add: shuffling_def demo_sampler_def)
  note f = sample_faithful [OF secs this]
  have "length (drawn ?secs) \<le> 3" using f by simp
  moreover have "(lit ''a.pdf'', page_key el) \<in> set (drawn ?secs)"
    using f x by (cases "length (drawn ?secs) < 3") (auto simp: drawn_def List.map_filter_simps sampled_key_def)
  ultimately show ?thesis using secs by (auto simp: page_key_def el_def)
qed

end
