(* ===== verification/Metrics.thy ===== *)
theory Metrics
  imports Gaps Eval Redis Jobs
begin

text \<open>
  The operational figures, \<open>app/observability/metrics.py\<close> and the admin rollup of \<open>app/api/admin.py\<close>: the
  Redis counters and the capped latency list, the Prometheus objects of one process (observations of the
  histogram, counters, gauges), the percentiles and the summary.
\<close>

record metric_store =
  mx_latencies :: "rat list"
  mx_hits :: nat
  mx_misses :: nat

record prometheus =
  pm_observed :: "rat list"
  pm_hits :: nat
  pm_misses :: nat
  pm_queue :: nat
  pm_backlog :: nat
  pm_inflight :: int

definition MAX_LATENCIES :: nat where
  "MAX_LATENCIES = 1000"

text \<open>The first argument tells whether Redis is reachable.\<close>

definition record_cache :: "bool \<Rightarrow> bool \<Rightarrow> metric_store \<times> prometheus \<Rightarrow> metric_store \<times> prometheus" where
  "record_cache up hit s = (case s of (m, p) \<Rightarrow>
     (if \<not> up then m else if hit then m\<lparr>mx_hits := Suc (mx_hits m)\<rparr> else m\<lparr>mx_misses := Suc (mx_misses m)\<rparr>,
      if hit then p\<lparr>pm_hits := Suc (pm_hits p)\<rparr> else p\<lparr>pm_misses := Suc (pm_misses p)\<rparr>))"

definition record_latency :: "bool \<Rightarrow> rat \<Rightarrow> metric_store \<times> prometheus \<Rightarrow> metric_store \<times> prometheus" where
  "record_latency up ms s = (case s of (m, p) \<Rightarrow>
     (if \<not> up then m else m\<lparr>mx_latencies := take MAX_LATENCIES (ms # mx_latencies m)\<rparr>,
      p\<lparr>pm_observed := pm_observed p @ [ms / 1000]\<rparr>))"

definition backlog_of :: "db \<Rightarrow> nat" where
  "backlog_of d = length (filter (\<lambda>x. d_status x = PENDING \<or> d_status x = PROCESSING) (t_documents d))"

definition queue_depth :: "broker \<Rightarrow> eval_item list \<Rightarrow> nat" where
  "queue_depth b evals = length (bk_queue b) + length evals"

definition refresh_gauges :: "redis \<Rightarrow> broker \<Rightarrow> eval_item list \<Rightarrow> db \<Rightarrow> prometheus \<Rightarrow> prometheus" where
  "refresh_gauges r b evals d p =
     (let p1 = (if \<not> r_up r then p
        else p\<lparr>pm_queue := queue_depth b evals,
               pm_inflight := (case r_cnt r GlobalInflight of None \<Rightarrow> 0 | Some (n, until) \<Rightarrow> n)\<rparr>)
      in p1\<lparr>pm_backlog := backlog_of d\<rparr>)"

definition percentile :: "rat list \<Rightarrow> rat \<Rightarrow> rat" where
  "percentile values p =
     (if values = [] then 0
      else let vs = sort values; n = length vs;
               i = min (n - 1) (nat (round_half_even (p * of_nat (n - 1))))
           in round_to 1 (vs ! i))"

record ops_summary =
  os_queue :: nat
  os_wait :: nat
  os_backlog :: nat
  os_hit_rate :: rat
  os_p50 :: rat
  os_p95 :: rat
  os_p99 :: rat

definition summary :: "bool \<Rightarrow> metric_store \<Rightarrow> broker \<Rightarrow> eval_item list \<Rightarrow> db \<Rightarrow> ops_summary" where
  "summary up m b evals d =
     (let lats = (if up then mx_latencies m else []); hits = (if up then mx_hits m else 0); misses = (if up then mx_misses m else 0);
          total = hits + misses
      in \<lparr>os_queue = (if up then queue_depth b evals else 0), os_wait = 0, os_backlog = backlog_of d,
          os_hit_rate = (if total = 0 then 0 else round_to 3 (of_nat hits / of_nat total)),
          os_p50 = percentile lats (1 / 2), os_p95 = percentile lats (95 / 100), os_p99 = percentile lats (99 / 100)\<rparr>)"

record admin_rollup = ops_summary +
  ar_users :: nat
  ar_documents :: nat
  ar_collections :: nat
  ar_scored :: nat
  ar_faithfulness :: "rat option"
  ar_relevancy :: "rat option"
  ar_citation :: "rat option"

definition average :: "rat list \<Rightarrow> rat option" where
  "average xs = (if xs = [] then None else Some (round_to 3 (sum_list xs / of_nat (length xs))))"

definition admin_metrics :: "bool \<Rightarrow> metric_store \<Rightarrow> broker \<Rightarrow> eval_item list \<Rightarrow> eval_row list \<Rightarrow> db \<Rightarrow> admin_rollup" where
  "admin_metrics up m b evals rows d = ops_summary.extend (summary up m b evals d)
     \<lparr>ar_users = length (t_users d), ar_documents = length (t_documents d), ar_collections = length (t_collections d),
      ar_scored = length rows, ar_faithfulness = average (map sc_faithfulness rows), ar_relevancy = average (map sc_answer rows),
      ar_citation = average (map sc_citation rows)\<rparr>"

subsection \<open>Rounding and percentiles\<close>

lemma round_half_even_monotone: "x \<le> y \<Longrightarrow> round_half_even x \<le> round_half_even y"
proof -
  assume xy: "x \<le> y"
  then have fl: "floor x \<le> floor y" by (rule floor_mono)
  show ?thesis
  proof (cases "floor x = floor y")
    case True
    then show ?thesis using xy by (auto simp: round_half_even_def Let_def)
  next
    case False
    then have "floor x + 1 \<le> floor y" using fl by linarith
    then show ?thesis by (auto simp: round_half_even_def Let_def)
  qed
qed

lemma round_to_mono: "x \<le> y \<Longrightarrow> round_to k x \<le> round_to k y"
  by (simp add: round_to_def divide_right_mono round_half_even_monotone)

lemma round_half_even_near: "\<bar>of_int (round_half_even x) - x\<bar> \<le> 1 / 2"
  using floor_correct [of x] by (auto simp: round_half_even_def Let_def abs_le_iff)

lemma round_to_near: "\<bar>round_to 1 x - x\<bar> \<le> 1 / 20"
  using round_half_even_near [of "x * 10"] by (simp add: round_to_def abs_le_iff field_simps)

definition rank_index :: "nat \<Rightarrow> rat \<Rightarrow> nat" where
  "rank_index n p = min (n - 1) (nat (round_half_even (p * of_nat (n - 1))))"

lemma percentile_index: "values \<noteq> [] \<Longrightarrow> percentile values p = round_to 1 (sort values ! rank_index (length values) p)"
  by (simp add: percentile_def rank_index_def Let_def)

lemma percentile_mono:
  assumes "p \<le> q"
  shows "percentile values p \<le> percentile values q"
proof (cases "values = []")
  case False
  have "p * of_nat (length values - 1) \<le> q * of_nat (length values - 1)" using assms by (intro mult_right_mono) simp_all
  then have "rank_index (length values) p \<le> rank_index (length values) q"
    unfolding rank_index_def by (intro min.mono order_refl nat_mono round_half_even_monotone)
  moreover have "rank_index (length values) q < length values" using False by (simp add: rank_index_def min_less_iff_disj)
  ultimately have "sort values ! rank_index (length values) p \<le> sort values ! rank_index (length values) q"
    by (intro sorted_nth_mono) simp_all
  then show ?thesis by (simp add: percentile_index [OF False] round_to_mono)
qed (simp add: percentile_def)

text \<open>
  The summary is ordered and bounded: p50 never exceeds p95 nor p95 p99, each is within a twentieth of a
  millisecond of a recorded latency, the hit rate lies between 0 and 1, the latency list keeps the newest
  thousand, and with Redis unreachable everything but the backlog reads as zero.
\<close>

theorem summary_sound:
  assumes "mx_latencies m \<noteq> []"
  shows "os_p50 (summary up m b ev d) \<le> os_p95 (summary up m b ev d) \<and> os_p95 (summary up m b ev d) \<le> os_p99 (summary up m b ev d)
    \<and> (\<exists>x \<in> set (mx_latencies m). \<bar>os_p99 (summary True m b ev d) - x\<bar> \<le> 1 / 20)
    \<and> 0 \<le> os_hit_rate (summary up m b ev d) \<and> os_hit_rate (summary up m b ev d) \<le> 1
    \<and> mx_latencies (fst (record_latency True ms (m, p))) = take 1000 (ms # mx_latencies m)
    \<and> summary False m b ev d = \<lparr>os_queue = 0, os_wait = 0, os_backlog = backlog_of d, os_hit_rate = 0, os_p50 = 0, os_p95 = 0, os_p99 = 0\<rparr>"
proof -
  have "rank_index (length (mx_latencies m)) (99 / 100) < length (mx_latencies m)" using assms by (simp add: rank_index_def min_less_iff_disj)
  then have "sort (mx_latencies m) ! rank_index (length (mx_latencies m)) (99 / 100) \<in> set (mx_latencies m)"
    by (metis length_sort nth_mem set_sort)
  then have "\<exists>x \<in> set (mx_latencies m). \<bar>os_p99 (summary True m b ev d) - x\<bar> \<le> 1 / 20"
    using round_to_near by (auto simp: summary_def Let_def percentile_index [OF assms])
  moreover have "0 \<le> os_hit_rate (summary up m b ev d) \<and> os_hit_rate (summary up m b ev d) \<le> 1"
  proof -
    have "0 \<le> round_to 3 (of_nat h / of_nat t) \<and> round_to 3 (of_nat h / of_nat t) \<le> 1" if "h \<le> t" for h t :: nat
      using that by (intro round_to_unit) (auto simp: divide_le_eq_1)
    then show ?thesis by (simp add: summary_def Let_def del: of_nat_add)
  qed
  moreover have "percentile xs (1 / 2) \<le> percentile xs (95 / 100)" "percentile xs (95 / 100) \<le> percentile xs (99 / 100)" for xs
    by (simp_all add: percentile_mono)
  ultimately show ?thesis by (auto simp: record_latency_def MAX_LATENCIES_def) (simp_all add: summary_def Let_def percentile_def)
qed

lemma summary_sound_witness:
  "\<exists>x \<in> {10, 20}. \<bar>os_p99 (summary True \<lparr>mx_latencies = [10, 20], mx_hits = 1, mx_misses = 2\<rparr> \<lparr>bk_queue = [], bk_dlq = []\<rparr> [] empty_db) - x\<bar> \<le> 1 / 20"
  using summary_sound [of "\<lparr>mx_latencies = [10, 20], mx_hits = 1, mx_misses = 2\<rparr>"] by simp

end
