(* ===== verification/Measure.thy ===== *)
theory Measure
  imports Metrics Llm Lines "HOL-Library.Multiset" "HOL-Library.List_Lexorder"
begin

text \<open>
  The two measuring scripts: the concurrent load test with its thresholds (\<open>src/scripts/loadtest.py\<close>) and the
  metrics of the intent router over the labelled set (\<open>src/eval/router_report.py\<close>). A user of the load test
  is the list of what its requests met; the users run concurrently and append to shared lists, so what is
  reported comes from some interleaving of their lists. Printing, argument parsing and the clock of the
  whole run are left out; JSON parsing is a parameter.
\<close>

subsection \<open>Requests\<close>

text \<open>A request that raised, or one answered after so many milliseconds with a status.\<close>

datatype shot = Raised | Replied rat nat

record load_args =
  la_users :: int
  la_requests :: int
  la_endpoint :: pystr
  la_query :: pystr
  la_p95 :: rat
  la_max_error :: rat
  la_p95_text :: rat
  la_p95_visual :: rat

definition CHAT_QUERIES :: "pystr list" where
  "CHAT_QUERIES = [lit ''Wie hoch ist das Tagegeld?'',
     lit ''Summarize the remote work security policy and list every rule that applies to laptops.'',
     lit ''Was regelt die IT-Richtlinie zu Passw'' @ [246] @ lit ''rtern und wie oft m'' @ [252] @ lit ''ssen sie ge''
       @ [228] @ lit ''ndert werden?'',
     lit ''Who approves business trips?'']"

datatype modality = Text_turn | Visual_turn

definition TEXT_QUERIES :: "(pystr \<times> modality) list" where
  "TEXT_QUERIES = map (\<lambda>q. (q, Text_turn)) CHAT_QUERIES"

definition VISUAL_QUERIES :: "(pystr \<times> modality) list" where
  "VISUAL_QUERIES = [(lit ''Was zeigt das Balkendiagramm im Quartalsbericht?'', Visual_turn),
     (lit ''Describe the diagram on page 3 and read the axis values.'', Visual_turn),
     (lit ''Welche Werte zeigt das Umsatzdiagramm f'' @ [252] @ lit ''r 2024?'', Visual_turn),
     (lit ''What trend does the cost chart show over the last year?'', Visual_turn)]"

text \<open>The field and the text a request sends.\<close>

definition load_payloads :: "load_args \<Rightarrow> (pystr \<times> pystr) list" where
  "load_payloads a = (if prefix (lit ''/chat'') (la_endpoint a) then map (\<lambda>q. (lit ''message'', q)) CHAT_QUERIES
     else [(lit ''query'', la_query a)])"

definition user_loop :: "(nat \<Rightarrow> 'p \<Rightarrow> shot) \<Rightarrow> 'p list \<Rightarrow> int \<Rightarrow> shot list" where
  "user_loop send payloads n = map (\<lambda>i. send i (payloads ! (i mod length payloads))) [0..<nat n]"

definition mixed_user_loop :: "(nat \<Rightarrow> pystr \<Rightarrow> shot) \<Rightarrow> (pystr \<times> modality) list \<Rightarrow> int \<Rightarrow> (modality \<times> shot) list" where
  "mixed_user_loop send queries n =
     map (\<lambda>i. let (q, m) = queries ! (i mod length queries) in (m, send i q)) [0..<nat n]"

subsection \<open>Gathering\<close>

text \<open>What \<open>asyncio.gather\<close> can leave in the shared lists: between two awaits a task runs alone.\<close>

fun merges :: "'a list list \<Rightarrow> 'a list set" where
  "merges [] = {[]}"
| "merges (xs # xss) = (\<Union>ys \<in> merges xss. shuffles xs ys)"

definition latencies_of :: "shot list \<Rightarrow> rat list" where
  "latencies_of shots = List.map_filter (\<lambda>s. case s of Raised \<Rightarrow> None | Replied ms st \<Rightarrow> Some ms) shots"

definition errors_of :: "shot list \<Rightarrow> int list" where
  "errors_of shots = List.map_filter (\<lambda>s. case s of Raised \<Rightarrow> Some (- 1) | Replied ms st \<Rightarrow> if 400 \<le> st then Some (int st) else None) shots"

definition latency_pct :: "rat list \<Rightarrow> rat \<Rightarrow> rat" where
  "latency_pct values p =
     (if values = [] then 0
      else let vs = sort values in round_to 1 (vs ! min (length vs - 1) (nat (round_half_even (p * of_nat (length vs - 1))))))"

definition error_rate :: "load_args \<Rightarrow> int list \<Rightarrow> rat" where
  "error_rate a errors = (let total = la_users a * la_requests a in if total = 0 then 1 else of_nat (length errors) / of_int total)"

subsection \<open>Verdicts\<close>

record load_report =
  lr_p50 :: rat
  lr_p95 :: rat
  lr_p99 :: rat
  lr_errors :: nat
  lr_error_rate :: rat
  lr_code :: nat

definition load_verdict :: "load_args \<Rightarrow> shot list \<Rightarrow> load_report" where
  "load_verdict a shots =
     (let lats = latencies_of shots; errors = errors_of shots in
      \<lparr>lr_p50 = latency_pct lats (1 / 2), lr_p95 = latency_pct lats (95 / 100), lr_p99 = latency_pct lats (99 / 100), lr_errors = length errors,
       lr_error_rate = error_rate a errors,
       lr_code = (if latency_pct lats (95 / 100) \<le> la_p95 a \<and> error_rate a errors \<le> la_max_error a then 0 else 1)\<rparr>)"

definition of_modality :: "modality \<Rightarrow> (modality \<times> shot) list \<Rightarrow> shot list" where
  "of_modality m shots = map snd (filter (\<lambda>x. fst x = m) shots)"

definition mixed_code :: "load_args \<Rightarrow> (modality \<times> shot) list \<Rightarrow> nat" where
  "mixed_code a shots =
     (let p95 = (\<lambda>m. latency_pct (latencies_of (of_modality m shots)) (95 / 100)) in
      if error_rate a (errors_of (map snd shots)) \<le> la_max_error a \<and> p95 Text_turn \<le> la_p95_text a \<and> p95 Visual_turn \<le> la_p95_visual a
      then 0 else 1)"

text \<open>
  The script against the endpoint: \<open>collection\<close> is the first accessible one, only asked for before a search;
  \<open>send u i p\<close> is what the \<open>i\<close>-th request of user \<open>u\<close> meets. The result is one of the possible reports.
\<close>

definition load_logs :: "load_args \<Rightarrow> (nat \<Rightarrow> nat \<Rightarrow> pystr \<times> pystr \<Rightarrow> shot) \<Rightarrow> shot list list" where
  "load_logs a send = map (\<lambda>u. user_loop (send u) (load_payloads a) (la_requests a)) [0..<nat (la_users a)]"

definition mixed_logs :: "load_args \<Rightarrow> (nat \<Rightarrow> nat \<Rightarrow> pystr \<Rightarrow> shot) \<Rightarrow> (modality \<times> shot) list list" where
  "mixed_logs a send = map (\<lambda>u. mixed_user_loop (send u) (if u mod 2 = 0 then TEXT_QUERIES else VISUAL_QUERIES) (la_requests a)) [0..<nat (la_users a)]"

definition load_exit :: "load_args \<Rightarrow> pystr option \<Rightarrow> shot list \<Rightarrow> nat" where
  "load_exit a collection shots = (if la_endpoint a = lit ''/search'' \<and> collection = None then 2 else lr_code (load_verdict a shots))"

subsection \<open>Interleavings do not matter\<close>

lemma mset_merges: "zs \<in> merges xss \<Longrightarrow> mset zs = mset (concat xss)"
  by (induction xss arbitrary: zs) (auto dest: mset_shuffles)

lemma merges_same: "zs \<in> merges xss \<Longrightarrow> ys \<in> merges xss \<Longrightarrow> mset zs = mset ys"
  by (metis mset_merges)

lemma length_merges: "zs \<in> merges xss \<Longrightarrow> length zs = sum_list (map length xss)"
  by (drule mset_merges) (metis length_concat size_mset)

lemma map_filter_perm: "mset xs = mset ys \<Longrightarrow> mset (List.map_filter f xs) = mset (List.map_filter f ys)"
  by (simp only: List.map_filter_def mset_map mset_filter)

lemma latency_pct_perm: "mset xs = mset ys \<Longrightarrow> latency_pct xs p = latency_pct ys p"
proof -
  assume m: "mset xs = mset ys"
  then have "sort xs = sort ys" by (metis mset_sort properties_for_sort sorted_sort)
  moreover have "xs = [] \<longleftrightarrow> ys = []" using m by (metis mset_zero_iff)
  ultimately show ?thesis by (simp add: latency_pct_def Let_def)
qed

lemma errors_perm: "mset xs = mset ys \<Longrightarrow> length (errors_of xs) = length (errors_of ys)"
  unfolding errors_of_def by (rule mset_eq_length, rule map_filter_perm)

lemma error_rate_cong: "length xs = length ys \<Longrightarrow> error_rate a xs = error_rate a ys"
  by (simp add: error_rate_def)

lemma load_verdict_perm:
  assumes "mset xs = mset ys"
  shows "load_verdict a xs = load_verdict a ys"
proof -
  have "latency_pct (latencies_of xs) p = latency_pct (latencies_of ys) p" for p
    unfolding latencies_of_def by (rule latency_pct_perm, rule map_filter_perm, rule assms)
  moreover have "error_rate a (errors_of xs) = error_rate a (errors_of ys)"
    by (rule error_rate_cong, rule errors_perm, rule assms)
  ultimately show ?thesis unfolding load_verdict_def Let_def errors_perm [OF assms] by simp
qed

lemma errors_le: "length (errors_of shots) \<le> length shots"
  by (induction shots) (auto simp: errors_of_def List.map_filter_simps split: shot.splits)

lemma latency_pct_percentile: "latency_pct = percentile"
  by (intro ext) (simp add: latency_pct_def percentile_def Let_def)

lemma latency_pct_mono: "p \<le> q \<Longrightarrow> latency_pct xs p \<le> latency_pct xs q"
  by (simp add: latency_pct_percentile percentile_mono)

lemma all_raised: "\<forall>s \<in> set shots. s = Raised \<Longrightarrow> length (errors_of shots) = length shots"
  by (induction shots) (auto simp: errors_of_def List.map_filter_simps)

lemma length_load_logs: "zs \<in> merges (load_logs a send) \<Longrightarrow> length zs = nat (la_users a) * nat (la_requests a)"
  by (simp add: length_merges load_logs_def user_loop_def comp_def sum_list_triv)

text \<open>
  The load test's report is a function of what the requests met, not of the order in which the users' tasks
  ran: every interleaving gives the same report. The percentiles are ordered, the error rate lies between 0
  and 1, and a deployment that answers no request never passes.
\<close>

theorem load_test_deterministic:
  assumes "xs \<in> merges (load_logs a send)" and "ys \<in> merges (load_logs a send)" and "0 < la_users a" and "0 < la_requests a"
  shows "load_verdict a xs = load_verdict a ys
    \<and> lr_p50 (load_verdict a xs) \<le> lr_p95 (load_verdict a xs) \<and> lr_p95 (load_verdict a xs) \<le> lr_p99 (load_verdict a xs)
    \<and> 0 \<le> lr_error_rate (load_verdict a xs) \<and> lr_error_rate (load_verdict a xs) \<le> 1
    \<and> (la_max_error a < 1 \<and> (\<forall>s \<in> set xs. s = Raised) \<longrightarrow> lr_code (load_verdict a xs) = 1)"
proof -
  have total: "of_int (la_users a * la_requests a) = (of_nat (length xs) :: rat)" "0 < length xs"
    using assms(3,4) by (simp_all add: length_load_logs [OF assms(1)])
  then have rate: "error_rate a (errors_of xs) = of_nat (length (errors_of xs)) / of_nat (length xs)"
    using assms(3,4) by (simp add: error_rate_def Let_def)
  then have "0 \<le> error_rate a (errors_of xs) \<and> error_rate a (errors_of xs) \<le> 1"
    using errors_le [of xs] total(2) by (simp add: divide_le_eq_1)
  moreover have "error_rate a (errors_of xs) = 1" if "\<forall>s \<in> set xs. s = Raised"
    using rate all_raised [OF that] total(2) by simp
  ultimately show ?thesis
    using load_verdict_perm [OF merges_same [OF assms(1,2)], of a] by (auto simp: load_verdict_def Let_def latency_pct_mono)
qed

text \<open>Without users, or without requests, the test fails; with a negative number of one of them it passes.\<close>

lemma empty_load_fails: "la_users a * la_requests a = 0 \<Longrightarrow> la_max_error a < 1 \<Longrightarrow> lr_code (load_verdict a shots) = 1"
  by (simp add: load_verdict_def error_rate_def Let_def)

lemma negative_load_passes:
  assumes "la_users a < 0" and "0 < la_requests a" and "0 \<le> la_max_error a" and "0 \<le> la_p95 a" and "xs \<in> merges (load_logs a send)"
  shows "lr_code (load_verdict a xs) = 0"
proof -
  have "xs = []" using length_load_logs [OF assms(5)] assms(1) by simp
  then show ?thesis using assms by (simp add: load_verdict_def latencies_of_def errors_of_def List.map_filter_simps latency_pct_def error_rate_def Let_def)
qed

lemma of_modality_perm: "mset xs = mset ys \<Longrightarrow> mset (of_modality m xs) = mset (of_modality m ys)"
  by (simp only: of_modality_def mset_map mset_filter)

lemma mixed_code_deterministic:
  assumes "xs \<in> merges (mixed_logs a send)" and "ys \<in> merges (mixed_logs a send)"
  shows "mixed_code a xs = mixed_code a ys"
proof -
  note m = merges_same [OF assms]
  have "latency_pct (latencies_of (of_modality k xs)) p = latency_pct (latencies_of (of_modality k ys)) p" for k p
    unfolding latencies_of_def by (rule latency_pct_perm, rule map_filter_perm, rule of_modality_perm, rule m)
  moreover have "mset (map snd xs) = mset (map snd ys)" using m by (simp only: mset_map)
  then have "error_rate a (errors_of (map snd xs)) = error_rate a (errors_of (map snd ys))"
    by (intro error_rate_cong errors_perm)
  ultimately show ?thesis by (simp add: mixed_code_def Let_def)
qed

definition demo_load :: load_args where
  "demo_load = \<lparr>la_users = 2, la_requests = 1, la_endpoint = lit ''/search'', la_query = [113], la_p95 = 1500, la_max_error = 1 / 100,
     la_p95_text = 8000, la_p95_visual = 12000\<rparr>"

lemma load_test_deterministic_witness:
  "load_verdict demo_load [Replied 10 200, Raised] = load_verdict demo_load [Raised, Replied 10 200]"
proof -
  have "load_logs demo_load (\<lambda>u i p. if u = 0 then Replied 10 200 else Raised) = [[Replied 10 200], [Raised]]"
    by (simp add: load_logs_def demo_load_def user_loop_def numeral_2_eq_2)
  then have "[Replied 10 200, Raised] \<in> merges (load_logs demo_load (\<lambda>u i p. if u = 0 then Replied 10 200 else Raised))"
      "[Raised, Replied 10 200] \<in> merges (load_logs demo_load (\<lambda>u i p. if u = 0 then Replied 10 200 else Raised))" by auto
  from load_test_deterministic [OF this] show ?thesis by (simp add: demo_load_def)
qed

subsection \<open>The router report\<close>

record labelled =
  lb_id :: pystr
  lb_query :: pystr
  lb_intent :: pystr

definition load_labelled :: "(pystr \<Rightarrow> labelled option) \<Rightarrow> pystr \<Rightarrow> labelled list option" where
  "load_labelled loads content = those (map loads (filter (\<lambda>l. strip l \<noteq> [] \<and> \<not> prefix [35] l) (splitlines content)))"

definition pctl :: "rat list \<Rightarrow> rat \<Rightarrow> rat" where
  "pctl vals p = (let vs = sort vals in round_to 1 (vs ! min (length vs - 1) (nat (round_half_even (p * of_nat (length vs - 1))))))"

text \<open>A dictionary of counts in the order of first insertion: cases and correct ones per expected intent.\<close>

fun count_intent :: "pystr \<Rightarrow> bool \<Rightarrow> (pystr \<times> nat \<times> nat) list \<Rightarrow> (pystr \<times> nat \<times> nat) list" where
  "count_intent k ok [] = [(k, 1, if ok then 1 else 0)]"
| "count_intent k ok ((j, n, c) # rest) =
     (if j = k then (j, Suc n, if ok then Suc c else c) # rest else (j, n, c) # count_intent k ok rest)"

definition routed_right :: "(pystr \<Rightarrow> router_decision) \<Rightarrow> labelled \<Rightarrow> bool" where
  "routed_right route r \<longleftrightarrow> rd_intent (route (lb_query r)) = lb_intent r"

definition per_intent :: "(pystr \<Rightarrow> router_decision) \<Rightarrow> labelled list \<Rightarrow> (pystr \<times> nat \<times> nat) list" where
  "per_intent route rows = fold (\<lambda>r. count_intent (lb_intent r) (routed_right route r)) rows []"

record miss =
  ms_id :: pystr
  ms_expected :: pystr
  ms_got :: pystr
  ms_source :: pystr

definition misses_of :: "(pystr \<Rightarrow> router_decision) \<Rightarrow> labelled list \<Rightarrow> miss list" where
  "misses_of route rows = map (\<lambda>r. \<lparr>ms_id = lb_id r, ms_expected = lb_intent r, ms_got = rd_intent (route (lb_query r)),
     ms_source = rd_source (route (lb_query r))\<rparr>) (filter (\<lambda>r. \<not> routed_right route r) rows)"

record router_metrics =
  ro_cases :: nat
  ro_accuracy :: rat
  ro_recall :: "(pystr \<times> rat) list"
  ro_p50 :: rat
  ro_p95 :: rat
  ro_max :: rat
  ro_misses :: "miss list"

text \<open>\<open>lats\<close>: the latencies of the decisions. \<open>None\<close>: without cases the division raises.\<close>

definition router_report :: "(pystr \<Rightarrow> router_decision) \<Rightarrow> labelled list \<Rightarrow> rat list \<Rightarrow> router_metrics option" where
  "router_report route rows lats =
     (if rows = [] then None
      else Some \<lparr>ro_cases = length rows, ro_accuracy = round_to 4 (1 - of_nat (length (misses_of route rows)) / of_nat (length rows)),
        ro_recall = map (\<lambda>(k, n, c). (k, round_to 4 (of_nat c / of_nat n))) (sort_key fst (per_intent route rows)),
        ro_p50 = pctl lats (1 / 2), ro_p95 = pctl lats (95 / 100), ro_max = round_to 1 (Max (set lats)), ro_misses = misses_of route rows\<rparr>)"

lemma count_intent_keys: "fst ` set (count_intent k ok d) = insert k (fst ` set d)"
  by (induction k ok d rule: count_intent.induct) auto

lemma count_intent_distinct: "distinct (map fst d) \<Longrightarrow> distinct (map fst (count_intent k ok d))"
proof (induction k ok d rule: count_intent.induct)
  case (2 k ok j n c rest)
  then show ?case by (auto simp flip: set_map) (metis count_intent_keys insert_iff list.set_map)
qed simp

lemma count_intent_entry:
  "distinct (map fst d) \<Longrightarrow> (j, n, c) \<in> set (count_intent k ok d) \<Longrightarrow>
     if j = k then (j \<notin> fst ` set d \<and> n = 1 \<and> c = (if ok then 1 else 0)) \<or> (\<exists>n' c'. (j, n', c') \<in> set d \<and> n = Suc n' \<and> c = (if ok then Suc c' else c'))
     else (j, n, c) \<in> set d"
proof (induction k ok d rule: count_intent.induct)
  case (2 k ok i m b rest)
  show ?case
  proof (cases "i = k")
    case True
    then show ?thesis using 2(2,3) by (auto split: if_splits) (force)+
  next
    case False
    with 2(3) consider "(j, n, c) = (i, m, b)" | "(j, n, c) \<in> set (count_intent k ok rest)" by auto
    then show ?thesis
    proof cases
      case 2
      have "distinct (map fst rest)" using "2.prems"(1) by simp
      note ih = "2.IH" [OF False this 2]
      show ?thesis
      proof (cases "j = k")
        case True
        then have "j \<noteq> i" using False by simp
        then have "j \<notin> fst ` set ((i, m, b) # rest) \<longleftrightarrow> j \<notin> fst ` set rest" by simp
        with ih True show ?thesis by (metis list.set_intros(2))
      qed (use ih in simp)
    qed (use False in simp)
  qed
qed auto

lemma per_intent_spec:
  "distinct (map fst (per_intent route rows)) \<and> fst ` set (per_intent route rows) = lb_intent ` set rows
   \<and> (\<forall>(k, n, c) \<in> set (per_intent route rows). n = length (filter (\<lambda>r. lb_intent r = k) rows)
        \<and> c = length (filter (\<lambda>r. lb_intent r = k \<and> routed_right route r) rows))"
proof (induction rows rule: rev_induct)
  case (snoc r rows)
  let ?d = "per_intent route rows"
  have step: "per_intent route (rows @ [r]) = count_intent (lb_intent r) (routed_right route r) ?d" by (simp add: per_intent_def)
  have absent: "filter (\<lambda>x. lb_intent x = k) rows = []" "filter (\<lambda>x. lb_intent x = k \<and> routed_right route x) rows = []" if "k \<notin> fst ` set ?d" for k
    using that snoc by (auto simp: filter_empty_conv)
  have "n = length (filter (\<lambda>x. lb_intent x = k) (rows @ [r])) \<and> c = length (filter (\<lambda>x. lb_intent x = k \<and> routed_right route x) (rows @ [r]))"
    if "(k, n, c) \<in> set (per_intent route (rows @ [r]))" for k n c
    using count_intent_entry [OF _ that [unfolded step]] snoc absent [of k] by (auto split: if_splits)
  then show ?case using snoc unfolding step by (auto simp: count_intent_keys count_intent_distinct)
qed (simp add: per_intent_def)

lemma length_filter_conj: "length (filter (\<lambda>x. P x \<and> Q x) xs) \<le> length (filter P xs)"
  by (induction xs) auto

lemma misses_length: "length (misses_of route rows) + length (filter (routed_right route) rows) = length rows"
  by (induction rows) (auto simp: misses_of_def)

text \<open>
  The router report accounts for every case: the accuracy and each recall lie between 0 and 1, there is one
  recall for each expected intent and no other, in alphabetic order, over exactly the cases that expect it,
  and the misses are the cases routed differently. An expected intent the router does not know has recall 0,
  and with the model down the router recalls the fallback intent only.
\<close>

theorem router_report_accounts:
  assumes "rows \<noteq> []"
  shows "\<exists>m. router_report (classify raw) rows lats = Some m
    \<and> 0 \<le> ro_accuracy m \<and> ro_accuracy m \<le> 1
    \<and> map fst (ro_recall m) = sorted_list_of_set (lb_intent ` set rows)
    \<and> (\<forall>(k, x) \<in> set (ro_recall m). 0 \<le> x \<and> x \<le> 1
         \<and> (k \<notin> set INTENTS \<or> ((\<forall>q. raw q = None) \<and> k \<noteq> FALLBACK_INTENT) \<longrightarrow> x = 0))
    \<and> length (ro_misses m) + length (filter (routed_right (classify raw)) rows) = ro_cases m"
proof -
  let ?d = "per_intent (classify raw) rows"
  let ?s = "sort_key fst ?d"
  note spec = per_intent_spec [of "classify raw" rows]
  have keys: "map fst ?s = sorted_list_of_set (lb_intent ` set rows)"
  proof -
    have "sorted (map fst ?s)" "distinct (map fst ?s)" using spec by (simp_all add: distinct_map)
    moreover have "set (map fst ?s) = lb_intent ` set rows" using spec by simp
    ultimately show ?thesis by (metis sorted_list_of_set.idem_if_sorted_distinct)
  qed
  have entry: "c \<le> n" "k \<notin> set INTENTS \<or> ((\<forall>q. raw q = None) \<and> k \<noteq> FALLBACK_INTENT) \<Longrightarrow> c = 0" if "(k, n, c) \<in> set ?s" for k n c
  proof -
    have n: "n = length (filter (\<lambda>r. lb_intent r = k) rows)" "c = length (filter (\<lambda>r. lb_intent r = k \<and> routed_right (classify raw) r) rows)"
      using that spec by auto
    then show "c \<le> n" by (simp add: length_filter_conj)
    assume bad: "k \<notin> set INTENTS \<or> ((\<forall>q. raw q = None) \<and> k \<noteq> FALLBACK_INTENT)"
    have "rd_intent (classify raw q) \<in> set INTENTS" "(\<forall>q. raw q = None) \<longrightarrow> rd_intent (classify raw q) = FALLBACK_INTENT" for q
      by (auto simp: classify_def INTENTS_def FALLBACK_INTENT_def split: option.split)
    with bad have "rd_intent (classify raw q) \<noteq> k" for q by metis
    then have "\<not> (lb_intent r = k \<and> routed_right (classify raw) r)" for r by (auto simp: routed_right_def)
    then show "c = 0" unfolding n by simp
  qed
  have unit: "0 \<le> round_to 4 (of_nat c / of_nat n) \<and> round_to 4 (of_nat c / of_nat n) \<le> 1" if "c \<le> n" for c n :: nat
    using that by (intro round_to_unit) (auto simp: divide_le_eq_1)
  define R where "R = map (\<lambda>(k, n, c). (k, round_to 4 (of_nat c / of_nat n))) ?s"
  have "round_to 4 0 = 0" by (simp add: round_to_def round_half_even_def)
  then have recall: "0 \<le> x \<and> x \<le> 1 \<and> (k \<notin> set INTENTS \<or> ((\<forall>q. raw q = None) \<and> k \<noteq> FALLBACK_INTENT) \<longrightarrow> x = 0)"
    if "(k, x) \<in> set R" for k x
    using that entry unit unfolding R_def by fastforce
  have len: "length (misses_of (classify raw) rows) \<le> length rows" using misses_length [of "classify raw" rows] by simp
  have "0 \<le> round_to 4 (1 - of_nat (length (misses_of (classify raw) rows)) / of_nat (length rows))
      \<and> round_to 4 (1 - of_nat (length (misses_of (classify raw) rows)) / of_nat (length rows)) \<le> 1"
    using len assms by (intro round_to_unit) (simp_all add: divide_le_eq_1)
  moreover have "map fst R = sorted_list_of_set (lb_intent ` set rows)"
    using keys by (simp add: R_def case_prod_beta comp_def)
  moreover have "\<forall>(k, x) \<in> set R. 0 \<le> x \<and> x \<le> 1 \<and> (k \<notin> set INTENTS \<or> ((\<forall>q. raw q = None) \<and> k \<noteq> FALLBACK_INTENT) \<longrightarrow> x = 0)"
    using recall by blast
  ultimately show ?thesis using assms misses_length [of "classify raw" rows] by (simp add: router_report_def R_def [symmetric])
qed

lemma router_report_accounts_witness:
  "\<exists>m. router_report (classify (\<lambda>_. None)) [\<lparr>lb_id = [49], lb_query = [113], lb_intent = lit ''nowhere''\<rparr>] [5] = Some m \<and> length (ro_misses m) = 1"
proof -
  have "rd_intent (classify (\<lambda>_. None) [113]) \<noteq> lit ''nowhere''" by (simp add: classify_def FALLBACK_INTENT_def)
  then show ?thesis
    using router_report_accounts [of "[\<lparr>lb_id = [49], lb_query = [113], lb_intent = lit ''nowhere''\<rparr>]" "\<lambda>_. None" "[5]"]
    by (auto simp: routed_right_def router_report_def)
qed

end
