(* ===== verification/Services.thy ===== *)
theory Services
  imports Base64 Codec DocIndex Search "HOL-Library.Word"
begin

text \<open>
  The model services next to the backend: figure captions (\<open>src/services/vlm/main.py\<close>), page and query
  multivectors (\<open>src/services/colqwen/main.py\<close>), embeddings and reranking
  (\<open>src/services/embeddings/main.py\<close>). Their endpoints, with the stubs that stand in without a model
  written out; the neural models, SHA-256 and the chat-completion server are parameters. The HTTP clients
  of the backend meet the endpoints here. Loading a model, timeouts and health output are left out.
\<close>

unbundle bit_operations_syntax

definition getenv :: "(pystr \<Rightarrow> pystr option) \<Rightarrow> pystr \<Rightarrow> pystr \<Rightarrow> pystr" where
  "getenv env k dv = (case env k of None \<Rightarrow> dv | Some v \<Rightarrow> v)"

definition flag_set :: "(pystr \<Rightarrow> pystr option) \<Rightarrow> pystr \<Rightarrow> bool" where
  "flag_set env k \<longleftrightarrow> lower (getenv env k (lit ''false'')) = lit ''true''"

text \<open>\<open>bad s\<close> is the text of the exception \<open>b64decode\<close> raises on \<open>s\<close>; both image endpoints begin like this.\<close>

definition decoded_image :: "(pystr \<Rightarrow> pystr) \<Rightarrow> pystr \<Rightarrow> nat list http" where
  "decoded_image bad s = (case b64decode s of
       None \<Rightarrow> Inl (HTTPException 400 (lit ''invalid image_b64: '' @ bad s))
     | Some png \<Rightarrow> if png = [] then Inl (HTTPException 400 (lit ''empty image'')) else Inr png)"

lemma decoded_image_encoded:
  "(\<And>x. x \<in> set png \<Longrightarrow> x < 256) \<Longrightarrow> decoded_image bad (b64encode png)
     = (if png = [] then Inl (HTTPException 400 (lit ''empty image'')) else Inr png)"
  by (simp add: decoded_image_def b64_roundtrip)

subsection \<open>Figure captions\<close>

record vision_request =
  vq_url :: pystr
  vq_key :: pystr
  vq_model :: pystr
  vq_max_tokens :: nat
  vq_prompt :: pystr
  vq_image :: pystr

text \<open>\<open>vl_openai\<close>: the message's content (which may be null), or the text of an exception.\<close>

record vlm_env =
  vl_env :: "pystr \<Rightarrow> pystr option"
  vl_sha :: "nat list \<Rightarrow> pystr"
  vl_bad :: "pystr \<Rightarrow> pystr"
  vl_openai :: "vision_request \<Rightarrow> pystr + pystr option"
  vl_generate :: "nat list \<Rightarrow> pystr option"

record caption_out =
  cr_caption :: pystr
  cr_model :: pystr
  cr_stub :: bool

definition vlm_model :: "vlm_env \<Rightarrow> pystr" where
  "vlm_model v = getenv (vl_env v) (lit ''VLM_MODEL'') (lit ''Qwen/Qwen2.5-VL-7B-Instruct'')"

definition vlm_backend :: "vlm_env \<Rightarrow> pystr" where
  "vlm_backend v = lower (getenv (vl_env v) (lit ''VLM_BACKEND'')
     (if flag_set (vl_env v) (lit ''VLM_IMPLEMENTED'') then lit ''transformers'' else lit ''stub''))"

definition CAPTION_PROMPT :: pystr where
  "CAPTION_PROMPT = lit ''Beschreibe die Abbildung faktisch auf Deutsch: Art und Inhalt, ''
     @ lit ''Achsenbeschriftungen und Legenden mit konkret abgelesenen Werten, s'' @ [228] @ lit ''mtlichen sichtbaren Text (OCR) ''
     @ lit ''und erkennbare Trends. Englischen Text im Original '' @ [252] @ lit ''bernehmen. Keine Spekulation '' @ [252]
     @ lit ''ber nicht Sichtbares.''"

definition caption_openai :: "vlm_env \<Rightarrow> nat list \<Rightarrow> pystr + pystr" where
  "caption_openai v png =
     (case vl_openai v
         \<lparr>vq_url = rstrip_by (\<lambda>c. c = 47) (getenv (vl_env v) (lit ''VLM_BASE_URL'') (lit ''http://ollama:11434/v1'')) @ lit ''/chat/completions'',
          vq_key = getenv (vl_env v) (lit ''VLM_API_KEY'') (lit ''not-needed-local''), vq_model = vlm_model v, vq_max_tokens = 400,
          vq_prompt = CAPTION_PROMPT, vq_image = lit ''data:image/png;base64,'' @ b64encode png\<rparr> of
        Inl er \<Rightarrow> Inl er
      | Inr content \<Rightarrow> Inr (strip (case content of None \<Rightarrow> [] | Some t \<Rightarrow> t)))"

definition stub_caption :: "(nat list \<Rightarrow> pystr) \<Rightarrow> nat list \<Rightarrow> pystr \<Rightarrow> int option \<Rightarrow> pystr" where
  "stub_caption sha png kind page =
     lit ''[STUB-Caption] Abbildung ('' @ kind @ lit '')'' @ (case page of None \<Rightarrow> [] | Some p \<Rightarrow> lit '' auf Seite '' @ int_str p)
       @ lit '', '' @ nat_str (length png) @ lit '' Bytes, Pr'' @ [252] @ lit ''fsumme '' @ take 8 (sha png)
       @ lit ''. Echte VLM-Beschreibung erfolgt auf dem GPU-Host (VLM_IMPLEMENTED=true).''"

definition caption_endpoint :: "vlm_env \<Rightarrow> pystr \<Rightarrow> pystr \<Rightarrow> int option \<Rightarrow> caption_out http" where
  "caption_endpoint v b64 kind page =
     (case decoded_image (vl_bad v) b64 of
        Inl er \<Rightarrow> Inl er
      | Inr png \<Rightarrow>
          if vlm_backend v = lit ''stub'' then
            Inr \<lparr>cr_caption = stub_caption (vl_sha v) png kind page, cr_model = vlm_model v, cr_stub = True\<rparr>
          else if vlm_backend v = lit ''openai'' then
            (case caption_openai v png of
               Inl er \<Rightarrow> Inl (HTTPException 502 (lit ''VLM openai backend failed: '' @ er))
             | Inr t \<Rightarrow> Inr \<lparr>cr_caption = t, cr_model = vlm_model v, cr_stub = False\<rparr>)
          else (case vl_generate v png of None \<Rightarrow> Inl Crash
             | Some t \<Rightarrow> Inr \<lparr>cr_caption = strip t, cr_model = vlm_model v, cr_stub = False\<rparr>))"

definition summarize_endpoint :: "vlm_env \<Rightarrow> pystr \<Rightarrow> pystr \<Rightarrow> int option \<Rightarrow> caption_out http" where
  "summarize_endpoint = caption_endpoint"

text \<open>The request of \<open>FigureCaptioner.caption\<close>; any status of 400 or more raises there.\<close>

definition vlm_client :: "vlm_env \<Rightarrow> nat list \<Rightarrow> pystr \<Rightarrow> int option \<Rightarrow> pystr option" where
  "vlm_client v png kind page = (case caption_endpoint v (b64encode png) kind page of Inl _ \<Rightarrow> None | Inr r \<Rightarrow> Some (cr_caption r))"

lemma stub_caption_strip: "strip (stub_caption sha png kind page) = stub_caption sha png kind page"
proof -
  have "hd (stub_caption sha png kind page) = 91" "stub_caption sha png kind page \<noteq> []"
    by (simp_all add: stub_caption_def lit_def)
  moreover have "last (stub_caption sha png kind page) = 46"
    by (simp add: stub_caption_def lit_def)
  ultimately show ?thesis by (simp add: strip_def strip_by_id is_space_def)
qed

lemma vlm_client_cases:
  assumes "\<And>x. x \<in> set png \<Longrightarrow> x < 256" and "png \<noteq> []"
  shows "vlm_client v png kind page =
    (if vlm_backend v = lit ''stub'' then Some (stub_caption (vl_sha v) png kind page)
     else if vlm_backend v = lit ''openai'' then (case caption_openai v png of Inl _ \<Rightarrow> None | Inr t \<Rightarrow> Some t)
     else map_option strip (vl_generate v png))"
  using assms by (auto simp: vlm_client_def caption_endpoint_def decoded_image_encoded split: sum.splits option.splits)

text \<open>
  The captioner against the service: an enabled captioner gives every non-empty image the caption of the
  service's backend, and exactly when that has none, or the image is empty, the caption of the document.
\<close>

theorem figure_caption_end_to_end:
  assumes "\<And>x. x \<in> set png \<Longrightarrow> x < 256" and "visual_enabled cfg (vlm_base_url cfg)"
  shows "caption cfg (vlm_client v) png kind page fb =
    (if png = [] then fallback_caption fb
     else if vlm_backend v = lit ''stub'' then stub_caption (vl_sha v) png kind page
     else let c = (if vlm_backend v = lit ''openai'' then (case caption_openai v png of Inl _ \<Rightarrow> [] | Inr t \<Rightarrow> t)
           else (case vl_generate v png of None \<Rightarrow> [] | Some t \<Rightarrow> strip t))
       in if c = [] then fallback_caption fb else c)"
proof (cases "png = []")
  case True
  then show ?thesis using assms(2)
    by (simp add: caption_def vlm_client_def caption_endpoint_def decoded_image_def)
next
  case False
  have "stub_caption (vl_sha v) png kind page \<noteq> []" by (simp add: stub_caption_def lit_def)
  then show ?thesis using assms(2) False
    by (auto simp: caption_def vlm_client_cases [OF assms(1) False] stub_caption_strip caption_openai_def Let_def
        split: option.splits sum.splits)
qed

subsection \<open>Page and query multivectors\<close>

text \<open>\<open>cq_embed\<close> is the loaded model; \<open>None\<close>: it raises. \<open>cq_sha\<close> gives the digest's 32 bytes.\<close>

record colqwen_env =
  cq_model :: pystr
  cq_implemented :: bool
  cq_dim :: int
  cq_patches :: int
  cq_sha :: "nat list \<Rightarrow> nat list"
  cq_bad :: "pystr \<Rightarrow> pystr"
  cq_embed_image :: "nat list \<Rightarrow> real list list option"
  cq_embed_query :: "pystr \<Rightarrow> real list list option"

record multivector_out =
  mv_vectors :: "real list list"
  mv_model :: pystr
  mv_stub :: bool

definition to_bytes2 :: "nat \<Rightarrow> nat list option" where
  "to_bytes2 p = (if p < 65536 then Some [p div 256, p mod 256] else None)"

definition stub_entry :: "nat list \<Rightarrow> nat \<Rightarrow> real" where
  "stub_entry h i = of_nat (push_bit 8 (h ! (i mod 32)) OR h ! ((i * 7 + 3) mod 32)) / (65535 / 2) - 1"

definition normalized :: "real list \<Rightarrow> real list" where
  "normalized raw = (let norm = sqrt (sum_list (map (\<lambda>x. x * x) raw)) in map (\<lambda>x. x / (if norm = 0 then 1 else norm)) raw)"

definition stub_multivector :: "(nat list \<Rightarrow> nat list) \<Rightarrow> int \<Rightarrow> nat list \<Rightarrow> int \<Rightarrow> real list list option" where
  "stub_multivector sha dimension seed n =
     those (map (\<lambda>p. map_option (\<lambda>b. normalized (map (stub_entry (sha (seed @ b))) [0..<nat dimension])) (to_bytes2 p)) [0..<nat n])"

definition multivector_reply :: "colqwen_env \<Rightarrow> bool \<Rightarrow> real list list option \<Rightarrow> multivector_out http" where
  "multivector_reply c stub m = (case m of None \<Rightarrow> Inl Crash | Some x \<Rightarrow> Inr \<lparr>mv_vectors = x, mv_model = cq_model c, mv_stub = stub\<rparr>)"

definition embed_image_endpoint :: "colqwen_env \<Rightarrow> pystr \<Rightarrow> multivector_out http" where
  "embed_image_endpoint c b64 =
     (case decoded_image (cq_bad c) b64 of
        Inl er \<Rightarrow> Inl er
      | Inr png \<Rightarrow>
          if \<not> cq_implemented c then multivector_reply c True (stub_multivector (cq_sha c) (cq_dim c) png (cq_patches c))
          else multivector_reply c False (cq_embed_image c png))"

definition embed_query_endpoint :: "colqwen_env \<Rightarrow> pystr \<Rightarrow> multivector_out http" where
  "embed_query_endpoint c query =
     (if strip query = [] then Inl (HTTPException 400 (lit ''empty query''))
      else if \<not> cq_implemented c then
        (case utf8 query of None \<Rightarrow> Inl Crash
         | Some b \<Rightarrow> multivector_reply c True (stub_multivector (cq_sha c) (cq_dim c) b 8))
      else multivector_reply c False (cq_embed_query c query))"

text \<open>\<open>ColQwenClient.embed_page\<close> and \<open>embed_query\<close>: \<open>None\<close> when they raise.\<close>

definition embed_page_client :: "colqwen_env \<Rightarrow> nat list \<Rightarrow> real list list option" where
  "embed_page_client c png = (case embed_image_endpoint c (b64encode png) of Inl _ \<Rightarrow> None | Inr r \<Rightarrow> Some (mv_vectors r))"

definition embed_query_client :: "colqwen_env \<Rightarrow> pystr \<Rightarrow> real list list option" where
  "embed_query_client c query = (case embed_query_endpoint c query of Inl _ \<Rightarrow> None | Inr r \<Rightarrow> Some (mv_vectors r))"

text \<open>What is relied on of SHA-256.\<close>

definition digest_laws :: "(nat list \<Rightarrow> nat list) \<Rightarrow> bool" where
  "digest_laws sha \<longleftrightarrow> (\<forall>s. length (sha s) = 32 \<and> (\<forall>b \<in> set (sha s). b < 256))"

lemma push_bit_or:
  fixes a b :: nat
  assumes "b < 256"
  shows "push_bit 8 a OR b = 256 * a + b"
proof -
  have small: "take_bit 8 b = b" using assms by (simp add: take_bit_nat_eq_self)
  have "\<not> bit (push_bit 8 a) n \<or> \<not> bit b n" for n
  proof (cases "n < 8")
    case False
    then have "\<not> bit (take_bit 8 b) n" by (simp add: bit_take_bit_iff)
    then show ?thesis using small by simp
  qed (simp add: bit_push_bit_iff)
  then have "push_bit 8 a + b = push_bit 8 a OR b" by (simp add: disjunctive_add)
  then show ?thesis by (simp add: push_bit_eq_mult)
qed

text \<open>No entry is zero: the two bytes are an integer, the middle of the scale is not.\<close>

lemma stub_entry_range:
  assumes "digest_laws sha"
  shows "stub_entry (sha s) i \<noteq> 0 \<and> \<bar>stub_entry (sha s) i\<bar> \<le> 1"
proof -
  have "sha s ! k < 256" if "k < 32" for k using assms that unfolding digest_laws_def by (metis nth_mem)
  then have h: "sha s ! (i mod 32) < 256" "sha s ! ((i * 7 + 3) mod 32) < 256" by simp_all
  define v where "v = 256 * sha s ! (i mod 32) + sha s ! ((i * 7 + 3) mod 32)"
  have v: "v \<le> 65535" using h by (simp add: v_def)
  have "2 * v \<noteq> 65535" by presburger
  then have "real v \<noteq> 65535 / 2" by linarith
  moreover have "stub_entry (sha s) i = real v / (65535 / 2) - 1" using h by (simp add: stub_entry_def push_bit_or v_def)
  ultimately show ?thesis using v by (auto simp: abs_le_iff field_simps)
qed

lemma normalized_unit:
  assumes "raw \<noteq> []" and "\<forall>x \<in> set raw. x \<noteq> 0"
  shows "sum_list (map (\<lambda>x. x * x) (normalized raw)) = 1"
proof -
  define s where "s = sum_list (map (\<lambda>x. x * x) raw)"
  have pos: "0 < s" using sum_squares_nonneg [of raw] sum_squares_zero [of raw] assms by (cases "s = 0") (auto simp: s_def neq_Nil_conv)
  then have "normalized raw = map (\<lambda>x. x / sqrt s) raw" by (simp add: normalized_def Let_def s_def [symmetric])
  then show ?thesis using pos by (simp only: sum_squares_scaled s_def [symmetric]) simp
qed

lemma those_map_Some: "those (map Some xs) = Some xs"
  by (induction xs) simp_all

lemma stub_multivector_shape:
  assumes "digest_laws sha" and "0 < dimension" and "n \<le> 65536"
  shows "\<exists>m. stub_multivector sha dimension seed n = Some m \<and> length m = nat n
    \<and> (\<forall>v \<in> set m. length v = nat dimension \<and> sum_list (map (\<lambda>x. x * x) v) = 1)"
proof -
  define f where "f p = normalized (map (stub_entry (sha (seed @ [p div 256, p mod 256]))) [0..<nat dimension])" for p :: nat
  have "map (\<lambda>p. map_option (\<lambda>b. normalized (map (stub_entry (sha (seed @ b))) [0..<nat dimension])) (to_bytes2 p)) [0..<nat n]
      = map Some (map f [0..<nat n])"
    using assms(3) by (auto simp: to_bytes2_def f_def)
  then have "stub_multivector sha dimension seed n = Some (map f [0..<nat n])"
    by (simp add: stub_multivector_def those_map_Some del: map_map)
  moreover have "length (f p) = nat dimension \<and> sum_list (map (\<lambda>x. x * x) (f p)) = 1" for p
    using stub_entry_range [OF assms(1)] assms(2) unfolding f_def
    by (intro conjI normalized_unit) (auto simp: normalized_def Let_def)
  ultimately show ?thesis by auto
qed

text \<open>
  The stub multivectors: with a positive dimension and at most 65536 patches, a non-empty page image and any
  query that is not blank and has a UTF-8 form get the configured number of vectors (a query eight), each of
  the configured dimension and of length 1, and the same input gets the same vectors again. More patches
  than that and a lone surrogate in the query are server errors.
\<close>

theorem stub_vectors_unit:
  assumes "digest_laws (cq_sha c)" and "0 < cq_dim c" and "\<not> cq_implemented c"
    and "\<And>x. x \<in> set png \<Longrightarrow> x < 256" and "png \<noteq> []" and "cq_patches c \<le> 65536"
    and "strip query \<noteq> []" and "utf8 query \<noteq> None"
  shows "\<exists>page words. embed_page_client c png = Some page \<and> embed_query_client c query = Some words
    \<and> length page = nat (cq_patches c) \<and> length words = 8
    \<and> (\<forall>v \<in> set page \<union> set words. length v = nat (cq_dim c) \<and> sum_list (map (\<lambda>x. x * x) v) = 1)"
proof -
  obtain b where b: "utf8 query = Some b" using assms(8) by auto
  obtain page where "stub_multivector (cq_sha c) (cq_dim c) png (cq_patches c) = Some page" "length page = nat (cq_patches c)"
      "\<forall>v \<in> set page. length v = nat (cq_dim c) \<and> sum_list (map (\<lambda>x. x * x) v) = 1"
    using stub_multivector_shape [OF assms(1,2,6)] by blast
  moreover obtain words where "stub_multivector (cq_sha c) (cq_dim c) b 8 = Some words" "length words = nat 8"
      "\<forall>v \<in> set words. length v = nat (cq_dim c) \<and> sum_list (map (\<lambda>x. x * x) v) = 1"
    using stub_multivector_shape [OF assms(1,2), of 8 b] by auto
  ultimately show ?thesis using assms b
    by (auto simp: embed_page_client_def embed_image_endpoint_def embed_query_client_def embed_query_endpoint_def
        multivector_reply_def decoded_image_encoded)
qed

definition demo_colqwen :: colqwen_env where
  "demo_colqwen = \<lparr>cq_model = lit ''stub'', cq_implemented = False, cq_dim = 2, cq_patches = 1, cq_sha = (\<lambda>_. replicate 32 7),
     cq_bad = (\<lambda>_. []), cq_embed_image = (\<lambda>_. None), cq_embed_query = (\<lambda>_. None)\<rparr>"

lemma stub_vectors_unit_witness: "\<exists>page. embed_page_client demo_colqwen [1, 2] = Some page \<and> length page = 1"
proof -
  have "digest_laws (cq_sha demo_colqwen)" by (simp add: digest_laws_def demo_colqwen_def)
  moreover have "strip [65] \<noteq> []" "utf8 [65] \<noteq> None"
    by (simp_all add: strip_def strip_by_id is_space_def utf8_cp_def)
  moreover have "x < 256" if "x \<in> set [1, 2]" for x :: nat using that by auto
  moreover have "0 < cq_dim demo_colqwen" "\<not> cq_implemented demo_colqwen" "cq_patches demo_colqwen = 1" by (simp_all add: demo_colqwen_def)
  ultimately have "\<exists>page words. embed_page_client demo_colqwen [1, 2] = Some page \<and> length page = nat (cq_patches demo_colqwen)"
    using stub_vectors_unit [of demo_colqwen "[1, 2]" "[65]"] by simp blast
  then show ?thesis using \<open>cq_patches demo_colqwen = 1\<close> by simp
qed

subsection \<open>Page images\<close>

text \<open>A page of an opened PDF: its size in points and its rasterisation at a scale, which is PyMuPDF's.\<close>

record pdf_page =
  pg_width :: rat
  pg_height :: rat
  pg_png :: "rat \<Rightarrow> nat list"

definition render_scale :: "nat \<Rightarrow> pdf_page \<Rightarrow> rat" where
  "render_scale max_px p =
     (let longest = max (pg_width p) (pg_height p) in min 1 (of_nat max_px / (if longest = 0 then 1 else longest)))"

text \<open>\<open>render_pages\<close>: an absent or zero bound is the configured one.\<close>

definition render_pages :: "cfg_model \<Rightarrow> nat option \<Rightarrow> pdf_page list \<Rightarrow> (nat \<times> nat list) list" where
  "render_pages cfg max_px pages =
     (let m = (case max_px of None \<Rightarrow> page_render_max_px cfg | Some 0 \<Rightarrow> page_render_max_px cfg | Some k \<Rightarrow> k)
      in map (\<lambda>(i, p). (i, pg_png p (render_scale m p))) (enumerate 1 pages))"

text \<open>No page is enlarged and none exceeds the bound on its longest edge; the pages are numbered from 1.\<close>

lemma render_scale_bounded:
  assumes "0 \<le> pg_width p" and "0 \<le> pg_height p"
  shows "render_scale m p \<le> 1 \<and> pg_width p * render_scale m p \<le> of_nat m \<and> pg_height p * render_scale m p \<le> of_nat m"
proof (cases "max (pg_width p) (pg_height p) = 0")
  case False
  define l where "l = max (pg_width p) (pg_height p)"
  have l: "0 < l" "pg_width p \<le> l" "pg_height p \<le> l" using assms False by (auto simp: l_def)
  have r: "0 \<le> render_scale m p" "render_scale m p \<le> of_nat m / l" using l(1) False by (simp_all add: render_scale_def Let_def l_def)
  have "e * render_scale m p \<le> of_nat m" if "e \<le> l" for e
  proof -
    have "e * render_scale m p \<le> l * render_scale m p" using that r(1) by (rule mult_right_mono)
    also have "\<dots> \<le> l * (of_nat m / l)" using r(2) l(1) by (intro mult_left_mono) auto
    finally show ?thesis using l(1) by simp
  qed
  then show ?thesis using l by (simp add: render_scale_def Let_def)
qed (use assms in \<open>auto simp: render_scale_def max_def split: if_splits\<close>)

lemma render_pages_numbered: "map fst (render_pages cfg max_px pages) = [1..<Suc (length pages)]"
proof -
  have "map fst (render_pages cfg max_px pages) = map fst (enumerate 1 pages)"
    by (simp add: render_pages_def Let_def case_prod_beta comp_def)
  then show ?thesis by (simp add: enumerate_eq_zip)
qed

subsection \<open>Embeddings and reranking\<close>

text \<open>
  \<open>em_encode\<close> gives the dense vectors and the lexical weights of the texts (keys are token numbers),
  \<open>em_score\<close> the scores of question-document pairs, or one bare number.
\<close>

record embed_models =
  em_implemented :: bool
  em_encode :: "pystr list \<Rightarrow> vec list \<times> (nat \<times> rat) list list"
  em_score :: "(pystr \<times> pystr) list \<Rightarrow> rat + rat list"

definition embed_endpoint :: "embed_models \<Rightarrow> pystr list \<Rightarrow> (vec \<times> nat list \<times> rat list) list http" where
  "embed_endpoint m texts =
     (if \<not> em_implemented m then Inl (HTTPException 501 (lit ''BGE-M3 not enabled (EMBEDDINGS_IMPLEMENTED=false)''))
      else case em_encode m texts of (dense, lexical) \<Rightarrow> Inr (map (\<lambda>(d, l). (d, map fst l, map snd l)) (zip dense lexical)))"

definition rerank_endpoint :: "embed_models \<Rightarrow> pystr \<Rightarrow> pystr list \<Rightarrow> rat list http" where
  "rerank_endpoint m query documents =
     (if \<not> em_implemented m then Inl (HTTPException 501 (lit ''reranker not enabled (EMBEDDINGS_IMPLEMENTED=false)''))
      else if documents = [] then Inr []
      else case em_score m (map (\<lambda>d. (query, d)) documents) of Inl x \<Rightarrow> Inr [x] | Inr xs \<Rightarrow> Inr xs)"

text \<open>\<open>ServiceEmbedder._embed\<close> with its two callers, \<open>ServiceReranker.rerank\<close>; \<open>None\<close> when they raise.\<close>

definition embed_client :: "embed_models \<Rightarrow> pystr \<Rightarrow> (vec \<times> nat list \<times> rat list) option" where
  "embed_client m t = (case embed_endpoint m [t] of Inr (x # _) \<Rightarrow> Some x | _ \<Rightarrow> None)"

definition embed_dense_client :: "embed_models \<Rightarrow> pystr \<Rightarrow> vec option" where
  "embed_dense_client m t = map_option fst (embed_client m t)"

definition embed_sparse_client :: "embed_models \<Rightarrow> pystr \<Rightarrow> (nat list \<times> rat list) option" where
  "embed_sparse_client m t = map_option snd (embed_client m t)"

definition rerank_client :: "embed_models \<Rightarrow> pystr \<Rightarrow> pystr list \<Rightarrow> rat list option" where
  "rerank_client m q docs = (if docs = [] then Some []
     else case rerank_endpoint m q (map (take RERANK_DOC_CHARS) docs) of Inl _ \<Rightarrow> None | Inr xs \<Rightarrow> Some xs)"

definition model_laws :: "embed_models \<Rightarrow> nat \<Rightarrow> bool" where
  "model_laws m dimension \<longleftrightarrow> em_implemented m
     \<and> (\<forall>ts. length (fst (em_encode m ts)) = length ts \<and> length (snd (em_encode m ts)) = length ts
          \<and> (\<forall>v \<in> set (fst (em_encode m ts)). length v = dimension))
     \<and> (\<forall>ps. case em_score m ps of Inl _ \<Rightarrow> length ps = 1 | Inr xs \<Rightarrow> length xs = length ps)"

text \<open>
  With the models in place no client raises: a text gets a dense vector of the models' dimension and a
  sparse one with as many values as indices, and reranking gives one score per document, for one document
  and for none as well. Without them every call but the reranking of nothing raises.
\<close>

theorem model_clients_total:
  assumes "model_laws m dimension"
  shows "(\<exists>v. embed_dense_client m t = Some v \<and> length v = dimension)
    \<and> (\<exists>ks xs. embed_sparse_client m t = Some (ks, xs) \<and> length ks = length xs)
    \<and> (\<exists>ys. rerank_client m q docs = Some ys \<and> length ys = length docs)
    \<and> embed_dense_client (m\<lparr>em_implemented := False\<rparr>) t = None
    \<and> rerank_client (m\<lparr>em_implemented := False\<rparr>) q docs = (if docs = [] then Some [] else None)"
proof -
  obtain dense lexical where e: "em_encode m [t] = (dense, lexical)" by (cases "em_encode m [t]")
  then have "length dense = 1 \<and> length lexical = 1 \<and> (\<forall>v \<in> set dense. length v = dimension)"
    using assms by (auto simp: model_laws_def dest!: spec [of _ "[t]"])
  then obtain v l where "dense = [v]" "lexical = [l]" "length v = dimension" by (auto simp: length_Suc_conv)
  with e assms have c: "embed_client m t = Some (v, map fst l, map snd l)"
    by (simp add: embed_client_def embed_endpoint_def model_laws_def)
  have "\<exists>ys. rerank_client m q docs = Some ys \<and> length ys = length docs"
  proof (cases "docs = []")
    case False
    define ps where "ps = map (\<lambda>d. (q, d)) (map (take RERANK_DOC_CHARS) docs)"
    have "case em_score m ps of Inl _ \<Rightarrow> length ps = 1 | Inr xs \<Rightarrow> length xs = length ps" "em_implemented m"
      using assms by (simp_all add: model_laws_def)
    with False show ?thesis
      by (auto simp: rerank_client_def rerank_endpoint_def ps_def split: sum.splits)
  qed (simp add: rerank_client_def)
  with c \<open>length v = dimension\<close> show ?thesis
    by (auto simp: embed_dense_client_def embed_sparse_client_def embed_client_def embed_endpoint_def rerank_client_def rerank_endpoint_def)
qed

definition demo_models :: embed_models where
  "demo_models = \<lparr>em_implemented = True, em_encode = (\<lambda>ts. (map (\<lambda>_. [1, 0]) ts, map (\<lambda>_. [(3, 1)]) ts)),
     em_score = (\<lambda>ps. if length ps = 1 then Inl 1 else Inr (map (\<lambda>_. 1 / 2) ps))\<rparr>"

lemma model_clients_total_witness: "\<exists>ys. rerank_client demo_models [65] [[66]] = Some ys \<and> length ys = 1"
proof -
  have "model_laws demo_models 2" by (simp add: model_laws_def demo_models_def)
  then show ?thesis using model_clients_total [of demo_models 2 _ "[65]" "[[66]]"] by simp
qed

end
