(* ===== verification/Tracing.thy ===== *)
theory Tracing
  imports Graph Gaps
begin

text \<open>
  Tracing, \<open>app/observability/tracing.py\<close>: the spans a request leaves, computed from the agent graph's final
  state, the span of an evaluation, and the one-time set-up. The OpenTelemetry library is the list of the
  finished spans; SHA-256 is a parameter, as are the two latencies, which the graph's model leaves out.
\<close>

subsection \<open>Set-up\<close>

datatype processor = Simple_processor pystr | Batch_processor pystr

record cfg_tracing =
  tracing_enabled :: bool
  phoenix_host :: pystr
  phoenix_grpc_port :: nat

text \<open>\<open>exporter\<close>: the name of one passed in; \<open>ok\<close>: the library did not raise. The provider is its processors.\<close>

definition setup_tracing :: "cfg_tracing \<Rightarrow> pystr option \<Rightarrow> bool \<Rightarrow> processor list option \<Rightarrow> processor list option" where
  "setup_tracing cfg exporter ok provider =
     (if provider \<noteq> None then provider
      else if \<not> ok then None
      else Some (case exporter of Some x \<Rightarrow> [Simple_processor x]
          | None \<Rightarrow> if tracing_enabled cfg
              then [Batch_processor (lit ''http://'' @ phoenix_host cfg @ lit '':'' @ nat_str (phoenix_grpc_port cfg))] else []))"

subsection \<open>Spans\<close>

datatype attribute = A_str pystr | A_bool bool | A_int int | A_num rat | A_strs "pystr list" | A_nums "rat list"

record span =
  sp_name :: pystr
  sp_start :: int
  sp_end :: int
  sp_attrs :: "(pystr \<times> attribute) list"

text \<open>\<open>int(x)\<close> cuts towards zero.\<close>

definition trunc :: "rat \<Rightarrow> int" where
  "trunc x = (if 0 \<le> x then \<lfloor>x\<rfloor> else - \<lfloor>- x\<rfloor>)"

definition nanos :: "rat \<Rightarrow> int" where
  "nanos ms = trunc (ms * 1000000)"

definition anon :: "(pystr \<Rightarrow> pystr) \<Rightarrow> uuid \<Rightarrow> pystr" where
  "anon sha u = take 16 (sha (str_uuid u))"

definition retrieve_span :: "gstate \<Rightarrow> rat \<Rightarrow> int \<Rightarrow> span" where
  "retrieve_span s r_ms start =
     \<lparr>sp_name = lit ''retrieve'', sp_start = start, sp_end = start + nanos r_ms,
      sp_attrs = [(lit ''retrieval.latency_ms'', A_num (round_to 1 r_ms)), (lit ''retrieval.num_chunks'', A_int (int (length (gs_chunks s)))),
        (lit ''retrieval.document_ids'', A_strs (map k_doc (gs_chunks s))), (lit ''retrieval.chunk_types'', A_strs (map k_type (gs_chunks s))),
        (lit ''retrieval.scores'', A_nums (map (\<lambda>c. round_to 4 (k_score c)) (gs_chunks s)))]\<rparr>"

definition generate_span :: "gstate \<Rightarrow> rat \<Rightarrow> int \<Rightarrow> span" where
  "generate_span s g_ms start =
     \<lparr>sp_name = lit ''generate'', sp_start = start, sp_end = start + nanos g_ms,
      sp_attrs = [(lit ''generation.latency_ms'', A_num (round_to 1 g_ms)), (lit ''generation.num_citations'', A_int (int (length (gs_citations s))))]\<rparr>"

definition request_span :: "(pystr \<Rightarrow> pystr) \<Rightarrow> gstate \<Rightarrow> rat \<Rightarrow> pystr \<Rightarrow> uuid \<Rightarrow> int \<Rightarrow> span" where
  "request_span sha s total_ms rid u now =
     \<lparr>sp_name = lit ''rag.request'', sp_start = now - nanos total_ms, sp_end = now,
      sp_attrs = [(lit ''request.id'', A_str rid), (lit ''user.id'', A_str (anon sha u)),
        (lit ''router.decision'', A_str (case gs_route s of None \<Rightarrow> [] | Some r \<Rightarrow> r)), (lit ''cache.hit'', A_bool (gs_cache_hit s)),
        (lit ''retry.count'', A_int (int (gs_rretries s) + int (gs_gretries s))), (lit ''end_to_end.latency_ms'', A_num (round_to 1 total_ms)),
        (lit ''insufficient'', A_bool (gs_insufficient s))]\<rparr>"

definition record_request :: "(pystr \<Rightarrow> pystr) \<Rightarrow> gstate \<Rightarrow> rat \<Rightarrow> rat \<Rightarrow> rat \<Rightarrow> pystr \<Rightarrow> uuid \<Rightarrow> int \<Rightarrow> span list" where
  "record_request sha s r_ms g_ms total_ms rid u now =
     (let start = now - nanos total_ms in
      [retrieve_span s r_ms start, generate_span s g_ms (start + nanos r_ms), request_span sha s total_ms rid u now])"

definition record_eval :: "pystr \<Rightarrow> (pystr \<times> attribute) list \<Rightarrow> pystr \<times> (pystr \<times> attribute) list" where
  "record_eval rid scores = (lit ''eval'', (lit ''request.id'', A_str rid) # map (\<lambda>(k, v). (lit ''eval.'' @ k, v)) scores)"

subsection \<open>What a trace tells\<close>

text \<open>The state with everything blanked that anyone wrote: questions, answers, messages, passages, citations.\<close>

definition blank_chunk :: "chunk_item \<Rightarrow> chunk_item" where
  "blank_chunk c = c\<lparr>k_chunk := [], k_coll := [], k_page := None, k_section := None, k_content := [], k_file := None, k_image := None\<rparr>"

definition without_text :: "gstate \<Rightarrow> gstate" where
  "without_text s = s\<lparr>gs_messages := [], gs_query := [], gs_rewritten := [], gs_plan := [], gs_answer := [], gs_allowed := [],
     gs_pages := [], gs_chunks := map blank_chunk (gs_chunks s), gs_citations := map (\<lambda>_. doc_citation []) (gs_citations s)\<rparr>"

text \<open>
  A trace holds no text of the conversation and no content of a document: the spans of a request are those of
  the state with all of it blanked. Of the user they hold the first sixteen digits of the digest alone.
\<close>

theorem trace_reveals_no_text:
  "record_request sha s r_ms g_ms total_ms rid u now = record_request sha (without_text s) r_ms g_ms total_ms rid u now
   \<and> (anon sha u = anon sha v \<longrightarrow> record_request sha s r_ms g_ms total_ms rid u now = record_request sha s r_ms g_ms total_ms rid v now)"
  by (simp add: record_request_def retrieve_span_def generate_span_def request_span_def without_text_def blank_chunk_def comp_def Let_def)

lemma trunc_mono: "0 \<le> x \<Longrightarrow> x \<le> y \<Longrightarrow> trunc x \<le> trunc y"
  by (simp add: trunc_def floor_mono)

lemma trunc_add: "0 \<le> x \<Longrightarrow> 0 \<le> y \<Longrightarrow> trunc x + trunc y \<le> trunc (x + y)"
  by (simp add: trunc_def le_floor_add)

text \<open>The children of a trace lie in its parent, one after the other, when the two phases took no longer than the whole.\<close>

theorem spans_nested:
  assumes "0 \<le> r_ms" and "0 \<le> g_ms" and "r_ms + g_ms \<le> total_ms"
    and "record_request sha s r_ms g_ms total_ms rid u now = [r, g, p]"
  shows "sp_start p = sp_start r \<and> sp_start r \<le> sp_end r \<and> sp_end r = sp_start g \<and> sp_start g \<le> sp_end g \<and> sp_end g \<le> sp_end p"
proof -
  have "0 \<le> nanos r_ms" "0 \<le> nanos g_ms" using assms(1,2) by (simp_all add: nanos_def trunc_def)
  moreover have "nanos r_ms + nanos g_ms \<le> nanos total_ms"
  proof -
    have "nanos r_ms + nanos g_ms \<le> trunc (r_ms * 1000000 + g_ms * 1000000)"
      using assms(1,2) unfolding nanos_def by (intro trunc_add) simp_all
    also have "\<dots> \<le> nanos total_ms" using assms(1-3) unfolding nanos_def by (intro trunc_mono) simp_all
    finally show ?thesis .
  qed
  ultimately show ?thesis using assms(4) by (auto simp: record_request_def Let_def retrieve_span_def generate_span_def request_span_def)
qed

text \<open>
  The trace of a turn answered from the cache claims a retrieval that did not take place: the chunks in the
  state are those of the session's previous turn, and the retrieve span lists their documents.
\<close>

theorem cached_turn_traces_old_retrieval:
  assumes "ge_lookup e (set allowed) msg (gw_cache w) = Some (Some h, c)" and "allowed \<noteq> []" and "\<not> gs_insufficient saved" and "\<not> blank msg"
  shows "\<exists>s' w'. invoke e (turn_input saved msg allowed rid) w = Some (Finished s' w') \<and> gs_cache_hit s' \<and> gs_answer s' = hit_answer h
    \<and> gs_chunks s' = gs_chunks saved
    \<and> (lit ''retrieval.document_ids'', A_strs (map k_doc (gs_chunks saved))) \<in> set (sp_attrs (hd (record_request sha s' r_ms g_ms total_ms rid u now)))"
proof -
  obtain k where "recursion_limit (ge_brk e) = Suc (Suc (Suc k))" by (auto simp: recursion_limit_def)
  with assms show ?thesis
    by (simp add: invoke_def input_guard_def bump_def Let_def after_input_def after_cache_def eval_queue_def semantic_cache_def turn_input_def
        record_request_def retrieve_span_def)
qed

end
