(* ===== verification/Wiring.thy ===== *)
theory Wiring
  imports Admin Metrics Eval
begin

text \<open>
  The start of the application: \<open>src/app/main.py\<close> (service information and the two metrics endpoints),
  \<open>src/app/health.py\<close> (readiness), \<open>llm_hostport\<close> of \<open>src/app/llm/client.py\<close>, and the seed data of
  \<open>src/app/seed.py\<close>. A TCP connection attempt is the parameter \<open>tcp\<close>, the Prometheus text format
  the parameter \<open>expose\<close>. The part of \<open>urllib.parse\<close> the probe uses is written out; an address in
  brackets is taken as a valid one.
\<close>

subsection \<open>Host and port of the model server\<close>

definition ascii_alpha :: "nat \<Rightarrow> bool" where
  "ascii_alpha c \<longleftrightarrow> (65 \<le> c \<and> c \<le> 90) \<or> (97 \<le> c \<and> c \<le> 122)"

definition scheme_char :: "nat \<Rightarrow> bool" where
  "scheme_char c \<longleftrightarrow> ascii_alpha c \<or> is_digit c \<or> c \<in> {43, 45, 46}"

definition partition_at :: "nat \<Rightarrow> pystr \<Rightarrow> pystr \<times> pystr" where
  "partition_at c s = (case cut [c] s of None \<Rightarrow> (s, []) | Some p \<Rightarrow> p)"

definition url_clean :: "pystr \<Rightarrow> pystr" where
  "url_clean u = filter (\<lambda>c. c \<notin> {9, 10, 13}) (dropWhile (\<lambda>c. c \<le> 32) u)"

definition url_scheme :: "pystr \<Rightarrow> pystr \<times> pystr" where
  "url_scheme u = (case cut [58] u of
       Some (a, b) \<Rightarrow> if a \<noteq> [] \<and> ascii_alpha (hd a) \<and> list_all scheme_char a then (lower a, b) else ([], u)
     | None \<Rightarrow> ([], u))"

definition url_netloc :: "pystr \<Rightarrow> pystr" where
  "url_netloc u = (if prefix [47, 47] u then takeWhile (\<lambda>c. c \<notin> {47, 63, 35}) (drop 2 u) else [])"

definition host_info :: "pystr \<Rightarrow> pystr \<times> pystr" where
  "host_info netloc =
     (let hostinfo = last (split_str [64] netloc) in
      case cut [91] hostinfo of None \<Rightarrow> partition_at 58 hostinfo
      | Some (_, bracketed) \<Rightarrow>
          let (h, rest) = partition_at 93 bracketed in (h, snd (partition_at 58 rest)))"

definition host_lower :: "pystr \<Rightarrow> pystr" where
  "host_lower h = (case cut [37] h of None \<Rightarrow> lower h | Some (a, z) \<Rightarrow> lower a @ [37] @ z)"

text \<open>\<open>None\<close>: the URL library raises \<open>ValueError\<close>. Port 0 counts as no port.\<close>

definition llm_hostport :: "pystr \<Rightarrow> (pystr \<times> nat) option" where
  "llm_hostport base_url =
     (let (scheme, rest) = url_scheme (url_clean base_url); netloc = url_netloc rest; (h, p) = host_info netloc;
          default_port = (if scheme = lit ''https'' then 443 else 80);
          host = (if h = [] then lit ''localhost'' else host_lower h)
      in if (91 \<in> set netloc) \<noteq> (93 \<in> set netloc) then None
         else if p = [] then Some (host, default_port)
         else if \<not> list_all is_digit p then None
         else if 65535 < decimal p then None
         else Some (host, if decimal p = 0 then default_port else decimal p))"

subsection \<open>Health and readiness\<close>

definition health :: "pystr \<Rightarrow> (pystr \<times> pystr) list" where
  "health version = [(lit ''status'', lit ''ok''), (lit ''service'', lit ''backend''), (lit ''version'', version)]"

definition root_info :: "pystr \<Rightarrow> (pystr \<times> pystr) list" where
  "root_info version = [(lit ''service'', lit ''agentic-rag-backend''), (lit ''version'', version), (lit ''status'', lit ''ok''),
     (lit ''docs'', lit ''/docs'')]"

record readiness =
  rd_code :: nat
  rd_status :: pystr
  rd_dependencies :: "(pystr \<times> bool) list"

definition ready :: "(pystr \<Rightarrow> nat \<Rightarrow> bool) \<Rightarrow> cfg_store \<Rightarrow> cfg_model \<Rightarrow> pystr \<Rightarrow> readiness http" where
  "ready tcp s m llm_url =
     (case llm_hostport llm_url of None \<Rightarrow> Inl Crash
      | Some (llm_host, llm_port) \<Rightarrow>
          let result = [(lit ''postgres'', tcp (postgres_host s) (postgres_port s)), (lit ''redis'', tcp (redis_host s) (redis_port s)),
                        (lit ''qdrant'', tcp (qdrant_host s) (qdrant_http_port s)), (lit ''llm:'' @ llm_backend m, tcp llm_host llm_port)];
              all_ok = list_all snd result
          in Inr \<lparr>rd_code = (if all_ok then 200 else 503), rd_status = (if all_ok then lit ''ready'' else lit ''degraded''),
                  rd_dependencies = result\<rparr>)"

subsection \<open>Metrics endpoints\<close>

text \<open>The scrape refreshes the gauges and needs no login; the rollup is for administrators.\<close>

definition metrics_endpoint :: "(prometheus \<Rightarrow> 'x) \<Rightarrow> redis \<Rightarrow> broker \<Rightarrow> eval_item list \<Rightarrow> db \<Rightarrow> prometheus \<Rightarrow> 'x \<times> prometheus" where
  "metrics_endpoint expose r b evals d p = (let p' = refresh_gauges r b evals d p in (expose p', p'))"

definition metrics_summary ::
  "(time \<Rightarrow> pystr \<Rightarrow> payload option) \<Rightarrow> time \<Rightarrow> pystr option \<Rightarrow> redis \<Rightarrow> metric_store \<Rightarrow> broker \<Rightarrow> eval_item list \<Rightarrow> db
     \<Rightarrow> ops_summary http" where
  "metrics_summary dec now creds r m b evals d =
     (case get_current_user dec now d r creds of Inl er \<Rightarrow> Inl er
      | Inr u \<Rightarrow> (case require_admin u of Inl er \<Rightarrow> Inl er | Inr _ \<Rightarrow> Inr (summary (r_up r) m b evals d)))"

subsection \<open>Seed data\<close>

text \<open>
  One transaction, committed at the end: \<open>Inl\<close> leaves the database as it was. Ids of new rows are arguments;
  the hash is computed only when the administrator does not exist.
\<close>

definition seed_department :: "uuid \<Rightarrow> db \<Rightarrow> (dept_row \<times> db) http" where
  "seed_department i d =
     (case scalar_one_or_none (filter (\<lambda>x. dp_name x = lit ''General'') (t_departments d)) of
        Inl er \<Rightarrow> Inl er
      | Inr (Some dept) \<Rightarrow> Inr (dept, d)
      | Inr None \<Rightarrow> let dept = \<lparr>dp_id = i, dp_name = lit ''General''\<rparr> in Inr (dept, d\<lparr>t_departments := add_row dept (t_departments d)\<rparr>))"

definition seed_admin :: "(nat list \<Rightarrow> pystr) \<Rightarrow> pystr \<Rightarrow> pystr \<Rightarrow> uuid \<Rightarrow> dept_row \<Rightarrow> db \<Rightarrow> db http" where
  "seed_admin hashpw email password i dept d =
     (case scalar_one_or_none (filter (\<lambda>x. u_email x = email) (t_users d)) of
        Inl er \<Rightarrow> Inl er
      | Inr (Some _) \<Rightarrow> Inr d
      | Inr None \<Rightarrow> (case hash_password hashpw password of None \<Rightarrow> Inl Crash
          | Some h \<Rightarrow> Inr (d\<lparr>t_users := add_row \<lparr>u_id = i, u_email = email, u_hash = h, u_role = ADMIN, u_dept = Some (dp_id dept),
              u_active = True\<rparr> (t_users d)\<rparr>)))"

definition seed_collection :: "uuid \<Rightarrow> dept_row \<Rightarrow> db \<Rightarrow> db http" where
  "seed_collection i dept d =
     (case scalar_one_or_none (filter (\<lambda>x. co_name x = lit ''Sample'') (t_collections d)) of
        Inl er \<Rightarrow> Inl er
      | Inr (Some _) \<Rightarrow> Inr d
      | Inr None \<Rightarrow> Inr (d\<lparr>t_collections := add_row \<lparr>co_id = i, co_name = lit ''Sample'', co_desc = Some (lit ''Seed collection''),
          co_dept = Some (dp_id dept)\<rparr> (t_collections d)\<rparr>))"

definition seed :: "(nat list \<Rightarrow> pystr) \<Rightarrow> pystr \<Rightarrow> pystr \<Rightarrow> uuid \<Rightarrow> uuid \<Rightarrow> uuid \<Rightarrow> db \<Rightarrow> db http" where
  "seed hashpw email password di ui ci d =
     (case seed_department di d of Inl er \<Rightarrow> Inl er
      | Inr (dept, d1) \<Rightarrow>
        (case seed_admin hashpw email password ui dept d1 of Inl er \<Rightarrow> Inl er
         | Inr d2 \<Rightarrow> seed_collection ci dept d2))"

subsection \<open>The probe's address\<close>

lemma decimal_snoc: "decimal (xs @ [c]) = decimal xs * 10 + (c - 48)"
  by (simp add: decimal_def)

lemma decimal_nat_str [simp]: "decimal (nat_str n) = n"
proof (induction n rule: nat_str.induct)
  case (1 n)
  show ?case
  proof (cases "n < 10")
    case True
    then show ?thesis by (subst nat_str.simps) (simp add: decimal_def)
  next
    case False
    then show ?thesis using 1 by (subst nat_str.simps) (simp add: decimal_snoc)
  qed
qed

lemma nat_str_digits: "list_all is_digit (nat_str n)"
proof (induction n rule: nat_str.induct)
  case (1 n)
  have "is_digit (48 + k)" if "k < 10" for k using that by (simp add: is_digit_def)
  then show ?case using 1 by (subst nat_str.simps) simp
qed

lemma nat_str_ne [simp]: "nat_str n \<noteq> []"
  by (subst nat_str.simps) simp

lemma cut1_split: "c \<notin> set a \<Longrightarrow> cut [c] (a @ c # b) = Some (a, b)"
  by (induction a) (auto simp: prefix_def)

definition host_char :: "nat \<Rightarrow> bool" where
  "host_char c \<longleftrightarrow> is_digit c \<or> ascii_alpha c \<or> c = 45 \<or> c = 46"

lemma no_host_chars: "\<not> host_char 9" "\<not> host_char 10" "\<not> host_char 13" "\<not> host_char 37" "\<not> host_char 47" "\<not> host_char 58"
  "\<not> host_char 63" "\<not> host_char 35" "\<not> host_char 64" "\<not> host_char 91" "\<not> host_char 93"
  by (simp_all add: host_char_def is_digit_def ascii_alpha_def)

lemma host_char_plain:
  assumes "list_all host_char h"
  shows "9 \<notin> set h" "10 \<notin> set h" "13 \<notin> set h" "37 \<notin> set h" "47 \<notin> set h" "58 \<notin> set h" "63 \<notin> set h" "35 \<notin> set h"
    "64 \<notin> set h" "91 \<notin> set h" "93 \<notin> set h"
  using assms no_host_chars unfolding list_all_iff by metis+

lemma digit_host: "is_digit c \<Longrightarrow> host_char c"
  by (simp add: host_char_def)

text \<open>An address of a plain host with a port is read back, whatever path follows.\<close>

lemma llm_hostport_reads:
  assumes "list_all host_char h" and "h \<noteq> []" and "0 < n" and "n \<le> 65535" and "\<forall>c \<in> set path. 32 < c"
  shows "llm_hostport (lit ''http://'' @ h @ [58] @ nat_str n @ lit ''/'' @ path) = Some (lower h, n)"
proof -
  have dig: "list_all host_char (nat_str n)" using nat_str_digits [of n] by (auto simp: list_all_iff intro: digit_host)
  let ?u = "lit ''http://'' @ h @ [58] @ nat_str n @ lit ''/'' @ path" and ?net = "h @ [58] @ nat_str n"
  have above: "32 < c" if "host_char c" for c using that by (auto simp: host_char_def is_digit_def ascii_alpha_def)
  then have "\<forall>c \<in> set ?u. 32 < c" using assms(1,5) dig by (auto simp: lit_def list_all_iff)
  then have "\<forall>c \<in> set ?u. c \<notin> {9, 10, 13}" by (intro ballI) (drule (1) bspec, simp)
  moreover have "dropWhile (\<lambda>c. c \<le> 32) ?u = ?u" by (simp add: lit_def)
  ultimately have clean: "url_clean ?u = ?u" unfolding url_clean_def by (simp only: filter_id_conv)
  have scheme: "url_scheme ?u = (lit ''http'', lit ''//'' @ ?net @ lit ''/'' @ path)"
    by (simp add: url_scheme_def lit_def prefix_def ascii_alpha_def scheme_char_def lower_def lower_cp_def)
  have "\<forall>c \<in> set ?net. c \<notin> {47, 63, 35}" using host_char_plain [OF assms(1)] host_char_plain [OF dig] by (intro ballI) auto
  then have net: "url_netloc (lit ''//'' @ ?net @ lit ''/'' @ path) = ?net"
    by (simp add: url_netloc_def lit_def takeWhile_append2)
  have out: "64 \<notin> set ?net" "91 \<notin> set ?net" "93 \<notin> set ?net" "58 \<notin> set h" "37 \<notin> set h"
    using host_char_plain [OF assms(1)] host_char_plain [OF dig] by simp_all
  have "cut [64] ?net = None" "cut [91] ?net = None" using out by (simp_all add: cut1_None)
  then have "host_info ?net = (h, nat_str n)"
    using out by (simp add: host_info_def split_str_no_sep partition_at_def cut1_split)
  then show ?thesis
    using assms(2-4) out nat_str_digits [of n] unfolding llm_hostport_def clean scheme
    by (simp add: net [simplified] host_lower_def cut1_None [THEN iffD2] Let_def)
qed

subsection \<open>Seeding\<close>

lemma scalar_one: "scalar_one_or_none xs = Inr (Some x) \<longleftrightarrow> xs = [x]" "scalar_one_or_none xs = Inr None \<longleftrightarrow> xs = []"
  by (auto simp: scalar_one_or_none_def split: list.splits)

lemma scalar_cases:
  obtains er where "scalar_one_or_none xs = Inl er" | "scalar_one_or_none xs = Inr None" "xs = []"
    | x where "scalar_one_or_none xs = Inr (Some x)" "xs = [x]"
  unfolding scalar_one by (metis not_None_eq scalar_one sum.exhaust)

text \<open>After a run the three looked-for rows are there, each exactly once.\<close>

definition seeded :: "pystr \<Rightarrow> db \<Rightarrow> bool" where
  "seeded email d \<longleftrightarrow> (\<exists>dept u c. filter (\<lambda>x. dp_name x = lit ''General'') (t_departments d) = [dept]
     \<and> filter (\<lambda>x. u_email x = email) (t_users d) = [u] \<and> filter (\<lambda>x. co_name x = lit ''Sample'') (t_collections d) = [c])"

lemma seed_department_cases:
  assumes "seed_department i d = Inr (dept, d1)"
  shows "(filter (\<lambda>x. dp_name x = lit ''General'') (t_departments d) = [dept] \<and> d1 = d)
    \<or> (filter (\<lambda>x. dp_name x = lit ''General'') (t_departments d) = [] \<and> dept = \<lparr>dp_id = i, dp_name = lit ''General''\<rparr>
        \<and> d1 = d\<lparr>t_departments := t_departments d @ [dept]\<rparr>)"
  using assms unfolding seed_department_def
  by (cases rule: scalar_cases [of "filter (\<lambda>x. dp_name x = lit ''General'') (t_departments d)"]) (auto simp: add_row_def Let_def)

lemma seed_admin_cases:
  assumes "seed_admin hashpw email pw i dept d = Inr d1"
  shows "((\<exists>u. filter (\<lambda>x. u_email x = email) (t_users d) = [u]) \<and> d1 = d)
    \<or> (filter (\<lambda>x. u_email x = email) (t_users d) = [] \<and> (\<exists>h. hash_password hashpw pw = Some h
        \<and> d1 = d\<lparr>t_users := t_users d @ [\<lparr>u_id = i, u_email = email, u_hash = h, u_role = ADMIN, u_dept = Some (dp_id dept), u_active = True\<rparr>]\<rparr>))"
  using assms unfolding seed_admin_def
  by (cases rule: scalar_cases [of "filter (\<lambda>x. u_email x = email) (t_users d)"]) (simp_all add: add_row_def split: option.splits)

lemma seed_collection_cases:
  assumes "seed_collection i dept d = Inr d1"
  shows "((\<exists>c. filter (\<lambda>x. co_name x = lit ''Sample'') (t_collections d) = [c]) \<and> d1 = d)
    \<or> (filter (\<lambda>x. co_name x = lit ''Sample'') (t_collections d) = []
        \<and> d1 = d\<lparr>t_collections := t_collections d @ [\<lparr>co_id = i, co_name = lit ''Sample'', co_desc = Some (lit ''Seed collection''), co_dept = Some (dp_id dept)\<rparr>]\<rparr>)"
  using assms unfolding seed_collection_def
  by (cases rule: scalar_cases [of "filter (\<lambda>x. co_name x = lit ''Sample'') (t_collections d)"]) (simp_all add: add_row_def)

lemma seed_stages:
  assumes "seed hashpw email pw di ui ci d = Inr d3"
  obtains dept d1 d2 where "seed_department di d = Inr (dept, d1)" "seed_admin hashpw email pw ui dept d1 = Inr d2" "seed_collection ci dept d2 = Inr d3"
  using assms by (auto simp: seed_def split: sum.splits)

lemma department_seeded: "seed_department i d = Inr (dept, d1) \<Longrightarrow> filter (\<lambda>x. dp_name x = lit ''General'') (t_departments d1) = [dept]"
  by (drule seed_department_cases) auto

lemma admin_seeded: "seed_admin hashpw email pw i dept d = Inr d1
    \<Longrightarrow> (\<exists>u. filter (\<lambda>x. u_email x = email) (t_users d1) = [u]) \<and> t_departments d1 = t_departments d \<and> t_collections d1 = t_collections d"
  by (drule seed_admin_cases) auto

lemma collection_seeded: "seed_collection i dept d = Inr d1
    \<Longrightarrow> (\<exists>c. filter (\<lambda>x. co_name x = lit ''Sample'') (t_collections d1) = [c]) \<and> t_departments d1 = t_departments d \<and> t_users d1 = t_users d"
  by (drule seed_collection_cases) auto

lemma seed_seeds:
  assumes "seed hashpw email pw di ui ci d = Inr d'"
  shows "seeded email d'"
  using assms
proof (cases rule: seed_stages)
  case (1 dept d1 d2)
  show ?thesis using department_seeded [OF 1(1)] admin_seeded [OF 1(2)] collection_seeded [OF 1(3)] by (auto simp: seeded_def)
qed

lemma seeded_no_change: "seeded email d \<Longrightarrow> seed hashpw email pw di ui ci d = Inr d"
  by (auto simp: seeded_def seed_def seed_department_def seed_admin_def seed_collection_def scalar_one_or_none_def)

lemma seed_integrity:
  assumes "seed hashpw email pw di ui ci d = Inr d'" and "integrity d" and "fresh_id di d" and "fresh_id ui d" and "fresh_id ci d"
  shows "integrity d'"
  using assms(1)
proof (cases rule: seed_stages)
  case (1 dept d1 d2)
  have known: "known_department dd d \<Longrightarrow> known_department dd d1" for dd
    using seed_department_cases [OF 1(1)] by (auto simp: known_department_iff)
  have "dept \<in> set (filter (\<lambda>x. dp_name x = lit ''General'') (t_departments d1))" using department_seeded [OF 1(1)] by simp
  then have dept: "known_department (Some (dp_id dept)) d1" by (simp add: known_department_iff)
  have int1: "integrity d1"
    using seed_department_cases [OF 1(1)]
  proof (elim disjE conjE)
    assume "d1 = d"
    then show ?thesis using assms(2) by simp
  next
    assume new: "filter (\<lambda>x. dp_name x = lit ''General'') (t_departments d) = []" "dept = \<lparr>dp_id = di, dp_name = lit ''General''\<rparr>"
      "d1 = d\<lparr>t_departments := t_departments d @ [dept]\<rparr>"
    have "lit ''General'' \<notin> dp_name ` set (t_departments d)" using new(1) by (auto simp: filter_empty_conv)
    then show ?thesis using assms(2,3) known new by (simp add: new(3) integrity_def fresh_id_def known_department_iff)
  qed
  have int2: "integrity d2"
    using seed_admin_cases [OF 1(2)]
  proof (elim disjE conjE exE)
    assume "d2 = d1"
    then show ?thesis using int1 by simp
  next
    fix h
    assume new: "filter (\<lambda>x. u_email x = email) (t_users d1) = []"
      "d2 = d1\<lparr>t_users := t_users d1 @ [\<lparr>u_id = ui, u_email = email, u_hash = h, u_role = ADMIN, u_dept = Some (dp_id dept), u_active = True\<rparr>]\<rparr>"
    have "t_users d1 = t_users d" using seed_department_cases [OF 1(1)] by auto
    moreover have "email \<notin> u_email ` set (t_users d1)" using new(1) by (auto simp: filter_empty_conv)
    ultimately show ?thesis using int1 assms(4) dept by (simp add: new(2) integrity_def fresh_id_def known_department_iff)
  qed
  show ?thesis
    using seed_collection_cases [OF 1(3)]
  proof (elim disjE conjE)
    assume "d' = d2"
    then show ?thesis using int2 by simp
  next
    assume new: "filter (\<lambda>x. co_name x = lit ''Sample'') (t_collections d2) = []"
      "d' = d2\<lparr>t_collections := t_collections d2 @ [\<lparr>co_id = ci, co_name = lit ''Sample'', co_desc = Some (lit ''Seed collection''), co_dept = Some (dp_id dept)\<rparr>]\<rparr>"
    have "t_collections d2 = t_collections d" "t_departments d2 = t_departments d1"
      using seed_department_cases [OF 1(1)] seed_admin_cases [OF 1(2)] by auto
    then show ?thesis using int2 assms(5) dept by (simp add: new(2) integrity_def fresh_id_def known_department_iff)
  qed
qed



text \<open>
  The name of a collection is not unique: once an administrator has created a second collection called Sample,
  the seed raises instead of finding its work done.
\<close>

lemma seed_second_sample:
  assumes "seeded email d" and "create_collection b i a now d = (Inr row, d')" and "cc_name b = lit ''Sample''"
  shows "seed hashpw email pw di ui ci d' = Inl Crash"
proof -
  have d': "t_departments d' = t_departments d" "t_users d' = t_users d" "t_collections d' = t_collections d @ [row]" "co_name row = lit ''Sample''"
    using assms(2,3) by (auto simp: create_collection_def Let_def add_row_def split: if_splits)
  obtain dept u c where "filter (\<lambda>x. dp_name x = lit ''General'') (t_departments d) = [dept]" "filter (\<lambda>x. u_email x = email) (t_users d) = [u]"
      "filter (\<lambda>x. co_name x = lit ''Sample'') (t_collections d) = [c]"
    using assms(1) unfolding seeded_def by metis
  then show ?thesis by (simp add: d' seed_def seed_department_def seed_admin_def seed_collection_def scalar_one_or_none_def)
qed

end
