(* ===== verification/RateLimit.thy ===== *)
theory RateLimit
  imports Redis Config
begin

text \<open>
  Quotas and admission control, \<open>app/core/ratelimit.py\<close>. The dependency is given twice: as functions
  over the Redis state, the way one request runs alone, and as an interleaving of many requests in
  which every Redis command is one atomic step (\<open>pstep\<close>, \<open>step\<close>). The interface \<open>admission\<close> states what
  a counter slot must do for its cap to hold; it is interpreted for the per-user and the global slot.
\<close>

subsection \<open>One request\<close>

definition too_many :: "string \<Rightarrow> http_error" where
  "too_many msg = HTTPException 429 (lit msg)"

definition at_capacity :: http_error where
  "at_capacity = HTTPException 429
     (lit ''The assistant is at capacity right now '' @ [8212] @ lit '' please retry in a moment.'')"

definition rate_window :: "time \<Rightarrow> int" where
  "rate_window now = floor (now / 60)"

definition check_request_rate :: "cfg_breakers \<Rightarrow> uuid \<Rightarrow> time \<Rightarrow> redis \<Rightarrow> http_error option \<times> redis" where
  "check_request_rate cfg uid now r =
     (if \<not> r_up r then (Some Crash, r)
      else let key = RPM uid (rate_window now);
               (count, r1) = r_incr key now r;
               r2 = (if count = 1 then r_expire key 70 now r1 else r1)
           in (if count > per_user_requests_per_min cfg
               then Some (too_many ''Rate limit exceeded (requests per minute)'') else None, r2))"

definition INFLIGHT_TTL :: rat where
  "INFLIGHT_TTL = 300"

definition acquire_inflight :: "cfg_breakers \<Rightarrow> uuid \<Rightarrow> time \<Rightarrow> redis \<Rightarrow> http_error option \<times> redis" where
  "acquire_inflight cfg uid now r =
     (if \<not> r_up r then (Some Crash, r)
      else let (current, r1) = r_incr (Inflight uid) now r;
               r2 = r_expire (Inflight uid) INFLIGHT_TTL now r1
           in if current > per_user_max_inflight cfg
              then (Some (too_many ''Too many concurrent requests''), snd (r_decr (Inflight uid) now r2))
              else (None, r2))"

definition release_inflight :: "uuid \<Rightarrow> time \<Rightarrow> redis \<Rightarrow> http_error option \<times> redis" where
  "release_inflight uid now r =
     (if \<not> r_up r then (Some Crash, r)
      else let (v, r1) = r_decr (Inflight uid) now r
           in (None, if v < 0 then r_set0 (Inflight uid) r1 else r1))"

definition acquire_global_slot :: "cfg_breakers \<Rightarrow> time \<Rightarrow> redis \<Rightarrow> http_error option \<times> redis" where
  "acquire_global_slot cfg now r =
     (if \<not> r_up r then (Some Crash, r)
      else let (current, r1) = r_incr GlobalInflight now r;
               r2 = r_expire GlobalInflight INFLIGHT_TTL now r1
           in if current > global_max_inflight cfg
              then (Some at_capacity,
                    snd (r_decr GlobalInflight now r2))
              else (None, r2))"

definition release_global_slot :: "time \<Rightarrow> redis \<Rightarrow> http_error option \<times> redis" where
  "release_global_slot now r =
     (if \<not> r_up r then (Some Crash, r)
      else let (v, r1) = r_decr GlobalInflight now r
           in (None, if v < 0 then r_set0 GlobalInflight r1 else r1))"

text \<open>
  The dependency up to its \<open>yield\<close>, and its \<open>finally\<close>. Only an \<open>HTTPException\<close> of the global slot gives
  the user slot back; in the \<open>finally\<close>, a failing global release skips the user release.
\<close>

definition rate_limit_enter :: "cfg_breakers \<Rightarrow> uuid \<Rightarrow> time \<Rightarrow> redis \<Rightarrow> http_error option \<times> redis" where
  "rate_limit_enter cfg uid now r =
     (case check_request_rate cfg uid now r of
        (Some e, r1) \<Rightarrow> (Some e, r1)
      | (None, r1) \<Rightarrow>
        (case acquire_inflight cfg uid now r1 of
           (Some e, r2) \<Rightarrow> (Some e, r2)
         | (None, r2) \<Rightarrow>
           (case acquire_global_slot cfg now r2 of
              (Some (HTTPException c m), r3) \<Rightarrow>
                (case release_inflight uid now r3 of
                   (Some e, r4) \<Rightarrow> (Some e, r4)
                 | (None, r4) \<Rightarrow> (Some (HTTPException c m), r4))
            | (Some Crash, r3) \<Rightarrow> (Some Crash, r3)
            | (None, r3) \<Rightarrow> (None, r3))))"

definition rate_limit_exit :: "uuid \<Rightarrow> time \<Rightarrow> redis \<Rightarrow> http_error option \<times> redis" where
  "rate_limit_exit uid now r =
     (case release_global_slot now r of
        (Some e, r1) \<Rightarrow> (Some e, r1)
      | (None, r1) \<Rightarrow> release_inflight uid now r1)"

subsection \<open>Many requests: atomic Redis commands\<close>

datatype pc = Start | GotRate int | AcqUser | GotUser int | UndoUser | AcqGlobal | GotGlobal int
  | UndoGlobal | Running | RelGlobal | FixGlobal | RelUser | FixUser | Finished

text \<open>One command of one request at instant \<open>t\<close> (Redis reachable); a refused request ends in
  \<open>RelUser\<close> or \<open>Finished\<close> like a served one.\<close>

fun pstep :: "cfg_breakers \<Rightarrow> time \<Rightarrow> uuid \<Rightarrow> pc \<Rightarrow> redis \<Rightarrow> pc \<times> redis" where
  "pstep cfg t u Start r = (let (v, r') = r_incr (RPM u (rate_window t)) t r in (GotRate v, r'))"
| "pstep cfg t u (GotRate v) r =
     (if v > per_user_requests_per_min cfg then Finished else AcqUser,
      if v = 1 then r_expire (RPM u (rate_window t)) 70 t r else r)"
| "pstep cfg t u AcqUser r = (let (v, r') = r_incr (Inflight u) t r in (GotUser v, r'))"
| "pstep cfg t u (GotUser v) r =
     (if v > per_user_max_inflight cfg then UndoUser else AcqGlobal, r_expire (Inflight u) INFLIGHT_TTL t r)"
| "pstep cfg t u UndoUser r = (Finished, snd (r_decr (Inflight u) t r))"
| "pstep cfg t u AcqGlobal r = (let (v, r') = r_incr GlobalInflight t r in (GotGlobal v, r'))"
| "pstep cfg t u (GotGlobal v) r =
     (if v > global_max_inflight cfg then UndoGlobal else Running, r_expire GlobalInflight INFLIGHT_TTL t r)"
| "pstep cfg t u UndoGlobal r = (RelUser, snd (r_decr GlobalInflight t r))"
| "pstep cfg t u Running r = (RelGlobal, r)"
| "pstep cfg t u RelGlobal r = (let (v, r') = r_decr GlobalInflight t r in (if v < 0 then FixGlobal else RelUser, r'))"
| "pstep cfg t u FixGlobal r = (RelUser, r_set0 GlobalInflight r)"
| "pstep cfg t u RelUser r = (let (v, r') = r_decr (Inflight u) t r in (if v < 0 then FixUser else Finished, r'))"
| "pstep cfg t u FixUser r = (Finished, r_set0 (Inflight u) r)"
| "pstep cfg t u Finished r = (Finished, r)"

record sys =
  sy_redis :: redis
  sy_procs :: "(uuid \<times> pc) list"

text \<open>A request arrives, or some request executes its next command.\<close>

inductive step :: "cfg_breakers \<Rightarrow> time \<Rightarrow> sys \<Rightarrow> sys \<Rightarrow> bool" for cfg t where
  arrive: "step cfg t s (s\<lparr>sy_procs := sy_procs s @ [(u, Start)]\<rparr>)"
| run: "i < length (sy_procs s) \<Longrightarrow> sy_procs s ! i = (u, c) \<Longrightarrow> pstep cfg t u c (sy_redis s) = (c', r') \<Longrightarrow>
    step cfg t s \<lparr>sy_redis = r', sy_procs = (sy_procs s)[i := (u, c')]\<rparr>"

inductive_cases step_cases: "step cfg t s s'"

text \<open>No slot counter runs out between the previous command and instant \<open>t\<close>.\<close>

definition slot_key :: "counter_key \<Rightarrow> bool" where
  "slot_key k = (case k of RPM _ _ \<Rightarrow> False | _ \<Rightarrow> True)"

definition no_lapse :: "time \<Rightarrow> redis \<Rightarrow> bool" where
  "no_lapse t r \<longleftrightarrow> (\<forall>k. slot_key k \<longrightarrow> live t (r_cnt r k) = r_cnt r k)"

definition kept_step :: "cfg_breakers \<Rightarrow> sys \<Rightarrow> sys \<Rightarrow> bool" where
  "kept_step cfg s s' \<longleftrightarrow> (\<exists>t. no_lapse t (sy_redis s) \<and> step cfg t s s')"

definition initial_sys :: sys where
  "initial_sys = \<lparr>sy_redis = empty_redis, sy_procs = []\<rparr>"

subsection \<open>A counter slot\<close>

text \<open>
  \<open>val\<close> is the counter, \<open>held\<close> how many requests have incremented it and not yet given it back, \<open>adm\<close>
  how many of those were let through. Every command must change them together, and a request is let
  through only when the incremented value is within the cap.
\<close>

locale admission =
  fixes step :: "'s \<Rightarrow> 's \<Rightarrow> bool" and ok :: "'s \<Rightarrow> bool" and val held adm :: "'s \<Rightarrow> int" and cap :: int
  assumes adm_le_held: "adm s \<le> held s"
    and effect: "step s s' \<Longrightarrow> ok s \<Longrightarrow> val s = held s \<Longrightarrow> ok s' \<and>
      ((val s' = val s \<and> held s' = held s \<and> adm s' \<le> adm s) \<or>
       (val s' = val s + 1 \<and> held s' = held s + 1 \<and> adm s' = adm s + (if val s + 1 \<le> cap then 1 else 0)) \<or>
       (val s' = val s - 1 \<and> held s' = held s - 1 \<and> adm s' \<le> adm s))"
    and held_nonneg: "0 \<le> held s"
begin

lemma invariant:
  assumes "step\<^sup>*\<^sup>* s0 s" and "ok s0" and "val s0 = held s0" and "adm s0 \<le> max 0 cap"
  shows "ok s \<and> val s = held s \<and> adm s \<le> max 0 cap"
  using assms
proof (induction rule: rtranclp_induct)
  case (step s s')
  then have inv: "ok s" "val s = held s" "adm s \<le> max 0 cap" by auto
  from effect [OF step.hyps(2) inv(1,2)] inv adm_le_held [of s] show ?case
    by (cases "val s + 1 \<le> cap") auto
qed simp

lemma cap_holds: "step\<^sup>*\<^sup>* s0 s \<Longrightarrow> ok s0 \<Longrightarrow> val s0 = held s0 \<Longrightarrow> adm s0 \<le> 0 \<Longrightarrow> adm s \<le> max 0 cap"
  using invariant [of s0 s] by force

lemma never_negative: "step\<^sup>*\<^sup>* s0 s \<Longrightarrow> ok s0 \<Longrightarrow> val s0 = held s0 \<Longrightarrow> adm s0 \<le> 0 \<Longrightarrow> 0 \<le> val s"
  using invariant [of s0 s] held_nonneg [of s] by force

lemma idle_zero: "step\<^sup>*\<^sup>* s0 s \<Longrightarrow> ok s0 \<Longrightarrow> val s0 = held s0 \<Longrightarrow> adm s0 \<le> 0 \<Longrightarrow> held s = 0 \<Longrightarrow> val s = 0"
  using invariant [of s0 s] by force

end

subsection \<open>Counting requests\<close>

definition count_procs :: "(uuid \<times> pc \<Rightarrow> bool) \<Rightarrow> sys \<Rightarrow> int" where
  "count_procs P s = int (length (filter P (sy_procs s)))"

lemma length_filter_update:
  "i < length xs \<Longrightarrow> int (length (filter P (xs[i := y])))
     = int (length (filter P xs)) - (if P (xs ! i) then 1 else 0) + (if P y then 1 else 0)"
proof (induction xs arbitrary: i)
  case (Cons x xs)
  show ?case
  proof (cases i)
    case (Suc j)
    then show ?thesis using Cons.IH [of j] Cons.prems by (simp split: if_splits)
  qed simp
qed simp

lemma count_update:
  "i < length (sy_procs s) \<Longrightarrow> sy_procs s ! i = p \<Longrightarrow>
   count_procs P \<lparr>sy_redis = r, sy_procs = (sy_procs s)[i := q]\<rparr>
     = count_procs P s - (if P p then 1 else 0) + (if P q then 1 else 0)"
  by (simp add: count_procs_def length_filter_update)

lemma count_arrive: "count_procs P (s\<lparr>sy_procs := sy_procs s @ [q]\<rparr>) = count_procs P s + (if P q then 1 else 0)"
  by (simp add: count_procs_def)

lemma count_nonneg: "0 \<le> count_procs P s"
  by (simp add: count_procs_def)

lemma count_mono: "(\<And>x. P x \<Longrightarrow> Q x) \<Longrightarrow> count_procs P s \<le> count_procs Q s"
proof -
  assume "\<And>x. P x \<Longrightarrow> Q x"
  then have "length (filter P xs) \<le> length (filter Q xs)" for xs by (induction xs) auto
  then show ?thesis by (simp add: count_procs_def)
qed

lemma count_pos: "i < length (sy_procs s) \<Longrightarrow> P (sy_procs s ! i) \<Longrightarrow> 0 < count_procs P s"
  unfolding count_procs_def by (metis filter_empty_conv length_greater_0_conv nth_mem of_nat_0_less_iff)

text \<open>The requests between their increment of a slot and giving it back, and those let through.\<close>

fun user_held :: "pc \<Rightarrow> bool" where
  "user_held (GotUser _) = True" | "user_held UndoUser = True" | "user_held AcqGlobal = True"
| "user_held (GotGlobal _) = True" | "user_held UndoGlobal = True" | "user_held Running = True"
| "user_held RelGlobal = True" | "user_held FixGlobal = True" | "user_held RelUser = True" | "user_held _ = False"

fun user_admitted :: "cfg_breakers \<Rightarrow> pc \<Rightarrow> bool" where
  "user_admitted cfg (GotUser v) = (v \<le> per_user_max_inflight cfg)" | "user_admitted cfg UndoUser = False"
| "user_admitted cfg c = user_held c"

fun global_held :: "pc \<Rightarrow> bool" where
  "global_held (GotGlobal _) = True" | "global_held UndoGlobal = True" | "global_held Running = True"
| "global_held RelGlobal = True" | "global_held _ = False"

fun global_admitted :: "cfg_breakers \<Rightarrow> pc \<Rightarrow> bool" where
  "global_admitted cfg (GotGlobal v) = (v \<le> global_max_inflight cfg)" | "global_admitted cfg UndoGlobal = False"
| "global_admitted cfg c = global_held c"

definition raw :: "counter_key \<Rightarrow> redis \<Rightarrow> int" where
  "raw k r = (case r_cnt r k of None \<Rightarrow> 0 | Some (v, _) \<Rightarrow> v)"

lemma raw_add: "live t (r_cnt r k) = r_cnt r k \<Longrightarrow> raw k (snd (r_add d k t r)) = raw k r + d"
  by (auto simp: raw_def r_add_def Let_def cnt_value_def split: option.splits)

lemma fst_add_raw: "live t (r_cnt r k) = r_cnt r k \<Longrightarrow> fst (r_add d k t r) = raw k r + d"
  by (auto simp: raw_def cnt_value_def split: option.splits)

lemma raw_add_other: "k' \<noteq> k \<Longrightarrow> raw k' (snd (r_add d k t r)) = raw k' r"
  by (simp add: raw_def r_add_def Let_def)

lemma raw_expire: "raw k' (r_expire k ttl t r) = raw k' r"
  by (auto simp: raw_def r_expire_def dest: live_Some split: option.splits)

lemma raw_set0: "raw k' (r_set0 k r) = (if k' = k then 0 else raw k' r)"
  by (simp add: raw_def r_set0_def)

lemmas raw_simps = raw_add raw_add_other raw_expire raw_set0 fst_add_raw

lemma no_lapseD: "no_lapse t r \<Longrightarrow> live t (r_cnt r (Inflight u)) = r_cnt r (Inflight u)"
  "no_lapse t r \<Longrightarrow> live t (r_cnt r GlobalInflight) = r_cnt r GlobalInflight"
  by (simp_all add: no_lapse_def slot_key_def)

subsection \<open>The two slots\<close>

definition user_ok :: "uuid \<Rightarrow> sys \<Rightarrow> bool" where
  "user_ok uid s \<longleftrightarrow> (uid, FixUser) \<notin> set (sy_procs s)"

definition global_ok :: "sys \<Rightarrow> bool" where
  "global_ok s \<longleftrightarrow> FixGlobal \<notin> snd ` set (sy_procs s)"

definition user_held_count :: "uuid \<Rightarrow> sys \<Rightarrow> int" where
  "user_held_count uid = count_procs (\<lambda>p. fst p = uid \<and> user_held (snd p))"

definition user_adm_count :: "cfg_breakers \<Rightarrow> uuid \<Rightarrow> sys \<Rightarrow> int" where
  "user_adm_count cfg uid = count_procs (\<lambda>p. fst p = uid \<and> user_admitted cfg (snd p))"

definition global_held_count :: "sys \<Rightarrow> int" where
  "global_held_count = count_procs (\<lambda>p. global_held (snd p))"

definition global_adm_count :: "cfg_breakers \<Rightarrow> sys \<Rightarrow> int" where
  "global_adm_count cfg = count_procs (\<lambda>p. global_admitted cfg (snd p))"

lemma user_admitted_held: "user_admitted cfg c \<Longrightarrow> user_held c"
  by (cases c) auto

lemma global_admitted_held: "global_admitted cfg c \<Longrightarrow> global_held c"
  by (cases c) auto

lemmas slot_counts = user_held_count_def user_adm_count_def global_held_count_def global_adm_count_def

lemma user_ok_update:
  "user_ok uid s \<Longrightarrow> q \<noteq> (uid, FixUser) \<Longrightarrow> user_ok uid \<lparr>sy_redis = r, sy_procs = (sy_procs s)[i := q]\<rparr>"
  unfolding user_ok_def by (auto dest: set_update_subset_insert [THEN subsetD])

lemma global_ok_update:
  "global_ok s \<Longrightarrow> snd q \<noteq> FixGlobal \<Longrightarrow> global_ok \<lparr>sy_redis = r, sy_procs = (sy_procs s)[i := q]\<rparr>"
  unfolding global_ok_def by (auto dest!: set_update_subset_insert [THEN subsetD])

fun user_delta :: "pc \<Rightarrow> int" where
  "user_delta AcqUser = 1" | "user_delta UndoUser = - 1" | "user_delta RelUser = - 1" | "user_delta _ = 0"

fun global_delta :: "pc \<Rightarrow> int" where
  "global_delta AcqGlobal = 1" | "global_delta UndoGlobal = - 1" | "global_delta RelGlobal = - 1" | "global_delta _ = 0"

lemma pstep_user_raw:
  "no_lapse t r \<Longrightarrow> c \<noteq> FixUser \<or> u \<noteq> w \<Longrightarrow>
   raw (Inflight w) (snd (pstep cfg t u c r)) = raw (Inflight w) r + (if u = w then user_delta c else 0)"
  by (cases c) (auto simp: Let_def case_prod_unfold r_incr_def r_decr_def raw_simps no_lapseD)

lemma pstep_global_raw:
  "no_lapse t r \<Longrightarrow> c \<noteq> FixGlobal \<Longrightarrow>
   raw GlobalInflight (snd (pstep cfg t u c r)) = raw GlobalInflight r + global_delta c"
  by (cases c) (auto simp: Let_def case_prod_unfold r_incr_def r_decr_def raw_simps no_lapseD)

lemma pstep_user_held:
  "no_lapse t r \<Longrightarrow> c \<noteq> FixUser \<Longrightarrow> (c = RelUser \<Longrightarrow> 0 < raw (Inflight u) r) \<Longrightarrow>
   fst (pstep cfg t u c r) \<noteq> FixUser \<and>
   of_bool (user_held (fst (pstep cfg t u c r))) = (of_bool (user_held c) + user_delta c :: int)"
  by (cases c) (auto simp: Let_def case_prod_unfold r_incr_def r_decr_def raw_simps no_lapseD simp del: fst_add)

lemma pstep_global_held:
  "no_lapse t r \<Longrightarrow> c \<noteq> FixGlobal \<Longrightarrow> (c = RelGlobal \<Longrightarrow> 0 < raw GlobalInflight r) \<Longrightarrow>
   fst (pstep cfg t u c r) \<noteq> FixGlobal \<and>
   of_bool (global_held (fst (pstep cfg t u c r))) = (of_bool (global_held c) + global_delta c :: int)"
  by (cases c) (auto simp: Let_def case_prod_unfold r_incr_def r_decr_def raw_simps no_lapseD simp del: fst_add)

lemma pstep_user_adm:
  "no_lapse t r \<Longrightarrow> of_bool (user_admitted cfg (fst (pstep cfg t u c r))) \<le>
     (of_bool (user_admitted cfg c) + (if c = AcqUser \<and> raw (Inflight u) r + 1 \<le> per_user_max_inflight cfg then 1 else 0) :: int)"
  by (cases c) (auto simp: Let_def case_prod_unfold r_incr_def r_decr_def raw_simps no_lapseD simp del: fst_add)

lemma pstep_global_adm:
  "no_lapse t r \<Longrightarrow> of_bool (global_admitted cfg (fst (pstep cfg t u c r))) \<le>
     (of_bool (global_admitted cfg c) + (if c = AcqGlobal \<and> raw GlobalInflight r + 1 \<le> global_max_inflight cfg then 1 else 0) :: int)"
  by (cases c) (auto simp: Let_def case_prod_unfold r_incr_def r_decr_def raw_simps no_lapseD simp del: fst_add)

text \<open>What one step does to a slot, in terms of its delta.\<close>

lemma slot_effect:
  fixes v v' h h' a a' dl cap :: int and was now :: bool
  assumes "v' = v + dl" "h' = h + dl" "a' \<le> a + (if dl = 1 \<and> v + 1 \<le> cap then 1 else 0)" "dl \<in> {0, 1, - 1}"
    and "dl = 1 \<Longrightarrow> a' = a + (if v + 1 \<le> cap then 1 else 0)"
  shows "(v' = v \<and> h' = h \<and> a' \<le> a) \<or> (v' = v + 1 \<and> h' = h + 1 \<and> a' = a + (if v + 1 \<le> cap then 1 else 0))
    \<or> (v' = v - 1 \<and> h' = h - 1 \<and> a' \<le> a)"
  using assms by auto

lemma user_effect:
  assumes "kept_step cfg s s'" and ok: "user_ok uid s" and eq: "raw (Inflight uid) (sy_redis s) = user_held_count uid s"
  shows "user_ok uid s' \<and>
    ((raw (Inflight uid) (sy_redis s') = raw (Inflight uid) (sy_redis s) \<and> user_held_count uid s' = user_held_count uid s
        \<and> user_adm_count cfg uid s' \<le> user_adm_count cfg uid s) \<or>
     (raw (Inflight uid) (sy_redis s') = raw (Inflight uid) (sy_redis s) + 1 \<and> user_held_count uid s' = user_held_count uid s + 1
        \<and> user_adm_count cfg uid s' = user_adm_count cfg uid s
            + (if raw (Inflight uid) (sy_redis s) + 1 \<le> per_user_max_inflight cfg then 1 else 0)) \<or>
     (raw (Inflight uid) (sy_redis s') = raw (Inflight uid) (sy_redis s) - 1 \<and> user_held_count uid s' = user_held_count uid s - 1
        \<and> user_adm_count cfg uid s' \<le> user_adm_count cfg uid s))"
proof -
  obtain t where nl: "no_lapse t (sy_redis s)" and st: "step cfg t s s'"
    using assms(1) by (auto simp: kept_step_def)
  from st show ?thesis
  proof cases
    case (arrive u)
    with ok show ?thesis by (simp add: slot_counts count_arrive) (simp add: user_ok_def)
  next
    case (run i u c c' r')
    have c': "c' = fst (pstep cfg t u c (sy_redis s))" and r': "r' = snd (pstep cfg t u c (sy_redis s))"
      using run(4) by simp_all
    note upd = count_update [OF run(2,3)]
    have notfix: "c \<noteq> FixUser \<or> u \<noteq> uid" using run(2,3) ok nth_mem unfolding user_ok_def by fastforce
    have pos: "u = uid \<Longrightarrow> user_held c \<Longrightarrow> 0 < raw (Inflight uid) (sy_redis s)"
      unfolding eq user_held_count_def using run(2,3) by (intro count_pos) auto
    have held: "u = uid \<Longrightarrow> c' \<noteq> FixUser \<and> of_bool (user_held c') = (of_bool (user_held c) + user_delta c :: int)"
      unfolding c' using pstep_user_held [OF nl] notfix pos by force
    have "user_ok uid s'" unfolding run(1) using ok held by (intro user_ok_update) auto
    moreover have "user_delta c \<in> {0, 1, - 1}" "user_delta c = 1 \<longleftrightarrow> c = AcqUser" by (cases c; simp)+
    ultimately show ?thesis
      unfolding run(1) slot_counts upd
      using pstep_user_raw [OF nl notfix] held pstep_user_adm [OF nl, of cfg u c] r' c'
      by (intro conjI slot_effect [where dl = "if u = uid then user_delta c else 0"])
        (auto simp: of_bool_def Let_def r_incr_def case_prod_unfold fst_add_raw no_lapseD [OF nl] simp del: fst_add split: if_splits)
  qed
qed

lemma global_effect:
  assumes "kept_step cfg s s'" and ok: "global_ok s" and eq: "raw GlobalInflight (sy_redis s) = global_held_count s"
  shows "global_ok s' \<and>
    ((raw GlobalInflight (sy_redis s') = raw GlobalInflight (sy_redis s) \<and> global_held_count s' = global_held_count s
        \<and> global_adm_count cfg s' \<le> global_adm_count cfg s) \<or>
     (raw GlobalInflight (sy_redis s') = raw GlobalInflight (sy_redis s) + 1 \<and> global_held_count s' = global_held_count s + 1
        \<and> global_adm_count cfg s' = global_adm_count cfg s
            + (if raw GlobalInflight (sy_redis s) + 1 \<le> global_max_inflight cfg then 1 else 0)) \<or>
     (raw GlobalInflight (sy_redis s') = raw GlobalInflight (sy_redis s) - 1 \<and> global_held_count s' = global_held_count s - 1
        \<and> global_adm_count cfg s' \<le> global_adm_count cfg s))"
proof -
  obtain t where nl: "no_lapse t (sy_redis s)" and st: "step cfg t s s'"
    using assms(1) by (auto simp: kept_step_def)
  from st show ?thesis
  proof cases
    case (arrive u)
    with ok show ?thesis by (simp add: slot_counts count_arrive) (simp add: global_ok_def)
  next
    case (run i u c c' r')
    have c': "c' = fst (pstep cfg t u c (sy_redis s))" and r': "r' = snd (pstep cfg t u c (sy_redis s))"
      using run(4) by simp_all
    note upd = count_update [OF run(2,3)]
    have notfix: "c \<noteq> FixGlobal" using run(2,3) ok nth_mem unfolding global_ok_def by force
    have pos: "global_held c \<Longrightarrow> 0 < raw GlobalInflight (sy_redis s)"
      unfolding eq global_held_count_def using run(2,3) by (intro count_pos) auto
    have held: "c' \<noteq> FixGlobal \<and> of_bool (global_held c') = (of_bool (global_held c) + global_delta c :: int)"
      unfolding c' using pstep_global_held [OF nl notfix] pos by force
    have "global_ok s'" unfolding run(1) using ok held by (intro global_ok_update) auto
    moreover have "global_delta c \<in> {0, 1, - 1}" "global_delta c = 1 \<longleftrightarrow> c = AcqGlobal" by (cases c; simp)+
    ultimately show ?thesis
      unfolding run(1) slot_counts upd
      using pstep_global_raw [OF nl notfix] held pstep_global_adm [OF nl, of cfg u c] r' c'
      by (intro conjI slot_effect [where dl = "global_delta c"])
        (auto simp: of_bool_def Let_def r_incr_def case_prod_unfold fst_add_raw no_lapseD [OF nl] simp del: fst_add split: if_splits)
  qed
qed

interpretation user_slot: admission "kept_step cfg" "user_ok uid" "\<lambda>s. raw (Inflight uid) (sy_redis s)"
    "user_held_count uid" "user_adm_count cfg uid" "per_user_max_inflight cfg" for cfg uid
proof
  show "user_adm_count cfg uid s \<le> user_held_count uid s" for s
    unfolding slot_counts by (rule count_mono) (auto dest: user_admitted_held)
  show "0 \<le> user_held_count uid s" for s by (simp add: slot_counts count_nonneg)
qed (rule user_effect)

interpretation global_slot: admission "kept_step cfg" global_ok "\<lambda>s. raw GlobalInflight (sy_redis s)"
    global_held_count "global_adm_count cfg" "global_max_inflight cfg" for cfg
proof
  show "global_adm_count cfg s \<le> global_held_count s" for s
    unfolding slot_counts by (rule count_mono) (auto dest: global_admitted_held)
  show "0 \<le> global_held_count s" for s by (simp add: slot_counts count_nonneg)
qed (rule global_effect)

lemma initial_slots [simp]:
  "user_ok uid initial_sys" "global_ok initial_sys" "raw k (sy_redis initial_sys) = 0"
  "user_held_count uid initial_sys = 0" "global_held_count initial_sys = 0"
  "user_adm_count cfg uid initial_sys = 0" "global_adm_count cfg initial_sys = 0"
  by (simp_all add: initial_sys_def user_ok_def global_ok_def slot_counts count_procs_def raw_def empty_redis_def)

subsection \<open>Properties of all interleavings\<close>

definition running :: "sys \<Rightarrow> int" where
  "running = count_procs (\<lambda>p. snd p = Running)"

definition running_of :: "uuid \<Rightarrow> sys \<Rightarrow> int" where
  "running_of uid = count_procs (\<lambda>p. fst p = uid \<and> snd p = Running)"



subsection \<open>Properties of one request\<close>

fun solo :: "cfg_breakers \<Rightarrow> time \<Rightarrow> uuid \<Rightarrow> nat \<Rightarrow> pc \<times> redis \<Rightarrow> pc \<times> redis" where
  "solo cfg t u 0 x = x"
| "solo cfg t u (Suc n) (c, r) = solo cfg t u n (pstep cfg t u c r)"

lemma solo_Finished [simp]: "solo cfg t u n (Finished, r) = (Finished, r)"
  by (induction n) auto

lemma solo_numeral: "solo cfg t u (numeral k) (c, r) = solo cfg t u (pred_numeral k) (pstep cfg t u c r)"
  by (simp add: numeral_eq_Suc)



definition check_all :: "cfg_breakers \<Rightarrow> uuid \<Rightarrow> time list \<Rightarrow> redis \<Rightarrow> bool list \<times> redis" where
  "check_all cfg uid ts r = fold (\<lambda>t (acc, r). let (e, r') = check_request_rate cfg uid t r in (acc @ [e = None], r')) ts ([], r)"

lemma check_rate_live:
  assumes "r_up r" and "rate_window t = w" and "r_cnt r (RPM uid w) = Some (int n, Some e)" and "t < e" and "0 < n"
  shows "check_request_rate cfg uid t r =
    (if int (Suc n) \<le> per_user_requests_per_min cfg then None else Some (too_many ''Rate limit exceeded (requests per minute)''),
     r\<lparr>r_cnt := (r_cnt r)(RPM uid w \<mapsto> (int (Suc n), Some e))\<rparr>)"
  using assms by (auto simp: check_request_rate_def r_incr_def r_add_def cnt_value_def live_def Let_def add.commute)

lemma check_rate_first:
  assumes "r_up r" and "rate_window t = w" and "r_cnt r (RPM uid w) = None"
  shows "check_request_rate cfg uid t r =
    (if 1 \<le> per_user_requests_per_min cfg then None else Some (too_many ''Rate limit exceeded (requests per minute)''),
     r\<lparr>r_cnt := (r_cnt r)(RPM uid w \<mapsto> (1, Some (t + 70)))\<rparr>)"
  using assms by (auto simp: check_request_rate_def r_incr_def r_add_def r_expire_def cnt_value_def live_def Let_def)

lemma check_all_live:
  assumes "\<forall>t \<in> set ts. rate_window t = w \<and> t < e" and "r_up r"
    and "r_cnt r (RPM uid w) = Some (int n, Some e)" and "0 < n"
  shows "fst (fold (\<lambda>t (acc, r). let (e, r') = check_request_rate cfg uid t r in (acc @ [e = None], r')) ts (acc, r))
     = acc @ map (\<lambda>i. int i < per_user_requests_per_min cfg) [n..<n + length ts]"
  using assms
proof (induction ts arbitrary: acc r n)
  case (Cons t ts)
  let ?r = "r\<lparr>r_cnt := (r_cnt r)(RPM uid w \<mapsto> (int (Suc n), Some e))\<rparr>"
  have "check_request_rate cfg uid t r = (if int (Suc n) \<le> per_user_requests_per_min cfg then None
      else Some (too_many ''Rate limit exceeded (requests per minute)''), ?r)"
    using Cons.prems by (intro check_rate_live) auto
  moreover have "r_cnt ?r (RPM uid w) = Some (int (Suc n), Some e)" "r_up ?r" using Cons.prems by simp_all
  moreover have "[n..<n + length (t # ts)] = n # [Suc n..<Suc n + length ts]"
    by (simp add: upt_conv_Cons del: upt_Suc)
  ultimately show ?case using Cons.IH [of ?r "Suc n"] Cons.prems by (auto simp del: upt_Suc)
qed simp

lemma same_window_close: "rate_window a = rate_window b \<Longrightarrow> a < b + 60"
  unfolding rate_window_def by (simp add: floor_eq_iff) linarith

text \<open>
  The fixed window: of the requests one user makes within one clock minute, in whatever order
  and number, exactly the first \<open>per_user_requests_per_min\<close> pass; the counter's 70 second lifetime
  outlasts the window, so it is never reset inside it.
\<close>

theorem rpm_window_exact:
  assumes "\<forall>t \<in> set ts. rate_window t = w" and "r_up r" and "r_cnt r (RPM uid w) = None"
  shows "fst (check_all cfg uid ts r) = map (\<lambda>i. int i < per_user_requests_per_min cfg) [0..<length ts]"
proof (cases ts)
  case (Cons t ts')
  let ?r = "r\<lparr>r_cnt := (r_cnt r)(RPM uid w \<mapsto> (1, Some (t + 70)))\<rparr>"
  have "rate_window t = w" using assms(1) Cons by simp
  note first = check_rate_first [OF assms(2) this assms(3), of cfg]
  have "\<forall>x \<in> set ts'. rate_window x = w \<and> x < t + 70"
    using assms(1) Cons same_window_close [of _ t] by fastforce
  moreover have "[0..<length ts] = 0 # [1..<1 + length ts']"
    using Cons by (simp add: upt_conv_Cons del: upt_Suc)
  ultimately show ?thesis
    using check_all_live [of ts' w "t + 70" ?r uid 1 cfg "[1 \<le> per_user_requests_per_min cfg]"] assms(2) Cons first
    by (auto simp: check_all_def simp del: upt_Suc)
qed (simp add: check_all_def)

lemma rpm_window_exact_witness:
  "fst (check_all (default_breakers\<lparr>per_user_requests_per_min := 2\<rparr>) 7 [60, 61, 62] empty_redis) = [True, True, False]"
  by (subst rpm_window_exact [where w = 1]) (simp_all add: rate_window_def empty_redis_def floor_eq_iff upt_rec)

lemma no_lapse_add: "no_lapse t r \<Longrightarrow> no_lapse t (snd (r_add d k t r))"
  by (auto simp: no_lapse_def r_add_def Let_def live_def split: option.splits if_splits)

lemma no_lapse_expire: "no_lapse t r \<Longrightarrow> 0 < ttl \<Longrightarrow> no_lapse t (r_expire k ttl t r)"
  by (auto simp: no_lapse_def r_expire_def live_def split: option.splits if_splits)

lemma check_rate_slots:
  assumes "check_request_rate cfg uid t r = (e, r')" and "r_up r" and "no_lapse t r"
  shows "r_up r' \<and> no_lapse t r' \<and> (\<forall>k. slot_key k \<longrightarrow> r_cnt r' k = r_cnt r k) \<and> (\<forall>x. e = Some x \<longrightarrow> http_status x = 429)"
proof -
  have "slot_key k \<Longrightarrow> r_cnt r' k = r_cnt r k" for k
    using assms by (auto simp: check_request_rate_def Let_def r_incr_def r_add_def r_expire_def slot_key_def
        split: prod.splits option.splits if_splits counter_key.splits)
  moreover have "r_up r'" "\<forall>x. e = Some x \<longrightarrow> http_status x = 429"
    using assms by (auto simp: check_request_rate_def Let_def r_incr_def case_prod_unfold too_many_def split: if_splits)
  ultimately show ?thesis using assms(3) by (simp add: no_lapse_def)
qed

lemma bracket_slots:
  assumes "r_up r" and "no_lapse t r" and "0 \<le> raw (Inflight uid) r" and "0 \<le> raw GlobalInflight r" and "slot_key k"
  shows "case acquire_inflight cfg uid t r of
      (Some e, r') \<Rightarrow> http_status e = 429 \<and> raw k r' = raw k r
    | (None, r1) \<Rightarrow> (case acquire_global_slot cfg t r1 of
        (Some e, r2) \<Rightarrow> http_status e = 429 \<and> fst (release_inflight uid t r2) = None \<and> raw k (snd (release_inflight uid t r2)) = raw k r
      | (None, r2) \<Rightarrow> raw k r2 = raw k r + (if k = Inflight uid \<or> k = GlobalInflight then 1 else 0)
          \<and> raw (Inflight uid) r2 \<le> per_user_max_inflight cfg \<and> raw GlobalInflight r2 \<le> global_max_inflight cfg
          \<and> (\<forall>t'. no_lapse t' r2 \<longrightarrow> fst (rate_limit_exit uid t' r2) = None \<and> raw k (snd (rate_limit_exit uid t' r2)) = raw k r))"
  using assms
  by (auto simp: acquire_inflight_def acquire_global_slot_def release_inflight_def release_global_slot_def rate_limit_exit_def
      Let_def case_prod_unfold r_incr_def r_decr_def raw_simps no_lapseD no_lapse_add no_lapse_expire INFLIGHT_TTL_def
      too_many_def at_capacity_def slot_key_def simp del: fst_add split: counter_key.splits)

text \<open>
  Entering and leaving bracket the slots: a refused request answers 429 and leaves every slot
  counter as it was; an admitted one holds exactly one user slot and one global slot, within the
  caps, and its exit, whenever it comes before the safety expiry, gives both back.
\<close>

theorem quota_bracket:
  assumes "r_up r" and "no_lapse t r" and "0 \<le> raw (Inflight uid) r" and "0 \<le> raw GlobalInflight r" and "slot_key k"
  shows "case rate_limit_enter cfg uid t r of
      (Some e, r') \<Rightarrow> http_status e = 429 \<and> raw k r' = raw k r
    | (None, r') \<Rightarrow> raw k r' = raw k r + (if k = Inflight uid \<or> k = GlobalInflight then 1 else 0)
        \<and> raw (Inflight uid) r' \<le> per_user_max_inflight cfg \<and> raw GlobalInflight r' \<le> global_max_inflight cfg
        \<and> (\<forall>t'. no_lapse t' r' \<longrightarrow> fst (rate_limit_exit uid t' r') = None \<and> raw k (snd (rate_limit_exit uid t' r')) = raw k r)"
proof (cases "check_request_rate cfg uid t r")
  case (Pair e1 r1)
  note c = check_rate_slots [OF Pair assms(1,2)]
  show ?thesis
  proof (cases e1)
    case (Some e)
    with Pair c assms(5) show ?thesis by (simp add: rate_limit_enter_def raw_def)
  next
    case None
    have raw: "raw j r1 = raw j r" if "slot_key j" for j using c that by (simp add: raw_def)
    then have "0 \<le> raw (Inflight uid) r1" "0 \<le> raw GlobalInflight r1" "raw k r1 = raw k r"
      using assms(3-5) by (simp_all add: slot_key_def)
    note b = bracket_slots [of r1 t uid k cfg, unfolded this(3), OF _ _ this(1,2) assms(5)]
    obtain e2 r2 e3 r3 where "acquire_inflight cfg uid t r1 = (e2, r2)" "acquire_global_slot cfg t r2 = (e3, r3)"
      by fastforce
    moreover obtain e4 r4 where "release_inflight uid t r3 = (e4, r4)" by fastforce
    ultimately show ?thesis
      using Pair None b c by (auto simp: rate_limit_enter_def split: option.splits http_error.splits)
  qed
qed

lemma quota_bracket_witness:
  "raw GlobalInflight (snd (rate_limit_enter default_breakers 7 0 empty_redis)) = 1
   \<and> fst (rate_limit_enter (default_breakers\<lparr>global_max_inflight := 0\<rparr>) 7 0 empty_redis) = Some at_capacity"
proof
  have p: "r_up empty_redis" "no_lapse 0 empty_redis" "0 \<le> raw (Inflight 7) empty_redis" "0 \<le> raw GlobalInflight empty_redis"
    "slot_key GlobalInflight"
    by (simp_all add: empty_redis_def no_lapse_def live_def raw_def slot_key_def)
  have "fst (rate_limit_enter default_breakers 7 0 empty_redis) = None"
    by code_simp
  with quota_bracket [OF p, of default_breakers] show "raw GlobalInflight (snd (rate_limit_enter default_breakers 7 0 empty_redis)) = 1"
    by (auto simp: raw_def empty_redis_def split: prod.splits option.splits)
  show "fst (rate_limit_enter (default_breakers\<lparr>global_max_inflight := 0\<rparr>) 7 0 empty_redis) = Some at_capacity"
    by code_simp
qed

subsection \<open>What the safety expiry costs\<close>

text \<open>A schedule: at each instant the request at an index executes its next command.\<close>

fun exec :: "cfg_breakers \<Rightarrow> (time \<times> nat) list \<Rightarrow> sys \<Rightarrow> sys" where
  "exec cfg [] s = s"
| "exec cfg ((t, i) # sched) s =
     (if i < length (sy_procs s)
      then let (u, c) = sy_procs s ! i; (c', r') = pstep cfg t u c (sy_redis s)
           in exec cfg sched \<lparr>sy_redis = r', sy_procs = (sy_procs s)[i := (u, c')]\<rparr>
      else s)"

definition any_step :: "cfg_breakers \<Rightarrow> sys \<Rightarrow> sys \<Rightarrow> bool" where
  "any_step cfg s s' \<longleftrightarrow> (\<exists>t. step cfg t s s')"

lemma exec_steps: "(any_step cfg)\<^sup>*\<^sup>* s (exec cfg sched s)"
proof (induction cfg sched s rule: exec.induct)
  case (2 cfg t i sched s)
  show ?case
  proof (cases "i < length (sy_procs s)")
    case True
    obtain u c c' r' where uc: "sy_procs s ! i = (u, c)" "pstep cfg t u c (sy_redis s) = (c', r')" by fastforce
    then have "any_step cfg s \<lparr>sy_redis = r', sy_procs = (sy_procs s)[i := (u, c')]\<rparr>"
      using True by (auto simp: any_step_def intro: step.run)
    then show ?thesis using 2 True uc by (fastforce intro: converse_rtranclp_into_rtranclp)
  qed simp
qed simp

text \<open>
  The cap is not kept across the safety expiry: a request that runs longer than the 300
  seconds without a further acquisition loses its slot, and the next one is admitted beside it, so
  with a global cap of 1 two requests run.
\<close>

theorem expiry_breaks_cap:
  "\<exists>cfg s. global_max_inflight cfg = 1 \<and> (any_step cfg)\<^sup>*\<^sup>* initial_sys s \<and> running s = 2"
proof -
  let ?cfg = "default_breakers\<lparr>global_max_inflight := 1\<rparr>"
  let ?start = "initial_sys\<lparr>sy_procs := [(7, Start), (8, Start)]\<rparr>"
  let ?fin = "exec ?cfg (replicate 6 (0, 0) @ replicate 6 (301, 1)) ?start"
  have "step ?cfg 0 initial_sys (initial_sys\<lparr>sy_procs := [(7, Start)]\<rparr>)"
    using step.arrive [of ?cfg 0 initial_sys 7] by (simp add: initial_sys_def)
  moreover have "step ?cfg 0 (initial_sys\<lparr>sy_procs := [(7, Start)]\<rparr>) ?start"
    using step.arrive [of ?cfg 0 "initial_sys\<lparr>sy_procs := [(7, Start)]\<rparr>" 8] by (simp add: initial_sys_def)
  ultimately have "any_step ?cfg initial_sys (initial_sys\<lparr>sy_procs := [(7, Start)]\<rparr>)"
    "any_step ?cfg (initial_sys\<lparr>sy_procs := [(7, Start)]\<rparr>) ?start"
    unfolding any_step_def by blast+
  then have "(any_step ?cfg)\<^sup>*\<^sup>* initial_sys ?start"
    by (rule converse_rtranclp_into_rtranclp [OF _ r_into_rtranclp])
  then have "(any_step ?cfg)\<^sup>*\<^sup>* initial_sys ?fin" using exec_steps by (rule rtranclp_trans)
  moreover have "running ?fin = 2" by code_simp
  moreover have "global_max_inflight ?cfg = 1" by simp
  ultimately show ?thesis by blast
qed

lemma pstep_no_lapse: "no_lapse t r \<Longrightarrow> no_lapse t (snd (pstep cfg t u c r))"
proof -
  assume n: "no_lapse t r"
  have "no_lapse t (r_set0 k r')" if "no_lapse t r'" for k r'
    using that by (auto simp: no_lapse_def r_set0_def live_def)
  then show ?thesis using n
    by (cases c) (auto simp: Let_def case_prod_unfold r_incr_def r_decr_def no_lapse_add no_lapse_expire INFLIGHT_TTL_def)
qed

lemma exec_kept:
  "no_lapse t (sy_redis s) \<Longrightarrow> \<forall>x \<in> set sched. fst x = t \<Longrightarrow> (kept_step cfg)\<^sup>*\<^sup>* s (exec cfg sched s)"
proof (induction cfg sched s rule: exec.induct)
  case (2 cfg t' i sched s)
  show ?case
  proof (cases "i < length (sy_procs s)")
    case True
    obtain u c c' r' where uc: "sy_procs s ! i = (u, c)" "pstep cfg t u c (sy_redis s) = (c', r')" by fastforce
    then have "kept_step cfg s \<lparr>sy_redis = r', sy_procs = (sy_procs s)[i := (u, c')]\<rparr>"
      using True 2(2) by (auto simp: kept_step_def intro: step.run)
    moreover have "no_lapse t r'" using pstep_no_lapse [OF 2(2)] uc(2) by (metis snd_conv)
    ultimately show ?thesis using 2 True uc by (fastforce intro: converse_rtranclp_into_rtranclp)
  qed simp
qed simp

definition demo_sys :: sys where
  "demo_sys = exec default_breakers (replicate 6 (0, 0)) (initial_sys\<lparr>sy_procs := [(7, Start)]\<rparr>)"

lemma demo_sys_reach: "(kept_step default_breakers)\<^sup>*\<^sup>* initial_sys demo_sys"
proof -
  have nl: "no_lapse 0 empty_redis" by (simp add: no_lapse_def live_def empty_redis_def)
  then have "kept_step default_breakers initial_sys (initial_sys\<lparr>sy_procs := [(7, Start)]\<rparr>)"
    using step.arrive [of default_breakers 0 initial_sys 7] by (auto simp: kept_step_def initial_sys_def)
  moreover have "(kept_step default_breakers)\<^sup>*\<^sup>* (initial_sys\<lparr>sy_procs := [(7, Start)]\<rparr>) demo_sys"
    unfolding demo_sys_def by (rule exec_kept [where t = 0]) (simp_all add: initial_sys_def nl)
  ultimately show ?thesis by (rule converse_rtranclp_into_rtranclp)
qed

lemma demo_sys_running: "running demo_sys = 1"
  unfolding demo_sys_def by code_simp



end
