(* ===== verification/Spec2Isabelle.thy ===== *)
theory Spec2Isabelle
  imports Redteam Upload EvalRun Recaption Sampling Measure Services Tracing Wiring System RateLimit
begin

text \<open>
  A verification development for the backend of an access-controlled question-answering service over
  company documents (\<open>src/app\<close>, \<open>src/worker\<close>, \<open>src/eval\<close>, \<open>src/scripts\<close>).

  The program. Users upload documents into collections. The API process stores the file, writes the rows
  and puts a job into a Redis queue; the worker process parses, chunks, embeds and indexes the document
  into Postgres, two Qdrant collections (text chunks, page images) and an object store. A question runs
  through an agent graph: input guard, semantic cache, intent router, retrieval of text, pages or document
  metadata, context assembly, generation with citations, groundedness check and output guard. What a user
  may read is decided by one function, the set of accessible collections, and passed to every search as a
  filter. Requests are authenticated by tokens with a Redis denylist and session epochs, and admitted by
  quotas and slot counters in Redis. Administrators manage departments, users, collections and grants;
  every change of a grant evicts the cached answers it could affect. Evaluations run behind the queue, and
  operator scripts check access control, quality and load from outside.

  Conventions. A Python \<open>str\<close> is a list of code points, \<open>bytes\<close> a list of numbers, a time or a score a
  rational, a row a record, a table the list of its rows in the order of insertion, an enumeration a
  datatype. A handler returns an \<open>http\<close> value (the left side is the \<open>HTTPException\<close> or the exception that
  becomes a 500) together with the state it leaves, so each raise and early return is a branch. The clock
  and fresh identifiers are arguments. Code that is not in the repository is a parameter: hashing, JWT,
  bcrypt, NFKC, the language, embedding and reranking models, the vector queries of Qdrant, the parsing
  libraries, OCR and page rendering. What is relied on of such a parameter is a named predicate
  (\<open>query_laws\<close>, \<open>hybrid_laws\<close>, \<open>text_lawful\<close>, \<open>visual_lawful\<close>, \<open>bcrypt_laws\<close>, \<open>jose_laws\<close>) that states its documented
  behaviour, and each property that uses one has a witness with a concrete function in its place.

  Theories, from the bottom up.
  \<^item> \<open>Prelude\<close>: strings and the standard-library operations on them, HTTP results, slices, rounding, rule
    collections. \<open>Uuid\<close>: identifiers and their printed form. \<open>Codec\<close>: UTF-8 and UTF-16. \<open>Lines\<close>:
    \<open>str.splitlines\<close>. \<open>Config\<close>: the settings of \<open>app/config.py\<close> the modelled code reads. \<open>Model\<close>:
    \<open>app/models\<close> as records, with the tables' interface \<open>keyed_table\<close>.
  \<^item> \<open>Redis\<close> (\<open>app/core/redis.py\<close>), \<open>Rbac\<close> (\<open>rbac.py\<close>), \<open>Security\<close> (\<open>security.py\<close>, \<open>deps.py\<close>,
    \<open>app/api/auth.py\<close>), \<open>RateLimit\<close> (\<open>ratelimit.py\<close>): who a request comes from, what it may read and
    whether it is admitted.
  \<^item> \<open>Normalize\<close>, \<open>Parsers\<close>, \<open>Chunker\<close>, \<open>Tokens\<close>, \<open>Pipeline\<close>, \<open>Files\<close>, \<open>Jobs\<close>, \<open>DocIndex\<close>, \<open>Indexer\<close>
    (\<open>app/ingestion\<close>, \<open>app/queue.py\<close>), \<open>Documents\<close> (\<open>app/services/documents.py\<close> and the document,
    media and collection endpoints), \<open>Worker\<close> (\<open>worker/main.py\<close>): the life of a document.
  \<^item> \<open>Retrieval\<close> (\<open>app/retrieval\<close>), \<open>SemCache\<close> (\<open>semantic_cache.py\<close>, \<open>app/services/cache.py\<close>),
    \<open>Assemble\<close> (\<open>fusion.py\<close>, \<open>app/context\<close>, \<open>citations.py\<close>), \<open>Llm\<close> (\<open>app/llm\<close>, prompts, intent
    router), \<open>Graph\<close> (\<open>app/graph\<close>), \<open>Chat\<close> (\<open>app/api/chat.py\<close>), \<open>Search\<close> (\<open>app/api/search.py\<close> and the
    local embedder): the life of a question.
  \<^item> \<open>Admin\<close> (\<open>app/api/admin.py\<close>), \<open>Gaps\<close> (\<open>knowledge_gaps.py\<close>), \<open>Metrics\<close> (\<open>app/observability/metrics.py\<close>),
    \<open>Eval\<close> (\<open>app/eval\<close>), \<open>Wiring\<close> (\<open>app/main.py\<close>, \<open>health.py\<close>, \<open>seed.py\<close>): administration and operation.
  \<^item> \<open>System\<close>: the composition. \<open>sys_step\<close> has one rule per state-changing entry point (upload, re-index,
    delete, a worker tick, any admin call, a plain or streamed turn, forgetting and rating a conversation,
    login, refresh, logout), each the component's own function on its view of the shared stores;
    \<open>reachable\<close> is what any sequence of them gives from an empty index.
  \<^item> \<open>Tracing\<close> (\<open>app/observability/tracing.py\<close>): the spans of a request, from the graph's final state.
    \<open>Services\<close> with \<open>Base64\<close> (\<open>src/services\<close>): the endpoints of the captioning, page-embedding, embedding and
    reranking services, and the backend's HTTP clients (\<open>figures.py\<close>, \<open>pages.py\<close>, \<open>remote.py\<close>) against them.
  \<^item> \<open>EvalRun\<close> (\<open>eval/run_eval.py\<close>), \<open>Measure\<close> (\<open>eval/router_report.py\<close>, \<open>scripts/loadtest.py\<close>), \<open>Sampling\<close>
    (\<open>eval/ingest_sample.py\<close>), \<open>Recaption\<close>, \<open>Redteam\<close> and \<open>Upload\<close> (\<open>scripts/recaption_visual_chunks.py\<close>,
    \<open>redteam_acl.py\<close>, \<open>upload_folder.py\<close>): programs run from outside, the last three against the modelled
    system.

  Interfaces. \<open>keyed_table\<close> (rows under unique keys) is interpreted for the tables; \<open>token_gate\<close> for access
  and refresh tokens; \<open>read_gate\<close> (an endpoint that answers 404 outside the reader's collections) for the
  document, media and collection endpoints; \<open>owner_gate\<close> for the conversation endpoints; \<open>purgeable\<close>
  (removal of exactly what belongs to a key) for the cache, the two vector collections and the object
  store; \<open>acl_search\<close> for the three retrieval paths; \<open>admission\<close> for the two slot counters;
  \<open>ranked_machine\<close> (a run ends when each step lowers a rank) for the agent graph and the worker.

  What the lemmas show.
  \<^item> Confidentiality: \<open>may_read\<close> is the rule list of \<open>rbac.py\<close>, and the queries compute exactly it. No
    retrieval path, endpoint, cached answer, citation or reopened conversation shows anything outside it, at
    the moment of reading; in \<open>System\<close> this holds along every run, and what is hidden has no influence on
    what is shown. A revocation or deletion takes effect at once. The red team therefore finds nothing, and a trace
    holds no text of a conversation or document.
  \<^item> Integrity: uploads, indexing, re-indexing, deletion and administration keep the tables consistent;
    indexing touches one document only and leaves exactly one index of it; deleted documents stay deleted;
    chunking loses nothing and respects its bounds; the one-pass chunk builder equals the run-by-run one;
    uploading a folder twice is uploading it once.
  \<^item> Admission: in every interleaving of requests, command by command, the slot counters equal their
    holders and the caps hold while no counter expires; alone, the command-level model is the dependency.
  \<^item> Sessions: refresh tokens are used once, an epoch bump ends earlier sessions, conversations are private.
  \<^item> Termination and liveness: graph, pipeline, chunkers and evaluation requests return; the worker empties
    its queues, and each upload is indexed or dead-lettered.
  \<^item> Error paths: an unreachable Redis, failing model servers, refused commits and partial writes are
    branches of the definitions; where the code answers them in a way its comments do not promise, a lemma
    states what happens: an upload whose enqueueing fails is never indexed, and a repeated bulk upload calls it
    ingested; a refused commit leaves searchable points; a job whose requeueing fails is lost; a refused session
    stays refused; a failed stream repeats the previous answer; the caption backfill drops pictures; one probe of
    the red team cannot fail; the trace of a cached turn lists an old retrieval.
  \<^item> Measurements: the golden run, the router report and the ingestion sample account for every case or
    page they report, and the verdict of the load test does not depend on how its users' tasks interleave.

  Bounds. The graph is driven with LangGraph's own step limit, \<open>3 * max_graph_iterations + 10\<close> nodes, and is
  proved to need at most \<open>max_graph_iterations + 5\<close>. The worker is drained within as many ticks as its
  backlog has attempts left, which every tick lowers. Two loops of the chunker end only where an overlap is
  below its window; they are partial functions, proved to return under \<open>sane_chunking\<close>, which the default
  settings satisfy, and with them the pipeline, whose \<open>None\<close> is a run that does not return. The evaluation
  client sends at most six requests and waits at most 42 seconds for one; the waiting loops of the scripts
  are partial functions too, proved to return when their clocks advance.

  Not modelled. The checkpointer opens a library's store; the state it keeps is part of the graph's model.
  The neural models behind \<open>src/services\<close> are parameters, and so is their loading. The migrations under
  \<open>src/alembic\<close> run once; the constraints the code relies on are part of \<open>Model\<close>. The builders of sample
  files (\<open>make_samples.py\<close>, \<open>make_corpus.py\<close>) draw documents with libraries. Loading the settings from the
  environment, CORS and middleware set-up, the database engine, argument parsing, printing and logging are
  left out. Python's object identity and memory are not modelled; arithmetic on floats is exact, on rationals
  (the local embedder's and the stub vectors' on reals, the token estimate's on integers), so rounding of
  binary floats at a threshold is out of scope.
\<close>

end
